(* ===== verification/Ldp_Prelude.thy ===== *)
theory Ldp_Prelude
  imports Main "HOL-Library.Word" "HOL-Library.List_Lexorder" "HOL-Library.Product_Lexorder"
begin

text \<open>
  The shared vocabulary of the development: machine integers at their C width, the byte order
  of the wire and of the host, the faults a C program can end in, the result type every
  fallible operation returns, and the generic lemmas on lists and words the component theories
  use.

  The host is little-endian (the daemon is built and run on x86 Linux, see \<open>run.sh\<close>), so
  \<open>ntohs\<close> and \<open>ntohl\<close> reverse the bytes of a word.  An IPv4 address is kept the way C keeps it,
  as the raw \<open>s_addr\<close> word in network byte order.
\<close>

unbundle bit_operations_syntax

named_theorems flag_simps "bit tests on flag words"
named_theorems wire_simps "lengths and round trips of the byte codecs"

subsection \<open>Machine integers\<close>

type_synonym u8 = "8 word"
type_synonym u16 = "16 word"
type_synonym u32 = "32 word"
type_synonym byte = "8 word"

text \<open>A C condition \<open>x & flag\<close>.\<close>

definition has_flag :: "'a::len word \<Rightarrow> 'a word \<Rightarrow> bool" where
  "has_flag x f \<longleftrightarrow> x AND f \<noteq> 0"

subsection \<open>Faults and results\<close>

text \<open>
  How a handler can fail: \<open>fatal\<close>/\<open>fatalx\<close> end the process (\<open>Fatal\<close>); the other constructors are
  undefined behaviour of C that the code can reach, kept apart so that a theorem can say which
  one it is, and \<open>Hang\<close>, a loop that never ends.
\<close>

datatype fault =
    Fatal string
  | Null_deref
  | Use_after_free
  | Uninit_read
  | Buffer_overflow
  | Out_of_bounds_read
  | Shift_out_of_range
  | Hang

type_synonym 'a result = "fault + 'a"

text \<open>Sequencing: the first fault ends the computation.\<close>

definition and_then :: "'a result \<Rightarrow> ('a \<Rightarrow> 'b result) \<Rightarrow> 'b result" where
  "and_then m f = (case m of Inl e \<Rightarrow> Inl e | Inr x \<Rightarrow> f x)"

lemma and_then_simps [simp]:
  "and_then (Inl e) f = Inl e"
  "and_then (Inr x) f = f x"
  by (simp_all add: and_then_def)

lemma and_then_Inr_iff:
  "and_then m f = Inr y \<longleftrightarrow> (\<exists>x. m = Inr x \<and> f x = Inr y)"
  by (cases m) simp_all

lemma and_then_InrE [elim!]:
  assumes "and_then m f = Inr y"
  obtains x where "m = Inr x" and "f x = Inr y"
  using assms by (auto simp: and_then_Inr_iff)

lemma and_then_assoc:
  "and_then (and_then m f) g = and_then m (\<lambda>x. and_then (f x) g)"
  by (cases m) simp_all

text \<open>A loop over a list whose body changes a state and may fail.\<close>

fun foreach :: "('x \<Rightarrow> 's \<Rightarrow> 's result) \<Rightarrow> 'x list \<Rightarrow> 's \<Rightarrow> 's result" where
  "foreach f [] s = Inr s"
| "foreach f (x # xs) s = and_then (f x s) (foreach f xs)"

lemma foreach_append:
  "foreach f (xs @ ys) s = and_then (foreach f xs s) (foreach f ys)"
proof (induction xs arbitrary: s)
  case (Cons x xs)
  have "foreach f (xs @ ys) = (\<lambda>t. and_then (foreach f xs t) (foreach f ys))"
    using Cons.IH by (simp add: fun_eq_iff)
  then show ?case by (simp add: and_then_assoc)
qed simp

text \<open>
  What a computation ends in.  \<open>ensures m P\<close>: it ends without a fault and in a value of \<open>P\<close>.
  \<open>keeps m P\<close>: if it ends without a fault, the value is of \<open>P\<close>.
\<close>

definition ensures :: "'a result \<Rightarrow> ('a \<Rightarrow> bool) \<Rightarrow> bool" where
  "ensures m P \<longleftrightarrow> (case m of Inl e \<Rightarrow> False | Inr x \<Rightarrow> P x)"

definition keeps :: "'a result \<Rightarrow> ('a \<Rightarrow> bool) \<Rightarrow> bool" where
  "keeps m P \<longleftrightarrow> (case m of Inl e \<Rightarrow> True | Inr x \<Rightarrow> P x)"

lemma ensures_simps [simp]: "ensures (Inl e) P = False" "ensures (Inr x) P = P x"
  by (simp_all add: ensures_def)

lemma keeps_simps [simp]: "keeps (Inl e) P = True" "keeps (Inr x) P = P x"
  by (simp_all add: keeps_def)

lemma ensures_iff: "ensures m P \<longleftrightarrow> (\<exists>x. m = Inr x \<and> P x)"
  by (cases m) simp_all

lemma keeps_iff: "keeps m P \<longleftrightarrow> (\<forall>x. m = Inr x \<longrightarrow> P x)"
  by (cases m) simp_all

lemma ensures_keeps: "ensures m P \<Longrightarrow> keeps m P"
  by (cases m) simp_all

lemma ensures_and_then:
  "ensures m Q \<Longrightarrow> (\<And>x. Q x \<Longrightarrow> ensures (f x) P) \<Longrightarrow> ensures (and_then m f) P"
  by (cases m) simp_all

lemma keeps_and_then:
  "keeps m Q \<Longrightarrow> (\<And>x. Q x \<Longrightarrow> keeps (f x) P) \<Longrightarrow> keeps (and_then m f) P"
  by (cases m) simp_all

lemma ensures_conj: "ensures m P \<Longrightarrow> (\<And>x. m = Inr x \<Longrightarrow> Q x) \<Longrightarrow> ensures m (\<lambda>x. P x \<and> Q x)"
  by (cases m) simp_all

lemma ensures_mono: "ensures m Q \<Longrightarrow> (\<And>x. Q x \<Longrightarrow> P x) \<Longrightarrow> ensures m P"
  by (cases m) simp_all

lemma keeps_mono: "keeps m Q \<Longrightarrow> (\<And>x. Q x \<Longrightarrow> P x) \<Longrightarrow> keeps m P"
  by (cases m) simp_all

text \<open>Loops whose body has the invariant as pre- and postcondition.\<close>

lemma ensures_foreach:
  assumes "P s" and "\<And>x s. x \<in> set xs \<Longrightarrow> P s \<Longrightarrow> ensures (f x s) P"
  shows "ensures (foreach f xs s) P"
  using assms
proof (induction xs arbitrary: s)
  case (Cons x xs)
  have "ensures (f x s) P" using Cons.prems by simp
  then show ?case using Cons.IH Cons.prems(2) by (auto intro: ensures_and_then)
qed simp

lemma keeps_foreach:
  assumes "P s" and "\<And>x s. x \<in> set xs \<Longrightarrow> P s \<Longrightarrow> keeps (f x s) P"
  shows "keeps (foreach f xs s) P"
  using assms
proof (induction xs arbitrary: s)
  case (Cons x xs)
  have "keeps (f x s) P" using Cons.prems by simp
  then show ?case using Cons.IH Cons.prems(2) by (auto intro: keeps_and_then)
qed simp

subsection \<open>Byte order\<close>

text \<open>The bytes of a word in memory (least significant first) and on the wire.\<close>

definition le32 :: "u32 \<Rightarrow> byte list" where
  "le32 w = [ucast w, ucast (drop_bit 8 w), ucast (drop_bit 16 w), ucast (drop_bit 24 w)]"

definition be16 :: "u16 \<Rightarrow> byte list" where
  "be16 w = [ucast (drop_bit 8 w), ucast w]"

definition be32 :: "u32 \<Rightarrow> byte list" where
  "be32 w = rev (le32 w)"

definition of_be16 :: "byte \<Rightarrow> byte \<Rightarrow> u16" where
  "of_be16 a b = push_bit 8 (ucast a) OR ucast b"

definition of_le32 :: "byte \<Rightarrow> byte \<Rightarrow> byte \<Rightarrow> byte \<Rightarrow> u32" where
  "of_le32 a b c d =
     push_bit 24 (ucast d) OR push_bit 16 (ucast c) OR push_bit 8 (ucast b) OR ucast a"

definition of_be32 :: "byte \<Rightarrow> byte \<Rightarrow> byte \<Rightarrow> byte \<Rightarrow> u32" where
  "of_be32 a b c d = of_le32 d c b a"

definition ntohs :: "u16 \<Rightarrow> u16" where
  "ntohs w = of_be16 (ucast w) (ucast (drop_bit 8 w))"

definition ntohl :: "u32 \<Rightarrow> u32" where
  "ntohl w = of_be32 (ucast w) (ucast (drop_bit 8 w)) (ucast (drop_bit 16 w)) (ucast (drop_bit 24 w))"

abbreviation htons :: "u16 \<Rightarrow> u16" where "htons \<equiv> ntohs"
abbreviation htonl :: "u32 \<Rightarrow> u32" where "htonl \<equiv> ntohl"

lemma byte_bit_high [simp]: "8 \<le> n \<Longrightarrow> \<not> bit (b::byte) n"
  using bit_imp_le_length by fastforce

lemma of_be16_bytes [wire_simps, simp]:
  "of_be16 (ucast (drop_bit 8 w)) (ucast w) = w"
  unfolding of_be16_def by (rule bit_word_eqI) (auto simp: bit_simps)

lemma of_le32_bytes [wire_simps, simp]:
  "of_le32 (ucast w) (ucast (drop_bit 8 w)) (ucast (drop_bit 16 w)) (ucast (drop_bit 24 w)) = w"
proof (rule bit_word_eqI)
  fix n assume "n < LENGTH(32)"
  consider "n < 8" | "8 \<le> n" "n < 16" | "16 \<le> n" "n < 24" | "24 \<le> n" by linarith
  then show "bit (of_le32 (ucast w) (ucast (drop_bit 8 w)) (ucast (drop_bit 16 w))
      (ucast (drop_bit 24 w))) n \<longleftrightarrow> bit w n"
    using \<open>n < LENGTH(32)\<close> by cases (auto simp: of_le32_def bit_simps)
qed

lemma bytes_of_be16 [wire_simps, simp]:
  "ucast (drop_bit 8 (of_be16 a b)) = a"
  "ucast (of_be16 a b) = b"
  unfolding of_be16_def by (rule bit_word_eqI, auto simp: bit_simps)+

lemma bytes_of_le32 [wire_simps, simp]:
  "ucast (of_le32 a b c d) = a"
  "ucast (drop_bit 8 (of_le32 a b c d)) = b"
  "ucast (drop_bit 16 (of_le32 a b c d)) = c"
  "ucast (drop_bit 24 (of_le32 a b c d)) = d"
  unfolding of_le32_def by (rule bit_word_eqI, auto simp: bit_simps)+

lemma ntohs_ntohs [simp]: "ntohs (ntohs w) = w"
  by (simp add: ntohs_def)

lemma ntohl_ntohl [simp]: "ntohl (ntohl w) = w"
  by (simp add: ntohl_def of_be32_def)

lemma ntohl_eq_iff [simp]: "ntohl a = ntohl b \<longleftrightarrow> a = b"
  by (metis ntohl_ntohl)

lemma ntohs_eq_iff [simp]: "ntohs a = ntohs b \<longleftrightarrow> a = b"
  by (metis ntohs_ntohs)

lemma length_codecs [wire_simps, simp]:
  "length (be16 x) = 2" "length (be32 y) = 4" "length (le32 y) = 4"
  by (simp_all add: be16_def be32_def le32_def)

lemma le32_inject: "le32 a = le32 b \<longleftrightarrow> a = b"
  unfolding le32_def by (metis list.inject of_le32_bytes)

subsection \<open>Lists\<close>

text \<open>\<open>LIST_FOREACH\<close> with a test that returns the first match is \<open>find\<close>.\<close>

lemma find_Some_in: "find P xs = Some x \<Longrightarrow> x \<in> set xs \<and> P x"
  by (induction xs) (auto split: if_splits)

lemma find_None_none: "find P xs = None \<longleftrightarrow> (\<forall>x \<in> set xs. \<not> P x)"
  by (induction xs) auto

lemma find_append:
  "find P (xs @ ys) = (case find P xs of None \<Rightarrow> find P ys | Some x \<Rightarrow> Some x)"
  by (induction xs) auto

end
