(* ===== verification/Rb_Tree.thy ===== *)
theory Rb_Tree
  imports Ldp_Prelude
begin

text \<open>
  The red-black trees of \<open>lib/openbsd-tree.h\<close> (the \<open>RB_\<close> macros), on which every table of the
  daemon is built.  The C code links nodes by child and parent pointers; the model keeps the
  tree as a datatype and a node together with its chain of parents as a zipper: the subtree
  below it and the list of frames above it, innermost first.  Walking a parent pointer is taking
  the head of that list, a rotation rewrites a frame.

  Part one models insertion, search, removal and iteration the way the macros do them.  Part two
  shows that the colour repair never changes the order of the elements, and part three, inside
  the locale \<open>rb_ordered\<close>, that a tree whose comparison function agrees with a linear order of
  keys is a finite map: what a search finds after an insertion and after a removal.
  Part four shows the red-black colour discipline is kept, so the C code never follows a null
  sibling or grandparent pointer.
\<close>

subsection \<open>Trees and zippers\<close>

datatype color = RB_BLACK | RB_RED

datatype (set_rbt: 'a) rbt = RNil | RNode color "'a rbt" 'a "'a rbt"
  for map: map_rbt

datatype 'a frame =
    Lft color 'a "'a rbt"   \<comment> \<open>the hole is the left child; element and right child of the parent\<close>
  | Rgt color "'a rbt" 'a   \<comment> \<open>the hole is the right child\<close>

fun frame_color :: "'a frame \<Rightarrow> color" where
  "frame_color (Lft c x r) = c"
| "frame_color (Rgt c l x) = c"

fun plug :: "'a frame \<Rightarrow> 'a rbt \<Rightarrow> 'a rbt" where
  "plug (Lft c x r) t = RNode c t x r"
| "plug (Rgt c l x) t = RNode c l x t"

fun zip_up :: "'a frame list \<Rightarrow> 'a rbt \<Rightarrow> 'a rbt" where
  "zip_up [] t = t"
| "zip_up (f # p) t = zip_up p (plug f t)"

fun is_red :: "'a rbt \<Rightarrow> bool" where
  "is_red (RNode RB_RED l x r) = True"
| "is_red _ = False"

fun set_black :: "'a rbt \<Rightarrow> 'a rbt" where
  "set_black RNil = RNil"
| "set_black (RNode c l x r) = RNode RB_BLACK l x r"

fun inorder :: "'a rbt \<Rightarrow> 'a list" where
  "inorder RNil = []"
| "inorder (RNode c l x r) = inorder l @ x # inorder r"

subsection \<open>Search and insertion\<close>

text \<open>
  The C code compares whole elements, but every comparison function reads only the structure the
  element embeds (a FEC, a peer id), and a search is given a dummy element with that structure
  filled in.  \<open>key\<close> is the embedded structure, \<open>cmp\<close> compares two of them.
\<close>

fun rb_find :: "('k \<Rightarrow> 'k \<Rightarrow> int) \<Rightarrow> ('a \<Rightarrow> 'k) \<Rightarrow> 'k \<Rightarrow> 'a rbt \<Rightarrow> 'a option" where
  "rb_find cmp key k RNil = None"
| "rb_find cmp key k (RNode c l y r) =
     (if cmp k (key y) < 0 then rb_find cmp key k l
      else if cmp k (key y) > 0 then rb_find cmp key k r
      else Some y)"

text \<open>The descent of \<open>RB_INSERT\<close>: an equal element, or the path to the free place.\<close>

fun rb_descend ::
  "('k \<Rightarrow> 'k \<Rightarrow> int) \<Rightarrow> ('a \<Rightarrow> 'k) \<Rightarrow> 'k \<Rightarrow> 'a frame list \<Rightarrow> 'a rbt \<Rightarrow> 'a + 'a frame list" where
  "rb_descend cmp key k p RNil = Inr p"
| "rb_descend cmp key k p (RNode c l y r) =
     (if cmp k (key y) < 0 then rb_descend cmp key k (Lft c y r # p) l
      else if cmp k (key y) > 0 then rb_descend cmp key k (Rgt c l y # p) r
      else Inl y)"

text \<open>
  \<open>RB_INSERT_COLOR\<close>: \<open>e\<close> is the red node \<open>elm\<close>, the first frame its parent, the second its
  grandparent.  A red parent without a grandparent would be a null dereference in C; the root is
  always black (part four), so the case does not arise and the model leaves the tree alone there.
\<close>

fun rb_insert_color :: "'a rbt \<Rightarrow> 'a frame list \<Rightarrow> 'a rbt" where
  "rb_insert_color e [] = set_black e"
| "rb_insert_color e [f] = set_black (plug f e)"
| "rb_insert_color e (f # g # p) =
     (if frame_color f = RB_BLACK then set_black (zip_up (f # g # p) e)
      else case g of
        Lft gc gx u \<Rightarrow>
          if is_red u then
            (case f of
               Lft fc px pr \<Rightarrow>
                 rb_insert_color (RNode RB_RED (RNode RB_BLACK e px pr) gx (set_black u)) p
             | Rgt fc pl px \<Rightarrow>
                 rb_insert_color (RNode RB_RED (RNode RB_BLACK pl px e) gx (set_black u)) p)
          else
            (case f of
               Lft fc px pr \<Rightarrow>
                 set_black (zip_up p (RNode RB_BLACK e px (RNode RB_RED pr gx u)))
             | Rgt fc pl px \<Rightarrow>
                 (case e of
                    RNil \<Rightarrow> set_black (zip_up (f # g # p) e)
                  | RNode ec el ex er \<Rightarrow>
                      set_black (zip_up p
                        (RNode RB_BLACK (RNode RB_RED pl px el) ex (RNode RB_RED er gx u)))))
      | Rgt gc u gx \<Rightarrow>
          if is_red u then
            (case f of
               Lft fc px pr \<Rightarrow>
                 rb_insert_color (RNode RB_RED (set_black u) gx (RNode RB_BLACK e px pr)) p
             | Rgt fc pl px \<Rightarrow>
                 rb_insert_color (RNode RB_RED (set_black u) gx (RNode RB_BLACK pl px e)) p)
          else
            (case f of
               Rgt fc pl px \<Rightarrow>
                 set_black (zip_up p (RNode RB_BLACK (RNode RB_RED u gx pl) px e))
             | Lft fc px pr \<Rightarrow>
                 (case e of
                    RNil \<Rightarrow> set_black (zip_up (f # g # p) e)
                  | RNode ec el ex er \<Rightarrow>
                      set_black (zip_up p
                        (RNode RB_BLACK (RNode RB_RED u gx el) ex (RNode RB_RED er px pr))))))"

text \<open>\<open>RB_INSERT\<close> returns the equal element already there, or NULL after linking the new one.\<close>

definition rb_insert ::
  "('k \<Rightarrow> 'k \<Rightarrow> int) \<Rightarrow> ('a \<Rightarrow> 'k) \<Rightarrow> 'a \<Rightarrow> 'a rbt \<Rightarrow> 'a option \<times> 'a rbt" where
  "rb_insert cmp key x t =
     (case rb_descend cmp key (key x) [] t of
        Inl y \<Rightarrow> (Some y, t)
      | Inr p \<Rightarrow> (None, rb_insert_color (RNode RB_RED RNil x RNil) p))"

subsection \<open>Removal\<close>

datatype 'a rb_step = Rb_continue "'a rbt" "'a frame list" | Rb_break "'a rbt"

text \<open>
  One iteration of the loop of \<open>RB_REMOVE_COLOR\<close> after the sibling \<open>tmp\<close> has been made black:
  \<open>e\<close> is \<open>elm\<close>, a left (right) child of the parent \<open>px\<close> of colour \<open>pc\<close>.  A null sibling would be a
  null dereference in C; part four shows it does not arise.
\<close>

fun rb_remove_step_left ::
  "'a rbt \<Rightarrow> color \<Rightarrow> 'a \<Rightarrow> 'a rbt \<Rightarrow> 'a frame list \<Rightarrow> 'a rb_step" where
  "rb_remove_step_left e pc px RNil p = Rb_break (zip_up (Lft pc px RNil # p) e)"
| "rb_remove_step_left e pc px (RNode wc wl wx wr) p =
     (if \<not> is_red wl \<and> \<not> is_red wr
      then Rb_continue (RNode pc e px (RNode RB_RED wl wx wr)) p
      else
        (case (if \<not> is_red wr
               then (case wl of
                       RNil \<Rightarrow> RNode RB_RED wl wx wr
                     | RNode lc ll lx lr \<Rightarrow> RNode RB_BLACK ll lx (RNode RB_RED lr wx wr))
               else RNode wc wl wx wr) of
           RNil \<Rightarrow> Rb_break (zip_up (Lft pc px RNil # p) e)
         | RNode tc a tx b \<Rightarrow>
             Rb_break (set_black (zip_up p
               (RNode pc (RNode RB_BLACK e px a) tx (set_black b))))))"

fun rb_remove_step_right ::
  "'a rbt \<Rightarrow> color \<Rightarrow> 'a \<Rightarrow> 'a rbt \<Rightarrow> 'a frame list \<Rightarrow> 'a rb_step" where
  "rb_remove_step_right e pc px RNil p = Rb_break (zip_up (Rgt pc RNil px # p) e)"
| "rb_remove_step_right e pc px (RNode wc wl wx wr) p =
     (if \<not> is_red wl \<and> \<not> is_red wr
      then Rb_continue (RNode pc (RNode RB_RED wl wx wr) px e) p
      else
        (case (if \<not> is_red wl
               then (case wr of
                       RNil \<Rightarrow> RNode RB_RED wl wx wr
                     | RNode rc rl rx rr \<Rightarrow> RNode RB_BLACK (RNode RB_RED wl wx rl) rx rr)
               else RNode wc wl wx wr) of
           RNil \<Rightarrow> Rb_break (zip_up (Rgt pc RNil px # p) e)
         | RNode tc a tx b \<Rightarrow>
             Rb_break (set_black (zip_up p
               (RNode pc (set_black a) tx (RNode RB_BLACK b px e))))))"

text \<open>The loop body: a red sibling is first rotated up.\<close>

fun rb_remove_body :: "'a rbt \<Rightarrow> 'a frame list \<Rightarrow> 'a rb_step" where
  "rb_remove_body e [] = Rb_break e"
| "rb_remove_body e (Lft pc px w # p) =
     (case w of
        RNode RB_RED wl wx wr \<Rightarrow> rb_remove_step_left e RB_RED px wl (Lft RB_BLACK wx wr # p)
      | _ \<Rightarrow> rb_remove_step_left e pc px w p)"
| "rb_remove_body e (Rgt pc w px # p) =
     (case w of
        RNode RB_RED wl wx wr \<Rightarrow> rb_remove_step_right e RB_RED px wr (Rgt RB_BLACK wl wx # p)
      | _ \<Rightarrow> rb_remove_step_right e pc px w p)"

text \<open>
  Each iteration climbs one level, or (after the rotation of a red sibling) stops at a red
  \<open>elm\<close>: the measure of the loop.
\<close>

definition rb_remove_measure :: "'a rbt \<times> 'a frame list \<Rightarrow> nat" where
  "rb_remove_measure ep = 2 * length (snd ep) + (if is_red (fst ep) then 0 else 1)"

lemma rb_remove_step_left_continue:
  "rb_remove_step_left e pc px w p = Rb_continue e' p' \<Longrightarrow>
   p' = p \<and> (\<exists>wl wx wr. e' = RNode pc e px (RNode RB_RED wl wx wr))"
  by (cases w) (auto split: if_splits rbt.splits)

lemma rb_remove_step_right_continue:
  "rb_remove_step_right e pc px w p = Rb_continue e' p' \<Longrightarrow>
   p' = p \<and> (\<exists>wl wx wr. e' = RNode pc (RNode RB_RED wl wx wr) px e)"
  by (cases w) (auto split: if_splits rbt.splits)

declare rb_remove_step_left.simps [simp del] rb_remove_step_right.simps [simp del]

lemma rb_remove_body_decreases:
  assumes "rb_remove_body e p = Rb_continue e' p'" and "\<not> is_red e"
  shows "rb_remove_measure (e', p') < rb_remove_measure (e, p)"
  using assms
  by (cases "(e, p)" rule: rb_remove_body.cases)
     (auto simp: rb_remove_measure_def split: rbt.splits color.splits
           dest!: rb_remove_step_left_continue rb_remove_step_right_continue)

function rb_remove_color :: "'a rbt \<Rightarrow> 'a frame list \<Rightarrow> 'a rbt" where
  "rb_remove_color e p =
     (if is_red e \<or> p = [] then zip_up p (set_black e)
      else case rb_remove_body e p of
             Rb_continue e' p' \<Rightarrow> rb_remove_color e' p'
           | Rb_break t \<Rightarrow> t)"
  by pat_completeness auto
termination
  by (relation "measure rb_remove_measure") (auto dest: rb_remove_body_decreases)

declare rb_remove_color.simps [simp del]

text \<open>
  \<open>RB_REMOVE\<close> is given a pointer to a node of the tree; \<open>P\<close> holds of that node only.
  \<open>rb_locate\<close> gives its zipper, \<open>rb_min_path\<close> the leftmost node of the right subtree.
\<close>

fun rb_locate ::
  "('a \<Rightarrow> bool) \<Rightarrow> 'a frame list \<Rightarrow> 'a rbt
   \<Rightarrow> ('a frame list \<times> color \<times> 'a rbt \<times> 'a \<times> 'a rbt) option" where
  "rb_locate P p RNil = None"
| "rb_locate P p (RNode c l x r) =
     (case rb_locate P (Lft c x r # p) l of
        Some z \<Rightarrow> Some z
      | None \<Rightarrow> if P x then Some (p, c, l, x, r) else rb_locate P (Rgt c l x # p) r)"

fun rb_min_path ::
  "'a frame list \<Rightarrow> color \<Rightarrow> 'a rbt \<Rightarrow> 'a \<Rightarrow> 'a rbt \<Rightarrow> 'a frame list \<times> color \<times> 'a \<times> 'a rbt" where
  "rb_min_path p c RNil x r = (p, c, x, r)"
| "rb_min_path p c (RNode lc ll lx lr) x r = rb_min_path (Lft c x r # p) lc ll lx lr"

definition rb_unlink :: "'a frame list \<Rightarrow> color \<Rightarrow> 'a rbt \<Rightarrow> 'a rbt" where
  "rb_unlink p c child = (if c = RB_BLACK then rb_remove_color child p else zip_up p child)"

definition rb_remove_at ::
  "'a frame list \<Rightarrow> color \<Rightarrow> 'a rbt \<Rightarrow> 'a rbt \<Rightarrow> 'a rbt" where
  "rb_remove_at p c l r =
     (if l = RNil then rb_unlink p c r
      else case r of
             RNil \<Rightarrow> rb_unlink p c l
           | RNode rc rl rx rr \<Rightarrow>
               (case rb_min_path [] rc rl rx rr of
                  (q, sc, y, child) \<Rightarrow> rb_unlink (q @ Rgt c l y # p) sc child))"

definition rb_remove :: "('a \<Rightarrow> bool) \<Rightarrow> 'a rbt \<Rightarrow> 'a rbt" where
  "rb_remove P t =
     (case rb_locate P [] t of
        None \<Rightarrow> t
      | Some (p, c, l, x, r) \<Rightarrow> rb_remove_at p c l r)"

subsection \<open>Iteration\<close>

text \<open>
  \<open>RB_MIN\<close> and \<open>RB_NEXT\<close> on zippers: a position is the path above a node and the node's parts.
  \<open>RB_FOREACH\<close> visits \<open>RB_MIN\<close> and then \<open>RB_NEXT\<close> until it is NULL.
\<close>

type_synonym 'a rb_pos = "'a frame list \<times> color \<times> 'a rbt \<times> 'a \<times> 'a rbt"

fun rb_leftmost :: "'a frame list \<Rightarrow> 'a rbt \<Rightarrow> 'a rb_pos option" where
  "rb_leftmost p RNil = None"
| "rb_leftmost p (RNode c l x r) =
     (case rb_leftmost (Lft c x r # p) l of
        None \<Rightarrow> Some (p, c, l, x, r)
      | Some z \<Rightarrow> Some z)"

text \<open>Climbing while the node is a right child; a left child's parent is the successor.\<close>

fun rb_climb :: "'a rbt \<Rightarrow> 'a frame list \<Rightarrow> 'a rb_pos option" where
  "rb_climb t [] = None"
| "rb_climb t (Lft c x r # p) = Some (p, c, t, x, r)"
| "rb_climb t (Rgt c l x # p) = rb_climb (RNode c l x t) p"

fun rb_next :: "'a rb_pos \<Rightarrow> 'a rb_pos option" where
  "rb_next (p, c, l, x, r) =
     (case rb_leftmost (Rgt c l x # p) r of
        Some z \<Rightarrow> Some z
      | None \<Rightarrow> rb_climb (RNode c l x r) p)"

text \<open>The elements still to be visited from a position on, the measure of the iteration.\<close>

fun ctx_left :: "'a frame list \<Rightarrow> 'a list" where
  "ctx_left [] = []"
| "ctx_left (Lft c x r # p) = ctx_left p"
| "ctx_left (Rgt c l x # p) = ctx_left p @ inorder l @ [x]"

fun ctx_right :: "'a frame list \<Rightarrow> 'a list" where
  "ctx_right [] = []"
| "ctx_right (Lft c x r # p) = x # inorder r @ ctx_right p"
| "ctx_right (Rgt c l x # p) = ctx_right p"

fun rb_rest :: "'a rb_pos \<Rightarrow> 'a list" where
  "rb_rest (p, c, l, x, r) = x # inorder r @ ctx_right p"

lemma rb_leftmost_rest:
  "rb_leftmost p t = Some z \<Longrightarrow> rb_rest z = inorder t @ ctx_right p"
  by (induction p t rule: rb_leftmost.induct) (auto split: option.splits elim: rb_leftmost.elims)

lemma rb_leftmost_None [simp]: "rb_leftmost p t = None \<longleftrightarrow> t = RNil"
  by (cases t) (auto split: option.splits)

lemma rb_climb_rest:
  "(case rb_climb t p of None \<Rightarrow> ctx_right p = [] | Some z \<Rightarrow> rb_rest z = ctx_right p)"
  by (induction t p rule: rb_climb.induct) (auto split: option.splits)

lemma rb_next_rest:
  "(case rb_next z of None \<Rightarrow> tl (rb_rest z) = [] | Some z' \<Rightarrow> rb_rest z' = tl (rb_rest z))"
proof (cases z)
  case (fields p c l x r)
  show ?thesis
  proof (cases "rb_leftmost (Rgt c l x # p) r")
    case None
    then show ?thesis using rb_climb_rest[where t = "RNode c l x r" and p = p]
      by (auto simp: fields split: option.splits)
  next
    case (Some z')
    then show ?thesis using rb_leftmost_rest[OF Some] by (simp add: fields)
  qed
qed

fun rb_pos_elem :: "'a rb_pos \<Rightarrow> 'a" where
  "rb_pos_elem (p, c, l, x, r) = x"

function rb_foreach_from :: "'a rb_pos option \<Rightarrow> 'a list" where
  "rb_foreach_from None = []"
| "rb_foreach_from (Some z) = rb_pos_elem z # rb_foreach_from (rb_next z)"
  by pat_completeness auto
termination
proof (relation "measure (\<lambda>q. case q of None \<Rightarrow> 0 | Some z \<Rightarrow> length (rb_rest z))", simp)
  fix z :: "'a rb_pos"
  show "(rb_next z, Some z) \<in> measure (\<lambda>q. case q of None \<Rightarrow> 0 | Some z \<Rightarrow> length (rb_rest z))"
  proof (cases "rb_next z")
    case None
    then show ?thesis by (cases z) simp
  next
    case (Some z')
    then have "rb_rest z' = tl (rb_rest z)" using rb_next_rest[of z] by simp
    then show ?thesis using Some by (cases z) simp
  qed
qed

definition rb_foreach :: "'a rbt \<Rightarrow> 'a list" where
  "rb_foreach t = rb_foreach_from (rb_leftmost [] t)"

lemma rb_foreach_from_rest: "rb_foreach_from (Some z) = rb_rest z"
proof (induction "length (rb_rest z)" arbitrary: z rule: less_induct)
  case less
  obtain p c l x r where z: "z = (p, c, l, x, r)" by (cases z) auto
  show ?case
  proof (cases "rb_next z")
    case None
    then show ?thesis using rb_next_rest[of z] z by simp
  next
    case (Some z')
    then have "rb_rest z' = tl (rb_rest z)" using rb_next_rest[of z] by simp
    moreover have "length (rb_rest z') < length (rb_rest z)"
      using calculation z by simp
    ultimately show ?thesis using less[of z'] Some z by simp
  qed
qed

text \<open>The loop visits exactly the elements, in order.\<close>

lemma rb_foreach_inorder: "rb_foreach t = inorder t"
proof (cases "rb_leftmost [] t")
  case None
  then show ?thesis by (simp add: rb_foreach_def)
next
  case (Some z)
  then show ?thesis
    using rb_leftmost_rest[OF Some] rb_foreach_from_rest[of z] by (simp add: rb_foreach_def)
qed

subsection \<open>The colour repair keeps the order\<close>

lemma inorder_plug:
  "inorder (plug f t) = ctx_left [f] @ inorder t @ ctx_right [f]"
  by (cases f) simp_all

lemma inorder_zip_up [simp]: "inorder (zip_up p t) = ctx_left p @ inorder t @ ctx_right p"
proof (induction p arbitrary: t)
  case (Cons f p)
  then show ?case by (cases f) simp_all
qed simp

lemma inorder_set_black [simp]: "inorder (set_black t) = inorder t"
  by (cases t) simp_all

lemma set_black_Nil_iff [simp]: "set_black t = RNil \<longleftrightarrow> t = RNil"
  by (cases t) simp_all

lemma inorder_insert_color:
  "inorder (rb_insert_color e p) = ctx_left p @ inorder e @ ctx_right p"
proof (induction e p rule: rb_insert_color.induct)
  case (2 e f)
  then show ?case by (cases f) simp_all
next
  case (3 e f g p)
  then show ?case
    by (cases f; cases g; cases e) (auto split: if_splits)
qed simp

lemma inorder_step_left:
  "(case rb_remove_step_left e pc px w p of
      Rb_continue e' p' \<Rightarrow>
        ctx_left p' @ inorder e' @ ctx_right p' =
        ctx_left p @ inorder e @ px # inorder w @ ctx_right p
    | Rb_break t \<Rightarrow> inorder t = ctx_left p @ inorder e @ px # inorder w @ ctx_right p)"
  by (cases w) (auto simp: rb_remove_step_left.simps split: rbt.splits if_splits)

lemma inorder_step_right:
  "(case rb_remove_step_right e pc px w p of
      Rb_continue e' p' \<Rightarrow>
        ctx_left p' @ inorder e' @ ctx_right p' =
        ctx_left p @ inorder w @ px # inorder e @ ctx_right p
    | Rb_break t \<Rightarrow> inorder t = ctx_left p @ inorder w @ px # inorder e @ ctx_right p)"
  by (cases w) (auto simp: rb_remove_step_right.simps split: rbt.splits if_splits)

lemma inorder_remove_body:
  "(case rb_remove_body e p of
      Rb_continue e' p' \<Rightarrow>
        ctx_left p' @ inorder e' @ ctx_right p' = ctx_left p @ inorder e @ ctx_right p
    | Rb_break t \<Rightarrow> inorder t = ctx_left p @ inorder e @ ctx_right p)"
proof (cases "(e, p)" rule: rb_remove_body.cases)
  case (2 e' pc px w q)
  show ?thesis
  proof (cases "is_red w")
    case True
    then obtain wl wx wr where w: "w = RNode RB_RED wl wx wr" by (cases w rule: is_red.cases) auto
    show ?thesis
      using 2 inorder_step_left[where e = e and pc = RB_RED and px = px and w = wl
          and p = "Lft RB_BLACK wx wr # q"] w
      by (simp split: rb_step.splits)
  next
    case False
    then have "rb_remove_body e p = rb_remove_step_left e pc px w q"
      using 2 by (auto split: rbt.splits color.splits)
    then show ?thesis
      using 2 inorder_step_left[where e = e and pc = pc and px = px and w = w and p = q]
      by (simp split: rb_step.splits)
  qed
next
  case (3 e' pc w px q)
  show ?thesis
  proof (cases "is_red w")
    case True
    then obtain wl wx wr where w: "w = RNode RB_RED wl wx wr" by (cases w rule: is_red.cases) auto
    show ?thesis
      using 3 inorder_step_right[where e = e and pc = RB_RED and px = px and w = wr
          and p = "Rgt RB_BLACK wl wx # q"] w
      by (simp split: rb_step.splits)
  next
    case False
    then have "rb_remove_body e p = rb_remove_step_right e pc px w q"
      using 3 by (auto split: rbt.splits color.splits)
    then show ?thesis
      using 3 inorder_step_right[where e = e and pc = pc and px = px and w = w and p = q]
      by (simp split: rb_step.splits)
  qed
qed simp

lemma inorder_remove_color:
  "inorder (rb_remove_color e p) = ctx_left p @ inorder e @ ctx_right p"
proof (induction e p rule: rb_remove_color.induct)
  case (1 e p)
  show ?case
  proof (cases "is_red e \<or> p = []")
    case True
    then show ?thesis by (simp add: rb_remove_color.simps[of e p])
  next
    case False
    then show ?thesis
      using 1 inorder_remove_body[where e = e and p = p]
      by (simp add: rb_remove_color.simps[of e p] split: rb_step.splits)
  qed
qed

lemma inorder_unlink: "inorder (rb_unlink p c t) = ctx_left p @ inorder t @ ctx_right p"
  by (simp add: rb_unlink_def inorder_remove_color)

lemma ctx_append [simp]:
  "ctx_left (p @ q) = ctx_left q @ ctx_left p"
  "ctx_right (p @ q) = ctx_right p @ ctx_right q"
  by (induction p) (auto elim: ctx_left.elims split: frame.splits, (metis (no_types) ctx_left.simps ctx_right.simps frame.exhaust append.assoc append_Cons)+)

lemma rb_min_path_inorder:
  "rb_min_path p c l x r = (q, sc, y, child) \<Longrightarrow>
   ctx_left q = ctx_left p \<and>
   y # inorder child @ ctx_right q = inorder l @ x # inorder r @ ctx_right p"
  by (induction p c l x r rule: rb_min_path.induct) auto

lemma inorder_remove_at:
  "inorder (rb_remove_at p c l r) = ctx_left p @ inorder l @ inorder r @ ctx_right p"
proof (cases "l = RNil \<or> r = RNil")
  case True
  then show ?thesis by (auto simp: rb_remove_at_def inorder_unlink split: rbt.splits)
next
  case False
  then obtain rc rl rx rr where r: "r = RNode rc rl rx rr" by (cases r) auto
  obtain q sc y child where m: "rb_min_path [] rc rl rx rr = (q, sc, y, child)"
    by (cases "rb_min_path [] rc rl rx rr") auto
  from rb_min_path_inorder[OF m]
  have "ctx_left q = []" and "y # inorder child @ ctx_right q = inorder r"
    by (simp_all add: r)
  then show ?thesis using False r m by (simp add: rb_remove_at_def inorder_unlink)
qed

text \<open>The position \<open>rb_locate\<close> finds is that of the first element satisfying the predicate.\<close>

lemma rb_locate_None: "rb_locate P p t = None \<longleftrightarrow> (\<forall>x \<in> set (inorder t). \<not> P x)"
  by (induction P p t rule: rb_locate.induct) (auto split: option.splits)

lemma rb_locate_Some:
  assumes "rb_locate P p t = Some (q, c, l, x, r)"
  shows "P x \<and> (\<exists>ys zs. inorder t = ys @ x # zs \<and> (\<forall>y \<in> set ys. \<not> P y) \<and>
           ctx_left q @ inorder l = ctx_left p @ ys \<and>
           inorder r @ ctx_right q = zs @ ctx_right p)"
  using assms
proof (induction P p t rule: rb_locate.induct)
  case (2 P p tc tl tx tr)
  show ?case
  proof (cases "rb_locate P (Lft tc tx tr # p) tl")
    case (Some z)
    with 2 obtain ys zs where "P x" "inorder tl = ys @ x # zs" "\<forall>y \<in> set ys. \<not> P y"
      "ctx_left q @ inorder l = ctx_left p @ ys"
      "inorder r @ ctx_right q = zs @ tx # inorder tr @ ctx_right p"
      by auto
    then show ?thesis by (intro conjI exI[of _ ys] exI[of _ "zs @ tx # inorder tr"]) auto
  next
    case None
    then have no: "\<forall>y \<in> set (inorder tl). \<not> P y" by (simp add: rb_locate_None)
    show ?thesis
    proof (cases "P tx")
      case True
      with None 2 show ?thesis using no by auto
    next
      case False
      with None 2 obtain ys zs where "P x" "inorder tr = ys @ x # zs" "\<forall>y \<in> set ys. \<not> P y"
        "ctx_left q @ inorder l = (ctx_left p @ inorder tl @ [tx]) @ ys"
        "inorder r @ ctx_right q = zs @ ctx_right p"
        by auto
      then show ?thesis using no False
        by (intro conjI exI[of _ "inorder tl @ tx # ys"] exI[of _ zs]) auto
    qed
  qed
qed simp

lemma inorder_remove:
  assumes "inorder t = ys @ x # zs" and "P x" and "\<forall>y \<in> set ys. \<not> P y"
  shows "inorder (rb_remove P t) = ys @ zs"
proof -
  from assms have "rb_locate P [] t \<noteq> None" by (auto simp: rb_locate_None)
  then obtain q c l y r where loc: "rb_locate P [] t = Some (q, c, l, y, r)" by (cases "rb_locate P [] t") auto
  from rb_locate_Some[OF loc] obtain ys' zs' where *: "P y" "inorder t = ys' @ y # zs'"
    "\<forall>y \<in> set ys'. \<not> P y" "ctx_left q @ inorder l = ys'" "inorder r @ ctx_right q = zs'"
    by (metis append_Nil append_Nil2 ctx_left.simps(1) ctx_right.simps(1))
  have "ys' = ys \<and> zs' = zs"
  proof -
    have "takeWhile (\<lambda>y. \<not> P y) (inorder t) = ys" using assms by simp
    moreover have "takeWhile (\<lambda>y. \<not> P y) (inorder t) = ys'" using * by simp
    ultimately show ?thesis using assms(1) *(2) by simp
  qed
  moreover have "inorder (rb_remove P t) = ctx_left q @ inorder l @ inorder r @ ctx_right q"
    using loc by (simp add: rb_remove_def inorder_remove_at)
  ultimately show ?thesis using * by (metis append.assoc)
qed

lemma rb_remove_absent: "\<forall>x \<in> set (inorder t). \<not> P x \<Longrightarrow> rb_remove P t = t"
  by (simp add: rb_remove_def rb_locate_None[THEN iffD2])

subsection \<open>Trees as finite maps\<close>

text \<open>Search and insertion take the same way down.\<close>

lemma rb_descend_Inl: "rb_descend cmp key k p t = Inl y \<longleftrightarrow> rb_find cmp key k t = Some y"
  by (induction cmp key k p t rule: rb_descend.induct) auto

lemma rb_insert_present:
  "rb_find cmp key (key x) t = Some y \<Longrightarrow> rb_insert cmp key x t = (Some y, t)"
  by (simp add: rb_insert_def rb_descend_Inl[THEN iffD2])

lemma rb_insert_fst: "fst (rb_insert cmp key x t) = rb_find cmp key (key x) t"
proof (cases "rb_find cmp key (key x) t")
  case None
  then show ?thesis using rb_descend_Inl[of cmp key "key x" "[]" t]
    by (cases "rb_descend cmp key (key x) [] t") (auto simp: rb_insert_def)
next
  case (Some y)
  then show ?thesis by (simp add: rb_insert_present)
qed

lemma rb_descend_inorder:
  "rb_descend cmp key k p t = Inr q \<Longrightarrow>
   ctx_left q @ ctx_right q = ctx_left p @ inorder t @ ctx_right p"
  by (induction cmp key k p t rule: rb_descend.induct) (auto split: if_splits)

lemma set_rb_insert_absent:
  assumes "rb_find cmp key (key x) t = None"
  shows "set (inorder (snd (rb_insert cmp key x t))) = insert x (set (inorder t))"
proof -
  obtain q where q: "rb_descend cmp key (key x) [] t = Inr q"
    using assms rb_descend_Inl[of cmp key "key x" "[]" t] by (cases "rb_descend cmp key (key x) [] t") auto
  from arg_cong[OF rb_descend_inorder[OF q], of set]
  have "set (ctx_left q) \<union> set (ctx_right q) = set (inorder t)" by simp
  then show ?thesis using q by (auto simp: rb_insert_def inorder_insert_color)
qed

lemma inorder_map_rbt [simp]: "inorder (map_rbt f t) = map f (inorder t)"
  by (induction t) simp_all

text \<open>A found element is an element of the tree, whatever the order.\<close>

lemma rb_find_in: "rb_find cmp key k t = Some y \<Longrightarrow> y \<in> set (inorder t)"
  by (induction t) (auto split: if_splits)

lemma rb_find_cmp: "rb_find cmp key k t = Some y \<Longrightarrow> cmp k (key y) = 0"
  by (induction t) (auto split: if_splits)

text \<open>
  The contract a comparison function has to meet for the tree to be a map from keys: on the
  domain \<open>D\<close> of keys in use it is the sign of a linear order of the ranks of keys.
\<close>

locale rb_ordered =
  fixes cmp :: "'k \<Rightarrow> 'k \<Rightarrow> int" and rank :: "'k \<Rightarrow> 'o::linorder" and D :: "'k \<Rightarrow> bool"
  assumes cmp_neg: "D x \<Longrightarrow> D y \<Longrightarrow> cmp x y < 0 \<longleftrightarrow> rank x < rank y"
    and cmp_pos: "D x \<Longrightarrow> D y \<Longrightarrow> cmp x y > 0 \<longleftrightarrow> rank y < rank x"
begin

lemma cmp_zero: "D x \<Longrightarrow> D y \<Longrightarrow> cmp x y = 0 \<longleftrightarrow> rank x = rank y"
  using cmp_neg[of x y] cmp_pos[of x y] by fastforce

definition ordered :: "('a \<Rightarrow> 'k) \<Rightarrow> 'a rbt \<Rightarrow> bool" where
  "ordered key t \<longleftrightarrow>
     sorted_wrt (<) (map (\<lambda>x. rank (key x)) (inorder t)) \<and> (\<forall>x \<in> set (inorder t). D (key x))"

lemma ordered_RNil [simp]: "ordered key RNil"
  by (simp add: ordered_def)

lemma ordered_Node:
  "ordered key (RNode c l x r) \<longleftrightarrow>
     ordered key l \<and> ordered key r \<and> D (key x) \<and>
     (\<forall>y \<in> set (inorder l). rank (key y) < rank (key x)) \<and>
     (\<forall>y \<in> set (inorder r). rank (key x) < rank (key y))"
  by (auto simp: ordered_def sorted_wrt_append intro: less_trans[where y = "rank (key x)"])

lemma ordered_D: "ordered key t \<Longrightarrow> x \<in> set (inorder t) \<Longrightarrow> D (key x)"
  by (simp add: ordered_def)

lemma ordered_distinct: "ordered key t \<Longrightarrow> distinct (map (\<lambda>x. rank (key x)) (inorder t))"
  unfolding ordered_def by (simp add: strict_sorted_iff)

lemma ordered_key_inj:
  "ordered key t \<Longrightarrow> y \<in> set (inorder t) \<Longrightarrow> z \<in> set (inorder t) \<Longrightarrow>
   rank (key y) = rank (key z) \<Longrightarrow> y = z"
  using ordered_distinct[of key t] by (auto simp: distinct_map dest: inj_onD)

text \<open>A search finds the element with the key, if there is one.\<close>

lemma find_Some_iff:
  assumes "ordered key t" and "D k"
  shows "rb_find cmp key k t = Some y \<longleftrightarrow> y \<in> set (inorder t) \<and> rank (key y) = rank k"
  using assms
proof (induction t)
  case (RNode c l z r)
  then have o: "ordered key l" "ordered key r" "D (key z)"
    "\<forall>y \<in> set (inorder l). rank (key y) < rank (key z)"
    "\<forall>y \<in> set (inorder r). rank (key z) < rank (key y)"
    by (simp_all add: ordered_Node)
  consider "rank k < rank (key z)" | "rank (key z) < rank k" | "rank k = rank (key z)" by fastforce
  then show ?case
    using RNode.IH RNode.prems(2) o by cases (auto simp: cmp_neg cmp_pos)
qed simp

lemma find_None_iff:
  assumes "ordered key t" and "D k"
  shows "rb_find cmp key k t = None \<longleftrightarrow> (\<forall>y \<in> set (inorder t). rank (key y) \<noteq> rank k)"
proof
  assume "rb_find cmp key k t = None"
  then show "\<forall>y \<in> set (inorder t). rank (key y) \<noteq> rank k"
    using find_Some_iff[OF assms] by auto
next
  assume "\<forall>y \<in> set (inorder t). rank (key y) \<noteq> rank k"
  then show "rb_find cmp key k t = None"
    using find_Some_iff[OF assms, of "the (rb_find cmp key k t)"] by (cases "rb_find cmp key k t") auto
qed

lemma find_self:
  assumes "ordered key t" and "x \<in> set (inorder t)"
  shows "rb_find cmp key (key x) t = Some x"
  using find_Some_iff[OF assms(1) ordered_D[OF assms]] assms(2) by simp

text \<open>The descent of an insertion stops at the place of the key.\<close>

lemma descend_Inr:
  assumes "ordered key t" and "D k" and "rb_descend cmp key k p t = Inr q"
  shows "\<exists>ys zs. inorder t = ys @ zs \<and> ctx_left q = ctx_left p @ ys \<and> ctx_right q = zs @ ctx_right p
           \<and> (\<forall>y \<in> set ys. rank (key y) < rank k) \<and> (\<forall>z \<in> set zs. rank k < rank (key z))"
  using assms
proof (induction t arbitrary: p)
  case (RNode c l z r)
  then have o: "ordered key l" "ordered key r" "D (key z)"
    "\<forall>y \<in> set (inorder l). rank (key y) < rank (key z)"
    "\<forall>y \<in> set (inorder r). rank (key z) < rank (key y)"
    by (simp_all add: ordered_Node)
  consider (less) "rank k < rank (key z)" | (greater) "rank (key z) < rank k"
    | (same) "rank k = rank (key z)" by fastforce
  then show ?case
  proof cases
    case less
    with RNode.prems o have "rb_descend cmp key k (Lft c z r # p) l = Inr q" by (simp add: cmp_neg)
    from RNode.IH(1)[OF o(1) RNode.prems(2) this] obtain ys zs where "inorder l = ys @ zs"
      "ctx_left q = ctx_left p @ ys" "ctx_right q = zs @ z # inorder r @ ctx_right p"
      "\<forall>y \<in> set ys. rank (key y) < rank k" "\<forall>z \<in> set zs. rank k < rank (key z)" by auto
    moreover have "\<forall>y \<in> set (z # inorder r). rank k < rank (key y)" using less o(5) by auto
    ultimately show ?thesis
      by (intro exI[of _ ys] exI[of _ "zs @ z # inorder r"]) auto
  next
    case greater
    with RNode.prems o have "rb_descend cmp key k (Rgt c l z # p) r = Inr q"
      by (simp add: cmp_neg cmp_pos less_not_sym split: if_splits)
    from RNode.IH(2)[OF o(2) RNode.prems(2) this] obtain ys zs where "inorder r = ys @ zs"
      "ctx_left q = ctx_left p @ inorder l @ z # ys" "ctx_right q = zs @ ctx_right p"
      "\<forall>y \<in> set ys. rank (key y) < rank k" "\<forall>z \<in> set zs. rank k < rank (key z)" by auto
    moreover have "\<forall>y \<in> set (inorder l @ [z]). rank (key y) < rank k" using greater o(4) by auto
    ultimately show ?thesis
      by (intro exI[of _ "inorder l @ z # ys"] exI[of _ zs]) auto
  next
    case same
    with RNode.prems o show ?thesis by (simp add: cmp_neg cmp_pos)
  qed
qed simp

lemma insert_absent:
  assumes "ordered key t" and "D (key x)" and "rb_find cmp key (key x) t = None"
  obtains t' ys zs where "rb_insert cmp key x t = (None, t')" and "inorder t = ys @ zs"
    and "inorder t' = ys @ x # zs"
    and "\<forall>y \<in> set ys. rank (key y) < rank (key x)" and "\<forall>z \<in> set zs. rank (key x) < rank (key z)"
proof -
  obtain q where q: "rb_descend cmp key (key x) [] t = Inr q"
    using assms(3) rb_descend_Inl[of cmp key "key x" "[]" t]
    by (cases "rb_descend cmp key (key x) [] t") auto
  from descend_Inr[OF assms(1,2) q] obtain ys zs where
    *: "inorder t = ys @ zs" "ctx_left q = ys" "ctx_right q = zs"
       "\<forall>y \<in> set ys. rank (key y) < rank (key x)" "\<forall>z \<in> set zs. rank (key x) < rank (key z)" by auto
  show thesis
    by (rule that[of "rb_insert_color (RNode RB_RED RNil x RNil) q" ys zs])
       (use * q in \<open>simp_all add: rb_insert_def inorder_insert_color\<close>)
qed

lemma insert_ordered:
  assumes "ordered key t" and "D (key x)"
  shows "ordered key (snd (rb_insert cmp key x t))"
proof (cases "rb_find cmp key (key x) t")
  case None
  show ?thesis
  proof (rule insert_absent[OF assms None])
    fix t' ys zs
    assume "rb_insert cmp key x t = (None, t')" "inorder t = ys @ zs" "inorder t' = ys @ x # zs"
      "\<forall>y \<in> set ys. rank (key y) < rank (key x)" "\<forall>z \<in> set zs. rank (key x) < rank (key z)"
    then show ?thesis using assms by (auto simp: ordered_def sorted_wrt_append)
  qed
next
  case (Some y)
  then show ?thesis using assms by (simp add: rb_insert_present)
qed

text \<open>What a search finds after an insertion.\<close>

lemma find_insert:
  assumes "ordered key t" and "D (key x)" and "D k"
  shows "rb_find cmp key k (snd (rb_insert cmp key x t)) =
           (if rank k = rank (key x) \<and> rb_find cmp key (key x) t = None then Some x
            else rb_find cmp key k t)"
proof (cases "rb_find cmp key (key x) t")
  case (Some y)
  then show ?thesis by (simp add: rb_insert_present)
next
  case None
  let ?t = "snd (rb_insert cmp key x t)"
  have o: "ordered key ?t" using assms(1,2) by (rule insert_ordered)
  have s: "set (inorder ?t) = insert x (set (inorder t))" using None by (rule set_rb_insert_absent)
  show ?thesis
  proof (cases "rank k = rank (key x)")
    case True
    then show ?thesis using None find_Some_iff[OF o assms(3)] s by simp
  next
    case False
    then have "rb_find cmp key k ?t = Some y \<longleftrightarrow> rb_find cmp key k t = Some y" for y
      using find_Some_iff[OF o assms(3)] find_Some_iff[OF assms(1,3)] s by auto
    then have "rb_find cmp key k ?t = rb_find cmp key k t" by (metis not_None_eq)
    then show ?thesis using False by simp
  qed
qed

text \<open>Removal of the node of an element takes exactly its key out.\<close>

lemma remove_key:
  assumes "ordered key t" and "\<And>y. y \<in> set (inorder t) \<Longrightarrow> P y \<longleftrightarrow> rank (key y) = k"
  shows "inorder (rb_remove P t) = filter (\<lambda>y. rank (key y) \<noteq> k) (inorder t)"
proof (cases "\<exists>x \<in> set (inorder t). rank (key x) = k")
  case True
  then obtain x where x: "x \<in> set (inorder t)" "rank (key x) = k" by blast
  then obtain ys zs where s: "inorder t = ys @ x # zs" by (auto dest: split_list)
  from ordered_distinct[OF assms(1)] s x(2)
  have ne: "\<forall>y \<in> set (ys @ zs). rank (key y) \<noteq> k" by (auto simp: image_iff)
  have "inorder (rb_remove P t) = ys @ zs"
    by (rule inorder_remove[OF s]) (use assms(2) x s ne in auto)
  moreover have "filter (\<lambda>y. rank (key y) \<noteq> k) (inorder t) = ys @ zs"
    using s ne x(2) by (auto simp: filter_id_conv)
  ultimately show ?thesis by simp
next
  case False
  then have "rb_remove P t = t" using assms(2) by (intro rb_remove_absent) auto
  moreover have "filter (\<lambda>y. rank (key y) \<noteq> k) (inorder t) = inorder t"
    using False by (auto simp: filter_id_conv)
  ultimately show ?thesis by simp
qed

lemma sorted_map_filter:
  "sorted_wrt (<) (map f xs) \<Longrightarrow> sorted_wrt (<) (map f (filter Q xs))" for f :: "'a \<Rightarrow> 'o"
  by (induction xs) auto

lemma remove_ordered:
  assumes "ordered key t" and "\<And>y. y \<in> set (inorder t) \<Longrightarrow> P y \<longleftrightarrow> rank (key y) = k"
  shows "ordered key (rb_remove P t)"
  using remove_key[OF assms] assms(1) by (auto simp: ordered_def sorted_map_filter)

lemma find_remove:
  assumes "ordered key t" and "D j" and "\<And>y. y \<in> set (inorder t) \<Longrightarrow> P y \<longleftrightarrow> rank (key y) = k"
  shows "rb_find cmp key j (rb_remove P t) = (if rank j = k then None else rb_find cmp key j t)"
proof -
  have o: "ordered key (rb_remove P t)" using assms(1,3) by (rule remove_ordered)
  have "rb_find cmp key j (rb_remove P t) = Some y \<longleftrightarrow> rank j \<noteq> k \<and> rb_find cmp key j t = Some y" for y
    using find_Some_iff[OF o assms(2)] find_Some_iff[OF assms(1,2)] remove_key[OF assms(1,3)] by auto
  then show ?thesis by (metis not_None_eq)
qed

text \<open>Changing elements in place without changing their keys.\<close>

lemma map_ordered:
  assumes "ordered key t" and "\<And>y. y \<in> set (inorder t) \<Longrightarrow> key (f y) = key y"
  shows "ordered key (map_rbt f t)"
proof -
  have "map (\<lambda>x. rank (key x)) (inorder (map_rbt f t)) = map (\<lambda>x. rank (key x)) (inorder t)"
    using assms(2) by simp
  then show ?thesis using assms unfolding ordered_def by (simp only:) auto
qed

lemma find_map:
  assumes "\<And>y. y \<in> set (inorder t) \<Longrightarrow> key (f y) = key y"
  shows "rb_find cmp key k (map_rbt f t) = map_option f (rb_find cmp key k t)"
  using assms by (induction t) auto

end

subsection \<open>The colour discipline\<close>

text \<open>
  \<open>rbh t n\<close>: no red node has a red child and every path from the root of \<open>t\<close> down passes \<open>n\<close>
  black nodes.  \<open>ctx_ok p n\<close>: the same of the tree around a hole that expects a subtree of black
  height \<open>n\<close>; the colour of the subtree against the first frame is stated apart.
\<close>

fun rbh :: "'a rbt \<Rightarrow> nat \<Rightarrow> bool" where
  "rbh RNil n \<longleftrightarrow> n = 0"
| "rbh (RNode RB_BLACK l x r) n \<longleftrightarrow> 0 < n \<and> rbh l (n - 1) \<and> rbh r (n - 1)"
| "rbh (RNode RB_RED l x r) n \<longleftrightarrow> rbh l n \<and> rbh r n \<and> \<not> is_red l \<and> \<not> is_red r"

fun head_black :: "'a frame list \<Rightarrow> bool" where
  "head_black [] = True"
| "head_black (f # p) \<longleftrightarrow> frame_color f = RB_BLACK"

fun frame_sibling :: "'a frame \<Rightarrow> 'a rbt" where
  "frame_sibling (Lft c x r) = r"
| "frame_sibling (Rgt c l x) = l"

fun ctx_ok :: "'a frame list \<Rightarrow> nat \<Rightarrow> bool" where
  "ctx_ok [] n = True"
| "ctx_ok (f # p) n \<longleftrightarrow>
     rbh (frame_sibling f) n \<and>
     (if frame_color f = RB_BLACK then ctx_ok p (Suc n)
      else \<not> is_red (frame_sibling f) \<and> p \<noteq> [] \<and> head_black p \<and> ctx_ok p n)"

definition rb_inv :: "'a rbt \<Rightarrow> bool" where
  "rb_inv t \<longleftrightarrow> \<not> is_red t \<and> (\<exists>n. rbh t n)"

lemma color_neq [simp]: "c \<noteq> RB_BLACK \<longleftrightarrow> c = RB_RED" "c \<noteq> RB_RED \<longleftrightarrow> c = RB_BLACK"
  by (cases c; simp)+

lemma is_red_set_black [simp]: "\<not> is_red (set_black t)"
  by (cases t) simp_all

lemma set_black_id [simp]: "\<not> is_red t \<Longrightarrow> set_black t = t"
  by (cases t rule: is_red.cases) simp_all

lemma is_red_cases:
  assumes "is_red t"
  obtains l x r where "t = RNode RB_RED l x r"
  using assms by (cases t rule: is_red.cases) auto

lemma rbh_set_black_red: "rbh t n \<Longrightarrow> is_red t \<Longrightarrow> rbh (set_black t) (Suc n)"
  by (erule is_red_cases) simp

lemma rbh_set_black: "rbh t n \<Longrightarrow> \<exists>m. rbh (set_black t) m"
  using rbh_set_black_red by (cases "is_red t") auto

lemma rb_inv_set_black: "rbh t n \<Longrightarrow> rb_inv (set_black t)"
  by (simp add: rb_inv_def rbh_set_black)

lemma ctx_ok_plug:
  assumes "ctx_ok (f # p) n" and "rbh t n" and "is_red t \<longrightarrow> head_black (f # p)"
  obtains m where "rbh (plug f t) m" and "ctx_ok p m" and "is_red (plug f t) \<longrightarrow> p \<noteq> [] \<and> head_black p"
proof -
  let ?m = "if frame_color f = RB_BLACK then Suc n else n"
  have "rbh (plug f t) ?m" "ctx_ok p ?m" "is_red (plug f t) \<longrightarrow> p \<noteq> [] \<and> head_black p"
    using assms by (cases f; cases "frame_color f"; auto)+
  then show thesis by (rule that)
qed

lemma zip_up_rbh:
  assumes "ctx_ok p n" and "rbh t n" and "is_red t \<longrightarrow> head_black p"
  shows "\<exists>m. rbh (zip_up p t) m"
  using assms
proof (induction p arbitrary: t n)
  case (Cons f p)
  from Cons.prems show ?case
    by (rule ctx_ok_plug) (use Cons.IH in auto)
qed auto

lemma zip_up_inv:
  assumes "ctx_ok p n" and "rbh t n" and "is_red t \<longrightarrow> p \<noteq> [] \<and> head_black p"
  shows "rb_inv (zip_up p t)"
proof -
  have "\<not> is_red (zip_up p t)" using assms
  proof (induction p arbitrary: t n)
    case (Cons f p)
    have "is_red t \<longrightarrow> head_black (f # p)" using Cons.prems by simp
    with Cons.prems(1,2) show ?case
      by (rule ctx_ok_plug) (use Cons.IH in auto)
  qed auto
  then show ?thesis using zip_up_rbh[OF assms(1,2)] assms(3) by (simp add: rb_inv_def)
qed

lemma zip_up_set_black_inv:
  assumes "ctx_ok p n" and "rbh t n" and "is_red t \<longrightarrow> head_black p"
  shows "rb_inv (set_black (zip_up p t))"
  using zip_up_rbh[OF assms] rb_inv_set_black by blast

text \<open>The repair after an insertion; a red parent always has a grandparent.\<close>

lemma insert_color_inv:
  assumes "rbh e n" and "is_red e" and "ctx_ok p n"
  shows "rb_inv (rb_insert_color e p)"
  using assms
proof (induction e p arbitrary: n rule: rb_insert_color.induct)
  case (1 e)
  then show ?case using rb_inv_set_black by auto
next
  case (2 e f)
  then show ?case
    using zip_up_set_black_inv[of "[f]" n e] by (auto split: if_splits)
next
  case (3 e f g p)
  obtain el ex er where e: "e = RNode RB_RED el ex er" using "3.prems"(2) by (rule is_red_cases)
  show ?case
  proof (cases "frame_color f = RB_BLACK")
    case True
    then show ?thesis using "3.prems" zip_up_set_black_inv[of "f # g # p" n e] by simp
  next
    case red: False
    then have g: "frame_color g = RB_BLACK" and sib: "rbh (frame_sibling f) n"
      and nsib: "\<not> is_red (frame_sibling f)"
      and ug: "rbh (frame_sibling g) n" and cp: "ctx_ok p (Suc n)"
      using "3.prems" by auto
    show ?thesis
    proof (cases "is_red (frame_sibling g)")
      case True
      then have u: "rbh (set_black (frame_sibling g)) (Suc n)" using ug by (rule rbh_set_black_red[rotated])
      show ?thesis
        using "3.IH"[where n = "Suc n"] "3.prems" red g sib nsib u cp True
        by (cases f; cases g) auto
    next
      case False
      show ?thesis
        using zip_up_set_black_inv[OF cp] "3.prems" red g sib nsib ug False e
        by (cases f; cases g) auto
    qed
  qed
qed

lemma descend_ctx_ok:
  "rb_descend cmp key k p t = Inr q \<Longrightarrow> rbh t n \<Longrightarrow> ctx_ok p n \<Longrightarrow>
   (is_red t \<longrightarrow> p \<noteq> [] \<and> head_black p) \<Longrightarrow> ctx_ok q 0"
proof (induction cmp key k p t arbitrary: n rule: rb_descend.induct)
  case (2 cmp key k p c l y r)
  show ?case
  proof (cases c)
    case RB_BLACK
    with "2.prems" obtain m where "n = Suc m" by (cases n) auto
    with "2.prems" RB_BLACK show ?thesis
      using "2.IH"(1)[of m] "2.IH"(2)[of m] by (auto split: if_splits)
  next
    case RB_RED
    with "2.prems" show ?thesis
      using "2.IH"(1)[of n] "2.IH"(2)[of n] by (auto split: if_splits)
  qed
qed auto

lemma rb_insert_inv:
  assumes "rb_inv t"
  shows "rb_inv (snd (rb_insert cmp key x t))"
proof -
  from assms obtain n where n: "rbh t n" "\<not> is_red t" by (auto simp: rb_inv_def)
  show ?thesis
  proof (cases "rb_descend cmp key (key x) [] t")
    case (Inr q)
    then have "ctx_ok q 0" using descend_ctx_ok[OF Inr n(1)] n(2) by simp
    then show ?thesis using Inr insert_color_inv[of "RNode RB_RED RNil x RNil" 0 q]
      by (simp add: rb_insert_def)
  qed (use assms in \<open>simp add: rb_insert_def\<close>)
qed

text \<open>
  The repair after a removal: the subtree is one black node short of what its context expects.
\<close>

definition deficit :: "'a rbt \<Rightarrow> nat \<Rightarrow> bool" where
  "deficit e n \<longleftrightarrow> (if is_red e then rbh (set_black e) (Suc n) else rbh e n)"

fun step_ok :: "'a rb_step \<Rightarrow> bool" where
  "step_ok (Rb_continue e p) \<longleftrightarrow> (\<exists>n. deficit e n \<and> ctx_ok p (Suc n))"
| "step_ok (Rb_break t) \<longleftrightarrow> rb_inv t"

lemma rbh_Suc_node:
  assumes "rbh w (Suc n)" and "\<not> is_red w"
  obtains wl wx wr where "w = RNode RB_BLACK wl wx wr" and "rbh wl n" and "rbh wr n"
  using assms by (cases w rule: is_red.cases) auto

lemma step_left_ok:
  assumes "rbh e n" "\<not> is_red e" "rbh w (Suc n)" "\<not> is_red w"
    and "ctx_ok (Lft pc px w # p) (Suc n)"
  shows "step_ok (rb_remove_step_left e pc px w p)"
proof -
  obtain wl wx wr where w: "w = RNode RB_BLACK wl wx wr" "rbh wl n" "rbh wr n"
    using assms(3,4) by (rule rbh_Suc_node)
  let ?m = "if pc = RB_BLACK then Suc (Suc n) else Suc n"
  have cp: "ctx_ok p ?m" "pc = RB_RED \<longrightarrow> p \<noteq> [] \<and> head_black p" using assms(5) by (auto split: if_splits)
  show ?thesis
  proof (cases "\<not> is_red wl \<and> \<not> is_red wr")
    case True
    then show ?thesis using assms w cp
      by (cases pc) (auto simp: rb_remove_step_left.simps deficit_def
          intro!: exI[of _ "if pc = RB_BLACK then Suc n else n"])
  next
    case False
    have fin: "rb_inv (set_black (zip_up p (RNode pc (RNode RB_BLACK e px a) tx (set_black b))))"
      if "rbh a n" "rbh (set_black b) (Suc n)" for a tx b
      using zip_up_set_black_inv[OF cp(1), of "RNode pc (RNode RB_BLACK e px a) tx (set_black b)"]
        that assms cp by (cases pc) auto
    show ?thesis
    proof (cases "is_red wr")
      case True
      then show ?thesis using w fin[of wl wr wx] rbh_set_black_red[of wr n]
        by (simp add: rb_remove_step_left.simps)
    next
      case nr: False
      with False have "is_red wl" by simp
      then obtain ll lx lr where l: "wl = RNode RB_RED ll lx lr" by (rule is_red_cases)
      then show ?thesis using w nr fin[of ll "RNode RB_RED lr wx wr" lx]
        by (simp add: rb_remove_step_left.simps)
    qed
  qed
qed

lemma step_right_ok:
  assumes "rbh e n" "\<not> is_red e" "rbh w (Suc n)" "\<not> is_red w"
    and "ctx_ok (Rgt pc w px # p) (Suc n)"
  shows "step_ok (rb_remove_step_right e pc px w p)"
proof -
  obtain wl wx wr where w: "w = RNode RB_BLACK wl wx wr" "rbh wl n" "rbh wr n"
    using assms(3,4) by (rule rbh_Suc_node)
  let ?m = "if pc = RB_BLACK then Suc (Suc n) else Suc n"
  have cp: "ctx_ok p ?m" "pc = RB_RED \<longrightarrow> p \<noteq> [] \<and> head_black p" using assms(5) by (auto split: if_splits)
  show ?thesis
  proof (cases "\<not> is_red wl \<and> \<not> is_red wr")
    case True
    then show ?thesis using assms w cp
      by (cases pc) (auto simp: rb_remove_step_right.simps deficit_def
          intro!: exI[of _ "if pc = RB_BLACK then Suc n else n"])
  next
    case False
    have fin: "rb_inv (set_black (zip_up p (RNode pc (set_black a) tx (RNode RB_BLACK b px e))))"
      if "rbh (set_black a) (Suc n)" "rbh b n" for a tx b
      using zip_up_set_black_inv[OF cp(1), of "RNode pc (set_black a) tx (RNode RB_BLACK b px e)"]
        that assms cp by (cases pc) auto
    show ?thesis
    proof (cases "is_red wl")
      case True
      then show ?thesis using w fin[of wl wr wx] rbh_set_black_red[of wl n]
        by (simp add: rb_remove_step_right.simps)
    next
      case nr: False
      with False have "is_red wr" by simp
      then obtain rl rx rr where r: "wr = RNode RB_RED rl rx rr" by (rule is_red_cases)
      then show ?thesis using w nr fin[of "RNode RB_RED wl wx rl" rr rx]
        by (simp add: rb_remove_step_right.simps)
    qed
  qed
qed

lemma remove_body_ok:
  assumes "rbh e n" and "\<not> is_red e" and "p \<noteq> []" and "ctx_ok p (Suc n)"
  shows "step_ok (rb_remove_body e p)"
proof (cases "(e, p)" rule: rb_remove_body.cases)
  case (2 e' pc px w q)
  show ?thesis
  proof (cases "is_red w")
    case True
    then obtain wl wx wr where w: "w = RNode RB_RED wl wx wr" by (rule is_red_cases)
    then show ?thesis
      using 2 assms step_left_ok[of e n wl RB_RED px "Lft RB_BLACK wx wr # q"]
      by (auto split: if_splits)
  next
    case False
    then have "rb_remove_body e p = rb_remove_step_left e pc px w q"
      using 2 by (auto split: rbt.splits color.splits)
    then show ?thesis using 2 False assms step_left_ok[of e n w pc px q] by simp
  qed
next
  case (3 e' pc w px q)
  show ?thesis
  proof (cases "is_red w")
    case True
    then obtain wl wx wr where w: "w = RNode RB_RED wl wx wr" by (rule is_red_cases)
    then show ?thesis
      using 3 assms step_right_ok[of e n wr RB_RED px "Rgt RB_BLACK wl wx # q"]
      by (auto split: if_splits)
  next
    case False
    then have "rb_remove_body e p = rb_remove_step_right e pc px w q"
      using 3 by (auto split: rbt.splits color.splits)
    then show ?thesis using 3 False assms step_right_ok[of e n w pc px q] by simp
  qed
qed (use assms in simp)

lemma remove_color_inv:
  "deficit e n \<Longrightarrow> ctx_ok p (Suc n) \<Longrightarrow> rb_inv (rb_remove_color e p)"
proof (induction e p arbitrary: n rule: rb_remove_color.induct)
  case (1 e p)
  show ?case
  proof (cases "is_red e \<or> p = []")
    case True
    have "rb_remove_color e p = zip_up p (set_black e)"
      using True by (simp add: rb_remove_color.simps[of e p])
    then show ?thesis using True "1.prems" zip_up_inv[of p "Suc n" "set_black e"]
      by (cases "is_red e") (auto simp: deficit_def rb_inv_def)
  next
    case False
    then have "step_ok (rb_remove_body e p)"
      using "1.prems" remove_body_ok[of e n p] by (simp add: deficit_def)
    then show ?thesis using False "1.IH"
      by (auto simp: rb_remove_color.simps[of e p] split: rb_step.splits)
  qed
qed

lemma unlink_inv:
  assumes "c = RB_BLACK \<Longrightarrow> rbh t n \<and> ctx_ok p (Suc n)"
    and "c = RB_RED \<Longrightarrow> rbh t n \<and> ctx_ok p n \<and> \<not> is_red t"
  shows "rb_inv (rb_unlink p c t)"
  using assms remove_color_inv[of t n p] zip_up_inv[of p n t] rbh_set_black_red[of t n]
  by (cases c) (auto simp: rb_unlink_def deficit_def)

text \<open>\<open>node_ok p c n\<close>: a node of colour \<open>c\<close> whose children have black height \<open>n\<close> fits the context.\<close>

definition node_ok :: "'a frame list \<Rightarrow> color \<Rightarrow> nat \<Rightarrow> bool" where
  "node_ok p c n \<longleftrightarrow> (if c = RB_BLACK then ctx_ok p (Suc n) else ctx_ok p n \<and> p \<noteq> [] \<and> head_black p)"

lemma locate_ok:
  assumes "rb_locate P p t = Some (q, c, l, x, r)" and "rbh t n" and "ctx_ok p n"
    and "is_red t \<longrightarrow> p \<noteq> [] \<and> head_black p"
  shows "\<exists>m. rbh l m \<and> rbh r m \<and> node_ok q c m \<and> (c = RB_RED \<longrightarrow> \<not> is_red l \<and> \<not> is_red r)"
  using assms
proof (induction P p t arbitrary: n rule: rb_locate.induct)
  case (2 P p tc tl tx tr)
  define m where "m = (if tc = RB_BLACK then n - 1 else n)"
  have m: "rbh tl m" "rbh tr m" "node_ok p tc m"
    "tc = RB_RED \<longrightarrow> \<not> is_red tl \<and> \<not> is_red tr"
    "ctx_ok (Lft tc tx tr # p) m" "ctx_ok (Rgt tc tl tx # p) m"
    using "2.prems"(2-4) by (cases tc; auto simp: m_def node_ok_def)+
  show ?case
    using "2.prems"(1) "2.IH"(1)[OF _ m(1,5)] "2.IH"(2)[OF _ _ _ m(2,6)] m
    by (cases tc) (auto split: option.splits if_splits)
qed simp

lemma min_path_ok:
  assumes "rb_min_path p c l x r = (q, sc, y, child)"
    and "rbh l n" "rbh r n" "node_ok p c n" "c = RB_RED \<longrightarrow> \<not> is_red l \<and> \<not> is_red r"
  shows "\<exists>m. rbh child m \<and> node_ok q sc m \<and> (sc = RB_RED \<longrightarrow> \<not> is_red child)"
  using assms
proof (induction p c l x r arbitrary: n rule: rb_min_path.induct)
  case (2 p c lc ll lx lr x r)
  define m where "m = (if lc = RB_BLACK then n - 1 else n)"
  have "rbh ll m" "rbh lr m" "node_ok (Lft c x r # p) lc m"
    "lc = RB_RED \<longrightarrow> \<not> is_red ll \<and> \<not> is_red lr"
    using "2.prems"(2-5) by (cases c; cases lc; auto simp: m_def node_ok_def)+
  then show ?case using "2.IH"[of m] "2.prems"(1) by simp
qed auto

lemma rb_min_path_suffix:
  "rb_min_path p c l x r = (q, sc, y, child) \<Longrightarrow>
   rb_min_path (p @ s) c l x r = (q @ s, sc, y, child)"
  by (induction p c l x r rule: rb_min_path.induct) auto

lemma remove_at_inv:
  assumes "rbh l n" "rbh r n" "node_ok p c n" "c = RB_RED \<longrightarrow> \<not> is_red l \<and> \<not> is_red r"
  shows "rb_inv (rb_remove_at p c l r)"
proof (cases "l = RNil \<or> r = RNil")
  case True
  then show ?thesis using assms unlink_inv[of c r n p] unlink_inv[of c l n p]
    by (cases c) (auto simp: rb_remove_at_def node_ok_def split: rbt.splits)
next
  case False
  then obtain rc rl rx rr where r: "r = RNode rc rl rx rr" by (cases r) auto
  obtain q sc y child where m: "rb_min_path [] rc rl rx rr = (q, sc, y, child)"
    by (cases "rb_min_path [] rc rl rx rr") auto
  define k where "k = (if rc = RB_BLACK then n - 1 else n)"
  have "rbh rl k" "rbh rr k"
    "rc = RB_RED \<longrightarrow> \<not> is_red rl \<and> \<not> is_red rr"
    "node_ok (Rgt c l y # p) rc k"
    using assms r by (cases c; cases rc; auto simp: k_def node_ok_def)+
  then obtain j where "rbh child j" "node_ok (q @ Rgt c l y # p) sc j" "sc = RB_RED \<longrightarrow> \<not> is_red child"
    using min_path_ok[OF rb_min_path_suffix[OF m, of "Rgt c l y # p"], of k] by auto
  then show ?thesis using False r m unlink_inv[of sc child j "q @ Rgt c l y # p"]
    by (auto simp: rb_remove_at_def node_ok_def)
qed

lemma rb_remove_inv:
  assumes "rb_inv t"
  shows "rb_inv (rb_remove P t)"
proof -
  from assms obtain n where n: "rbh t n" "\<not> is_red t" by (auto simp: rb_inv_def)
  show ?thesis
  proof (cases "rb_locate P [] t")
    case (Some z)
    then obtain q c l x r where z: "rb_locate P [] t = Some (q, c, l, x, r)" by (cases z) auto
    from locate_ok[OF z n(1)] n(2) obtain m where "rbh l m" "rbh r m" "node_ok q c m"
      "c = RB_RED \<longrightarrow> \<not> is_red l \<and> \<not> is_red r" by auto
    then show ?thesis using z remove_at_inv by (simp add: rb_remove_def)
  qed (use assms in \<open>simp add: rb_remove_def\<close>)
qed

text \<open>A tree that keeps the discipline is balanced: a search visits few nodes.\<close>

fun rb_height :: "'a rbt \<Rightarrow> nat" where
  "rb_height RNil = 0"
| "rb_height (RNode c l x r) = Suc (max (rb_height l) (rb_height r))"

lemma rbh_height: "rbh t n \<Longrightarrow> rb_height t \<le> 2 * n + (if is_red t then 1 else 0)"
proof (induction t n rule: rbh.induct)
  case (2 l x r n)
  then show ?case by (cases n) (auto split: if_splits)
qed (auto split: if_splits)

lemma rbh_size: "rbh t n \<Longrightarrow> 2 ^ n \<le> Suc (length (inorder t))"
proof (induction t n rule: rbh.induct)
  case (2 l x r n)
  then show ?case by (cases n) auto
qed auto

lemma rb_inv_balanced:
  assumes "rb_inv t"
  shows "2 ^ (rb_height t div 2) \<le> Suc (length (inorder t))"
proof -
  from assms obtain n where n: "rbh t n" "\<not> is_red t" by (auto simp: rb_inv_def)
  then have "rb_height t div 2 \<le> n" using rbh_height[OF n(1)] by simp
  then have "(2::nat) ^ (rb_height t div 2) \<le> 2 ^ n" by (simp add: power_increasing)
  with rbh_size[OF n(1)] show ?thesis by linarith
qed

subsection \<open>Properties\<close>

text \<open>
  C16: insertion and removal keep the red-black invariant (no red node has a red child, every path has
  as many black nodes, the root is black), and a tree of the invariant is balanced: its height is at
  most twice the logarithm of its size.
\<close>

theorem rb_balanced:
  assumes "rb_inv t"
  shows "rb_inv (snd (rb_insert cmp key x t)) \<and> rb_inv (rb_remove P t) \<and>
    2 ^ (rb_height t div 2) \<le> Suc (length (inorder t))"
  using rb_insert_inv[OF assms] rb_remove_inv[OF assms] rb_inv_balanced[OF assms] by blast

theorem rb_balanced_witness:
  "rb_inv (RNode RB_BLACK (RNode RB_RED RNil (1::int) RNil) 2 RNil) \<and>
   rb_inv (snd (rb_insert (\<lambda>a b. a - b) (\<lambda>x. x) 0 (RNode RB_BLACK (RNode RB_RED RNil (1::int) RNil) 2 RNil)))"
proof -
  have i: "rb_inv (RNode RB_BLACK (RNode RB_RED RNil (1::int) RNil) 2 RNil)"
    unfolding rb_inv_def by (auto intro: exI[of _ 1])
  show ?thesis using i rb_balanced[OF i, of "\<lambda>a b. a - b" "\<lambda>x. x" 0 "\<lambda>x. x = 1"] by (elim conjE) (intro conjI)
qed

text \<open>
  The iteration that starts at the leftmost node and follows successors visits every element once,
  in the order of the tree.
\<close>

theorem rb_foreach_visits: "rb_foreach t = inorder t"
  by (rule rb_foreach_inorder)

end
