(* ===== verification/Ldp_Util.thy ===== *)
theory Ldp_Util
  imports Ldp_Prelude
begin

text \<open>
  The address helpers of \<open>ldpd/util.c\<close>: netmasks and prefix lengths, comparison and masking of
  addresses, the martian tests, the embedded scope of link-local IPv6 addresses, and the
  conversion to and from socket addresses.

  The union \<open>ldpd_addr\<close> is its sixteen bytes of memory, kept as four 32-bit words; \<open>v4.s_addr\<close> is
  the first word and \<open>v6.s6_addr\<close> the bytes of all four.  The address family is a datatype of the
  two families the daemon runs, so the \<open>unknown af\<close> ends of the switches are excluded by typing;
  \<open>AF_UNSPEC\<close> is the value None where a caller may pass it.
\<close>

subsection \<open>Addresses\<close>

datatype af = AF_INET | AF_INET6

record ldpd_addr =
  a0 :: u32
  a1 :: u32
  a2 :: u32
  a3 :: u32

definition addr_zero :: ldpd_addr where
  "addr_zero = \<lparr>a0 = 0, a1 = 0, a2 = 0, a3 = 0\<rparr>"

definition v4_addr :: "u32 \<Rightarrow> ldpd_addr" where
  "v4_addr s = addr_zero\<lparr>a0 := s\<rparr>"

definition s6_addr :: "ldpd_addr \<Rightarrow> byte list" where
  "s6_addr a = le32 (a0 a) @ le32 (a1 a) @ le32 (a2 a) @ le32 (a3 a)"

fun of_s6_addr :: "byte list \<Rightarrow> ldpd_addr" where
  "of_s6_addr [b0, b1, b2, b3, b4, b5, b6, b7, b8, b9, b10, b11, b12, b13, b14, b15] =
     \<lparr>a0 = of_le32 b0 b1 b2 b3, a1 = of_le32 b4 b5 b6 b7,
      a2 = of_le32 b8 b9 b10 b11, a3 = of_le32 b12 b13 b14 b15\<rparr>"
| "of_s6_addr _ = addr_zero"

lemma length_s6_addr [simp]: "length (s6_addr a) = 16"
  by (simp add: s6_addr_def)

lemma of_s6_addr_s6_addr [simp]: "of_s6_addr (s6_addr a) = a"
  by (simp add: s6_addr_def le32_def)

lemma list_16_cases:
  assumes "length xs = 16"
  obtains b0 b1 b2 b3 b4 b5 b6 b7 b8 b9 b10 b11 b12 b13 b14 b15 where
    "xs = [b0, b1, b2, b3, b4, b5, b6, b7, b8, b9, b10, b11, b12, b13, b14, b15]"
  using assms by (auto simp: numeral_eq_Suc length_Suc_conv)

lemma s6_addr_of_s6_addr [simp]: "length bs = 16 \<Longrightarrow> s6_addr (of_s6_addr bs) = bs"
  by (erule list_16_cases) (simp add: s6_addr_def le32_def)

lemma s6_addr_inject [simp]: "s6_addr a = s6_addr b \<longleftrightarrow> a = b"
  by (metis of_s6_addr_s6_addr)

text \<open>\<open>memcmp\<close>; C fixes only the sign of the result.\<close>

fun memcmp :: "byte list \<Rightarrow> byte list \<Rightarrow> int" where
  "memcmp (x # xs) (y # ys) = (if x < y then -1 else if y < x then 1 else memcmp xs ys)"
| "memcmp _ _ = 0"

lemma memcmp_less: "length xs = length ys \<Longrightarrow> memcmp xs ys < 0 \<longleftrightarrow> xs < ys"
  by (induction xs ys rule: memcmp.induct) auto

lemma memcmp_greater: "length xs = length ys \<Longrightarrow> memcmp xs ys > 0 \<longleftrightarrow> ys < xs"
  by (induction xs ys rule: memcmp.induct) auto

subsection \<open>Netmasks\<close>

text \<open>\<open>ffs\<close>: one plus the index of the lowest set bit, 0 when there is none.\<close>

definition ffs :: "u32 \<Rightarrow> nat" where
  "ffs w = (case find (bit w) [0..<32] of None \<Rightarrow> 0 | Some i \<Rightarrow> Suc i)"

definition mask2prefixlen :: "u32 \<Rightarrow> u8" where
  "mask2prefixlen ina = (if ina = 0 then 0 else of_nat (33 - ffs (ntohl ina)))"

text \<open>The shift by \<open>32 - prefixlen\<close> is undefined once \<open>prefixlen\<close> exceeds 32.\<close>

definition prefixlen2mask :: "u8 \<Rightarrow> u32 result" where
  "prefixlen2mask prefixlen =
     (if prefixlen = 0 then Inr 0
      else if 32 < prefixlen then Inl Shift_out_of_range
      else Inr (htonl (push_bit (32 - unat prefixlen) 0xffffffff)))"

text \<open>\<open>0xff00 >> i\<close> stored in a byte.\<close>

definition mask_byte :: "nat \<Rightarrow> byte" where
  "mask_byte i = ucast (drop_bit i (0xff00 :: u32))"

text \<open>The sixteen bytes of the mask; past 128 the loop or the last store leaves the array.\<close>

definition mask6_bytes :: "nat \<Rightarrow> byte list result" where
  "mask6_bytes prefixlen =
     (if 128 < prefixlen then Inl Buffer_overflow
      else let mask = map (\<lambda>i. if i < prefixlen div 8 then 0xff else 0) [0..<16];
               i = prefixlen mod 8
           in Inr (if i \<noteq> 0 then mask[prefixlen div 8 := mask_byte i] else mask))"

definition prefixlen2mask6 :: "u8 \<Rightarrow> ldpd_addr result" where
  "prefixlen2mask6 prefixlen = and_then (mask6_bytes (unat prefixlen)) (\<lambda>m. Inr (of_s6_addr m))"

subsection \<open>Socket addresses\<close>

record sockaddr_in6 =
  sin6_port :: u16
  sin6_addr :: ldpd_addr
  sin6_scope_id :: u32

datatype sockaddr =
    Sa_in u16 u32            \<comment> \<open>\<open>sin_port\<close> and \<open>sin_addr\<close>\<close>
  | Sa_in6 sockaddr_in6

text \<open>
  Without a length field in the structure the length is that of the type, so the bytes between
  \<open>sin6_addr\<close> and the end are the address and the four bytes of \<open>sin6_scope_id\<close>.
\<close>

fun sockaddr_len :: "sockaddr \<Rightarrow> nat" where
  "sockaddr_len (Sa_in p a) = 16"
| "sockaddr_len (Sa_in6 s) = 28"

definition sin6_tail :: "sockaddr_in6 \<Rightarrow> byte list" where
  "sin6_tail sa = take (sockaddr_len (Sa_in6 sa) - 8) (s6_addr (sin6_addr sa) @ le32 (sin6_scope_id sa))"

fun mask2prefixlen6_loop :: "u8 \<Rightarrow> byte list \<Rightarrow> u8 result" where
  "mask2prefixlen6_loop l [] = Inr l"
| "mask2prefixlen6_loop l (b # bs) =
     (if b = 0xff then mask2prefixlen6_loop (l + 8) bs
      else if b = 0xfe then Inr (l + 7)
      else if b = 0xfc then Inr (l + 6)
      else if b = 0xf8 then Inr (l + 5)
      else if b = 0xf0 then Inr (l + 4)
      else if b = 0xe0 then Inr (l + 3)
      else if b = 0xc0 then Inr (l + 2)
      else if b = 0x80 then Inr (l + 1)
      else if b = 0 then Inr l
      else Inl (Fatal ''non contiguous inet6 netmask''))"

definition mask2prefixlen6 :: "sockaddr_in6 \<Rightarrow> u8 result" where
  "mask2prefixlen6 sa = mask2prefixlen6_loop 0 (sin6_tail sa)"

definition addr2sa :: "af \<Rightarrow> ldpd_addr \<Rightarrow> u16 \<Rightarrow> sockaddr" where
  "addr2sa af addr port =
     (case af of
        AF_INET \<Rightarrow> Sa_in (htons port) (a0 addr)
      | AF_INET6 \<Rightarrow>
          Sa_in6 \<lparr>sin6_port = htons port, sin6_addr = addr, sin6_scope_id = 0\<rparr>)"

text \<open>The port is handed back as it is stored, in network byte order.\<close>

fun sa2addr :: "sockaddr \<Rightarrow> af \<times> ldpd_addr \<times> u16" where
  "sa2addr (Sa_in port a) = (AF_INET, v4_addr a, port)"
| "sa2addr (Sa_in6 s) = (AF_INET6, sin6_addr s, sin6_port s)"

subsection \<open>Comparison and masking\<close>

definition ldp_applymask :: "af \<Rightarrow> ldpd_addr \<Rightarrow> ldpd_addr \<Rightarrow> u8 \<Rightarrow> ldpd_addr result" where
  "ldp_applymask af dest src prefixlen =
     (case af of
        AF_INET \<Rightarrow>
          and_then (prefixlen2mask prefixlen) (\<lambda>mask. Inr (dest\<lparr>a0 := a0 src AND mask\<rparr>))
      | AF_INET6 \<Rightarrow>
          and_then (mask6_bytes (unat prefixlen))
            (\<lambda>mask. Inr (of_s6_addr (map2 (AND) (s6_addr src) mask))))"

definition ldp_addrcmp :: "af \<Rightarrow> ldpd_addr \<Rightarrow> ldpd_addr \<Rightarrow> int" where
  "ldp_addrcmp af a b =
     (case af of
        AF_INET \<Rightarrow>
          if a0 a = a0 b then 0 else if ntohl (a0 b) < ntohl (a0 a) then 1 else -1
      | AF_INET6 \<Rightarrow> memcmp (s6_addr a) (s6_addr b))"

definition ldp_addrisset :: "af option \<Rightarrow> ldpd_addr \<Rightarrow> bool" where
  "ldp_addrisset af addr =
     (case af of
        None \<Rightarrow> False
      | Some AF_INET \<Rightarrow> a0 addr \<noteq> 0
      | Some AF_INET6 \<Rightarrow> addr \<noteq> addr_zero)"

text \<open>The loop over the whole bytes of a prefix: the difference of the first that differ.\<close>

fun bytes_diff :: "byte list \<Rightarrow> byte list \<Rightarrow> int option" where
  "bytes_diff (x # xs) (y # ys) =
     (if x \<noteq> y then Some (uint x - uint y) else bytes_diff xs ys)"
| "bytes_diff _ _ = None"

definition ldp_prefixcmp :: "af \<Rightarrow> ldpd_addr \<Rightarrow> ldpd_addr \<Rightarrow> u8 \<Rightarrow> int result" where
  "ldp_prefixcmp af a b prefixlen =
     (case af of
        AF_INET \<Rightarrow>
          if prefixlen = 0 then Inr 0
          else if 32 < prefixlen then Inl (Fatal ''ldp_prefixcmp: bad IPv4 prefixlen'')
          else and_then (prefixlen2mask prefixlen) (\<lambda>m.
            let mask = htonl m;
                aa = htonl (a0 a) AND mask;
                ba = htonl (a0 b) AND mask
            in Inr (sint (aa - ba)))
      | AF_INET6 \<Rightarrow>
          if prefixlen = 0 then Inr 0
          else if 128 < prefixlen then Inl (Fatal ''ldp_prefixcmp: bad IPv6 prefixlen'')
          else
            let n = unat prefixlen div 8; i = unat prefixlen mod 8
            in case bytes_diff (take n (s6_addr a)) (take n (s6_addr b)) of
                 Some d \<Rightarrow> Inr d
               | None \<Rightarrow>
                   if i \<noteq> 0
                   then let m = mask_byte i;
                            x = s6_addr a ! n AND m;
                            y = s6_addr b ! n AND m
                        in if x \<noteq> y then Inr (uint x - uint y) else Inr 0
                   else Inr 0)"

subsection \<open>Martian addresses\<close>

definition bad_addr_v4 :: "u32 \<Rightarrow> bool" where
  "bad_addr_v4 s_addr =
     (let a = ntohl s_addr in
        drop_bit 24 a = 0 \<or> drop_bit 24 a = 127 \<or>
        a AND 0xf0000000 = 0xe0000000 \<or> a AND 0xf0000000 = 0xf0000000)"

definition in6_unspecified :: "ldpd_addr \<Rightarrow> bool" where
  "in6_unspecified a \<longleftrightarrow> a0 a = 0 \<and> a1 a = 0 \<and> a2 a = 0 \<and> a3 a = 0"

definition in6_loopback :: "ldpd_addr \<Rightarrow> bool" where
  "in6_loopback a \<longleftrightarrow> a0 a = 0 \<and> a1 a = 0 \<and> a2 a = 0 \<and> a3 a = htonl 1"

definition in6_multicast :: "ldpd_addr \<Rightarrow> bool" where
  "in6_multicast a \<longleftrightarrow> s6_addr a ! 0 = 0xff"

definition in6_sitelocal :: "ldpd_addr \<Rightarrow> bool" where
  "in6_sitelocal a \<longleftrightarrow> a0 a AND htonl 0xffc00000 = htonl 0xfec00000"

definition in6_v4mapped :: "ldpd_addr \<Rightarrow> bool" where
  "in6_v4mapped a \<longleftrightarrow> a0 a = 0 \<and> a1 a = 0 \<and> a2 a = htonl 0xffff"

definition in6_v4compat :: "ldpd_addr \<Rightarrow> bool" where
  "in6_v4compat a \<longleftrightarrow> a0 a = 0 \<and> a1 a = 0 \<and> a2 a = 0 \<and> ntohl (a3 a) > 1"

definition bad_addr_v6 :: "ldpd_addr \<Rightarrow> bool" where
  "bad_addr_v6 a \<longleftrightarrow>
     in6_unspecified a \<or> in6_loopback a \<or> in6_multicast a \<or> in6_sitelocal a \<or>
     in6_v4mapped a \<or> in6_v4compat a"

definition bad_addr :: "af \<Rightarrow> ldpd_addr \<Rightarrow> bool" where
  "bad_addr af addr = (case af of AF_INET \<Rightarrow> bad_addr_v4 (a0 addr) | AF_INET6 \<Rightarrow> bad_addr_v6 addr)"

subsection \<open>Embedded scopes\<close>

definition in6_linklocal :: "ldpd_addr \<Rightarrow> bool" where
  "in6_linklocal a \<longleftrightarrow> a0 a AND htonl 0xffc00000 = htonl 0xfe800000"

definition in6_mc_scope :: "ldpd_addr \<Rightarrow> byte \<Rightarrow> bool" where
  "in6_mc_scope a scope \<longleftrightarrow> in6_multicast a \<and> s6_addr a ! 1 AND 0x0f = scope"

text \<open>\<open>IN6_IS_SCOPE_EMBED\<close>: link-local, link-local multicast or interface-local multicast.\<close>

definition in6_is_scope_embed :: "ldpd_addr \<Rightarrow> bool" where
  "in6_is_scope_embed a \<longleftrightarrow> in6_linklocal a \<or> in6_mc_scope a 2 \<or> in6_mc_scope a 1"

text \<open>Bytes 2 and 3 of the address, where the scope is embedded in network byte order.\<close>

definition put_scope :: "ldpd_addr \<Rightarrow> u16 \<Rightarrow> ldpd_addr" where
  "put_scope a w = of_s6_addr ((s6_addr a)[2 := be16 w ! 0, 3 := be16 w ! 1])"

definition get_scope :: "ldpd_addr \<Rightarrow> u16" where
  "get_scope a = of_be16 (s6_addr a ! 2) (s6_addr a ! 3)"



definition addscope :: "sockaddr_in6 \<Rightarrow> u32 \<Rightarrow> sockaddr_in6" where
  "addscope s i = (if in6_is_scope_embed (sin6_addr s) then s\<lparr>sin6_scope_id := i\<rparr> else s)"

definition clearscope :: "ldpd_addr \<Rightarrow> ldpd_addr" where
  "clearscope a = (if in6_is_scope_embed a then put_scope a 0 else a)"

subsection \<open>Finite case analysis on bytes\<close>

lemma u8_all_below:
  assumes "list_all P (map of_nat [0..<n])" and "unat (b :: u8) < n"
  shows "P b"
proof -
  have "\<forall>k \<in> {0..<n}. P (of_nat k)" using assms(1) by (simp add: list_all_iff)
  then have "P (of_nat (unat b))" using assms(2) atLeastLessThan_iff by blast
  then show ?thesis by simp
qed

lemma bit_unat: "bit (b::byte) n \<longleftrightarrow> odd (unat b div 2 ^ n)"
  using bit_unsigned_iff[of b n, where 'a = nat] bit_imp_le_length[of b n] bit_iff_odd[of "unat b" n]
  by auto

lemma odd_div_8:
  fixes k :: nat
  assumes "k < 8"
  shows "odd (k div 4) \<and> odd (k div 2) \<and> odd k \<longleftrightarrow> k = 7"
proof -
  from assms have "k = 0 \<or> k = 1 \<or> k = 2 \<or> k = 3 \<or> k = 4 \<or> k = 5 \<or> k = 6 \<or> k = 7" by linarith
  then show ?thesis by (elim disjE) simp_all
qed

lemma byte_class_de: "(bit b 7 \<and> bit b 6 \<and> bit b 5) = (224 \<le> (b::byte))"
proof -
  have "unat b < 256" using unsigned_less[of b, where 'a = nat] by simp
  then have "unat b div 32 < 8" and ge: "224 \<le> unat b \<longleftrightarrow> unat b div 32 = 7" by auto
  from odd_div_8[OF this(1)]
  show ?thesis by (simp add: word_le_nat_alt bit_unat ge flip: div_mult2_eq)
qed

lemma class_de:
  fixes w :: u32
  shows "w AND 0xf0000000 = 0xe0000000 \<or> w AND 0xf0000000 = 0xf0000000 \<longleftrightarrow>
     bit w 31 \<and> bit w 30 \<and> bit w 29"
proof -
  have m: "(0xf0000000::u32) = NOT (mask 28)" "(0xe0000000::u32) = NOT (mask 29)"
    by (simp_all add: mask_eq_exp_minus_1)
  have n: "\<not> n < 28 \<Longrightarrow> n < 29 \<Longrightarrow> n = 28" "\<not> n < 28 \<Longrightarrow> n < 32 \<Longrightarrow> n = 28 \<or> n = 29 \<or> n = 30 \<or> n = 31"
    "\<not> n < 29 \<Longrightarrow> n < 32 \<Longrightarrow> n = 29 \<or> n = 30 \<or> n = 31" for n :: nat by linarith+
  have 1: "w AND NOT (mask 28) = NOT (mask 29) \<longleftrightarrow> bit w 31 \<and> bit w 30 \<and> bit w 29 \<and> \<not> bit w 28"
    by (auto simp: bit_eq_iff bit_simps dest: n spec[of _ 31] spec[of _ 30] spec[of _ 29] spec[of _ 28])
  have 2: "w AND NOT (mask 28) = NOT (mask 28) \<longleftrightarrow> bit w 31 \<and> bit w 30 \<and> bit w 29 \<and> bit w 28"
    by (auto simp: bit_eq_iff bit_simps dest: n spec[of _ 31] spec[of _ 30] spec[of _ 29] spec[of _ 28])
  show ?thesis unfolding m 1 2 by blast
qed

lemma ntohl_top: "drop_bit 24 (ntohl s) = ucast (ucast s :: byte)"
  unfolding ntohl_def of_be32_def of_le32_def by (rule bit_word_eqI) (auto simp: bit_simps)

lemma ntohl_bit_top: "i < 8 \<Longrightarrow> bit (ntohl s) (24 + i) = bit (ucast s :: byte) i"
  using ntohl_top[of s] by (auto simp: bit_eq_iff bit_simps)

lemma uint_ucast_byte: "uint (ucast (b::byte) :: u32) = uint b"
proof -
  have "uint b < 2 ^ 32" by (rule lt2p_lem) simp
  then show ?thesis by (simp add: unsigned_ucast_eq take_bit_int_eq_self)
qed

lemma byte_ucast_class:
  "((ucast (b::byte) :: u32) = 0) = (b = 0)" "((ucast b :: u32) = 127) = (b = 127)"
  by (simp_all add: word_uint_eq_iff uint_ucast_byte)

subsection \<open>Masks and prefixes\<close>

lemma ntohl_and: "ntohl (x AND y) = ntohl x AND ntohl y"
  by (rule le32_inject[THEN iffD1])
     (simp add: le32_def ntohl_def of_be32_def unsigned_and_eq drop_bit_and)

lemma bytes_diff_None:
  "length xs = length ys \<Longrightarrow> bytes_diff xs ys = None \<longleftrightarrow> xs = ys"
  by (induction xs ys rule: bytes_diff.induct) auto

lemma bytes_diff_nonzero: "bytes_diff xs ys \<noteq> Some 0"
  by (induction xs ys rule: bytes_diff.induct) (auto simp: word_uint_eq_iff)

lemma sint_eq_0 [simp]: "sint (w :: u32) = 0 \<longleftrightarrow> w = 0"
  using signed_word_eqI[of w 0] by auto

lemma a0_update_eq [simp]: "d\<lparr>a0 := x\<rparr> = d\<lparr>a0 := y\<rparr> \<longleftrightarrow> x = y"
  by (cases d) simp

lemma prefixcmp_v4:
  assumes "p \<le> 32"
  shows "ldp_prefixcmp AF_INET a b p = Inr 0 \<longleftrightarrow>
         ldp_applymask AF_INET d a p = ldp_applymask AF_INET d b p"
proof -
  from assms have "\<not> 32 < p" by simp
  then obtain m where m: "prefixlen2mask p = Inr m" and "p = 0 \<longrightarrow> m = 0"
    by (cases "p = 0") (auto simp: prefixlen2mask_def)
  then show ?thesis using assms
    by (cases "p = 0") (auto simp: ldp_prefixcmp_def ldp_applymask_def Let_def ntohl_and[symmetric])
qed

lemma mask6_nth:
  assumes "p \<le> 128"
  obtains m where "mask6_bytes p = Inr m" and "length m = 16"
    and "\<And>j. j < 16 \<Longrightarrow> m ! j = (if j < p div 8 then 0xff else if j = p div 8 \<and> p mod 8 \<noteq> 0 then mask_byte (p mod 8) else 0)"
  using assms by (auto simp: mask6_bytes_def Let_def nth_list_update)

lemma byte_and_ff [simp]: "(b::byte) AND 0xff = b"
proof -
  have "(0xff::byte) = -1" by simp
  then show ?thesis by (simp only: and.right_neutral)
qed

lemma of_s6_addr_eq_iff:
  "length xs = 16 \<Longrightarrow> length ys = 16 \<Longrightarrow> of_s6_addr xs = of_s6_addr ys \<longleftrightarrow> xs = ys"
  by (metis s6_addr_of_s6_addr)

lemma masked_bytes_eq:
  assumes "length A = 16" "length B = 16" "p \<le> 128" "mask6_bytes p = Inr m"
  shows "map2 (AND) A m = map2 (AND) B m \<longleftrightarrow>
     take (p div 8) A = take (p div 8) B \<and>
     (p mod 8 \<noteq> 0 \<longrightarrow> A ! (p div 8) AND mask_byte (p mod 8) = B ! (p div 8) AND mask_byte (p mod 8))"
proof -
  obtain m' where m': "mask6_bytes p = Inr m'" "length m' = 16" 
    "\<And>j. j < 16 \<Longrightarrow> m' ! j = (if j < p div 8 then 0xff else if j = p div 8 \<and> p mod 8 \<noteq> 0 then mask_byte (p mod 8) else 0)"
    using mask6_nth[OF assms(3)] by blast
  with assms(4) have m: "m' = m" by simp
  have n: "p div 8 \<le> 16" "p mod 8 \<noteq> 0 \<Longrightarrow> p div 8 < 16" using assms(3) by presburger+
  have "map2 (AND) A m = map2 (AND) B m \<longleftrightarrow> (\<forall>j < 16. A ! j AND m ! j = B ! j AND m ! j)"
    using assms m' m by (simp add: list_eq_iff_nth_eq)
  also have "\<dots> \<longleftrightarrow> (\<forall>j < p div 8. A ! j = B ! j) \<and>
     (p mod 8 \<noteq> 0 \<longrightarrow> A ! (p div 8) AND mask_byte (p mod 8) = B ! (p div 8) AND mask_byte (p mod 8))"
    using m' m n by (auto split: if_splits)
  also have "(\<forall>j < p div 8. A ! j = B ! j) \<longleftrightarrow> take (p div 8) A = take (p div 8) B"
    using assms n by (simp add: list_eq_iff_nth_eq)
  finally show ?thesis .
qed

lemma prefixcmp_v6:
  assumes "p \<le> 128"
  shows "ldp_prefixcmp AF_INET6 a b p = Inr 0 \<longleftrightarrow>
         ldp_applymask AF_INET6 d a p = ldp_applymask AF_INET6 d b p"
proof -
  have n: "unat p \<le> 128" using assms by (simp add: word_le_nat_alt)
  obtain m where m: "mask6_bytes (unat p) = Inr m" "length m = 16" using mask6_nth[OF n] by blast
  have z: "p = 0 \<Longrightarrow> unat p div 8 = 0 \<and> unat p mod 8 = 0" by simp
  have "ldp_applymask AF_INET6 d a p = ldp_applymask AF_INET6 d b p \<longleftrightarrow>
     map2 (AND) (s6_addr a) m = map2 (AND) (s6_addr b) m"
    using m by (simp add: ldp_applymask_def of_s6_addr_eq_iff)
  moreover have "ldp_prefixcmp AF_INET6 a b p = Inr 0 \<longleftrightarrow> take (unat p div 8) (s6_addr a) = take (unat p div 8) (s6_addr b) \<and>
     (unat p mod 8 \<noteq> 0 \<longrightarrow> s6_addr a ! (unat p div 8) AND mask_byte (unat p mod 8) = s6_addr b ! (unat p div 8) AND mask_byte (unat p mod 8))"
  proof (cases "p = 0")
    case True
    then show ?thesis by (simp add: ldp_prefixcmp_def)
  next
    case False
    show ?thesis
    proof (cases "bytes_diff (take (unat p div 8) (s6_addr a)) (take (unat p div 8) (s6_addr b))")
      case None
      moreover have "take (unat p div 8) (s6_addr a) = take (unat p div 8) (s6_addr b)"
        using None by (simp add: bytes_diff_None)
      ultimately show ?thesis using False assms
        by (auto simp: ldp_prefixcmp_def Let_def not_le word_uint_eq_iff)
    next
      case (Some k)
      then show ?thesis using False assms bytes_diff_nonzero bytes_diff_None[of "take (unat p div 8) (s6_addr a)" "take (unat p div 8) (s6_addr b)"]
        by (auto simp: ldp_prefixcmp_def Let_def)
    qed
  qed
  ultimately show ?thesis using masked_bytes_eq[OF _ _ n m(1)] by simp
qed

subsection \<open>Scopes\<close>

lemma get_put_scope [simp]: "get_scope (put_scope a w) = w"
  by (simp add: get_scope_def put_scope_def be16_def)

lemma put_put_scope [simp]: "put_scope (put_scope a v) w = put_scope a w"
  by (simp add: put_scope_def list_update_swap[of 3 2])


lemma put_scope_bytes [simp]: "s6_addr (put_scope a w) ! 0 = s6_addr a ! 0" "s6_addr (put_scope a w) ! Suc 0 = s6_addr a ! Suc 0"
  by (simp_all add: put_scope_def)

lemma of_le32_low: "take_bit 16 (of_le32 b0 b1 c d) = take_bit 16 (of_le32 b0 b1 c' d')"
  unfolding of_le32_def by (rule bit_word_eqI) (auto simp: bit_simps)

lemma put_scope_a0: "take_bit 16 (a0 (put_scope a w)) = take_bit 16 (a0 a)"
proof -
  have "a0 (put_scope a w) = of_le32 (ucast (a0 a)) (ucast (drop_bit 8 (a0 a))) (be16 w ! 0) (be16 w ! 1)"
    by (simp add: put_scope_def s6_addr_def le32_def eval_nat_numeral)
  then show ?thesis using of_le32_low of_le32_bytes by metis
qed

lemma in6_linklocal_low: "in6_linklocal a \<longleftrightarrow> take_bit 16 (a0 a) AND 0xc0ff = 0x80fe"
proof -
  have h: "htonl 0xffc00000 = 0xc0ff" "htonl 0xfe800000 = 0x80fe"
    by (simp_all add: ntohl_def of_be32_def of_le32_def)
  have "take_bit 16 (a0 a) AND 0xc0ff = a0 a AND (mask 16 AND 0xc0ff)"
    by (simp only: take_bit_eq_mask and.assoc)
  then show ?thesis by (simp add: in6_linklocal_def h mask_eq_exp_minus_1)
qed

lemma scope_embed_put [simp]: "in6_is_scope_embed (put_scope a w) = in6_is_scope_embed a"
  by (simp add: in6_is_scope_embed_def in6_linklocal_low in6_mc_scope_def in6_multicast_def put_scope_a0)

subsection \<open>Netmask round trips\<close>

lemma find_upt:
  assumes "P k" and "k < n" and "\<And>i. i < k \<Longrightarrow> \<not> P i"
  shows "find P [0..<n] = Some k"
proof -
  have "[0..<n] = [0..<k] @ k # [Suc k..<n]" 
    using assms(2) upt_add_eq_append[of 0 k "n - k"] by (simp add: upt_conv_Cons)
  moreover have "find P ([0..<k] @ k # xs) = Some k" for xs
    using assms(1,3) by (simp add: find_append find_None_none[THEN iffD2])
  ultimately show ?thesis by simp
qed

lemma mask2prefixlen_shift:
  assumes "k < 32"
  shows "mask2prefixlen (htonl (push_bit k 0xffffffff)) = of_nat (32 - k)"
proof -
  let ?w = "push_bit k (0xffffffff :: u32)"
  have "(0xffffffff :: u32) = -1" by simp
  then have b: "bit ?w i \<longleftrightarrow> k \<le> i \<and> i < 32" for i by (simp only:) (auto simp: bit_simps)
  have "find (bit ?w) [0..<32] = Some k" by (rule find_upt) (use assms b in auto)
  moreover have "ntohl ?w \<noteq> 0"
  proof
    assume "ntohl ?w = 0"
    then have "?w = ntohl 0" by (metis ntohl_ntohl)
    then show False using b[of 31] assms by (simp add: ntohl_def of_be32_def of_le32_def)
  qed
  ultimately show ?thesis by (simp add: mask2prefixlen_def ffs_def)
qed

lemma mask2prefixlen6_ones:
  "mask2prefixlen6_loop l (replicate n 0xff @ bs) = mask2prefixlen6_loop (l + of_nat (8 * n)) bs"
  by (induction n arbitrary: l) (simp_all add: algebra_simps)

lemma mask_byte_prefixlen:
  assumes "0 < i" and "i < 8"
  shows "mask2prefixlen6_loop l (mask_byte i # bs) = Inr (l + of_nat i)"
proof -
  from assms have "i = 1 \<or> i = 2 \<or> i = 3 \<or> i = 4 \<or> i = 5 \<or> i = 6 \<or> i = 7" by linarith
  then show ?thesis by (elim disjE) (simp_all add: mask_byte_def)
qed

lemma mask6_bytes_shape:
  assumes "p \<le> 128" and "mask6_bytes p = Inr m"
  shows "m = replicate (p div 8) 0xff @
     (if p mod 8 = 0 then replicate (16 - p div 8) 0
      else mask_byte (p mod 8) # replicate (15 - p div 8) 0)"
proof (rule nth_equalityI)
  obtain m' where m': "mask6_bytes p = Inr m'" "length m' = 16"
    "\<And>j. j < 16 \<Longrightarrow> m' ! j = (if j < p div 8 then 0xff else if j = p div 8 \<and> p mod 8 \<noteq> 0 then mask_byte (p mod 8) else 0)"
    using mask6_nth[OF assms(1)] by blast
  with assms(2) have m: "m' = m" by simp
  have n: "p div 8 \<le> 16" "p mod 8 \<noteq> 0 \<Longrightarrow> p div 8 < 16" using assms(1) by presburger+
  show "length m = length (replicate (p div 8) 0xff @
     (if p mod 8 = 0 then replicate (16 - p div 8) 0
      else mask_byte (p mod 8) # replicate (15 - p div 8) 0))"
    using m' m n by (simp split: if_split) linarith
  fix j assume "j < length m"
  then have j: "j < 16" using m' m by simp
  show "m ! j = (replicate (p div 8) 0xff @
     (if p mod 8 = 0 then replicate (16 - p div 8) 0
      else mask_byte (p mod 8) # replicate (15 - p div 8) 0)) ! j"
    using m'(3)[OF j] m n j by (simp add: nth_append nth_Cons split: if_split nat.split)
qed

lemma mask6_prefixlen:
  assumes "p \<le> 128" and "mask6_bytes p = Inr m"
  shows "mask2prefixlen6_loop 0 (m @ [0, 0, 0, 0]) = Inr (of_nat p)"
proof (cases "p mod 8 = 0")
  case True
  have z: "mask2prefixlen6_loop l (replicate k 0 @ [0, 0, 0, 0]) = Inr l" for l k by (cases k) simp_all
  have "8 * (p div 8) = p" using True by presburger
  then show ?thesis using True by (simp only: mask6_bytes_shape[OF assms] append.assoc mask2prefixlen6_ones) (simp add: z)
next
  case False
  have "8 * (p div 8) + p mod 8 = p" by simp
  then show ?thesis using False mask_byte_prefixlen[of "p mod 8" "of_nat (8 * (p div 8))" "replicate (15 - p div 8) 0 @ [0, 0, 0, 0]"]
    by (simp add: mask6_bytes_shape[OF assms] mask2prefixlen6_ones del: of_nat_mult of_nat_add flip: of_nat_add)
qed

subsection \<open>Properties\<close>

text \<open>
  C35: the netmask of every IPv4 prefix length up to 32 is defined, and reading the prefix length
  back from it gives the length it was made from.
\<close>

theorem prefixlen_mask_roundtrip:
  assumes "p \<le> 32"
  shows "\<exists>m. prefixlen2mask p = Inr m \<and> mask2prefixlen m = p"
proof (cases "p = 0")
  case True
  then show ?thesis by (simp add: prefixlen2mask_def mask2prefixlen_def)
next
  case False
  have "unat p \<le> 32" "unat p \<noteq> 0" using assms False by (simp_all add: word_le_nat_alt unat_eq_0)
  then show ?thesis using assms False mask2prefixlen_shift[of "32 - unat p"]
    by (simp add: prefixlen2mask_def linorder_not_less[THEN iffD2])
qed

theorem prefixlen_mask_roundtrip_witness:
  "\<exists>m. prefixlen2mask 24 = Inr m \<and> mask2prefixlen m = 24"
  by (rule prefixlen_mask_roundtrip) simp

text \<open>
  C36: the IPv6 netmask of every prefix length up to 128, put in a socket address with a zero
  scope, reads back as the length it was made from.
\<close>

theorem prefixlen_mask6_roundtrip:
  assumes "p \<le> 128"
  shows "\<exists>m. prefixlen2mask6 p = Inr m \<and>
     mask2prefixlen6 \<lparr>sin6_port = port, sin6_addr = m, sin6_scope_id = 0\<rparr> = Inr p"
proof -
  have n: "unat p \<le> 128" using assms by (simp add: word_le_nat_alt)
  obtain m where m: "mask6_bytes (unat p) = Inr m" "length m = 16" using mask6_nth[OF n] by blast
  have "le32 0 = [0, 0, 0, 0]" by (simp add: le32_def)
  then show ?thesis using m mask6_prefixlen[OF n m(1)]
    by (simp add: prefixlen2mask6_def mask2prefixlen6_def sin6_tail_def)
qed

theorem prefixlen_mask6_roundtrip_witness:
  "\<exists>m. prefixlen2mask6 61 = Inr m \<and>
     mask2prefixlen6 \<lparr>sin6_port = 646, sin6_addr = m, sin6_scope_id = 0\<rparr> = Inr 61"
  by (rule prefixlen_mask6_roundtrip) simp

text \<open>
  C37: comparing two addresses under a prefix length answers 0 exactly when masking them with that
  length gives the same address, for both families and every length the family allows.
\<close>

theorem prefixcmp_iff_applymask:
  assumes "p \<le> (case af of AF_INET \<Rightarrow> 32 | AF_INET6 \<Rightarrow> 128)"
  shows "ldp_prefixcmp af a b p = Inr 0 \<longleftrightarrow> ldp_applymask af d a p = ldp_applymask af d b p"
  using assms prefixcmp_v4 prefixcmp_v6 by (cases af) simp_all

theorem prefixcmp_iff_applymask_witness:
  "ldp_prefixcmp AF_INET (v4_addr 0x0100000a) (v4_addr 0x0200000a) 24 = Inr 0 \<longleftrightarrow>
   ldp_applymask AF_INET addr_zero (v4_addr 0x0100000a) 24 =
   ldp_applymask AF_INET addr_zero (v4_addr 0x0200000a) 24"
  by (rule prefixcmp_iff_applymask) simp

text \<open>
  The IPv4 martian test rejects exactly the addresses whose first octet is 0, 127 or at least
  224 (this network, loopback, multicast and the reserved class).
\<close>

theorem bad_addr_v4_octet:
  "bad_addr_v4 s \<longleftrightarrow> (let o1 = ucast s :: byte in o1 = 0 \<or> o1 = 127 \<or> 224 \<le> o1)"
  using ntohl_bit_top[of 7 s] ntohl_bit_top[of 6 s] ntohl_bit_top[of 5 s]
  by (simp add: bad_addr_v4_def Let_def ntohl_top class_de byte_class_de[symmetric] byte_ucast_class)



end
