(* ===== verification/Lde_Fec.thy ===== *)
theory Lde_Fec
  imports Rb_Tree Ldp_Util
begin

text \<open>
  Forwarding equivalence classes and label maps, the keys and the payload of the label decision
  engine: \<open>struct fec\<close> and \<open>struct label_nbr\<close> of \<open>ldpd/lde.h\<close>, \<open>struct map\<close> of \<open>ldpd/ldpd.h\<close>, the
  comparison functions of the three trees the engine keeps (\<open>fec_compare\<close> of \<open>lde_lib.c\<close>,
  \<open>label_nbr_compare\<close> and \<open>lde_nbr_compare\<close> of \<open>lde.c\<close>) and the conversions \<open>lde_fec2map\<close> and
  \<open>lde_map2fec\<close>.

  The union of \<open>struct fec\<close> is kept as its twenty bytes of memory in five words, named after their
  offsets, because the engine reads a member other than the one it wrote (\<open>u.ipv4.prefix\<close> of any
  FEC, \<open>u.pwid.lsr_id\<close> of a prefix FEC).  The union of \<open>struct map\<close> is only ever read by the member
  the map's type selects, so its members are separate fields.

  The interpretations show that \<open>fec_compare\<close> and \<open>label_nbr_compare\<close> order the trees by a key on
  all values, and \<open>lde_nbr_compare\<close>, which subtracts unsigned peer ids into an int, on peer ids
  below \<open>2^31\<close>.
\<close>

subsection \<open>Constants\<close>

definition NO_LABEL :: u32 where "NO_LABEL = 0xffffffff"
definition MPLS_LABEL_IPV4NULL :: u32 where "MPLS_LABEL_IPV4NULL = 0"
definition MPLS_LABEL_IPV6NULL :: u32 where "MPLS_LABEL_IPV6NULL = 2"
definition MPLS_LABEL_IMPLNULL :: u32 where "MPLS_LABEL_IMPLNULL = 3"
definition MPLS_LABEL_RESERVED_MAX :: u32 where "MPLS_LABEL_RESERVED_MAX = 15"
definition MPLS_LABEL_MAX :: u32 where "MPLS_LABEL_MAX = 0xfffff"

abbreviation MAP_TYPE_WILDCARD :: u8 where "MAP_TYPE_WILDCARD \<equiv> 0x01"
abbreviation MAP_TYPE_PREFIX :: u8 where "MAP_TYPE_PREFIX \<equiv> 0x02"
abbreviation MAP_TYPE_PWID :: u8 where "MAP_TYPE_PWID \<equiv> 0x80"
abbreviation AF_IPV4 :: u16 where "AF_IPV4 \<equiv> 1"
abbreviation AF_IPV6 :: u16 where "AF_IPV6 \<equiv> 2"

abbreviation F_MAP_REQ_ID :: u8 where "F_MAP_REQ_ID \<equiv> 0x01"
abbreviation F_MAP_STATUS :: u8 where "F_MAP_STATUS \<equiv> 0x02"
abbreviation F_MAP_PW_CWORD :: u8 where "F_MAP_PW_CWORD \<equiv> 0x04"
abbreviation F_MAP_PW_ID :: u8 where "F_MAP_PW_ID \<equiv> 0x08"
abbreviation F_MAP_PW_IFMTU :: u8 where "F_MAP_PW_IFMTU \<equiv> 0x10"
abbreviation F_MAP_PW_STATUS :: u8 where "F_MAP_PW_STATUS \<equiv> 0x20"

subsection \<open>FECs\<close>

datatype fec_type = FEC_TYPE_IPV4 | FEC_TYPE_IPV6 | FEC_TYPE_PWID

fun fec_type_num :: "fec_type \<Rightarrow> nat" where
  "fec_type_num FEC_TYPE_IPV4 = 0"
| "fec_type_num FEC_TYPE_IPV6 = 1"
| "fec_type_num FEC_TYPE_PWID = 2"

instantiation fec_type :: linorder
begin

definition less_eq_fec_type :: "fec_type \<Rightarrow> fec_type \<Rightarrow> bool" where
  "less_eq_fec_type a b \<longleftrightarrow> fec_type_num a \<le> fec_type_num b"

definition less_fec_type :: "fec_type \<Rightarrow> fec_type \<Rightarrow> bool" where
  "less_fec_type a b \<longleftrightarrow> fec_type_num a < fec_type_num b"

instance
proof
  fix x y :: fec_type
  show "x \<le> y \<Longrightarrow> y \<le> x \<Longrightarrow> x = y"
    by (cases x; cases y) (simp_all add: less_eq_fec_type_def)
qed (auto simp: less_eq_fec_type_def less_fec_type_def)

end

record fec =
  ftype :: fec_type
  w0 :: u32
  w4 :: u32
  w8 :: u32
  w12 :: u32
  w16 :: u32

definition ipv4_prefixlen :: "fec \<Rightarrow> u8" where "ipv4_prefixlen f = ucast (w0 f)"
definition ipv4_prefix :: "fec \<Rightarrow> u32" where "ipv4_prefix f = w4 f"
definition ipv6_prefix :: "fec \<Rightarrow> ldpd_addr" where
  "ipv6_prefix f = \<lparr>a0 = w0 f, a1 = w4 f, a2 = w8 f, a3 = w12 f\<rparr>"
definition ipv6_prefixlen :: "fec \<Rightarrow> u8" where "ipv6_prefixlen f = ucast (w16 f)"
definition pwid_type :: "fec \<Rightarrow> u16" where "pwid_type f = ucast (w0 f)"
definition pwid_pwid :: "fec \<Rightarrow> u32" where "pwid_pwid f = w4 f"
definition pwid_lsr_id :: "fec \<Rightarrow> u32" where "pwid_lsr_id f = w8 f"

lemmas fec_fields = ipv4_prefixlen_def ipv4_prefix_def ipv6_prefix_def ipv6_prefixlen_def
  pwid_type_def pwid_pwid_def pwid_lsr_id_def

definition fec_zero :: fec where
  "fec_zero = \<lparr>ftype = FEC_TYPE_IPV4, w0 = 0, w4 = 0, w8 = 0, w12 = 0, w16 = 0\<rparr>"

text \<open>Stores into one member: the other bytes of the union keep what they held.\<close>

definition put_low8 :: "u32 \<Rightarrow> u8 \<Rightarrow> u32" where
  "put_low8 w b = (w AND NOT 0xff) OR ucast b"

definition put_low16 :: "u32 \<Rightarrow> u16 \<Rightarrow> u32" where
  "put_low16 w h = (w AND NOT 0xffff) OR ucast h"

definition set_ipv4 :: "u32 \<Rightarrow> u8 \<Rightarrow> fec \<Rightarrow> fec" where
  "set_ipv4 prefix prefixlen f = f\<lparr>ftype := FEC_TYPE_IPV4, w4 := prefix, w0 := put_low8 (w0 f) prefixlen\<rparr>"

definition set_ipv6 :: "ldpd_addr \<Rightarrow> u8 \<Rightarrow> fec \<Rightarrow> fec" where
  "set_ipv6 prefix prefixlen f =
     f\<lparr>ftype := FEC_TYPE_IPV6, w0 := a0 prefix, w4 := a1 prefix, w8 := a2 prefix, w12 := a3 prefix,
       w16 := put_low8 (w16 f) prefixlen\<rparr>"

definition set_pwid :: "u16 \<Rightarrow> u32 \<Rightarrow> u32 \<Rightarrow> fec \<Rightarrow> fec" where
  "set_pwid type pwid lsr_id f =
     f\<lparr>ftype := FEC_TYPE_PWID, w0 := put_low16 (w0 f) type, w4 := pwid, w8 := lsr_id\<rparr>"

definition fec_compare :: "fec \<Rightarrow> fec \<Rightarrow> int" where
  "fec_compare a b =
     (if ftype a < ftype b then -1
      else if ftype a > ftype b then 1
      else case ftype a of
        FEC_TYPE_IPV4 \<Rightarrow>
          if ntohl (ipv4_prefix a) < ntohl (ipv4_prefix b) then -1
          else if ntohl (ipv4_prefix a) > ntohl (ipv4_prefix b) then 1
          else if ipv4_prefixlen a < ipv4_prefixlen b then -1
          else if ipv4_prefixlen a > ipv4_prefixlen b then 1
          else 0
      | FEC_TYPE_IPV6 \<Rightarrow>
          if memcmp (s6_addr (ipv6_prefix a)) (s6_addr (ipv6_prefix b)) < 0 then -1
          else if memcmp (s6_addr (ipv6_prefix a)) (s6_addr (ipv6_prefix b)) > 0 then 1
          else if ipv6_prefixlen a < ipv6_prefixlen b then -1
          else if ipv6_prefixlen a > ipv6_prefixlen b then 1
          else 0
      | FEC_TYPE_PWID \<Rightarrow>
          if pwid_type a < pwid_type b then -1
          else if pwid_type a > pwid_type b then 1
          else if pwid_pwid a < pwid_pwid b then -1
          else if pwid_pwid a > pwid_pwid b then 1
          else if ntohl (pwid_lsr_id a) < ntohl (pwid_lsr_id b) then -1
          else if ntohl (pwid_lsr_id a) > ntohl (pwid_lsr_id b) then 1
          else 0)"

subsection \<open>Maps\<close>

record map_tlv =
  m_type :: u8
  m_msg_id :: u32
  m_prefix_af :: u16
  m_prefixlen :: u8
  m_prefix :: ldpd_addr
  m_pw_type :: u16
  m_pwid :: u32
  m_group_id :: u32
  m_ifmtu :: u16
  m_st_status_code :: u32
  m_st_msg_id :: u32
  m_st_msg_type :: u16
  m_label :: u32
  m_requestid :: u32
  m_pw_status :: u32
  m_flags :: u8

definition map_zero :: map_tlv where
  "map_zero = \<lparr>m_type = 0, m_msg_id = 0, m_prefix_af = 0, m_prefixlen = 0, m_prefix = addr_zero,
     m_pw_type = 0, m_pwid = 0, m_group_id = 0, m_ifmtu = 0, m_st_status_code = 0, m_st_msg_id = 0,
     m_st_msg_type = 0, m_label = 0, m_requestid = 0, m_pw_status = 0, m_flags = 0\<rparr>"

definition lde_fec2map :: "fec \<Rightarrow> map_tlv" where
  "lde_fec2map f =
     (case ftype f of
        FEC_TYPE_IPV4 \<Rightarrow>
          map_zero\<lparr>m_type := MAP_TYPE_PREFIX, m_prefix_af := AF_IPV4,
            m_prefix := v4_addr (ipv4_prefix f), m_prefixlen := ipv4_prefixlen f\<rparr>
      | FEC_TYPE_IPV6 \<Rightarrow>
          map_zero\<lparr>m_type := MAP_TYPE_PREFIX, m_prefix_af := AF_IPV6,
            m_prefix := ipv6_prefix f, m_prefixlen := ipv6_prefixlen f\<rparr>
      | FEC_TYPE_PWID \<Rightarrow>
          map_zero\<lparr>m_type := MAP_TYPE_PWID, m_pw_type := pwid_type f, m_group_id := 0,
            m_flags := F_MAP_PW_ID, m_pwid := pwid_pwid f\<rparr>)"

definition lde_map2fec :: "map_tlv \<Rightarrow> u32 \<Rightarrow> fec result" where
  "lde_map2fec m lsr_id =
     (if m_type m = MAP_TYPE_PREFIX then
        (if m_prefix_af m = AF_IPV4
         then Inr (set_ipv4 (a0 (m_prefix m)) (m_prefixlen m) fec_zero)
         else if m_prefix_af m = AF_IPV6
         then Inr (set_ipv6 (m_prefix m) (m_prefixlen m) fec_zero)
         else Inl (Fatal ''lde_map2fec: unknown af''))
      else if m_type m = MAP_TYPE_PWID
      then Inr (set_pwid (m_pw_type m) (m_pwid m) lsr_id fec_zero)
      else Inr fec_zero)"

subsection \<open>The label table of multipoint trees\<close>

datatype stream_type = STREAM_TYPE_UP | STREAM_TYPE_DOWN

record label_nbr =
  lb_label :: u32
  lb_local_label :: u32
  lb_peerid :: u32
  lb_fec :: fec
  lb_type :: stream_type

text \<open>The comparison reads the FEC and, for prefixes only, the peer id.\<close>

definition label_nbr_compare :: "fec \<times> u32 \<Rightarrow> fec \<times> u32 \<Rightarrow> int" where
  "label_nbr_compare a b =
     (let fa = fst a; fb = fst b; peer = (if snd a > snd b then 1 else if snd a < snd b then -1 else 0) in
      if ftype fa < ftype fb then -1
      else if ftype fa > ftype fb then 1
      else case ftype fa of
        FEC_TYPE_IPV4 \<Rightarrow>
          if ntohl (ipv4_prefix fa) < ntohl (ipv4_prefix fb) then -1
          else if ntohl (ipv4_prefix fa) > ntohl (ipv4_prefix fb) then 1
          else if ipv4_prefixlen fa < ipv4_prefixlen fb then -1
          else if ipv4_prefixlen fa > ipv4_prefixlen fb then 1
          else peer
      | FEC_TYPE_IPV6 \<Rightarrow>
          if memcmp (s6_addr (ipv6_prefix fa)) (s6_addr (ipv6_prefix fb)) < 0 then -1
          else if memcmp (s6_addr (ipv6_prefix fa)) (s6_addr (ipv6_prefix fb)) > 0 then 1
          else if ipv6_prefixlen fa < ipv6_prefixlen fb then -1
          else if ipv6_prefixlen fa > ipv6_prefixlen fb then 1
          else peer
      | FEC_TYPE_PWID \<Rightarrow>
          if pwid_type fa < pwid_type fb then -1
          else if pwid_type fa > pwid_type fb then 1
          else if pwid_pwid fa < pwid_pwid fb then -1
          else if pwid_pwid fa > pwid_pwid fb then 1
          else if ntohl (pwid_lsr_id fa) < ntohl (pwid_lsr_id fb) then -1
          else if ntohl (pwid_lsr_id fa) > ntohl (pwid_lsr_id fb) then 1
          else 0)"

definition lb_key :: "label_nbr \<Rightarrow> fec \<times> u32" where
  "lb_key l = (lb_fec l, lb_peerid l)"

text \<open>The difference of two unsigned peer ids, returned as an int.\<close>

definition lde_nbr_compare :: "u32 \<Rightarrow> u32 \<Rightarrow> int" where
  "lde_nbr_compare a b = sint (a - b)"

definition peerid_small :: "u32 \<Rightarrow> bool" where
  "peerid_small p \<longleftrightarrow> p < 2 ^ 31"

subsection \<open>The orders behind the comparison functions\<close>

type_synonym fec_rank = "fec_type \<times> u32 \<times> byte list \<times> u32 \<times> u32"

definition fec_key :: "fec \<Rightarrow> fec_rank" where
  "fec_key f =
     (case ftype f of
        FEC_TYPE_IPV4 \<Rightarrow> (FEC_TYPE_IPV4, ntohl (ipv4_prefix f), [], ucast (ipv4_prefixlen f), 0)
      | FEC_TYPE_IPV6 \<Rightarrow> (FEC_TYPE_IPV6, 0, s6_addr (ipv6_prefix f), ucast (ipv6_prefixlen f), 0)
      | FEC_TYPE_PWID \<Rightarrow>
          (FEC_TYPE_PWID, ucast (pwid_type f), [], pwid_pwid f, ntohl (pwid_lsr_id f)))"

definition label_nbr_key :: "fec \<times> u32 \<Rightarrow> fec_rank \<times> u32" where
  "label_nbr_key k = (fec_key (fst k), if ftype (fst k) = FEC_TYPE_PWID then 0 else snd k)"

lemma fst_fec_key [simp]: "fst (fec_key f) = ftype f"
  by (simp add: fec_key_def split: fec_type.split)

lemma uint_ucast_u16: "uint (ucast (h::u16) :: u32) = uint h"
proof -
  have "uint h < 2 ^ 32" by (rule lt2p_lem) simp
  then show ?thesis by (simp add: unsigned_ucast_eq take_bit_int_eq_self)
qed

lemma ucast_less_iff [simp]:
  "(ucast (x :: u8) :: u32) < ucast y \<longleftrightarrow> x < y"
  "(ucast (v :: u16) :: u32) < ucast w \<longleftrightarrow> v < w"
  by (simp_all add: word_less_alt uint_ucast_byte uint_ucast_u16)

lemma ucast_eq_iff [simp]:
  "(ucast (x :: u8) :: u32) = ucast y \<longleftrightarrow> x = y"
  "(ucast (v :: u16) :: u32) = ucast w \<longleftrightarrow> v = w"
  by (simp_all add: word_uint_eq_iff uint_ucast_byte uint_ucast_u16)

lemma s6_memcmp:
  "memcmp (s6_addr a) (s6_addr b) < 0 \<longleftrightarrow> s6_addr a < s6_addr b"
  "memcmp (s6_addr a) (s6_addr b) > 0 \<longleftrightarrow> s6_addr b < s6_addr a"
  by (simp_all add: memcmp_less memcmp_greater)

text \<open>One step of a lexicographic comparison, and its counterpart on pairs.\<close>

lemma cmp_step:
  fixes x y :: "'a::linorder" and r :: int
  shows "(if x < y then -1 else if y < x then 1 else r) < 0 \<longleftrightarrow> x < y \<or> (x = y \<and> r < 0)"
    and "(if x < y then -1 else if y < x then 1 else r) > 0 \<longleftrightarrow> y < x \<or> (x = y \<and> r > 0)"
  by auto

lemma less_pair:
  "(a, b) < (c, d) \<longleftrightarrow> a < c \<or> (a = c \<and> b < d)" for a c :: "'a::linorder"
  by (auto simp: less_prod_def less_le)

lemma less_fec_type_simps [simp]:
  "FEC_TYPE_IPV4 < FEC_TYPE_IPV6" "FEC_TYPE_IPV4 < FEC_TYPE_PWID" "FEC_TYPE_IPV6 < FEC_TYPE_PWID"
  "\<not> FEC_TYPE_IPV6 < FEC_TYPE_IPV4" "\<not> FEC_TYPE_PWID < FEC_TYPE_IPV4" "\<not> FEC_TYPE_PWID < FEC_TYPE_IPV6"
  by (simp_all add: less_fec_type_def)

lemmas cmp_unfold = fec_type.simps less_pair order.irrefl if_False s6_memcmp Let_def fst_conv snd_conv

lemma fec_compare_sign:
  "fec_compare a b < 0 \<longleftrightarrow> fec_key a < fec_key b"
  "fec_compare a b > 0 \<longleftrightarrow> fec_key b < fec_key a"
  unfolding fec_compare_def fec_key_def
  by (cases "ftype a"; cases "ftype b"; (simp only: cmp_unfold), (simp only: cmp_step), auto)+

lemma label_nbr_compare_sign:
  "label_nbr_compare a b < 0 \<longleftrightarrow> label_nbr_key a < label_nbr_key b"
  "label_nbr_compare a b > 0 \<longleftrightarrow> label_nbr_key b < label_nbr_key a"
proof -
  have p: "(if q < p then 1 else if p < q then -1 else (0::int)) =
     (if p < q then -1 else if q < p then 1 else 0)" for p q :: u32 by auto
  show "label_nbr_compare a b < 0 \<longleftrightarrow> label_nbr_key a < label_nbr_key b"
    unfolding label_nbr_compare_def label_nbr_key_def fec_key_def Let_def p
    by (cases "ftype (fst a)"; cases "ftype (fst b)"; (simp only: cmp_unfold), (simp only: cmp_step), auto)
  show "label_nbr_compare a b > 0 \<longleftrightarrow> label_nbr_key b < label_nbr_key a"
    unfolding label_nbr_compare_def label_nbr_key_def fec_key_def Let_def p
    by (cases "ftype (fst a)"; cases "ftype (fst b)"; (simp only: cmp_unfold), (simp only: cmp_step), auto)
qed

lemma lde_nbr_compare_sign:
  assumes "a < 2 ^ 31" and "b < 2 ^ 31"
  shows "lde_nbr_compare a b < 0 \<longleftrightarrow> a < b" and "lde_nbr_compare a b > 0 \<longleftrightarrow> b < a"
proof -
  have u: "0 \<le> uint a" "0 \<le> uint b" "uint a < 2 ^ 31" "uint b < 2 ^ 31"
    using assms by (simp_all add: word_less_alt)
  have "sint (a - b) = signed_take_bit 31 (uint a - uint b)"
    by (simp add: sint_uint uint_word_ariths signed_take_bit_eq_take_bit_shift take_bit_eq_mod mod_simps)
  also have "\<dots> = uint a - uint b"
    by (rule signed_take_bit_int_eq_self) (use u in linarith)+
  finally show "lde_nbr_compare a b < 0 \<longleftrightarrow> a < b" and "lde_nbr_compare a b > 0 \<longleftrightarrow> b < a"
    by (auto simp: lde_nbr_compare_def word_less_alt)
qed

subsection \<open>Interpretations\<close>

interpretation fec_order: rb_ordered fec_compare fec_key "\<lambda>_. True"
  by unfold_locales (simp_all add: fec_compare_sign)

interpretation label_nbr_order: rb_ordered label_nbr_compare label_nbr_key "\<lambda>_. True"
  by unfold_locales (simp_all add: label_nbr_compare_sign)

interpretation lde_nbr_order: rb_ordered lde_nbr_compare "\<lambda>p. p" peerid_small
  by unfold_locales (simp_all add: lde_nbr_compare_sign peerid_small_def)

end
