(* ===== verification/Lde_State.thy ===== *)
theory Lde_State
  imports Lde_Fec
begin

text \<open>
  The state of the label decision engine (\<open>ldpd/lde.h\<close>, \<open>ldpd/lde.c\<close>, \<open>ldpd/lde_lib.c\<close>) and the
  operations that move records between its tables.

  Three red-black trees are global: \<open>ft\<close> (the label information base, one \<open>fec_node\<close> per FEC),
  \<open>lde_nbrs\<close> (the neighbours, each with five trees of its own) and \<open>label_nbrs\<close> (the label table of
  the multipoint trees).  A pointer to a neighbour is its peer id, a pointer to a \<open>fec_node\<close> the FEC
  of the tree node or the index of a node allocated for the length of one message (\<open>Tmp\<close>), a pointer
  to a pseudowire its index in the pseudowire store.  Following a pointer to a record that has been
  freed is the fault \<open>Use_after_free\<close>.

  A received or sent mapping (\<open>lde_map\<close>) hangs in two structures at once: in a tree of its neighbour
  and in the \<open>downstream\<close> or \<open>upstream\<close> list of a \<open>fec_node\<close>.  The list is kept as the list of the
  peer ids of its members; the mapping remembers the node whose list it is linked into, because
  \<open>LIST_REMOVE\<close> on the first member writes through a pointer into that node.

  Messages to the other processes are appended to \<open>to_parent\<close> and \<open>to_ldpe\<close> in the order they are
  composed.
\<close>

subsection \<open>Records\<close>

datatype fn_ref = Ft fec | Tmp nat

record fec_nh =
  nh_af :: af
  nh_nexthop :: ldpd_addr
  nh_remote_label :: u32
  nh_priority :: u8

record fec_node =
  fn_fec :: fec
  fn_nexthops :: "fec_nh list"
  fn_downstream :: "u32 list"
  fn_upstream :: "u32 list"
  fn_local_label :: u32
  fn_data :: "nat option"

record lde_map =
  me_fec :: fec
  me_nexthop :: u32
  me_map :: map_tlv
  me_owner :: fn_ref

record lde_req =
  lre_fec :: fec
  lre_msg_id :: u32

record lde_wdraw =
  lw_fec :: fec
  lw_label :: u32

type_synonym lde_addr = "af \<times> ldpd_addr"

record lde_nbr =
  peerid :: u32
  nbr_id :: u32
  v4_enabled :: bool
  v6_enabled :: bool
  recv_req :: "lde_req rbt"
  sent_req :: "lde_req rbt"
  recv_map :: "lde_map rbt"
  sent_map :: "lde_map rbt"
  sent_wdraw :: "lde_wdraw rbt"
  addr_list :: "lde_addr list"

subsection \<open>Pseudowires\<close>

record l2vpn =
  l2_name :: string
  l2_pw_type :: int
  l2_mtu :: int
  l2_pw_list :: "nat list"

record l2vpn_pw =
  pw_l2vpn :: nat
  pw_lsr_id :: u32
  pw_af :: af
  pw_addr :: ldpd_addr
  pw_pwid :: u32
  pw_ifname :: string
  pw_ifindex :: u32
  pw_remote_group :: u32
  pw_remote_mtu :: u16
  pw_remote_status :: u32
  pw_flags :: u8

abbreviation F_PW_STATUSTLV_CONF :: u8 where "F_PW_STATUSTLV_CONF \<equiv> 0x01"
abbreviation F_PW_STATUSTLV :: u8 where "F_PW_STATUSTLV \<equiv> 0x02"
abbreviation F_PW_CWORD_CONF :: u8 where "F_PW_CWORD_CONF \<equiv> 0x04"
abbreviation F_PW_CWORD :: u8 where "F_PW_CWORD \<equiv> 0x08"
abbreviation F_PW_STATUS_UP :: u8 where "F_PW_STATUS_UP \<equiv> 0x10"

subsection \<open>Messages\<close>

record kroute =
  kr_af :: af
  kr_prefix :: ldpd_addr
  kr_prefixlen :: u8
  kr_nexthop :: ldpd_addr
  kr_local_label :: u32
  kr_remote_label :: u32
  kr_priority :: u8

record kpw =
  kpw_ifindex :: u16
  kpw_pw_type :: int
  kpw_af :: af
  kpw_nexthop :: ldpd_addr
  kpw_local_label :: u32
  kpw_remote_label :: u32
  kpw_flags :: u8

datatype parent_msg =
    IMSG_KLABEL_CHANGE kroute
  | IMSG_KLABEL_DELETE kroute
  | IMSG_KPWLABEL_CHANGE kpw
  | IMSG_KPWLABEL_DELETE kpw

record notify_msg =
  nm_status_code :: u32
  nm_msg_id :: u32
  nm_msg_type :: u16
  nm_pw_status :: u32
  nm_fec :: map_tlv
  nm_flags :: u8

record ctl_rt =
  rt_af :: af
  rt_prefix :: ldpd_addr
  rt_prefixlen :: u8
  rt_nexthop :: u32
  rt_local_label :: u32
  rt_remote_label :: u32
  rt_in_use :: bool
  rt_first :: bool

record ctl_pw =
  cp_type :: u16
  cp_l2vpn_name :: string
  cp_ifname :: string
  cp_pwid :: u32
  cp_lsr_id :: u32
  cp_local_label :: u32
  cp_local_ifmtu :: u16
  cp_local_cword :: bool
  cp_remote_label :: u32
  cp_remote_gid :: u32
  cp_remote_ifmtu :: u16
  cp_remote_cword :: bool
  cp_status :: u32

datatype ldpe_msg =
    IMSG_MAPPING_ADD u32 map_tlv
  | IMSG_MAPPING_ADD_END u32
  | IMSG_WITHDRAW_ADD u32 map_tlv
  | IMSG_WITHDRAW_ADD_END u32
  | IMSG_RELEASE_ADD u32 map_tlv
  | IMSG_RELEASE_ADD_END u32
  | IMSG_NOTIFICATION_SEND u32 notify_msg
  | IMSG_CTL_SHOW_LIB int ctl_rt
  | IMSG_CTL_SHOW_L2VPN_PW int ctl_pw
  | IMSG_CTL_SHOW_L2VPN_BINDING int ctl_pw
  | IMSG_CTL_MLDP_LSP int
  | IMSG_CTL_END int

subsection \<open>The state\<close>

text \<open>
  A local pointer variable.  \<open>rtctl_prefix\<close> is the prefix of the static \<open>rtctl\<close> of \<open>rt_dump\<close>;
  \<open>disp_ln1\<close> is the variable \<open>ln1\<close> of \<open>lde_dispatch_imsg\<close>, which keeps its value from one message
  of a read to the next.
\<close>

datatype 'a ptr = Uninit | Null | Ptr 'a

fun ptr_get :: "'a ptr \<Rightarrow> 'a result" where
  "ptr_get Uninit = Inl Uninit_read"
| "ptr_get Null = Inl Null_deref"
| "ptr_get (Ptr x) = Inr x"

definition nbr_ptr :: "lde_nbr option \<Rightarrow> u32 ptr" where
  "nbr_ptr n = (case n of None \<Rightarrow> Null | Some x \<Rightarrow> Ptr (peerid x))"

record lde_state =
  ft :: "fec_node rbt"
  lde_nbrs :: "lde_nbr rbt"
  label_nbrs :: "label_nbr rbt"
  leaf :: int
  label_ctr :: u32
  ipv4_expnull :: bool
  ipv6_expnull :: bool
  l2vpn_list :: "nat list"
  l2vpns :: "nat \<Rightarrow> l2vpn option"
  pws :: "nat \<Rightarrow> l2vpn_pw option"
  tmps :: "(fec_node \<times> bool) list"
  rtctl_prefix :: ldpd_addr
  disp_ln1 :: "u32 ptr"
  to_parent :: "parent_msg list"
  to_ldpe :: "ldpe_msg list"

definition compose_parent :: "parent_msg \<Rightarrow> lde_state \<Rightarrow> lde_state" where
  "compose_parent m s = s\<lparr>to_parent := to_parent s @ [m]\<rparr>"

definition compose_ldpe :: "ldpe_msg \<Rightarrow> lde_state \<Rightarrow> lde_state" where
  "compose_ldpe m s = s\<lparr>to_ldpe := to_ldpe s @ [m]\<rparr>"

definition lde_assign_label :: "lde_state \<Rightarrow> u32 \<times> lde_state" where
  "lde_assign_label s = (let l = label_ctr s + 1 in (l, s\<lparr>label_ctr := l\<rparr>))"

subsection \<open>Following pointers\<close>

definition nbr_deref :: "lde_state \<Rightarrow> u32 \<Rightarrow> lde_nbr result" where
  "nbr_deref s pid =
     (case find (\<lambda>n. peerid n = pid) (inorder (lde_nbrs s)) of
        None \<Rightarrow> Inl Use_after_free
      | Some n \<Rightarrow> Inr n)"

definition at_peer :: "u32 \<Rightarrow> (lde_nbr \<Rightarrow> lde_nbr) \<Rightarrow> lde_nbr \<Rightarrow> lde_nbr" where
  "at_peer pid g n = (if peerid n = pid then g n else n)"

definition at_fec :: "fec \<Rightarrow> (fec_node \<Rightarrow> fec_node) \<Rightarrow> fec_node \<Rightarrow> fec_node" where
  "at_fec f g n = (if fn_fec n = f then g n else n)"

definition nbr_update :: "u32 \<Rightarrow> (lde_nbr \<Rightarrow> lde_nbr) \<Rightarrow> lde_state \<Rightarrow> lde_state" where
  "nbr_update pid g s = s\<lparr>lde_nbrs := map_rbt (at_peer pid g) (lde_nbrs s)\<rparr>"

definition fn_deref :: "lde_state \<Rightarrow> fn_ref \<Rightarrow> fec_node result" where
  "fn_deref s r =
     (case r of
        Ft f \<Rightarrow>
          (case find (\<lambda>n. fn_fec n = f) (inorder (ft s)) of
             None \<Rightarrow> Inl Use_after_free
           | Some n \<Rightarrow> Inr n)
      | Tmp k \<Rightarrow>
          if k < length (tmps s) \<and> snd (tmps s ! k) then Inr (fst (tmps s ! k))
          else Inl Use_after_free)"

definition fn_update :: "fn_ref \<Rightarrow> (fec_node \<Rightarrow> fec_node) \<Rightarrow> lde_state \<Rightarrow> lde_state" where
  "fn_update r g s =
     (case r of
        Ft f \<Rightarrow> s\<lparr>ft := map_rbt (at_fec f g) (ft s)\<rparr>
      | Tmp k \<Rightarrow> s\<lparr>tmps := (tmps s)[k := (g (fst (tmps s ! k)), snd (tmps s ! k))]\<rparr>)"

definition pw_deref :: "lde_state \<Rightarrow> nat \<Rightarrow> l2vpn_pw result" where
  "pw_deref s p = (case pws s p of None \<Rightarrow> Inl Use_after_free | Some pw \<Rightarrow> Inr pw)"

definition pw_update :: "nat \<Rightarrow> (l2vpn_pw \<Rightarrow> l2vpn_pw) \<Rightarrow> lde_state \<Rightarrow> lde_state" where
  "pw_update p g s = s\<lparr>pws := (pws s)(p := map_option g (pws s p))\<rparr>"

definition l2vpn_deref :: "lde_state \<Rightarrow> nat \<Rightarrow> l2vpn result" where
  "l2vpn_deref s l = (case l2vpns s l of None \<Rightarrow> Inl Use_after_free | Some v \<Rightarrow> Inr v)"

text \<open>\<open>calloc\<close> and \<open>free\<close> of a node that lives for the length of one message.\<close>

definition tmp_alloc :: "fec_node \<Rightarrow> lde_state \<Rightarrow> fn_ref \<times> lde_state" where
  "tmp_alloc n s = (Tmp (length (tmps s)), s\<lparr>tmps := tmps s @ [(n, True)]\<rparr>)"

definition tmp_free :: "fn_ref \<Rightarrow> lde_state \<Rightarrow> lde_state" where
  "tmp_free r s =
     (case r of
        Ft f \<Rightarrow> s
      | Tmp k \<Rightarrow> s\<lparr>tmps := (tmps s)[k := (fst (tmps s ! k), False)]\<rparr>)"

subsection \<open>Trees of FECs\<close>

definition fec_find :: "('a \<Rightarrow> fec) \<Rightarrow> 'a rbt \<Rightarrow> fec \<Rightarrow> 'a option" where
  "fec_find key t f = rb_find fec_compare key f t"

text \<open>The tree after \<open>RB_INSERT\<close>, and whether it refused the element.\<close>

definition fec_insert :: "('a \<Rightarrow> fec) \<Rightarrow> 'a \<Rightarrow> 'a rbt \<Rightarrow> int \<times> 'a rbt" where
  "fec_insert key x t =
     (case rb_insert fec_compare key x t of (Some y, t') \<Rightarrow> (-1, t') | (None, t') \<Rightarrow> (0, t'))"

text \<open>\<open>RB_REMOVE\<close> is given the node; nodes of one tree have different FECs.\<close>

definition fec_remove :: "('a \<Rightarrow> fec) \<Rightarrow> fec \<Rightarrow> 'a rbt \<Rightarrow> 'a rbt" where
  "fec_remove key f t = rb_remove (\<lambda>x. key x = f) t"

definition fec_node_new :: "fec \<Rightarrow> u32 \<Rightarrow> fec_node" where
  "fec_node_new f l = \<lparr>fn_fec = f, fn_nexthops = [], fn_downstream = [], fn_upstream = [],
     fn_local_label = l, fn_data = None\<rparr>"

definition fec_add :: "fec \<Rightarrow> lde_state \<Rightarrow> lde_state" where
  "fec_add f s = s\<lparr>ft := snd (fec_insert fn_fec (fec_node_new f NO_LABEL) (ft s))\<rparr>"

definition fec_nh_match :: "af \<Rightarrow> ldpd_addr \<Rightarrow> u8 \<Rightarrow> fec_nh \<Rightarrow> bool" where
  "fec_nh_match a nexthop priority h \<longleftrightarrow>
     nh_af h = a \<and> ldp_addrcmp a (nh_nexthop h) nexthop = 0 \<and> nh_priority h = priority"

text \<open>The index of the first next hop that matches.\<close>

fun find_index :: "('a \<Rightarrow> bool) \<Rightarrow> 'a list \<Rightarrow> nat option" where
  "find_index P [] = None"
| "find_index P (x # xs) = (if P x then Some 0 else map_option Suc (find_index P xs))"

definition fec_nh_find :: "fec_node \<Rightarrow> af \<Rightarrow> ldpd_addr \<Rightarrow> u8 \<Rightarrow> nat option" where
  "fec_nh_find n a nexthop priority = find_index (fec_nh_match a nexthop priority) (fn_nexthops n)"

definition fec_nh_add :: "fn_ref \<Rightarrow> af \<Rightarrow> ldpd_addr \<Rightarrow> u8 \<Rightarrow> lde_state \<Rightarrow> lde_state" where
  "fec_nh_add r a nexthop priority =
     fn_update r (\<lambda>n. n\<lparr>fn_nexthops :=
       \<lparr>nh_af = a, nh_nexthop = nexthop, nh_remote_label = NO_LABEL, nh_priority = priority\<rparr>
       # fn_nexthops n\<rparr>)"

definition list_remove_at :: "nat \<Rightarrow> 'a list \<Rightarrow> 'a list" where
  "list_remove_at i xs = take i xs @ drop (Suc i) xs"

definition fec_nh_del :: "fn_ref \<Rightarrow> nat \<Rightarrow> lde_state \<Rightarrow> lde_state" where
  "fec_nh_del r i = fn_update r (\<lambda>n. n\<lparr>fn_nexthops := list_remove_at i (fn_nexthops n)\<rparr>)"

definition nh_set_label :: "fn_ref \<Rightarrow> nat \<Rightarrow> u32 \<Rightarrow> lde_state \<Rightarrow> lde_state" where
  "nh_set_label r i l =
     fn_update r (\<lambda>n. n\<lparr>fn_nexthops := (fn_nexthops n)[i := (fn_nexthops n ! i)\<lparr>nh_remote_label := l\<rparr>]\<rparr>)"

subsection \<open>Mappings, requests and withdraws\<close>

definition lde_map_add :: "u32 \<Rightarrow> fn_ref \<Rightarrow> bool \<Rightarrow> map_tlv \<Rightarrow> lde_state \<Rightarrow> lde_state result" where
  "lde_map_add pid r sent m s =
     and_then (fn_deref s r) (\<lambda>fn.
       let me = \<lparr>me_fec = fn_fec fn, me_nexthop = pid, me_map = m, me_owner = r\<rparr> in
       if sent
       then Inr (nbr_update pid (\<lambda>n. n\<lparr>sent_map := snd (fec_insert me_fec me (sent_map n))\<rparr>)
              (fn_update r (\<lambda>n. n\<lparr>fn_upstream := pid # fn_upstream n\<rparr>) s))
       else Inr (nbr_update pid (\<lambda>n. n\<lparr>recv_map := snd (fec_insert me_fec me (recv_map n))\<rparr>)
              (fn_update r (\<lambda>n. n\<lparr>fn_downstream := pid # fn_downstream n\<rparr>) s)))"

text \<open>
  \<open>lde_map_free\<close>: \<open>LIST_REMOVE\<close> unlinks the mapping from the list of its owner.  The first member's
  back pointer points into the owner; a later member's into the member before it.
\<close>

definition lde_map_free :: "lde_map \<Rightarrow> bool \<Rightarrow> lde_state \<Rightarrow> lde_state result" where
  "lde_map_free me sent s =
     (let unlink = fn_update (me_owner me)
        (\<lambda>n. if sent then n\<lparr>fn_upstream := remove1 (me_nexthop me) (fn_upstream n)\<rparr>
             else n\<lparr>fn_downstream := remove1 (me_nexthop me) (fn_downstream n)\<rparr>)
      in case me_owner me of
           Ft f \<Rightarrow> and_then (fn_deref s (Ft f)) (\<lambda>n. Inr (unlink s))
         | Tmp k \<Rightarrow>
             if k < length (tmps s) \<and>
                (snd (tmps s ! k) \<or>
                 (case (if sent then fn_upstream (fst (tmps s ! k)) else fn_downstream (fst (tmps s ! k))) of
                    [] \<Rightarrow> False | p # ps \<Rightarrow> p \<noteq> me_nexthop me))
             then Inr (unlink s)
             else Inl Use_after_free)"

definition lde_map_del :: "u32 \<Rightarrow> lde_map \<Rightarrow> bool \<Rightarrow> lde_state \<Rightarrow> lde_state result" where
  "lde_map_del pid me sent s =
     lde_map_free me sent
       (nbr_update pid
          (\<lambda>n. if sent then n\<lparr>sent_map := fec_remove me_fec (me_fec me) (sent_map n)\<rparr>
               else n\<lparr>recv_map := fec_remove me_fec (me_fec me) (recv_map n)\<rparr>) s)"

text \<open>\<open>me->map = *map\<close> on the mapping recorded for a FEC.\<close>

definition set_map :: "u32 \<Rightarrow> fec \<Rightarrow> bool \<Rightarrow> map_tlv \<Rightarrow> lde_state \<Rightarrow> lde_state" where
  "set_map pid f sent m =
     nbr_update pid
       (\<lambda>n. let g = map_rbt (\<lambda>me. if me_fec me = f then me\<lparr>me_map := m\<rparr> else me)
            in if sent then n\<lparr>sent_map := g (sent_map n)\<rparr> else n\<lparr>recv_map := g (recv_map n)\<rparr>)"

definition lde_req_add :: "u32 \<Rightarrow> fec \<Rightarrow> bool \<Rightarrow> u32 \<Rightarrow> lde_state \<Rightarrow> lde_state" where
  "lde_req_add pid f sent msg_id =
     nbr_update pid
       (\<lambda>n. let lre = \<lparr>lre_fec = f, lre_msg_id = msg_id\<rparr>
            in if sent then n\<lparr>sent_req := snd (fec_insert lre_fec lre (sent_req n))\<rparr>
               else n\<lparr>recv_req := snd (fec_insert lre_fec lre (recv_req n))\<rparr>)"

definition lde_req_del :: "u32 \<Rightarrow> lde_req \<Rightarrow> bool \<Rightarrow> lde_state \<Rightarrow> lde_state" where
  "lde_req_del pid lre sent =
     nbr_update pid
       (\<lambda>n. if sent then n\<lparr>sent_req := fec_remove lre_fec (lre_fec lre) (sent_req n)\<rparr>
            else n\<lparr>recv_req := fec_remove lre_fec (lre_fec lre) (recv_req n)\<rparr>)"

definition lde_wdraw_add :: "u32 \<Rightarrow> fec \<Rightarrow> u32 \<Rightarrow> lde_state \<Rightarrow> lde_state" where
  "lde_wdraw_add pid f l =
     nbr_update pid
       (\<lambda>n. n\<lparr>sent_wdraw := snd (fec_insert lw_fec \<lparr>lw_fec = f, lw_label = l\<rparr> (sent_wdraw n))\<rparr>)"

definition lde_wdraw_set :: "u32 \<Rightarrow> fec \<Rightarrow> u32 \<Rightarrow> lde_state \<Rightarrow> lde_state" where
  "lde_wdraw_set pid f l =
     nbr_update pid
       (\<lambda>n. n\<lparr>sent_wdraw := map_rbt (\<lambda>lw. if lw_fec lw = f then lw\<lparr>lw_label := l\<rparr> else lw) (sent_wdraw n)\<rparr>)"

definition lde_wdraw_del :: "u32 \<Rightarrow> lde_wdraw \<Rightarrow> lde_state \<Rightarrow> lde_state" where
  "lde_wdraw_del pid lw =
     nbr_update pid (\<lambda>n. n\<lparr>sent_wdraw := fec_remove lw_fec (lw_fec lw) (sent_wdraw n)\<rparr>)"

subsection \<open>Neighbours and their addresses\<close>

definition lde_address_find :: "lde_nbr \<Rightarrow> af \<Rightarrow> ldpd_addr \<Rightarrow> lde_addr option" where
  "lde_address_find n a addr = find (\<lambda>x. fst x = a \<and> ldp_addrcmp a (snd x) addr = 0) (addr_list n)"

definition lde_address_add :: "lde_nbr \<Rightarrow> lde_addr \<Rightarrow> lde_nbr option" where
  "lde_address_add n x =
     (if lde_address_find n (fst x) (snd x) \<noteq> None then None
      else Some (n\<lparr>addr_list := addr_list n @ [x]\<rparr>))"

definition lde_address_del :: "lde_nbr \<Rightarrow> lde_addr \<Rightarrow> lde_nbr option" where
  "lde_address_del n x =
     (case lde_address_find n (fst x) (snd x) of
        None \<Rightarrow> None
      | Some y \<Rightarrow> Some (n\<lparr>addr_list := remove1 y (addr_list n)\<rparr>))"

definition lde_address_list_free :: "u32 \<Rightarrow> lde_state \<Rightarrow> lde_state" where
  "lde_address_list_free pid = nbr_update pid (\<lambda>n. n\<lparr>addr_list := []\<rparr>)"

definition lde_nbr_find :: "lde_state \<Rightarrow> u32 \<Rightarrow> lde_nbr option" where
  "lde_nbr_find s pid = rb_find lde_nbr_compare peerid pid (lde_nbrs s)"

text \<open>Two addresses of a test bed are replaced by the router ids behind them.\<close>

definition in_addr4 :: "u8 \<Rightarrow> u8 \<Rightarrow> u8 \<Rightarrow> u8 \<Rightarrow> u32" where
  "in_addr4 a b c d = of_le32 a b c d"

definition lde_nbr_find_by_lsrid :: "lde_state \<Rightarrow> u32 \<Rightarrow> lde_nbr option" where
  "lde_nbr_find_by_lsrid s addr =
     (let addr1 = (if in_addr4 192 168 228 134 = addr then in_addr4 9 9 9 9
                   else if in_addr4 192 168 228 128 = addr then in_addr4 8 8 8 8
                   else addr)
      in find (\<lambda>n. nbr_id n = addr1) (rb_foreach (lde_nbrs s)))"

definition lde_nbr_find_by_addr :: "lde_state \<Rightarrow> af \<Rightarrow> ldpd_addr \<Rightarrow> lde_nbr option" where
  "lde_nbr_find_by_addr s a addr =
     find (\<lambda>n. lde_address_find n a addr \<noteq> None) (rb_foreach (lde_nbrs s))"

text \<open>\<open>lde_nbr_is_nexthop\<close>\<close>

definition lde_nbr_is_nexthop :: "fec_node \<Rightarrow> lde_nbr \<Rightarrow> bool" where
  "lde_nbr_is_nexthop fn n \<longleftrightarrow>
     (\<exists>h \<in> set (fn_nexthops fn). lde_address_find n (nh_af h) (nh_nexthop h) \<noteq> None)"

definition lde_nbr_new :: "u32 \<Rightarrow> u32 \<Rightarrow> bool \<Rightarrow> bool \<Rightarrow> lde_state \<Rightarrow> lde_state result" where
  "lde_nbr_new pid i v4 v6 s =
     (let ln = \<lparr>peerid = pid, nbr_id = i, v4_enabled = v4, v6_enabled = v6, recv_req = RNil,
                sent_req = RNil, recv_map = RNil, sent_map = RNil, sent_wdraw = RNil, addr_list = []\<rparr>
      in case rb_insert lde_nbr_compare peerid ln (lde_nbrs s) of
           (Some y, t) \<Rightarrow> Inl (Fatal ''lde_nbr_new: RB_INSERT failed'')
         | (None, t) \<Rightarrow> Inr (s\<lparr>lde_nbrs := t\<rparr>))"

subsection \<open>The label table\<close>

definition label_nbr_add :: "u32 \<Rightarrow> u32 \<Rightarrow> u32 \<Rightarrow> fec \<Rightarrow> stream_type \<Rightarrow> lde_state \<Rightarrow> lde_state result" where
  "label_nbr_add l local pid f t s =
     (let lb = \<lparr>lb_label = l, lb_local_label = local, lb_peerid = pid, lb_fec = f, lb_type = t\<rparr>
      in case rb_insert label_nbr_compare lb_key lb (label_nbrs s) of
           (Some y, t) \<Rightarrow> Inl (Fatal ''lde_nbr_new: RB_INSERT failed'')
         | (None, t) \<Rightarrow> Inr (s\<lparr>label_nbrs := t\<rparr>))"

definition label_nbr_find :: "lde_state \<Rightarrow> u32 \<Rightarrow> fec \<Rightarrow> label_nbr option" where
  "label_nbr_find s pid f = rb_find label_nbr_compare lb_key (f, pid) (label_nbrs s)"

definition label_nbr_del :: "label_nbr option \<Rightarrow> lde_state \<Rightarrow> lde_state" where
  "label_nbr_del lb s =
     (case lb of
        None \<Rightarrow> s
      | Some l \<Rightarrow> s\<lparr>label_nbrs := rb_remove (\<lambda>x. lb_key x = lb_key l) (label_nbrs s)\<rparr>)"

end
