(* ===== verification/Lde_Send.thy ===== *)
theory Lde_Send
  imports Lde_State
begin

text \<open>
  What the label decision engine tells the other processes: the label changes for the kernel
  (\<open>lde_send_change_klabel\<close>, \<open>lde_send_delete_klabel\<close> with the pseudowires that depend on them,
  \<open>l2vpn_sync_pws\<close>) and the label messages for the neighbours (\<open>lde_send_labelmapping\<close>,
  \<open>lde_send_labelwithdraw\<close>, \<open>lde_send_labelrelease\<close>, \<open>lde_send_notification\<close>), from \<open>ldpd/lde.c\<close>
  and \<open>ldpd/l2vpn.c\<close>.

  \<open>lde_send_change_klabel\<close> of a host route calls \<open>l2vpn_sync_pws\<close>, which calls it back on the FECs
  of pseudowires only.  That case does not call back again, so it comes first here as functions of
  its own and the recursion disappears.
\<close>

subsection \<open>Pseudowires\<close>

definition l2vpn_pw_fec :: "lde_state \<Rightarrow> l2vpn_pw \<Rightarrow> fec result" where
  "l2vpn_pw_fec s pw =
     and_then (l2vpn_deref s (pw_l2vpn pw)) (\<lambda>v.
       Inr (set_pwid (of_int (l2_pw_type v)) (pw_pwid pw) (pw_lsr_id pw) fec_zero))"

definition l2vpn_pw_reset_flags :: "u8 \<Rightarrow> u8" where
  "l2vpn_pw_reset_flags fl =
     (let fl1 = (if has_flag fl F_PW_CWORD_CONF then fl OR F_PW_CWORD else fl AND NOT F_PW_CWORD)
      in if has_flag fl1 F_PW_STATUSTLV_CONF then fl1 OR F_PW_STATUSTLV else fl1 AND NOT F_PW_STATUSTLV)"

definition l2vpn_pw_reset :: "nat \<Rightarrow> lde_state \<Rightarrow> lde_state result" where
  "l2vpn_pw_reset p s =
     and_then (pw_deref s p) (\<lambda>pw.
       Inr (pw_update p (\<lambda>pw. pw\<lparr>pw_remote_group := 0, pw_remote_mtu := 0, pw_remote_status := 0,
              pw_flags := l2vpn_pw_reset_flags (pw_flags pw)\<rparr>) s))"

text \<open>\<open>remote_label\<close> is that of the next hop the caller passes.\<close>

definition l2vpn_pw_ok :: "lde_state \<Rightarrow> l2vpn_pw \<Rightarrow> u32 \<Rightarrow> bool result" where
  "l2vpn_pw_ok s pw remote_label =
     (if remote_label = NO_LABEL then Inr False
      else and_then (l2vpn_deref s (pw_l2vpn pw)) (\<lambda>v.
        if l2_mtu v \<noteq> uint (pw_remote_mtu pw) then Inr False
        else if has_flag (pw_flags pw) F_PW_STATUSTLV \<and> pw_remote_status pw \<noteq> 0 then Inr False
        else
          let f = (case pw_af pw of
                     AF_INET \<Rightarrow> set_ipv4 (a0 (pw_addr pw)) 32 fec_zero
                   | AF_INET6 \<Rightarrow> set_ipv6 (pw_addr pw) 128 fec_zero)
          in case fec_find fn_fec (ft s) f of
               None \<Rightarrow> Inr False
             | Some fn \<Rightarrow>
                 if fn_local_label fn = NO_LABEL then Inr False
                 else Inr (list_all (\<lambda>h. nh_remote_label h \<noteq> NO_LABEL) (fn_nexthops fn))))"

definition mk_kpw :: "l2vpn_pw \<Rightarrow> fec_node \<Rightarrow> fec_nh \<Rightarrow> kpw" where
  "mk_kpw pw fn h = \<lparr>kpw_ifindex = ucast (pw_ifindex pw), kpw_pw_type = uint (pwid_type (fn_fec fn)),
     kpw_af = pw_af pw, kpw_nexthop = pw_addr pw, kpw_local_label = fn_local_label fn,
     kpw_remote_label = nh_remote_label h, kpw_flags = pw_flags pw\<rparr>"

text \<open>The pseudowire cases of the two kernel label functions.\<close>

definition pw_change_klabel :: "fec_node \<Rightarrow> fec_nh \<Rightarrow> lde_state \<Rightarrow> lde_state result" where
  "pw_change_klabel fn h s =
     (if fn_local_label fn = NO_LABEL \<or> nh_remote_label h = NO_LABEL then Inr s
      else case fn_data fn of
        None \<Rightarrow> Inl Null_deref
      | Some p \<Rightarrow>
          and_then (pw_deref s p) (\<lambda>pw0.
            let pw = pw0\<lparr>pw_flags := pw_flags pw0 OR F_PW_STATUS_UP\<rparr> in
            Inr (compose_parent (IMSG_KPWLABEL_CHANGE (mk_kpw pw fn h)) (pw_update p (\<lambda>_. pw) s))))"

definition pw_delete_klabel :: "fec_node \<Rightarrow> fec_nh \<Rightarrow> lde_state \<Rightarrow> lde_state result" where
  "pw_delete_klabel fn h s =
     (case fn_data fn of
        None \<Rightarrow> Inl Null_deref
      | Some p \<Rightarrow>
          and_then (pw_deref s p) (\<lambda>pw0.
            if \<not> has_flag (pw_flags pw0) F_PW_STATUS_UP then Inr s
            else
              let pw = pw0\<lparr>pw_flags := pw_flags pw0 AND NOT F_PW_STATUS_UP\<rparr> in
              Inr (compose_parent (IMSG_KPWLABEL_DELETE (mk_kpw pw fn h)) (pw_update p (\<lambda>_. pw) s))))"

text \<open>One pseudowire of the loop of \<open>l2vpn_sync_pws\<close>.\<close>

definition sync_pw :: "af \<Rightarrow> ldpd_addr \<Rightarrow> nat \<Rightarrow> lde_state \<Rightarrow> lde_state result" where
  "sync_pw a addr p s =
     and_then (pw_deref s p) (\<lambda>pw.
       if a \<noteq> pw_af pw \<or> ldp_addrcmp a (pw_addr pw) addr \<noteq> 0 then Inr s
       else and_then (l2vpn_pw_fec s pw) (\<lambda>f.
         case fec_find fn_fec (ft s) f of
           None \<Rightarrow> Inr s
         | Some fn \<Rightarrow>
             (case fec_nh_find fn AF_INET (v4_addr (pw_lsr_id pw)) 0 of
                None \<Rightarrow> Inr s
              | Some i \<Rightarrow>
                  let h = fn_nexthops fn ! i in
                  and_then (l2vpn_pw_ok s pw (nh_remote_label h)) (\<lambda>ok.
                    if ok then pw_change_klabel fn h s else pw_delete_klabel fn h s))))"

definition l2vpn_sync_pws :: "af \<Rightarrow> ldpd_addr \<Rightarrow> lde_state \<Rightarrow> lde_state result" where
  "l2vpn_sync_pws a addr s =
     foreach (\<lambda>l s. and_then (l2vpn_deref s l) (\<lambda>v. foreach (sync_pw a addr) (l2_pw_list v) s))
       (l2vpn_list s) s"

subsection \<open>Labels for the kernel\<close>

definition nh_deref :: "fec_node \<Rightarrow> nat \<Rightarrow> fec_nh result" where
  "nh_deref fn i = (if i < length (fn_nexthops fn) then Inr (fn_nexthops fn ! i) else Inl Use_after_free)"

definition mk_kroute_v4 :: "fec_node \<Rightarrow> fec_nh \<Rightarrow> kroute" where
  "mk_kroute_v4 fn h = \<lparr>kr_af = AF_INET, kr_prefix = v4_addr (ipv4_prefix (fn_fec fn)),
     kr_prefixlen = ipv4_prefixlen (fn_fec fn), kr_nexthop = v4_addr (a0 (nh_nexthop h)),
     kr_local_label = fn_local_label fn, kr_remote_label = nh_remote_label h,
     kr_priority = nh_priority h\<rparr>"

definition mk_kroute_v6 :: "fec_node \<Rightarrow> fec_nh \<Rightarrow> kroute" where
  "mk_kroute_v6 fn h = \<lparr>kr_af = AF_INET6, kr_prefix = ipv6_prefix (fn_fec fn),
     kr_prefixlen = ipv6_prefixlen (fn_fec fn), kr_nexthop = nh_nexthop h,
     kr_local_label = fn_local_label fn, kr_remote_label = nh_remote_label h,
     kr_priority = nh_priority h\<rparr>"

definition lde_send_change_klabel :: "fn_ref \<Rightarrow> nat \<Rightarrow> lde_state \<Rightarrow> lde_state result" where
  "lde_send_change_klabel r i s =
     and_then (fn_deref s r) (\<lambda>fn.
     and_then (nh_deref fn i) (\<lambda>h.
       case ftype (fn_fec fn) of
         FEC_TYPE_IPV4 \<Rightarrow>
           let s1 = compose_parent (IMSG_KLABEL_CHANGE (mk_kroute_v4 fn h)) s in
           if ipv4_prefixlen (fn_fec fn) = 32
           then l2vpn_sync_pws AF_INET (v4_addr (ipv4_prefix (fn_fec fn))) s1 else Inr s1
       | FEC_TYPE_IPV6 \<Rightarrow>
           let s1 = compose_parent (IMSG_KLABEL_CHANGE (mk_kroute_v6 fn h)) s in
           if ipv6_prefixlen (fn_fec fn) = 128
           then l2vpn_sync_pws AF_INET6 (ipv6_prefix (fn_fec fn)) s1 else Inr s1
       | FEC_TYPE_PWID \<Rightarrow> pw_change_klabel fn h s))"

definition lde_send_delete_klabel :: "fn_ref \<Rightarrow> nat \<Rightarrow> lde_state \<Rightarrow> lde_state result" where
  "lde_send_delete_klabel r i s =
     and_then (fn_deref s r) (\<lambda>fn.
     and_then (nh_deref fn i) (\<lambda>h.
       case ftype (fn_fec fn) of
         FEC_TYPE_IPV4 \<Rightarrow>
           let s1 = compose_parent (IMSG_KLABEL_DELETE (mk_kroute_v4 fn h)) s in
           if ipv4_prefixlen (fn_fec fn) = 32
           then l2vpn_sync_pws AF_INET (v4_addr (ipv4_prefix (fn_fec fn))) s1 else Inr s1
       | FEC_TYPE_IPV6 \<Rightarrow>
           let s1 = compose_parent (IMSG_KLABEL_DELETE (mk_kroute_v6 fn h)) s in
           if ipv6_prefixlen (fn_fec fn) = 128
           then l2vpn_sync_pws AF_INET6 (ipv6_prefix (fn_fec fn)) s1 else Inr s1
       | FEC_TYPE_PWID \<Rightarrow> pw_delete_klabel fn h s))"

subsection \<open>Label messages for the neighbours\<close>

text \<open>
  The switch on the FEC type the three senders share: nothing is sent (None) to a neighbour that
  does not speak the address family or is not the far end of the pseudowire; otherwise the map,
  which the pseudowire case may extend.
\<close>

definition sendable ::
  "lde_nbr \<Rightarrow> fec_node \<Rightarrow> (l2vpn_pw \<Rightarrow> map_tlv \<Rightarrow> map_tlv result) \<Rightarrow> lde_state
   \<Rightarrow> map_tlv option result" where
  "sendable ln fn ext s =
     (let m = lde_fec2map (fn_fec fn) in
      case ftype (fn_fec fn) of
        FEC_TYPE_IPV4 \<Rightarrow> Inr (if v4_enabled ln then Some m else None)
      | FEC_TYPE_IPV6 \<Rightarrow> Inr (if v6_enabled ln then Some m else None)
      | FEC_TYPE_PWID \<Rightarrow>
          (case fn_data fn of
             None \<Rightarrow> Inr None
           | Some p \<Rightarrow>
               and_then (pw_deref s p) (\<lambda>pw.
                 if pw_lsr_id pw \<noteq> nbr_id ln then Inr None
                 else and_then (ext pw m) (\<lambda>m'. Inr (Some m')))))"

definition mapping_pw_ext :: "lde_state \<Rightarrow> l2vpn_pw \<Rightarrow> map_tlv \<Rightarrow> map_tlv result" where
  "mapping_pw_ext s pw m =
     and_then (l2vpn_deref s (pw_l2vpn pw)) (\<lambda>v.
       let m1 = m\<lparr>m_flags := m_flags m OR F_MAP_PW_IFMTU, m_ifmtu := of_int (l2_mtu v)\<rparr>;
           m2 = (if has_flag (pw_flags pw) F_PW_CWORD
                 then m1\<lparr>m_flags := m_flags m1 OR F_MAP_PW_CWORD\<rparr> else m1);
           m3 = (if has_flag (pw_flags pw) F_PW_STATUSTLV
                 then m2\<lparr>m_flags := m_flags m2 OR F_MAP_PW_STATUS, m_pw_status := 0\<rparr> else m2)
       in Inr m3)"

definition cword_pw_ext :: "l2vpn_pw \<Rightarrow> map_tlv \<Rightarrow> map_tlv result" where
  "cword_pw_ext pw m =
     Inr (if has_flag (pw_flags pw) F_PW_CWORD then m\<lparr>m_flags := m_flags m OR F_MAP_PW_CWORD\<rparr> else m)"

definition lde_send_labelmapping :: "u32 \<Rightarrow> fn_ref \<Rightarrow> bool \<Rightarrow> lde_state \<Rightarrow> lde_state result" where
  "lde_send_labelmapping pid r single s =
     and_then (nbr_deref s pid) (\<lambda>ln.
     and_then (fn_deref s r) (\<lambda>fn.
     and_then (sendable ln fn (mapping_pw_ext s) s) (\<lambda>sm.
       case sm of
         None \<Rightarrow> Inr s
       | Some m0 \<Rightarrow>
           let m1 = m0\<lparr>m_label := fn_local_label fn\<rparr>;
               lre = fec_find lre_fec (recv_req ln) (fn_fec fn);
               m = (case lre of
                      None \<Rightarrow> m1
                    | Some q \<Rightarrow> m1\<lparr>m_requestid := lre_msg_id q, m_flags := F_MAP_REQ_ID\<rparr>);
               s1 = (case lre of None \<Rightarrow> s | Some q \<Rightarrow> lde_req_del pid q False s);
               s2 = compose_ldpe (IMSG_MAPPING_ADD pid m) s1;
               s3 = (if single then compose_ldpe (IMSG_MAPPING_ADD_END pid) s2 else s2)
           in case fec_find me_fec (sent_map ln) (fn_fec fn) of
                None \<Rightarrow> lde_map_add pid r True m s3
              | Some me \<Rightarrow> Inr (set_map pid (me_fec me) True m s3))))"

text \<open>\<open>lw->label = map.label\<close> on the record of the FEC, which is made if there is none.\<close>

definition record_wdraw :: "u32 \<Rightarrow> u32 \<Rightarrow> fec \<Rightarrow> lde_state \<Rightarrow> lde_state result" where
  "record_wdraw pid l f s =
     and_then (nbr_deref s pid) (\<lambda>ln.
       case fec_find lw_fec (sent_wdraw ln) f of
         None \<Rightarrow> Inr (lde_wdraw_add pid f l s)
       | Some lw \<Rightarrow> Inr (lde_wdraw_set pid (lw_fec lw) l s))"

definition add_status :: "(u32 \<times> u32 \<times> u16) option \<Rightarrow> map_tlv \<Rightarrow> map_tlv" where
  "add_status st m =
     (case st of
        None \<Rightarrow> m
      | Some (code, msg_id, msg_type) \<Rightarrow>
          m\<lparr>m_st_status_code := code, m_st_msg_id := msg_id, m_st_msg_type := msg_type,
            m_flags := m_flags m OR F_MAP_STATUS\<rparr>)"

definition lde_send_labelwithdraw ::
  "u32 \<Rightarrow> fn_ref option \<Rightarrow> u32 \<Rightarrow> (u32 \<times> u32 \<times> u16) option \<Rightarrow> lde_state \<Rightarrow> lde_state result" where
  "lde_send_labelwithdraw pid fno label st s =
     and_then (nbr_deref s pid) (\<lambda>ln.
       case fno of
         Some r \<Rightarrow>
           and_then (fn_deref s r) (\<lambda>fn.
           and_then (sendable ln fn cword_pw_ext s) (\<lambda>sm.
             case sm of
               None \<Rightarrow> Inr s
             | Some m0 \<Rightarrow>
                 let m = add_status st (m0\<lparr>m_label := fn_local_label fn\<rparr>) in
                 record_wdraw pid (m_label m) (fn_fec fn)
                   (compose_ldpe (IMSG_WITHDRAW_ADD_END pid) (compose_ldpe (IMSG_WITHDRAW_ADD pid m) s))))
       | None \<Rightarrow>
           let m = add_status st (map_zero\<lparr>m_type := MAP_TYPE_WILDCARD, m_label := label\<rparr>) in
           foreach (record_wdraw pid (m_label m)) (map fn_fec (rb_foreach (ft s)))
             (compose_ldpe (IMSG_WITHDRAW_ADD_END pid) (compose_ldpe (IMSG_WITHDRAW_ADD pid m) s)))"

definition lde_send_labelwithdraw_all :: "fn_ref \<Rightarrow> u32 \<Rightarrow> lde_state \<Rightarrow> lde_state result" where
  "lde_send_labelwithdraw_all r label s =
     foreach (\<lambda>pid. lde_send_labelwithdraw pid (Some r) label None)
       (map peerid (rb_foreach (lde_nbrs s))) s"

definition lde_send_labelrelease :: "u32 \<Rightarrow> fn_ref option \<Rightarrow> u32 \<Rightarrow> lde_state \<Rightarrow> lde_state result" where
  "lde_send_labelrelease pid fno label s =
     and_then (nbr_deref s pid) (\<lambda>ln.
     and_then
       (case fno of
          Some r \<Rightarrow> and_then (fn_deref s r) (\<lambda>fn. sendable ln fn cword_pw_ext s)
        | None \<Rightarrow> Inr (Some (map_zero\<lparr>m_type := MAP_TYPE_WILDCARD\<rparr>))) (\<lambda>sm.
       case sm of
         None \<Rightarrow> Inr s
       | Some m0 \<Rightarrow>
           Inr (compose_ldpe (IMSG_RELEASE_ADD_END pid)
                 (compose_ldpe (IMSG_RELEASE_ADD pid (m0\<lparr>m_label := label\<rparr>)) s))))"

definition notify_zero :: notify_msg where
  "notify_zero = \<lparr>nm_status_code = 0, nm_msg_id = 0, nm_msg_type = 0, nm_pw_status = 0,
     nm_fec = map_zero, nm_flags = 0\<rparr>"

definition lde_send_notification :: "u32 \<Rightarrow> u32 \<Rightarrow> u32 \<Rightarrow> u16 \<Rightarrow> lde_state \<Rightarrow> lde_state" where
  "lde_send_notification pid code msg_id msg_type =
     compose_ldpe (IMSG_NOTIFICATION_SEND pid
       (notify_zero\<lparr>nm_status_code := code, nm_msg_id := msg_id, nm_msg_type := msg_type\<rparr>))"

definition l2vpn_send_pw_status :: "u32 \<Rightarrow> u32 \<Rightarrow> fec \<Rightarrow> lde_state \<Rightarrow> lde_state" where
  "l2vpn_send_pw_status pid status f =
     compose_ldpe (IMSG_NOTIFICATION_SEND pid
       (notify_zero\<lparr>nm_status_code := 0x28, nm_pw_status := status, nm_flags := 0x03,
          nm_fec := lde_fec2map f\<rparr>))"

definition fec_snap :: "u32 \<Rightarrow> lde_state \<Rightarrow> lde_state result" where
  "fec_snap pid s =
     and_then
       (foreach (\<lambda>f s. and_then (fn_deref s (Ft f)) (\<lambda>fn.
            if fn_local_label fn = NO_LABEL then Inr s else lde_send_labelmapping pid (Ft f) False s))
          (map fn_fec (rb_foreach (ft s))) s)
       (\<lambda>s. Inr (compose_ldpe (IMSG_MAPPING_ADD_END pid) s))"

end
