(* ===== verification/Lde_Check.thy ===== *)
theory Lde_Check
  imports Lde_Send
begin

text \<open>
  The label distribution procedures of RFC 5036 the engine runs on what it hears: routes from the
  kernel (\<open>lde_kernel_insert\<close>, \<open>lde_kernel_remove\<close>), label messages from a neighbour
  (\<open>lde_check_mapping\<close>, \<open>lde_check_request\<close>, \<open>lde_check_release\<close>, \<open>lde_check_withdraw\<close> and their
  wildcard forms), the end of a session (\<open>lde_nbr_del\<close>), the garbage collector of the label
  information base (\<open>lde_gc_timer\<close>), the change of the egress label, pseudowire negotiation and
  status (\<open>l2vpn.c\<close>) and the dumps for the control socket.
\<close>

subsection \<open>Pseudowire negotiation\<close>

text \<open>True: the received mapping is to be ignored.\<close>

definition l2vpn_pw_negotiate :: "u32 \<Rightarrow> fn_ref \<Rightarrow> map_tlv \<Rightarrow> lde_state \<Rightarrow> (bool \<times> lde_state) result" where
  "l2vpn_pw_negotiate pid r m s =
     and_then (nbr_deref s pid) (\<lambda>ln.
     and_then (fn_deref s r) (\<lambda>fn.
       case fn_data fn of
         None \<Rightarrow> Inr (False, s)
       | Some p \<Rightarrow>
           and_then (pw_deref s p) (\<lambda>pw.
           and_then
             (if fec_find me_fec (sent_map ln) (fn_fec fn) \<noteq> None then
                (if has_flag (m_flags m) F_MAP_PW_CWORD \<and> \<not> has_flag (pw_flags pw) F_PW_CWORD_CONF
                 then Inr (True, s)
                 else if \<not> has_flag (m_flags m) F_MAP_PW_CWORD \<and> has_flag (pw_flags pw) F_PW_CWORD_CONF
                 then
                   and_then (lde_send_labelwithdraw pid (Some r) NO_LABEL
                       (Some (0x25, m_msg_id m, htons 0x0400)) s) (\<lambda>s1.
                   and_then (lde_send_labelmapping pid r True
                       (pw_update p (\<lambda>pw. pw\<lparr>pw_flags := pw_flags pw AND NOT F_PW_CWORD\<rparr>) s1)) (\<lambda>s2.
                     Inr (False, s2)))
                 else Inr (False, s))
              else if has_flag (m_flags m) F_MAP_PW_CWORD then
                (if has_flag (pw_flags pw) F_PW_CWORD_CONF
                 then Inr (False, pw_update p (\<lambda>pw. pw\<lparr>pw_flags := pw_flags pw OR F_PW_CWORD\<rparr>) s)
                 else Inr (True, s))
              else Inr (False, pw_update p (\<lambda>pw. pw\<lparr>pw_flags := pw_flags pw AND NOT F_PW_CWORD\<rparr>) s))
             (\<lambda>(ignore, s1).
               if ignore then Inr (True, s1)
               else and_then (nbr_deref s1 pid) (\<lambda>ln1.
                 if fec_find me_fec (recv_map ln1) (fn_fec fn) = None \<and>
                    \<not> has_flag (m_flags m) F_MAP_PW_STATUS
                 then Inr (False, pw_update p (\<lambda>pw. pw\<lparr>pw_flags := pw_flags pw AND NOT F_PW_STATUSTLV\<rparr>) s1)
                 else Inr (False, s1))))))"

subsection \<open>Label mappings\<close>

text \<open>\<open>fec_find\<close> in the label information base, adding the FEC when it is not there.\<close>

definition fec_get :: "fec \<Rightarrow> lde_state \<Rightarrow> fec \<times> lde_state" where
  "fec_get f s =
     (case fec_find fn_fec (ft s) f of
        Some fn \<Rightarrow> (fn_fec fn, s)
      | None \<Rightarrow> (f, fec_add f s))"

text \<open>A loop over the next hops of a node; the body may change the next hop it is given.\<close>

definition foreach_nh ::
  "fn_ref \<Rightarrow> (nat \<Rightarrow> lde_state \<Rightarrow> lde_state result) \<Rightarrow> lde_state \<Rightarrow> lde_state result" where
  "foreach_nh r body s =
     and_then (fn_deref s r) (\<lambda>fn. foreach body [0..<length (fn_nexthops fn)] s)"

text \<open>Taking the label of a next hop out of use, if the neighbour is that next hop.\<close>

definition uninstall_if_nexthop :: "lde_nbr \<Rightarrow> fn_ref \<Rightarrow> nat \<Rightarrow> lde_state \<Rightarrow> lde_state result" where
  "uninstall_if_nexthop ln r i s =
     and_then (fn_deref s r) (\<lambda>fn.
     and_then (nh_deref fn i) (\<lambda>h.
       if lde_address_find ln (nh_af h) (nh_nexthop h) = None then Inr s
       else and_then (lde_send_delete_klabel r i s) (\<lambda>s1. Inr (nh_set_label r i NO_LABEL s1))))"

text \<open>LMp.15: installing the label of the mapping for one next hop.\<close>

definition install_mapping :: "lde_nbr \<Rightarrow> fec_type \<Rightarrow> map_tlv \<Rightarrow> fn_ref \<Rightarrow> nat \<Rightarrow> lde_state \<Rightarrow> lde_state result" where
  "install_mapping ln t m r i s =
     and_then (fn_deref s r) (\<lambda>fn.
     and_then (nh_deref fn i) (\<lambda>h.
       if t = FEC_TYPE_PWID then
         (case fn_data fn of
            None \<Rightarrow> Inr s
          | Some p \<Rightarrow>
              and_then (pw_deref s p) (\<lambda>pw0.
                let pw1 = pw0\<lparr>pw_remote_group := m_group_id m\<rparr>;
                    pw2 = (if has_flag (m_flags m) F_MAP_PW_IFMTU then pw1\<lparr>pw_remote_mtu := m_ifmtu m\<rparr> else pw1);
                    pw3 = (if has_flag (m_flags m) F_MAP_PW_STATUS then pw2\<lparr>pw_remote_status := m_pw_status m\<rparr> else pw2);
                    s1 = nh_set_label r i (m_label m) (pw_update p (\<lambda>_. pw3) s)
                in and_then (l2vpn_pw_ok s1 pw3 (m_label m)) (\<lambda>ok.
                     if ok then lde_send_change_klabel r i s1 else Inr s1)))
       else if lde_address_find ln (nh_af h) (nh_nexthop h) = None then Inr s
       else lde_send_change_klabel r i (nh_set_label r i (m_label m) s)))"

text \<open>LMp.9 to LMp.16, for a mapping that is not ignored.\<close>

definition accept_mapping :: "map_tlv \<Rightarrow> u32 \<Rightarrow> fec_type \<Rightarrow> fec \<Rightarrow> bool \<Rightarrow> lde_state \<Rightarrow> lde_state result" where
  "accept_mapping m pid t f requested s =
     and_then (nbr_deref s pid) (\<lambda>ln.
     let me = fec_find me_fec (recv_map ln) f in
     and_then
       (case me of
          None \<Rightarrow> Inr s
        | Some e \<Rightarrow>
            if m_label (me_map e) \<noteq> m_label m \<and> \<not> requested
            then and_then (lde_send_labelrelease pid (Some (Ft f)) (m_label (me_map e)) s)
                   (foreach_nh (Ft f) (uninstall_if_nexthop ln (Ft f)))
            else Inr s)
     (\<lambda>s1. and_then (foreach_nh (Ft f) (install_mapping ln t m (Ft f)) s1)
     (\<lambda>s2. case me of
             None \<Rightarrow> lde_map_add pid (Ft f) False m s2
           | Some e \<Rightarrow> Inr (set_map pid (me_fec e) False m s2))))"

definition lde_check_mapping :: "map_tlv \<Rightarrow> u32 \<Rightarrow> lde_state \<Rightarrow> lde_state result" where
  "lde_check_mapping m pid s =
     and_then (nbr_deref s pid) (\<lambda>ln.
     and_then (lde_map2fec m (nbr_id ln)) (\<lambda>fec.
     let (f, s1) = fec_get fec s;
         lre = fec_find lre_fec (sent_req ln) f;
         s2 = (case lre of None \<Rightarrow> s1 | Some q \<Rightarrow> lde_req_del pid q True s1)
     in and_then (if m_type m = MAP_TYPE_PWID then l2vpn_pw_negotiate pid (Ft f) m s2 else Inr (False, s2))
     (\<lambda>(ignore, s3).
       if ignore then Inr s3 else accept_mapping m pid (ftype fec) f (lre \<noteq> None) s3)))"

subsection \<open>Requests, releases and withdraws\<close>

definition lde_check_request :: "map_tlv \<Rightarrow> u32 \<Rightarrow> lde_state \<Rightarrow> lde_state result" where
  "lde_check_request m pid s =
     and_then (nbr_deref s pid) (\<lambda>ln.
     and_then (lde_map2fec m (nbr_id ln)) (\<lambda>fec.
       case fec_find fn_fec (ft s) fec of
         None \<Rightarrow> Inr (lde_send_notification pid 0xd (m_msg_id m) (htons 0x0401) s)
       | Some fn \<Rightarrow>
           if fn_nexthops fn = []
           then Inr (lde_send_notification pid 0xd (m_msg_id m) (htons 0x0401) s)
           else if ftype fec \<noteq> FEC_TYPE_PWID \<and> lde_nbr_is_nexthop fn ln
           then Inr (lde_send_notification pid 0xb (m_msg_id m) (htons 0x0401) s)
           else if fec_find lre_fec (recv_req ln) (fn_fec fn) \<noteq> None then Inr s
           else lde_send_labelmapping pid (Ft (fn_fec fn)) True
                  (lde_req_add pid (fn_fec fn) False (ntohl (m_msg_id m)) s)))"

text \<open>LRl.3 to LRl.6 for one FEC.\<close>

definition release_fec :: "map_tlv \<Rightarrow> u32 \<Rightarrow> fec \<Rightarrow> lde_state \<Rightarrow> lde_state result" where
  "release_fec m pid f s =
     and_then (nbr_deref s pid) (\<lambda>ln.
       let s1 = (case fec_find lw_fec (sent_wdraw ln) f of
                   None \<Rightarrow> s
                 | Some lw \<Rightarrow>
                     if m_label m = NO_LABEL \<or> (lw_label lw \<noteq> NO_LABEL \<and> m_label m = lw_label lw)
                     then lde_wdraw_del pid lw s else s)
       in case fec_find me_fec (sent_map ln) f of
            None \<Rightarrow> Inr s1
          | Some me \<Rightarrow>
              if m_label m = NO_LABEL \<or> m_label m = m_label (me_map me)
              then lde_map_del pid me True s1 else Inr s1)"

definition lde_check_release :: "map_tlv \<Rightarrow> u32 \<Rightarrow> lde_state \<Rightarrow> lde_state result" where
  "lde_check_release m pid s =
     (if m_type m = MAP_TYPE_PWID \<and> \<not> has_flag (m_flags m) F_MAP_PW_ID then Inr s
      else and_then (nbr_deref s pid) (\<lambda>ln.
           and_then (lde_map2fec m (nbr_id ln)) (\<lambda>fec.
             case fec_find fn_fec (ft s) fec of
               None \<Rightarrow> Inr s
             | Some fn \<Rightarrow> release_fec m pid (fn_fec fn) s)))"

definition lde_check_release_wcard :: "map_tlv \<Rightarrow> u32 \<Rightarrow> lde_state \<Rightarrow> lde_state result" where
  "lde_check_release_wcard m pid s =
     foreach (release_fec m pid) (map fn_fec (rb_foreach (ft s))) s"

text \<open>LWd.3 and LWd.4 for one FEC.\<close>

definition forget_mapping :: "map_tlv \<Rightarrow> u32 \<Rightarrow> fec \<Rightarrow> lde_state \<Rightarrow> lde_state result" where
  "forget_mapping m pid f s =
     and_then (nbr_deref s pid) (\<lambda>ln.
       case fec_find me_fec (recv_map ln) f of
         None \<Rightarrow> Inr s
       | Some me \<Rightarrow>
           if m_label m = NO_LABEL \<or> m_label m = m_label (me_map me)
           then lde_map_del pid me False s else Inr s)"

text \<open>LWd.1 for one next hop.\<close>

definition withdraw_nh :: "lde_nbr \<Rightarrow> fec_type \<Rightarrow> fn_ref \<Rightarrow> nat \<Rightarrow> lde_state \<Rightarrow> lde_state result" where
  "withdraw_nh ln t r i s =
     and_then (fn_deref s r) (\<lambda>fn.
     and_then (nh_deref fn i) (\<lambda>h.
       if (if t = FEC_TYPE_PWID then fn_data fn = None
           else lde_address_find ln (nh_af h) (nh_nexthop h) = None)
       then Inr s
       else and_then (lde_send_delete_klabel r i s) (\<lambda>s1. Inr (nh_set_label r i NO_LABEL s1))))"

definition lde_check_withdraw :: "map_tlv \<Rightarrow> u32 \<Rightarrow> lde_state \<Rightarrow> lde_state result" where
  "lde_check_withdraw m pid s =
     (if m_type m = MAP_TYPE_PWID \<and> \<not> has_flag (m_flags m) F_MAP_PW_ID then Inr s
      else and_then (nbr_deref s pid) (\<lambda>ln.
           and_then (lde_map2fec m (nbr_id ln)) (\<lambda>fec.
             let (f, s1) = fec_get fec s in
             and_then (foreach_nh (Ft f) (withdraw_nh ln (ftype fec) (Ft f)) s1) (\<lambda>s2.
             and_then (lde_send_labelrelease pid (Some (Ft f)) (m_label m) s2)
               (forget_mapping m pid f)))))"

definition lde_check_withdraw_wcard :: "map_tlv \<Rightarrow> u32 \<Rightarrow> lde_state \<Rightarrow> lde_state result" where
  "lde_check_withdraw_wcard m pid s =
     and_then (lde_send_labelrelease pid None (m_label m) s) (\<lambda>s1.
       foreach (forget_mapping m pid) (map fn_fec (rb_foreach (ft s1))) s1)"

subsection \<open>Routes\<close>

text \<open>
  The switch after the new next hop is announced falls through from the prefix cases into the
  pseudowire case, so the neighbour is always looked up by the word at the place of the
  pseudowire's router id.
\<close>

definition lde_kernel_insert ::
  "fec \<Rightarrow> af \<Rightarrow> ldpd_addr \<Rightarrow> u8 \<Rightarrow> nat option \<Rightarrow> lde_state \<Rightarrow> lde_state result" where
  "lde_kernel_insert fec a nexthop priority data s =
     (let (f, s1) = fec_get fec s in
      and_then (fn_deref s1 (Ft f)) (\<lambda>fn.
        if fec_nh_find fn a nexthop priority \<noteq> None then Inr s1
        else
          let s2 = (if ftype f = FEC_TYPE_PWID then fn_update (Ft f) (\<lambda>n. n\<lparr>fn_data := data\<rparr>) s1 else s1);
              s3 = fec_nh_add (Ft f) a nexthop priority s2
          in and_then (lde_send_change_klabel (Ft f) 0 s3) (\<lambda>s4.
               case lde_nbr_find_by_lsrid s4 (pwid_lsr_id f) of
                 None \<Rightarrow> Inr s4
               | Some ln \<Rightarrow>
                   (case fec_find me_fec (recv_map ln) f of
                      None \<Rightarrow> Inr s4
                    | Some me \<Rightarrow> lde_check_mapping (me_map me) (peerid ln) s4))))"

definition lde_kernel_remove :: "fec \<Rightarrow> af \<Rightarrow> ldpd_addr \<Rightarrow> u8 \<Rightarrow> lde_state \<Rightarrow> lde_state result" where
  "lde_kernel_remove fec a nexthop priority s =
     (case fec_find fn_fec (ft s) fec of
        None \<Rightarrow> Inr s
      | Some fn \<Rightarrow>
          (case fec_nh_find fn a nexthop priority of
             None \<Rightarrow> Inr s
           | Some i \<Rightarrow>
               let r = Ft (fn_fec fn) in
               and_then (lde_send_delete_klabel r i s) (\<lambda>s1.
               let s2 = fec_nh_del r i s1 in
               and_then (fn_deref s2 r) (\<lambda>fn2.
                 if fn_nexthops fn2 \<noteq> [] then Inr s2
                 else and_then (lde_send_labelwithdraw_all r NO_LABEL s2) (\<lambda>s3.
                   Inr (fn_update r (\<lambda>n. n\<lparr>fn_local_label := NO_LABEL,
                     fn_data := (if ftype (fn_fec fn2) = FEC_TYPE_PWID then None else fn_data n)\<rparr>) s3))))))"

definition egress_label :: "fec_type \<Rightarrow> lde_state \<Rightarrow> u32 result" where
  "egress_label t s =
     (case t of
        FEC_TYPE_IPV4 \<Rightarrow> Inr (if ipv4_expnull s then MPLS_LABEL_IPV4NULL else MPLS_LABEL_IMPLNULL)
      | FEC_TYPE_IPV6 \<Rightarrow> Inr (if ipv6_expnull s then MPLS_LABEL_IPV6NULL else MPLS_LABEL_IMPLNULL)
      | FEC_TYPE_PWID \<Rightarrow> Inl (Fatal ''egress_label: unexpected fec type''))"

text \<open>The label of one connected prefix, advertised anew to one neighbour.\<close>

definition readvertise :: "af \<Rightarrow> u32 \<Rightarrow> fec \<Rightarrow> lde_state \<Rightarrow> lde_state result" where
  "readvertise a pid f s =
     and_then (fn_deref s (Ft f)) (\<lambda>fn.
       if fn_local_label fn > MPLS_LABEL_RESERVED_MAX then Inr s
       else if ftype (fn_fec fn) \<noteq> (case a of AF_INET \<Rightarrow> FEC_TYPE_IPV4 | AF_INET6 \<Rightarrow> FEC_TYPE_IPV6) then Inr s
       else and_then (egress_label (ftype (fn_fec fn)) s) (\<lambda>l.
              lde_send_labelmapping pid (Ft f) False (fn_update (Ft f) (\<lambda>n. n\<lparr>fn_local_label := l\<rparr>) s)))"

definition lde_change_egress_label :: "af \<Rightarrow> bool \<Rightarrow> lde_state \<Rightarrow> lde_state result" where
  "lde_change_egress_label a was_implicit s =
     foreach (\<lambda>pid s.
       and_then (nbr_deref s pid) (\<lambda>ln.
       and_then
         (if was_implicit then lde_send_labelwithdraw pid None MPLS_LABEL_IMPLNULL None s
          else and_then (if v4_enabled ln then lde_send_labelwithdraw pid None MPLS_LABEL_IPV4NULL None s else Inr s)
                 (\<lambda>s. if v6_enabled ln then lde_send_labelwithdraw pid None MPLS_LABEL_IPV6NULL None s else Inr s))
         (\<lambda>s1. and_then (foreach (readvertise a pid) (map fn_fec (rb_foreach (ft s1))) s1)
           (\<lambda>s2. Inr (compose_ldpe (IMSG_MAPPING_ADD_END pid) s2)))))
       (map peerid (rb_foreach (lde_nbrs s))) s"

subsection \<open>The end of a session\<close>

text \<open>
  \<open>fec_clear\<close> takes the root out and frees it until the tree is empty: the order its elements go
  in.  Taking out and freeing one mapping is \<open>lde_map_del\<close>.
\<close>

lemma length_fec_remove:
  assumes "x \<in> set (inorder t)"
  shows "length (inorder (fec_remove key (key x) t)) < length (inorder t)"
proof -
  from assms have "\<exists>y \<in> set (inorder t). key y = key x" by blast
  from split_list_first_prop[OF this] obtain ys y zs where
    "inorder t = ys @ y # zs" "key y = key x" "\<forall>y \<in> set ys. key y \<noteq> key x" by blast
  then show ?thesis using inorder_remove[of t ys y zs "\<lambda>y. key y = key x"]
    by (simp add: fec_remove_def)
qed

function fec_clear :: "('a \<Rightarrow> fec) \<Rightarrow> 'a rbt \<Rightarrow> 'a list" where
  "fec_clear key RNil = []"
| "fec_clear key (RNode c l x r) = x # fec_clear key (fec_remove key (key x) (RNode c l x r))"
  by pat_completeness auto
termination
proof (relation "measure (\<lambda>(key, t). length (inorder t))", simp)
  fix key :: "'a \<Rightarrow> fec" and c l x r
  show "((key, fec_remove key (key x) (RNode c l x r)), key, RNode c l x r)
    \<in> measure (\<lambda>(key, t). length (inorder t))"
    using length_fec_remove[of x "RNode c l x r" key] by simp
qed

text \<open>Taking the labels of a leaving neighbour out of use, for one next hop.\<close>

definition nbr_del_nh :: "lde_nbr \<Rightarrow> fec \<Rightarrow> nat \<Rightarrow> lde_state \<Rightarrow> lde_state result" where
  "nbr_del_nh ln f i s =
     and_then (fn_deref s (Ft f)) (\<lambda>fn.
     and_then (nh_deref fn i) (\<lambda>h.
       if (if ftype f = FEC_TYPE_PWID then pwid_lsr_id f \<noteq> nbr_id ln
           else lde_address_find ln (nh_af h) (nh_nexthop h) = None)
       then Inr s
       else and_then
         (if ftype f = FEC_TYPE_PWID
          then (case fn_data fn of None \<Rightarrow> Inr s | Some p \<Rightarrow> l2vpn_pw_reset p s)
          else Inr s) (\<lambda>s1.
         and_then (lde_send_delete_klabel (Ft f) i s1) (\<lambda>s2.
           Inr (nh_set_label (Ft f) i NO_LABEL s2)))))"

definition lde_nbr_del :: "u32 ptr \<Rightarrow> lde_state \<Rightarrow> lde_state result" where
  "lde_nbr_del lp s =
     (case lp of
        Uninit \<Rightarrow> Inl Uninit_read
      | Null \<Rightarrow> Inr s
      | Ptr pid \<Rightarrow>
          and_then (nbr_deref s pid) (\<lambda>ln.
          and_then (foreach (\<lambda>f. foreach_nh (Ft f) (nbr_del_nh ln f)) (map fn_fec (rb_foreach (ft s))) s) (\<lambda>s1.
          let s2 = lde_address_list_free pid s1 in
          and_then (nbr_deref s2 pid) (\<lambda>ln.
          and_then (foreach (\<lambda>me. lde_map_del pid me False) (fec_clear me_fec (recv_map ln)) s2) (\<lambda>s3.
          and_then (foreach (\<lambda>me. lde_map_del pid me True) (fec_clear me_fec (sent_map ln)) s3) (\<lambda>s4.
            Inr (s4\<lparr>lde_nbrs := rb_remove (\<lambda>n. peerid n = pid) (lde_nbrs s4)\<rparr>)))))))"

text \<open>\<open>lde_nbr_clear\<close>: the neighbour at the root leaves until there is none.\<close>

fun lde_nbr_clear :: "nat \<Rightarrow> lde_state \<Rightarrow> lde_state result option" where
  "lde_nbr_clear 0 s = (if lde_nbrs s = RNil then Some (Inr s) else None)"
| "lde_nbr_clear (Suc k) s =
     (case lde_nbrs s of
        RNil \<Rightarrow> Some (Inr s)
      | RNode c l n r \<Rightarrow>
          (case lde_nbr_del (Ptr (peerid n)) s of
             Inl e \<Rightarrow> Some (Inl e)
           | Inr s1 \<Rightarrow> lde_nbr_clear k s1))"

subsection \<open>The garbage collector\<close>

definition lde_gc_timer :: "lde_state \<Rightarrow> lde_state" where
  "lde_gc_timer s =
     s\<lparr>ft := fold (\<lambda>fn t.
       if fn_nexthops fn \<noteq> [] \<or> fn_downstream fn \<noteq> [] \<or> fn_upstream fn \<noteq> [] then t
       else fec_remove fn_fec (fn_fec fn) t) (rb_foreach (ft s)) (ft s)\<rparr>"

subsection \<open>Pseudowires\<close>

definition l2vpn_pw_init :: "nat \<Rightarrow> lde_state \<Rightarrow> lde_state result" where
  "l2vpn_pw_init p s =
     and_then (l2vpn_pw_reset p s) (\<lambda>s1.
     and_then (pw_deref s1 p) (\<lambda>pw.
     and_then (l2vpn_pw_fec s1 pw) (\<lambda>f.
       lde_kernel_insert f AF_INET (v4_addr (pw_lsr_id pw)) 0 (Some p) s1)))"

definition l2vpn_pw_exit :: "nat \<Rightarrow> lde_state \<Rightarrow> lde_state result" where
  "l2vpn_pw_exit p s =
     and_then (pw_deref s p) (\<lambda>pw.
     and_then (l2vpn_pw_fec s pw) (\<lambda>f.
       lde_kernel_remove f AF_INET (v4_addr (pw_lsr_id pw)) 0 s))"

definition l2vpn_init :: "nat \<Rightarrow> lde_state \<Rightarrow> lde_state result" where
  "l2vpn_init l s = and_then (l2vpn_deref s l) (\<lambda>v. foreach l2vpn_pw_init (l2_pw_list v) s)"

definition l2vpn_exit :: "nat \<Rightarrow> lde_state \<Rightarrow> lde_state result" where
  "l2vpn_exit l s = and_then (l2vpn_deref s l) (\<lambda>v. foreach l2vpn_pw_exit (l2_pw_list v) s)"

definition l2vpn_recv_pw_status :: "u32 \<Rightarrow> notify_msg \<Rightarrow> lde_state \<Rightarrow> lde_state result" where
  "l2vpn_recv_pw_status pid nm s =
     (if \<not> has_flag (m_flags (nm_fec nm)) F_MAP_PW_ID then Inr s
      else and_then (nbr_deref s pid) (\<lambda>ln.
           and_then (lde_map2fec (nm_fec nm) (nbr_id ln)) (\<lambda>fec.
             case fec_find fn_fec (ft s) fec of
               None \<Rightarrow> Inr s
             | Some fn \<Rightarrow>
                 (case fn_data fn of
                    None \<Rightarrow> Inr s
                  | Some p \<Rightarrow>
                      (case fec_nh_find fn AF_INET (v4_addr (nbr_id ln)) 0 of
                         None \<Rightarrow> Inr s
                       | Some i \<Rightarrow>
                           and_then (pw_deref s p) (\<lambda>pw.
                             if pw_remote_status pw = nm_pw_status nm then Inr s
                             else
                               let pw1 = pw\<lparr>pw_remote_status := nm_pw_status nm\<rparr>;
                                   s1 = pw_update p (\<lambda>_. pw1) s
                               in and_then (l2vpn_pw_ok s1 pw1 (nh_remote_label (fn_nexthops fn ! i))) (\<lambda>ok.
                                    if ok then lde_send_change_klabel (Ft (fn_fec fn)) i s1
                                    else lde_send_delete_klabel (Ft (fn_fec fn)) i s1)))))))"

subsection \<open>Dumps for the control socket\<close>

text \<open>The static \<open>rtctl\<close> keeps the bytes a store to \<open>prefix.v4\<close> does not reach.\<close>

definition rt_dump_entry :: "int \<Rightarrow> label_nbr \<Rightarrow> lde_state \<Rightarrow> lde_state result" where
  "rt_dump_entry pid lb s =
     (let emit = (\<lambda>a plen s1.
        case lde_nbr_find s1 (lb_peerid lb) of
          None \<Rightarrow> Inl Null_deref
        | Some ln \<Rightarrow>
            Inr (compose_ldpe (IMSG_CTL_SHOW_LIB pid
              \<lparr>rt_af = a, rt_prefix = rtctl_prefix s1, rt_prefixlen = plen, rt_nexthop = nbr_id ln,
               rt_local_label = lb_local_label lb, rt_remote_label = lb_label lb,
               rt_in_use = (lb_type lb = STREAM_TYPE_UP), rt_first = True\<rparr>) s1))
      in case ftype (lb_fec lb) of
           FEC_TYPE_IPV4 \<Rightarrow>
             emit AF_INET (ipv4_prefixlen (lb_fec lb))
               (s\<lparr>rtctl_prefix := (rtctl_prefix s)\<lparr>a0 := ipv4_prefix (lb_fec lb)\<rparr>\<rparr>)
         | FEC_TYPE_IPV6 \<Rightarrow>
             emit AF_INET6 (ipv6_prefixlen (lb_fec lb)) (s\<lparr>rtctl_prefix := ipv6_prefix (lb_fec lb)\<rparr>)
         | FEC_TYPE_PWID \<Rightarrow> Inr s)"

definition rt_dump :: "int \<Rightarrow> lde_state \<Rightarrow> lde_state result" where
  "rt_dump pid s = foreach (rt_dump_entry pid) (rb_foreach (label_nbrs s)) s"

definition ctl_pw_zero :: ctl_pw where
  "ctl_pw_zero = \<lparr>cp_type = 0, cp_l2vpn_name = [], cp_ifname = [], cp_pwid = 0, cp_lsr_id = 0,
     cp_local_label = 0, cp_local_ifmtu = 0, cp_local_cword = False, cp_remote_label = 0,
     cp_remote_gid = 0, cp_remote_ifmtu = 0, cp_remote_cword = False, cp_status = 0\<rparr>"

definition l2vpn_pw_ctl :: "int \<Rightarrow> lde_state \<Rightarrow> lde_state result" where
  "l2vpn_pw_ctl pid s =
     foreach (\<lambda>l s. and_then (l2vpn_deref s l) (\<lambda>v.
       foreach (\<lambda>p s. and_then (pw_deref s p) (\<lambda>pw.
         and_then (l2vpn_deref s (pw_l2vpn pw)) (\<lambda>w.
           Inr (compose_ldpe (IMSG_CTL_SHOW_L2VPN_PW pid
             (ctl_pw_zero\<lparr>cp_l2vpn_name := l2_name w, cp_ifname := pw_ifname pw, cp_pwid := pw_pwid pw,
                cp_lsr_id := pw_lsr_id pw, cp_status := ucast (pw_flags pw AND F_PW_STATUS_UP)\<rparr>)) s))))
         (l2_pw_list v) s)) (l2vpn_list s) s"

text \<open>The received mapping of the far end of a pseudowire: the first in the downstream list.\<close>

fun find_remote :: "u32 list \<Rightarrow> fec \<Rightarrow> lde_state \<Rightarrow> lde_map option result" where
  "find_remote [] f s = Inr None"
| "find_remote (pid # ps) f s =
     and_then (nbr_deref s pid) (\<lambda>ln.
       if pwid_lsr_id f = nbr_id ln then Inr (fec_find me_fec (recv_map ln) f)
       else find_remote ps f s)"

definition binding_entry :: "int \<Rightarrow> fec_node \<Rightarrow> lde_state \<Rightarrow> lde_state result" where
  "binding_entry pid fn s =
     (let f = fn_fec fn in
      if ftype f \<noteq> FEC_TYPE_PWID then Inr s
      else if fn_local_label fn = NO_LABEL \<and> fn_downstream fn = [] then Inr s
      else
        let c0 = ctl_pw_zero\<lparr>cp_type := pwid_type f, cp_pwid := pwid_pwid f, cp_lsr_id := pwid_lsr_id f\<rparr> in
        and_then
          (case fn_data fn of
             None \<Rightarrow> Inr (None, c0\<lparr>cp_local_label := NO_LABEL\<rparr>)
           | Some p \<Rightarrow> and_then (pw_deref s p) (\<lambda>pw. and_then (l2vpn_deref s (pw_l2vpn pw)) (\<lambda>v.
               Inr (Some pw, c0\<lparr>cp_local_label := fn_local_label fn, cp_local_ifmtu := of_int (l2_mtu v),
                 cp_local_cword := has_flag (pw_flags pw) F_PW_CWORD_CONF\<rparr>))))
          (\<lambda>(pwo, c1).
            and_then (find_remote (fn_downstream fn) f s) (\<lambda>meo.
              case meo of
                Some me \<Rightarrow>
                  Inr (compose_ldpe (IMSG_CTL_SHOW_L2VPN_BINDING pid
                    (c1\<lparr>cp_remote_label := m_label (me_map me), cp_remote_gid := m_group_id (me_map me),
                       cp_remote_ifmtu := (if has_flag (m_flags (me_map me)) F_MAP_PW_IFMTU
                                           then m_ifmtu (me_map me) else 0),
                       cp_remote_cword := (case pwo of None \<Rightarrow> False
                                           | Some pw \<Rightarrow> has_flag (pw_flags pw) F_PW_CWORD)\<rparr>)) s)
              | None \<Rightarrow>
                  (case pwo of
                     None \<Rightarrow> Inr s
                   | Some pw \<Rightarrow>
                       Inr (compose_ldpe (IMSG_CTL_SHOW_L2VPN_BINDING pid (c1\<lparr>cp_remote_label := NO_LABEL\<rparr>)) s)))))"

definition l2vpn_binding_ctl :: "int \<Rightarrow> lde_state \<Rightarrow> lde_state result" where
  "l2vpn_binding_ctl pid s = foreach (binding_entry pid) (rb_foreach (ft s)) s"

end
