(* ===== verification/Lde_Mldp.thy ===== *)
theory Lde_Mldp
  imports Lde_Check
begin

text \<open>
  The multipoint extension of the label decision engine and its message loops (\<open>ldpd/lde.c\<close>):
  joining and leaving a tree (\<open>tree_up\<close>, \<open>tree_down\<close>), what a label mapping and a wildcard withdraw do
  to the label table \<open>label_nbrs\<close>, and the dispatch of the messages of the protocol engine
  (\<open>lde_dispatch_imsg\<close>) and of the routes of the parent process (\<open>lde_dispatch_parent\<close>).

  A tree is named by a root address and an opaque value (\<open>ov\<close>), carried as an IPv4 prefix FEC with
  the opaque value in place of the prefix length.  The node a mapping is sent for is allocated for
  the message and freed after it.

  Arguments of the trace \<open>printf\<close> calls are evaluated like any other expression: where they follow a
  pointer, the model does too.
\<close>

subsection \<open>Lookups\<close>

definition same_lsp :: "fec \<Rightarrow> label_nbr \<Rightarrow> bool" where
  "same_lsp f lb \<longleftrightarrow>
     ipv4_prefix (lb_fec lb) = ipv4_prefix f \<and> ipv4_prefixlen (lb_fec lb) = ipv4_prefixlen f"

text \<open>The first FEC of the table, in tree order, with the address of the root as prefix.\<close>

definition find_root :: "u32 \<Rightarrow> lde_state \<Rightarrow> fec option" where
  "find_root root s = find (\<lambda>f. ipv4_prefix f = root) (map fn_fec (rb_foreach (ft s)))"

definition find_lsp :: "fec \<Rightarrow> lde_state \<Rightarrow> label_nbr option" where
  "find_lsp f s = find (same_lsp f) (rb_foreach (label_nbrs s))"

definition lb_update :: "fec \<times> u32 \<Rightarrow> (label_nbr \<Rightarrow> label_nbr) \<Rightarrow> lde_state \<Rightarrow> lde_state" where
  "lb_update k g s = s\<lparr>label_nbrs := map_rbt (\<lambda>x. if lb_key x = k then g x else x) (label_nbrs s)\<rparr>"

subsection \<open>Joining and leaving\<close>

text \<open>The neighbour of the last next hop; \<open>ln2\<close> stays uninitialised without a next hop.\<close>

definition last_nexthop_nbr :: "fec_node \<Rightarrow> lde_state \<Rightarrow> u32 ptr" where
  "last_nexthop_nbr fn s =
     fold (\<lambda>h p. nbr_ptr (lde_nbr_find_by_addr s (nh_af h) (nh_nexthop h))) (fn_nexthops fn) Uninit"

definition tree_up :: "u32 \<Rightarrow> u8 \<Rightarrow> lde_state \<Rightarrow> lde_state result" where
  "tree_up root ov s =
     (let s0 = s\<lparr>leaf := 1\<rparr> in
      case find_root root s0 of
        None \<Rightarrow> Inr s0
      | Some fec3 \<Rightarrow>
          (case fec_find fn_fec (ft s0) fec3 of
             None \<Rightarrow> Inl Null_deref
           | Some fn2 \<Rightarrow>
               let ln2 = last_nexthop_nbr fn2 s0;
                   fec4 = (set_ipv4 root ov fec_zero)\<lparr>ftype := ftype fec3\<rparr>;
                   (label, s1) = lde_assign_label s0;
                   (fn1, s2) = tmp_alloc (fec_node_new fec4 label) s1
               in and_then (ptr_get ln2) (\<lambda>pid.
                  and_then (nbr_deref s2 pid) (\<lambda>ln.
                  and_then (label_nbr_add NO_LABEL label (peerid ln) fec4 STREAM_TYPE_UP s2) (\<lambda>s3.
                  and_then (lde_send_labelmapping pid fn1 True s3) (\<lambda>s4.
                    Inr (tmp_free fn1 s4)))))))"

text \<open>
  The loop of \<open>tree_down\<close>.  Only the lookup of the neighbour is inside the \<open>if\<close>; the three calls
  after it run for every entry.  The entry is freed before the loop reads its successor.
\<close>

fun tree_down_loop :: "u32 \<Rightarrow> u8 \<Rightarrow> label_nbr list \<Rightarrow> u32 ptr \<Rightarrow> lde_state \<Rightarrow> lde_state result" where
  "tree_down_loop root ov [] ln s = Inr s"
| "tree_down_loop root ov (lnr # rest) ln s =
     (let ln' = (if ipv4_prefix (lb_fec lnr) = root \<and> ipv4_prefixlen (lb_fec lnr) = ov \<and>
                    lb_type lnr = STREAM_TYPE_UP
                 then nbr_ptr (lde_nbr_find s (lb_peerid lnr)) else ln)
      in and_then (ptr_get ln') (\<lambda>pid.
         and_then (lde_send_labelwithdraw pid None (lb_label lnr) None s) (\<lambda>s1.
         and_then (lde_send_labelrelease pid None (lb_label lnr) s1) (\<lambda>s2.
           let s3 = label_nbr_del (Some lnr) s2
           in Inl Use_after_free))))"

text \<open>The condition is the assignment \<open>leaf = 1\<close>, which is true.\<close>

definition tree_down :: "u32 \<Rightarrow> u8 \<Rightarrow> lde_state \<Rightarrow> lde_state result" where
  "tree_down root ov s =
     (let s0 = s\<lparr>leaf := 1\<rparr> in tree_down_loop root ov (rb_foreach (label_nbrs s0)) Uninit s0)"

subsection \<open>A label mapping for a tree\<close>

text \<open>The label the node uses for the tree: that of its first entry, or a new one.\<close>

definition lsp_label :: "fec \<Rightarrow> lde_state \<Rightarrow> u32 \<times> lde_state" where
  "lsp_label f s =
     (case find_lsp f s of
        Some lb \<Rightarrow> (lb_local_label lb, s)
      | None \<Rightarrow> lde_assign_label s)"

text \<open>At the root: answer the downstream node with the label of the tree.\<close>

definition mapping_root :: "map_tlv \<Rightarrow> u32 \<Rightarrow> fec \<Rightarrow> lde_state \<Rightarrow> lde_state result" where
  "mapping_root m pid fec1 s =
     (let (label, s1) = lsp_label fec1 s;
          (fn, s2) = tmp_alloc (fec_node_new fec1 label) s1
      in and_then (label_nbr_add (m_label m) label pid fec1 STREAM_TYPE_DOWN s2) (\<lambda>s3.
         and_then (nbr_deref s3 pid) (\<lambda>ln.
         and_then
           (if fec_find me_fec (sent_map ln) fec1 = None
            then lde_send_labelmapping pid fn True s3 else Inr s3) (\<lambda>s4.
           Inr (tmp_free fn s4)))))"

text \<open>
  At a transit node: record the branch and pass the mapping on to the neighbour of the first next
  hop of the root, or answer the branch when the mapping had been passed on before.
\<close>

definition mapping_transit_send :: "u32 \<Rightarrow> fec \<Rightarrow> u32 \<Rightarrow> fn_ref \<Rightarrow> fec_nh \<Rightarrow> lde_state \<Rightarrow> lde_state result" where
  "mapping_transit_send pid fec1 label fn h s =
     (case lde_nbr_find_by_addr s (nh_af h) (nh_nexthop h) of
        None \<Rightarrow> Inr (s\<lparr>disp_ln1 := Null\<rparr>)
      | Some ln1 \<Rightarrow>
          let s1 = s\<lparr>disp_ln1 := Ptr (peerid ln1)\<rparr> in
          if fec_find me_fec (sent_map ln1) fec1 = None
          then and_then (label_nbr_add NO_LABEL label (peerid ln1) fec1 STREAM_TYPE_UP s1)
                 (lde_send_labelmapping (peerid ln1) fn True)
          else lde_send_labelmapping pid fn True s1)"

definition mapping_transit :: "map_tlv \<Rightarrow> u32 \<Rightarrow> fec \<Rightarrow> lde_state \<Rightarrow> lde_state result" where
  "mapping_transit m pid fec1 s =
     (let s0 = s\<lparr>leaf := 0\<rparr>;
          (label, s1) = lsp_label fec1 s0;
          (fn, s2) = tmp_alloc (fec_node_new fec1 label) s1
      in and_then (label_nbr_add (m_label m) label pid fec1 STREAM_TYPE_DOWN s2) (\<lambda>s3.
         and_then (case lde_nbr_find s3 pid of None \<Rightarrow> Inl Null_deref | Some n \<Rightarrow> Inr s3) (\<lambda>s3.
           case find_root (ipv4_prefix fec1) s3 of
             None \<Rightarrow> Inr s3
           | Some fec2 \<Rightarrow>
               (case fec_find fn_fec (ft s3) fec2 of
                  None \<Rightarrow> Inl Null_deref
                | Some fn3 \<Rightarrow>
                    (case fn_nexthops fn3 of
                       [] \<Rightarrow> Inr s3
                     | h # hs \<Rightarrow>
                         and_then (mapping_transit_send pid fec1 label fn h s3) (\<lambda>s4.
                           Inr (tmp_free fn s4)))))))"

text \<open>
  A mapping from the upstream neighbour: one entry of the loop that passes it down.  The test on
  \<open>ln1\<close> is outside the \<open>if\<close> that sets it.
\<close>

definition mapping_down_entry :: "fec \<Rightarrow> fn_ref \<Rightarrow> label_nbr \<Rightarrow> lde_state \<Rightarrow> lde_state result" where
  "mapping_down_entry fec1 fn lnr1 s =
     (case lde_nbr_find s (lb_peerid lnr1) of
        None \<Rightarrow> Inl Null_deref
      | Some n \<Rightarrow>
          let s1 = (if lb_type lnr1 = STREAM_TYPE_DOWN \<and> same_lsp fec1 lnr1
                    then s\<lparr>disp_ln1 := Ptr (peerid n)\<rparr> else s)
          in and_then (ptr_get (disp_ln1 s1)) (\<lambda>pid.
             and_then (nbr_deref s1 pid) (\<lambda>ln1.
               if fec_find me_fec (sent_map ln1) fec1 = None
               then lde_send_labelmapping pid fn True s1 else Inr s1)))"

definition mapping_upstream :: "map_tlv \<Rightarrow> u32 \<Rightarrow> fec \<Rightarrow> label_nbr \<Rightarrow> lde_state \<Rightarrow> lde_state result" where
  "mapping_upstream m pid fec1 lnr s =
     (let s0 = lb_update (lb_key lnr) (\<lambda>x. x\<lparr>lb_label := m_label m\<rparr>) s in
      if leaf s0 = 1 then Inr s0
      else
        let (label, s1) =
              (case find_lsp fec1 s0 of
                 None \<Rightarrow> (0, s0)
               | Some lb \<Rightarrow> if lb_local_label lb = NO_LABEL then lde_assign_label s0
                            else (lb_local_label lb, s0));
            (fn, s2) = tmp_alloc (fec_node_new fec1 label) s1
        in and_then (foreach (mapping_down_entry fec1 fn) (rb_foreach (label_nbrs s2)) s2) (\<lambda>s3.
             Inr (tmp_free fn s3)))"

text \<open>The dump of the label table after every mapping follows the neighbour of every entry.\<close>

definition dump_label_nbrs :: "lde_state \<Rightarrow> lde_state result" where
  "dump_label_nbrs s =
     foreach (\<lambda>lb s. case lde_nbr_find s (lb_peerid lb) of
         None \<Rightarrow> Inl Null_deref
       | Some n \<Rightarrow> Inr (s\<lparr>disp_ln1 := Ptr (peerid n)\<rparr>)) (rb_foreach (label_nbrs s)) s"

definition mldp_mapping :: "map_tlv \<Rightarrow> u32 \<Rightarrow> lde_state \<Rightarrow> lde_state result" where
  "mldp_mapping m pid s =
     and_then (nbr_deref s pid) (\<lambda>ln.
     and_then (lde_map2fec m (nbr_id ln)) (\<lambda>fec1.
     and_then
       (case label_nbr_find s pid fec1 of
          Some lnr \<Rightarrow> mapping_upstream m pid fec1 lnr s
        | None \<Rightarrow>
            (case find_root (ipv4_prefix fec1) s of
               None \<Rightarrow> Inl Uninit_read
             | Some fec4 \<Rightarrow>
                 (case fec_find fn_fec (ft s) fec4 of
                    None \<Rightarrow> Inl Null_deref
                  | Some fn1 \<Rightarrow>
                      let s1 = (if \<exists>h \<in> set (fn_nexthops fn1). a0 (nh_nexthop h) = 0
                                then s\<lparr>leaf := 2\<rparr> else s)
                      in if leaf s1 = 2 then mapping_root m pid fec1 s1
                         else mapping_transit m pid fec1 s1)))
       dump_label_nbrs))"

subsection \<open>A wildcard withdraw\<close>

fun withdraw_up_loop :: "label_nbr list \<Rightarrow> lde_state \<Rightarrow> lde_state result" where
  "withdraw_up_loop [] s = Inr s"
| "withdraw_up_loop (lnr3 # rest) s =
     (if lb_type lnr3 = STREAM_TYPE_UP then
        and_then (ptr_get (nbr_ptr (lde_nbr_find s (lb_peerid lnr3)))) (\<lambda>pid.
        and_then (lde_send_labelwithdraw pid None (lb_label lnr3) None s) (\<lambda>s1.
        and_then (lde_send_labelrelease pid None (lb_label lnr3) s1) (\<lambda>s2.
          let s3 = label_nbr_del (Some lnr3) s2
          in Inl Use_after_free)))
      else withdraw_up_loop rest s)"

definition mldp_withdraw :: "map_tlv \<Rightarrow> u32 \<Rightarrow> lde_state \<Rightarrow> lde_state result" where
  "mldp_withdraw m pid s =
     (let lnr2 = find (\<lambda>lb. lb_local_label lb = m_label m \<and> lb_peerid lb = pid) (rb_foreach (label_nbrs s));
          s1 = label_nbr_del lnr2 s;
          lnr = find (\<lambda>lb. lb_type lb = STREAM_TYPE_DOWN) (rb_foreach (label_nbrs s1))
      in if leaf s1 \<noteq> 2 \<and> lnr = None then withdraw_up_loop (rb_foreach (label_nbrs s1)) s1
         else Inr s1)"

subsection \<open>Message loops\<close>

datatype mldp_op = OP_TYPE_ADD | OP_TYPE_DEL

datatype ldpe_imsg =
    IMSG_LABEL_MAPPING_FULL u32
  | IMSG_LABEL_MAPPING u32 map_tlv
  | IMSG_LABEL_REQUEST u32 map_tlv
  | IMSG_LABEL_RELEASE u32 map_tlv
  | IMSG_LABEL_WITHDRAW u32 map_tlv
  | IMSG_LABEL_ABORT u32 map_tlv
  | IMSG_ADDRESS_ADD u32 lde_addr
  | IMSG_ADDRESS_DEL u32 lde_addr
  | IMSG_NOTIFICATION u32 notify_msg
  | IMSG_NEIGHBOR_UP u32 u32 bool bool
  | IMSG_NEIGHBOR_DOWN u32
  | IMSG_CTL_SHOW_LIB_REQ int
  | IMSG_CTL_MLDP_LSP_REQ int mldp_op u32 u8
  | IMSG_CTL_SHOW_L2VPN_PW_REQ int
  | IMSG_CTL_SHOW_L2VPN_BINDING_REQ int
  | IMSG_OTHER

text \<open>A message of a neighbour the engine does not know is dropped.\<close>

definition with_nbr :: "u32 \<Rightarrow> (u32 \<Rightarrow> lde_state \<Rightarrow> lde_state result) \<Rightarrow> lde_state \<Rightarrow> lde_state result" where
  "with_nbr pid h s =
     (case lde_nbr_find s pid of None \<Rightarrow> Inr s | Some ln \<Rightarrow> h (peerid ln) s)"

fun lde_handle_imsg :: "ldpe_imsg \<Rightarrow> lde_state \<Rightarrow> lde_state result" where
  "lde_handle_imsg (IMSG_LABEL_MAPPING_FULL pid) s = with_nbr pid fec_snap s"
| "lde_handle_imsg (IMSG_LABEL_MAPPING pid m) s =
     with_nbr pid (\<lambda>p s. and_then (lde_check_mapping m p s) (mldp_mapping m p)) s"
| "lde_handle_imsg (IMSG_LABEL_REQUEST pid m) s = with_nbr pid (lde_check_request m) s"
| "lde_handle_imsg (IMSG_LABEL_RELEASE pid m) s =
     with_nbr pid (if m_type m = MAP_TYPE_WILDCARD then lde_check_release_wcard m else lde_check_release m) s"
| "lde_handle_imsg (IMSG_LABEL_WITHDRAW pid m) s =
     with_nbr pid (\<lambda>p s.
       if m_type m = MAP_TYPE_WILDCARD
       then and_then (lde_check_withdraw_wcard m p s) (mldp_withdraw m p)
       else lde_check_withdraw m p s) s"
| "lde_handle_imsg (IMSG_LABEL_ABORT pid m) s = Inr s"
| "lde_handle_imsg (IMSG_ADDRESS_ADD pid x) s =
     with_nbr pid (\<lambda>p s. and_then (nbr_deref s p) (\<lambda>ln.
       case lde_address_add ln x of None \<Rightarrow> Inr s | Some n \<Rightarrow> Inr (nbr_update p (\<lambda>_. n) s))) s"
| "lde_handle_imsg (IMSG_ADDRESS_DEL pid x) s =
     with_nbr pid (\<lambda>p s. and_then (nbr_deref s p) (\<lambda>ln.
       case lde_address_del ln x of None \<Rightarrow> Inr s | Some n \<Rightarrow> Inr (nbr_update p (\<lambda>_. n) s))) s"
| "lde_handle_imsg (IMSG_NOTIFICATION pid nm) s =
     with_nbr pid (\<lambda>p s. if nm_status_code nm = 0x28 then l2vpn_recv_pw_status p nm s else Inr s) s"
| "lde_handle_imsg (IMSG_NEIGHBOR_UP pid i v4 v6) s =
     (if lde_nbr_find s pid \<noteq> None then Inl (Fatal ''lde_dispatch_imsg: neighbor already exists'')
      else lde_nbr_new pid i v4 v6 s)"
| "lde_handle_imsg (IMSG_NEIGHBOR_DOWN pid) s = lde_nbr_del (nbr_ptr (lde_nbr_find s pid)) s"
| "lde_handle_imsg (IMSG_CTL_SHOW_LIB_REQ p) s =
     and_then (rt_dump p s) (\<lambda>s1. Inr (compose_ldpe (IMSG_CTL_END p) s1))"
| "lde_handle_imsg (IMSG_CTL_MLDP_LSP_REQ p op root ov) s =
     and_then (case op of OP_TYPE_ADD \<Rightarrow> tree_up root ov s | OP_TYPE_DEL \<Rightarrow> tree_down root ov s)
       (\<lambda>s1. Inr (compose_ldpe (IMSG_CTL_MLDP_LSP p) s1))"
| "lde_handle_imsg (IMSG_CTL_SHOW_L2VPN_PW_REQ p) s =
     and_then (l2vpn_pw_ctl p s) (\<lambda>s1. Inr (compose_ldpe (IMSG_CTL_END p) s1))"
| "lde_handle_imsg (IMSG_CTL_SHOW_L2VPN_BINDING_REQ p) s =
     and_then (l2vpn_binding_ctl p s) (\<lambda>s1. Inr (compose_ldpe (IMSG_CTL_END p) s1))"
| "lde_handle_imsg IMSG_OTHER s = Inr s"

text \<open>One read of the pipe of the protocol engine: the messages it brought, in order.\<close>

definition lde_dispatch_imsg :: "ldpe_imsg list \<Rightarrow> lde_state \<Rightarrow> lde_state result" where
  "lde_dispatch_imsg ms s = foreach lde_handle_imsg ms (s\<lparr>disp_ln1 := Uninit\<rparr>)"

datatype parent_imsg =
    IMSG_NETWORK_ADD af ldpd_addr u8 ldpd_addr u8
  | IMSG_NETWORK_DEL af ldpd_addr u8 ldpd_addr u8

text \<open>The FEC is a local variable the handler fills only in part; \<open>junk\<close> is what the stack held.\<close>

definition route_fec :: "fec \<Rightarrow> af \<Rightarrow> ldpd_addr \<Rightarrow> u8 \<Rightarrow> fec" where
  "route_fec junk a prefix prefixlen =
     (case a of
        AF_INET \<Rightarrow> set_ipv4 (a0 prefix) prefixlen junk
      | AF_INET6 \<Rightarrow> set_ipv6 prefix prefixlen junk)"

fun lde_handle_parent :: "fec \<Rightarrow> parent_imsg \<Rightarrow> lde_state \<Rightarrow> lde_state result" where
  "lde_handle_parent junk (IMSG_NETWORK_ADD a prefix prefixlen nexthop priority) s =
     lde_kernel_insert (route_fec junk a prefix prefixlen) a nexthop priority None s"
| "lde_handle_parent junk (IMSG_NETWORK_DEL a prefix prefixlen nexthop priority) s =
     lde_kernel_remove (route_fec junk a prefix prefixlen) a nexthop priority s"

text \<open>The engine as it starts.\<close>

definition lde_init :: lde_state where
  "lde_init = \<lparr>ft = RNil, lde_nbrs = RNil, label_nbrs = RNil, leaf = 0,
     label_ctr = MPLS_LABEL_RESERVED_MAX, ipv4_expnull = False, ipv6_expnull = False,
     l2vpn_list = [], l2vpns = (\<lambda>_. None), pws = (\<lambda>_. None), tmps = [], rtctl_prefix = addr_zero,
     disp_ln1 = Uninit, to_parent = [], to_ldpe = []\<rparr>"

end
