(* ===== verification/Lde_Inv.thy ===== *)
theory Lde_Inv
  imports Lde_Mldp
begin

text \<open>
  The invariant of the label decision engine and the frame its senders keep.

  \<open>lde_inv\<close> says that the trees are ordered, that every received mapping hangs in the downstream
  list of the label information base entry of its FEC and in the tree of the neighbour it came from,
  in both directions (\<open>links_ok\<close>), the same of sent mappings of entries of the base, that every
  pseudowire pointer is live and a pseudowire FEC with a next hop has one (\<open>pws_ok\<close>), that no entry
  of the base ever has a local label (\<open>labels_ok\<close>; the allocation in \<open>lde_kernel_insert\<close> is commented
  out) and what follows from it: no pseudowire is up and none is ever announced to the kernel.

  The lemmas show for every operation that it keeps the invariant, and for those the engine can
  always finish that they end without a fault.
\<close>

subsection \<open>Definitions\<close>

abbreviation fns :: "lde_state \<Rightarrow> fec_node set" where "fns s \<equiv> set (inorder (ft s))"
abbreviation nbs :: "lde_state \<Rightarrow> lde_nbr set" where "nbs s \<equiv> set (inorder (lde_nbrs s))"
abbreviation maps :: "lde_map rbt \<Rightarrow> lde_map set" where "maps t \<equiv> set (inorder t)"

definition nbr_trees_ok :: "lde_nbr \<Rightarrow> bool" where
  "nbr_trees_ok n \<longleftrightarrow>
     fec_order.ordered me_fec (recv_map n) \<and> fec_order.ordered me_fec (sent_map n) \<and>
     fec_order.ordered lre_fec (recv_req n) \<and> fec_order.ordered lre_fec (sent_req n) \<and>
     fec_order.ordered lw_fec (sent_wdraw n)"

definition tables_ok :: "lde_state \<Rightarrow> bool" where
  "tables_ok s \<longleftrightarrow>
     fec_order.ordered fn_fec (ft s) \<and> lde_nbr_order.ordered peerid (lde_nbrs s) \<and>
     label_nbr_order.ordered lb_key (label_nbrs s) \<and> (\<forall>n \<in> nbs s. nbr_trees_ok n)"

definition down_links :: "lde_state \<Rightarrow> (fec \<times> u32) set" where
  "down_links s = (\<Union>fn \<in> fns s. {fn_fec fn} \<times> set (fn_downstream fn))"

definition up_links :: "lde_state \<Rightarrow> (fec \<times> u32) set" where
  "up_links s = (\<Union>fn \<in> fns s. {fn_fec fn} \<times> set (fn_upstream fn))"

definition recv_links :: "lde_state \<Rightarrow> (fec \<times> u32) set" where
  "recv_links s = (\<Union>n \<in> nbs s. me_fec ` maps (recv_map n) \<times> {peerid n})"

definition sent_links :: "lde_state \<Rightarrow> (fec \<times> u32) set" where
  "sent_links s = (\<Union>n \<in> nbs s.
     me_fec ` {me \<in> maps (sent_map n). me_owner me = Ft (me_fec me)} \<times> {peerid n})"

text \<open>A map whose FEC can be read: \<open>lde_map2fec\<close> ends the process on any other.\<close>

definition map_af_ok :: "map_tlv \<Rightarrow> bool" where
  "map_af_ok m \<longleftrightarrow> (m_type m = MAP_TYPE_PREFIX \<longrightarrow> m_prefix_af m = AF_IPV4 \<or> m_prefix_af m = AF_IPV6)"

definition recv_ok :: "lde_nbr \<Rightarrow> bool" where
  "recv_ok n \<longleftrightarrow> (\<forall>me \<in> maps (recv_map n).
     me_nexthop me = peerid n \<and> me_owner me = Ft (me_fec me) \<and> map_af_ok (me_map me))"

definition sent_ok :: "lde_nbr \<Rightarrow> bool" where
  "sent_ok n \<longleftrightarrow> (\<forall>me \<in> maps (sent_map n). me_nexthop me = peerid n \<and>
     (me_owner me = Ft (me_fec me) \<or> (\<exists>k. me_owner me = Tmp k)))"

definition links_ok :: "lde_state \<Rightarrow> bool" where
  "links_ok s \<longleftrightarrow>
     down_links s = recv_links s \<and> up_links s = sent_links s \<and>
     (\<forall>fn \<in> fns s. distinct (fn_downstream fn) \<and> distinct (fn_upstream fn)) \<and>
     (\<forall>n \<in> nbs s. recv_ok n \<and> sent_ok n)"

definition labels_ok :: "lde_state \<Rightarrow> bool" where
  "labels_ok s \<longleftrightarrow> (\<forall>fn \<in> fns s. fn_local_label fn = NO_LABEL)"

definition fn_pw_ok :: "lde_state \<Rightarrow> fec_node \<Rightarrow> bool" where
  "fn_pw_ok s fn \<longleftrightarrow>
     (\<forall>p. fn_data fn = Some p \<longrightarrow> pws s p \<noteq> None) \<and>
     (ftype (fn_fec fn) = FEC_TYPE_PWID \<and> fn_nexthops fn \<noteq> [] \<longrightarrow> fn_data fn \<noteq> None)"

definition config_ok :: "lde_state \<Rightarrow> bool" where
  "config_ok s \<longleftrightarrow>
     (\<forall>p pw. pws s p = Some pw \<longrightarrow>
        l2vpns s (pw_l2vpn pw) \<noteq> None \<and> \<not> has_flag (pw_flags pw) F_PW_STATUS_UP) \<and>
     (\<forall>l \<in> set (l2vpn_list s). l2vpns s l \<noteq> None) \<and>
     (\<forall>l v. l2vpns s l = Some v \<longrightarrow> (\<forall>p \<in> set (l2_pw_list v). pws s p \<noteq> None))"

fun pw_msg :: "parent_msg \<Rightarrow> bool" where
  "pw_msg (IMSG_KPWLABEL_CHANGE k) = True"
| "pw_msg (IMSG_KPWLABEL_DELETE k) = True"
| "pw_msg _ = False"

definition pws_ok :: "lde_state \<Rightarrow> bool" where
  "pws_ok s \<longleftrightarrow> config_ok s \<and> (\<forall>fn \<in> fns s. fn_pw_ok s fn) \<and> (\<forall>m \<in> set (to_parent s). \<not> pw_msg m)"

text \<open>A node allocated for one message carries no pseudowire.\<close>

definition tmps_ok :: "lde_state \<Rightarrow> bool" where
  "tmps_ok s \<longleftrightarrow> (\<forall>x \<in> set (tmps s). fn_data (fst x) = None)"

definition lde_inv :: "lde_state \<Rightarrow> bool" where
  "lde_inv s \<longleftrightarrow> tables_ok s \<and> links_ok s \<and> labels_ok s \<and> pws_ok s \<and> tmps_ok s"

lemmas lde_inv_defs = lde_inv_def tables_ok_def links_ok_def labels_ok_def pws_ok_def tmps_ok_def

subsection \<open>Pointers that are live\<close>

definition nbr_live :: "lde_state \<Rightarrow> u32 \<Rightarrow> bool" where
  "nbr_live s pid \<longleftrightarrow> pid \<in> peerid ` nbs s"

definition fn_live :: "lde_state \<Rightarrow> fn_ref \<Rightarrow> bool" where
  "fn_live s r \<longleftrightarrow>
     (case r of Ft f \<Rightarrow> f \<in> fn_fec ` fns s | Tmp k \<Rightarrow> k < length (tmps s) \<and> snd (tmps s ! k))"

lemma fn_fec_inj:
  "fec_order.ordered fn_fec (ft s) \<Longrightarrow> x \<in> fns s \<Longrightarrow> y \<in> fns s \<Longrightarrow> fn_fec x = fn_fec y \<Longrightarrow> x = y"
  using fec_order.ordered_key_inj[of fn_fec "ft s" x y] by simp

lemma peerid_inj:
  "lde_nbr_order.ordered peerid (lde_nbrs s) \<Longrightarrow> x \<in> nbs s \<Longrightarrow> y \<in> nbs s \<Longrightarrow> peerid x = peerid y \<Longrightarrow> x = y"
  using lde_nbr_order.ordered_key_inj[of peerid "lde_nbrs s" x y] by simp

lemma fn_deref_Ft_iff:
  assumes "lde_inv s"
  shows "fn_deref s (Ft f) = Inr fn \<longleftrightarrow> fn \<in> fns s \<and> fn_fec fn = f"
proof
  assume "fn_deref s (Ft f) = Inr fn"
  then show "fn \<in> fns s \<and> fn_fec fn = f"
    by (auto simp: fn_deref_def split: option.splits dest: find_Some_in)
next
  assume a: "fn \<in> fns s \<and> fn_fec fn = f"
  show "fn_deref s (Ft f) = Inr fn"
  proof (cases "find (\<lambda>n. fn_fec n = f) (inorder (ft s))")
    case None
    then show ?thesis using a by (auto simp: find_None_none)
  next
    case (Some x)
    then have "x = fn" using a find_Some_in[OF Some] fn_fec_inj[of s x fn] assms
      by (auto simp: lde_inv_defs)
    then show ?thesis using Some by (simp add: fn_deref_def)
  qed
qed

lemma nbr_deref_iff:
  assumes "lde_inv s"
  shows "nbr_deref s pid = Inr n \<longleftrightarrow> n \<in> nbs s \<and> peerid n = pid"
proof
  assume "nbr_deref s pid = Inr n"
  then show "n \<in> nbs s \<and> peerid n = pid"
    by (auto simp: nbr_deref_def split: option.splits dest: find_Some_in)
next
  assume a: "n \<in> nbs s \<and> peerid n = pid"
  show "nbr_deref s pid = Inr n"
  proof (cases "find (\<lambda>n. peerid n = pid) (inorder (lde_nbrs s))")
    case None
    then show ?thesis using a by (auto simp: find_None_none)
  next
    case (Some x)
    then have "x = n" using a find_Some_in[OF Some] peerid_inj[of s x n] assms
      by (auto simp: lde_inv_defs)
    then show ?thesis using Some by (simp add: nbr_deref_def)
  qed
qed

lemma ensures_nbr_deref:
  assumes "lde_inv s" and "nbr_live s pid"
  shows "ensures (nbr_deref s pid) (\<lambda>n. n \<in> nbs s \<and> peerid n = pid)"
  using assms nbr_deref_iff[OF assms(1)] by (auto simp: ensures_iff nbr_live_def)

lemma ensures_fn_deref_Ft:
  assumes "lde_inv s" and "f \<in> fn_fec ` fns s"
  shows "ensures (fn_deref s (Ft f)) (\<lambda>fn. fn \<in> fns s \<and> fn_fec fn = f)"
  using assms fn_deref_Ft_iff[OF assms(1)] by (auto simp: ensures_iff)

lemma lde_nbr_find_Some:
  "lde_nbr_find s pid = Some n \<Longrightarrow> n \<in> nbs s \<and> peerid n = pid"
  unfolding lde_nbr_find_def
  using rb_find_in[of lde_nbr_compare peerid pid "lde_nbrs s" n]
    rb_find_cmp[of lde_nbr_compare peerid pid "lde_nbrs s" n]
  by (simp add: lde_nbr_compare_def)

lemma fec_find_Some:
  assumes "fec_order.ordered key t" and "fec_find key t f = Some x"
  shows "x \<in> set (inorder t) \<and> fec_key (key x) = fec_key f"
  using assms fec_order.find_Some_iff[OF assms(1), of f x] by (simp add: fec_find_def)

lemma fec_find_None:
  assumes "fec_order.ordered key t"
  shows "fec_find key t f = None \<longleftrightarrow> (\<forall>x \<in> set (inorder t). fec_key (key x) \<noteq> fec_key f)"
  using fec_order.find_None_iff[OF assms, of f] by (simp add: fec_find_def)

lemma fec_find_self:
  "fec_order.ordered key t \<Longrightarrow> x \<in> set (inorder t) \<Longrightarrow> fec_find key t (key x) = Some x"
  using fec_order.find_self[of key t x] by (simp add: fec_find_def)

lemma fec_insert_ordered [simp]:
  "fec_order.ordered key t \<Longrightarrow> fec_order.ordered key (snd (fec_insert key x t))"
  using fec_order.insert_ordered[of key t x]
  by (simp add: fec_insert_def split: prod.split option.split) (metis snd_conv)

lemma set_fec_insert:
  assumes "fec_find key t (key x) = None"
  shows "set (inorder (snd (fec_insert key x t))) = insert x (set (inorder t))"
proof -
  have "snd (fec_insert key x t) = snd (rb_insert fec_compare key x t)"
    by (simp add: fec_insert_def split: prod.split option.split)
  then show ?thesis using set_rb_insert_absent[of fec_compare key x t] assms by (simp add: fec_find_def)
qed

lemma fec_remove_key:
  assumes "fec_order.ordered key t" and "x \<in> set (inorder t)"
  shows "y \<in> set (inorder t) \<Longrightarrow> key y = key x \<longleftrightarrow> fec_key (key y) = fec_key (key x)"
  using fec_order.ordered_key_inj[OF assms(1), of y x] assms(2) by auto

lemma fec_remove_ordered:
  assumes "fec_order.ordered key t" and "x \<in> set (inorder t)"
  shows "fec_order.ordered key (fec_remove key (key x) t)"
  unfolding fec_remove_def
  by (rule fec_order.remove_ordered[OF assms(1)]) (rule fec_remove_key[OF assms])

lemma set_fec_remove:
  assumes "fec_order.ordered key t" and "x \<in> set (inorder t)"
  shows "set (inorder (fec_remove key (key x) t)) = set (inorder t) - {x}"
proof -
  have "inorder (fec_remove key (key x) t) = filter (\<lambda>y. fec_key (key y) \<noteq> fec_key (key x)) (inorder t)"
    unfolding fec_remove_def
    by (rule fec_order.remove_key[OF assms(1)]) (rule fec_remove_key[OF assms])
  then show ?thesis using fec_order.ordered_key_inj[OF assms(1)] assms(2) by auto
qed

subsection \<open>Frames\<close>

text \<open>What the senders leave as it is: everything but labels, lists of mappings and messages.\<close>

definition frame_of :: "lde_state \<Rightarrow> _" where
  "frame_of s =
     (map (\<lambda>fn. (fn_fec fn, length (fn_nexthops fn), fn_data fn)) (inorder (ft s)),
      map (\<lambda>n. (peerid n, nbr_id n, v4_enabled n, v6_enabled n, addr_list n)) (inorder (lde_nbrs s)),
      map (\<lambda>x. (fn_fec (fst x), snd x)) (tmps s),
      label_nbrs s, (leaf s, label_ctr s, disp_ln1 s), l2vpn_list s, l2vpns s, dom (pws s))"

definition good :: "lde_state \<Rightarrow> lde_state \<Rightarrow> bool" where
  "good s0 s \<longleftrightarrow> lde_inv s \<and> frame_of s = frame_of s0"

lemma good_refl: "lde_inv s \<Longrightarrow> good s s"
  by (simp add: good_def)

lemma good_inv: "good s0 s \<Longrightarrow> lde_inv s"
  by (simp add: good_def)

lemma good_trans: "good s0 s1 \<Longrightarrow> good s1 s2 \<Longrightarrow> good s0 s2"
  by (simp add: good_def)

lemma frame_fields:
  assumes "frame_of s = frame_of t"
  shows "label_nbrs s = label_nbrs t" "leaf s = leaf t" "label_ctr s = label_ctr t"
    "disp_ln1 s = disp_ln1 t" "l2vpn_list s = l2vpn_list t" "l2vpns s = l2vpns t"
    "dom (pws s) = dom (pws t)" "length (tmps s) = length (tmps t)"
  using assms unfolding frame_of_def by (auto dest: map_eq_imp_length_eq)

lemma frame_fn_set:
  assumes "frame_of s = frame_of t"
  shows "(\<lambda>fn. (fn_fec fn, length (fn_nexthops fn), fn_data fn)) ` fns s =
         (\<lambda>fn. (fn_fec fn, length (fn_nexthops fn), fn_data fn)) ` fns t"
proof -
  from assms have "map (\<lambda>fn. (fn_fec fn, length (fn_nexthops fn), fn_data fn)) (inorder (ft s)) =
      map (\<lambda>fn. (fn_fec fn, length (fn_nexthops fn), fn_data fn)) (inorder (ft t))"
    by (simp add: frame_of_def)
  from arg_cong[OF this, of set] show ?thesis by simp
qed

lemma frame_fecs: "frame_of s = frame_of t \<Longrightarrow> fn_fec ` fns s = fn_fec ` fns t"
  using arg_cong[OF frame_fn_set[of s t], of "image fst"] by (simp add: image_image)

lemma frame_nbr_set:
  assumes "frame_of s = frame_of t"
  shows "(\<lambda>n. (peerid n, nbr_id n, v4_enabled n, v6_enabled n, addr_list n)) ` nbs s =
         (\<lambda>n. (peerid n, nbr_id n, v4_enabled n, v6_enabled n, addr_list n)) ` nbs t"
proof -
  from assms have "map (\<lambda>n. (peerid n, nbr_id n, v4_enabled n, v6_enabled n, addr_list n)) (inorder (lde_nbrs s)) =
      map (\<lambda>n. (peerid n, nbr_id n, v4_enabled n, v6_enabled n, addr_list n)) (inorder (lde_nbrs t))"
    by (simp add: frame_of_def)
  from arg_cong[OF this, of set] show ?thesis by simp
qed

lemma frame_peers: "frame_of s = frame_of t \<Longrightarrow> peerid ` nbs s = peerid ` nbs t"
  using arg_cong[OF frame_nbr_set[of s t], of "image fst"] by (simp add: image_image)

lemma frame_nbr_live: "frame_of s = frame_of t \<Longrightarrow> nbr_live s pid = nbr_live t pid"
  using frame_peers[of s t] by (simp add: nbr_live_def)

lemma frame_fn_live:
  assumes "frame_of s = frame_of t"
  shows "fn_live s r = fn_live t r"
proof (cases r)
  case (Ft f)
  then show ?thesis using frame_fecs[OF assms] by (simp add: fn_live_def)
next
  case (Tmp k)
  have m: "map (\<lambda>x. (fn_fec (fst x), snd x)) (tmps s) = map (\<lambda>x. (fn_fec (fst x), snd x)) (tmps t)"
    using assms by (simp add: frame_of_def)
  have l: "length (tmps s) = length (tmps t)" using frame_fields(8)[OF assms] .
  have "snd (tmps s ! k) = snd (tmps t ! k)" if "k < length (tmps s)"
    using arg_cong[OF m, of "\<lambda>xs. snd (xs ! k)"] that l by simp
  then show ?thesis using Tmp l by (auto simp: fn_live_def)
qed

lemma frame_nexthops:
  assumes "frame_of s = frame_of t" and "lde_inv t"
    and "x \<in> fns s" and "y \<in> fns t" and "fn_fec x = fn_fec y"
  shows "length (fn_nexthops x) = length (fn_nexthops y)" and "fn_data x = fn_data y"
proof -
  have "(fn_fec x, length (fn_nexthops x), fn_data x) \<in> (\<lambda>fn. (fn_fec fn, length (fn_nexthops fn), fn_data fn)) ` fns t"
    using frame_fn_set[OF assms(1)] assms(3) by blast
  then obtain z where z: "z \<in> fns t" "fn_fec z = fn_fec x" "length (fn_nexthops z) = length (fn_nexthops x)"
    "fn_data z = fn_data x" by auto
  have "z = y" using fn_fec_inj[of t z y] z assms by (simp add: lde_inv_defs)
  with z show "length (fn_nexthops x) = length (fn_nexthops y)" and "fn_data x = fn_data y" by simp_all
qed

lemma good_frame:
  assumes "good s0 s"
  shows "nbr_live s pid = nbr_live s0 pid" and "fn_live s r = fn_live s0 r"
    and "fn_fec ` fns s = fn_fec ` fns s0" and "peerid ` nbs s = peerid ` nbs s0"
  using assms frame_nbr_live[of s s0] frame_fn_live[of s s0] frame_fecs[of s s0] frame_peers[of s s0]
  by (simp_all add: good_def)

subsection \<open>Updates that do not touch the tables\<close>

lemmas inv_unfold = lde_inv_defs config_ok_def fn_pw_ok_def down_links_def up_links_def
  recv_links_def sent_links_def

lemma inv_cong:
  assumes "ft s = ft t" "lde_nbrs s = lde_nbrs t" "label_nbrs s = label_nbrs t" "pws s = pws t"
    "l2vpns s = l2vpns t" "l2vpn_list s = l2vpn_list t" "to_parent s = to_parent t" "tmps s = tmps t"
  shows "lde_inv s = lde_inv t"
  by (simp only: inv_unfold assms)

lemma inv_simps [simp]:
  "lde_inv (s\<lparr>leaf := i\<rparr>) = lde_inv s"
  "lde_inv (s\<lparr>label_ctr := c\<rparr>) = lde_inv s"
  "lde_inv (s\<lparr>rtctl_prefix := a\<rparr>) = lde_inv s"
  "lde_inv (s\<lparr>disp_ln1 := p\<rparr>) = lde_inv s"
  "lde_inv (compose_ldpe m s) = lde_inv s"
  by (rule inv_cong; simp add: compose_ldpe_def)+

lemma inv_compose_parent [simp]: "lde_inv (compose_parent m s) \<longleftrightarrow> lde_inv s \<and> \<not> pw_msg m"
  by (auto simp: inv_unfold compose_parent_def)

lemma frame_simps [simp]:
  "frame_of (compose_ldpe m s) = frame_of s"
  "frame_of (compose_parent q s) = frame_of s"
  "frame_of (s\<lparr>rtctl_prefix := a\<rparr>) = frame_of s"
  by (simp_all add: frame_of_def compose_ldpe_def compose_parent_def)

lemma good_compose [simp]:
  "good s0 (compose_ldpe m s) = good s0 s"
  "good s0 (compose_parent q s) \<longleftrightarrow> good s0 s \<and> \<not> pw_msg q"
  by (auto simp: good_def)

lemma compose_fields [simp]:
  "ft (compose_ldpe m s) = ft s" "lde_nbrs (compose_ldpe m s) = lde_nbrs s"
  "label_nbrs (compose_ldpe m s) = label_nbrs s" "tmps (compose_ldpe m s) = tmps s"
  "pws (compose_ldpe m s) = pws s" "l2vpns (compose_ldpe m s) = l2vpns s"
  "l2vpn_list (compose_ldpe m s) = l2vpn_list s" "leaf (compose_ldpe m s) = leaf s"
  "ft (compose_parent q s) = ft s" "lde_nbrs (compose_parent q s) = lde_nbrs s"
  "label_nbrs (compose_parent q s) = label_nbrs s" "tmps (compose_parent q s) = tmps s"
  "pws (compose_parent q s) = pws s" "l2vpns (compose_parent q s) = l2vpns s"
  "l2vpn_list (compose_parent q s) = l2vpn_list s" "leaf (compose_parent q s) = leaf s"
  by (simp_all add: compose_ldpe_def compose_parent_def)

subsection \<open>Updates of pseudowires\<close>

lemma flag_bit: "has_flag x F_PW_STATUS_UP \<longleftrightarrow> bit x 4"
proof -
  have "(0x10 :: u8) = 2 ^ 4" by simp
  then show ?thesis unfolding has_flag_def by (simp only: and_exp_eq_0_iff_not_bit) simp
qed

lemma pw_update_good:
  assumes "good s0 s"
    and "\<And>pw. pws s p = Some pw \<Longrightarrow> pw_l2vpn (g pw) = pw_l2vpn pw \<and> \<not> bit (pw_flags (g pw)) 4"
  shows "good s0 (pw_update p g s)"
proof -
  let ?s = "pw_update p g s"
  have i: "lde_inv s" using assms(1) by (simp add: good_def)
  have none: "pws ?s q = None \<longleftrightarrow> pws s q = None" for q by (simp add: pw_update_def)
  have same: "ft ?s = ft s" "lde_nbrs ?s = lde_nbrs s" "label_nbrs ?s = label_nbrs s"
    "l2vpns ?s = l2vpns s" "l2vpn_list ?s = l2vpn_list s" "to_parent ?s = to_parent s"
    "tmps ?s = tmps s"
    by (simp_all add: pw_update_def)
  have "tables_ok ?s \<and> links_ok ?s \<and> labels_ok ?s \<and> tmps_ok ?s"
    using i by (simp add: lde_inv_def tables_ok_def links_ok_def labels_ok_def tmps_ok_def down_links_def
        up_links_def recv_links_def sent_links_def same)
  moreover have "\<forall>fn \<in> fns ?s. fn_pw_ok ?s fn"
    using i by (simp add: lde_inv_def pws_ok_def fn_pw_ok_def same none)
  moreover have "config_ok ?s"
  proof -
    have "l2vpns s (pw_l2vpn pw) \<noteq> None \<and> \<not> has_flag (pw_flags pw) F_PW_STATUS_UP"
      if "pws ?s q = Some pw" for q pw
    proof (cases "q = p")
      case True
      with that obtain pw0 where "pws s p = Some pw0" "pw = g pw0" by (auto simp: pw_update_def)
      then show ?thesis using assms(2) i
        by (auto simp: lde_inv_def pws_ok_def config_ok_def flag_bit)
    next
      case False
      then show ?thesis using that i by (simp add: pw_update_def lde_inv_def pws_ok_def config_ok_def)
    qed
    then show ?thesis using i by (simp add: lde_inv_def pws_ok_def config_ok_def same none del: not_None_eq)
  qed
  ultimately have "lde_inv ?s" using i by (simp add: lde_inv_def pws_ok_def same)
  moreover have "dom (pws (pw_update p g s)) = dom (pws s)"
    by (auto simp: pw_update_def map_option_case split: if_splits option.splits)
  then have "frame_of (pw_update p g s) = frame_of s" by (simp add: frame_of_def pw_update_def)
  ultimately show ?thesis using assms(1) by (simp add: good_def)
qed

lemma good_pw:
  "good s0 s \<Longrightarrow> pws s p = Some pw \<Longrightarrow> \<not> bit (pw_flags pw) 4"
  "good s0 s \<Longrightarrow> pws s p = Some pw \<Longrightarrow> \<exists>v. l2vpns s (pw_l2vpn pw) = Some v"
  by (auto simp: good_def inv_unfold flag_bit)

lemma good_fn:
  assumes "good s0 s" and "fn \<in> fns s"
  shows "fn_local_label fn = NO_LABEL" and "fn_data fn = Some p \<Longrightarrow> \<exists>pw. pws s p = Some pw"
    and "ftype (fn_fec fn) = FEC_TYPE_PWID \<Longrightarrow> fn_nexthops fn \<noteq> [] \<Longrightarrow> \<exists>p. fn_data fn = Some p"
  using assms by (auto simp: good_def inv_unfold)

subsection \<open>Labels for the kernel\<close>

lemma foreach_id: "(\<And>x. x \<in> set xs \<Longrightarrow> f x s = Inr s) \<Longrightarrow> foreach f xs s = Inr s"
  by (induction xs) simp_all

lemma fec_find_fns:
  assumes "good s0 s" and "fec_find fn_fec (ft s) f = Some fn"
  shows "fn \<in> fns s" and "fec_key (fn_fec fn) = fec_key f" and "ftype (fn_fec fn) = ftype f"
proof -
  have o: "fec_order.ordered fn_fec (ft s)" using assms(1) by (simp add: good_def lde_inv_defs)
  show "fn \<in> fns s" and k: "fec_key (fn_fec fn) = fec_key f" using fec_find_Some[OF o assms(2)] by auto
  from k show "ftype (fn_fec fn) = ftype f" by (metis fst_fec_key)
qed

lemma l2vpn_pw_ok_False:
  assumes "good s0 s" and "l2vpns s (pw_l2vpn pw) = Some v"
  shows "l2vpn_pw_ok s pw l = Inr False"
proof -
  have "fn_local_label fn = NO_LABEL" if "fec_find fn_fec (ft s) f = Some fn" for f fn
    using good_fn(1)[OF assms(1) fec_find_fns(1)[OF assms(1) that]] .
  then show ?thesis using assms(2)
    by (auto simp: l2vpn_pw_ok_def l2vpn_deref_def Let_def split: option.splits)
qed

lemma pw_delete_klabel_id:
  assumes "good s0 s" and "fn_data fn = Some p" and "pws s p = Some pw"
  shows "pw_delete_klabel fn h s = Inr s"
  using assms good_pw(1)[OF assms(1,3)] by (simp add: pw_delete_klabel_def pw_deref_def flag_bit)

lemma pw_change_klabel_id:
  "fn_local_label fn = NO_LABEL \<Longrightarrow> pw_change_klabel fn h s = Inr s"
  by (simp add: pw_change_klabel_def)

lemma find_index_Some: "find_index P xs = Some i \<Longrightarrow> i < length xs \<and> P (xs ! i)"
  by (induction xs arbitrary: i) (auto split: if_splits)

lemma find_index_None: "find_index P xs = None \<longleftrightarrow> (\<forall>x \<in> set xs. \<not> P x)"
  by (induction xs) auto

text \<open>The pseudowire case of both functions does nothing in a state of the invariant.\<close>

lemma pw_delete_fn:
  assumes "good s0 s" and "fn \<in> fns s" and "ftype (fn_fec fn) = FEC_TYPE_PWID" and "i < length (fn_nexthops fn)"
  shows "pw_delete_klabel fn h s = Inr s"
proof -
  have "fn_nexthops fn \<noteq> []" using assms(4) by auto
  from good_fn(3)[OF assms(1,2,3) this] obtain p where p: "fn_data fn = Some p" ..
  with good_fn(2)[OF assms(1,2)] obtain pw where "pws s p = Some pw" by blast
  with assms(1) p show ?thesis by (rule pw_delete_klabel_id)
qed

lemma sync_pw_id:
  assumes "good s0 s" and "pws s p \<noteq> None"
  shows "sync_pw a addr p s = Inr s"
proof -
  from assms(2) obtain pw where pw: "pws s p = Some pw" by blast
  with good_pw(2)[OF assms(1)] obtain v where v: "l2vpns s (pw_l2vpn pw) = Some v" by blast
  let ?f = "set_pwid (of_int (l2_pw_type v)) (pw_pwid pw) (pw_lsr_id pw) fec_zero"
  have "pw_delete_klabel fn h s = Inr s"
    if "fec_find fn_fec (ft s) ?f = Some fn" "fec_nh_find fn b c d = Some i" for fn b c d i h
  proof (rule pw_delete_fn[OF assms(1)])
    show "fn \<in> fns s" and "ftype (fn_fec fn) = FEC_TYPE_PWID"
      using fec_find_fns[OF assms(1) that(1)] by (simp_all add: set_pwid_def)
    show "i < length (fn_nexthops fn)" using that(2) by (simp add: fec_nh_find_def find_index_Some)
  qed
  then show ?thesis using l2vpn_pw_ok_False[OF assms(1) v] pw v
    by (auto simp: sync_pw_def pw_deref_def l2vpn_pw_fec_def l2vpn_deref_def Let_def split: option.splits)
qed

lemma l2vpn_sync_pws_id:
  assumes "good s0 s"
  shows "l2vpn_sync_pws a addr s = Inr s"
  unfolding l2vpn_sync_pws_def
proof (rule foreach_id)
  fix l assume "l \<in> set (l2vpn_list s)"
  with assms obtain v where v: "l2vpns s l = Some v" by (auto simp: good_def inv_unfold)
  with assms have "pws s p \<noteq> None" if "p \<in> set (l2_pw_list v)" for p
    using that by (auto simp: good_def inv_unfold)
  then have "foreach (sync_pw a addr) (l2_pw_list v) s = Inr s"
    by (intro foreach_id sync_pw_id[OF assms]) auto
  then show "and_then (l2vpn_deref s l) (\<lambda>v. foreach (sync_pw a addr) (l2_pw_list v) s) = Inr s"
    using v by (simp add: l2vpn_deref_def)
qed

lemma change_klabel_good:
  assumes "good s0 s" and "fn \<in> fns s" and "i < length (fn_nexthops fn)"
  shows "ensures (lde_send_change_klabel (Ft (fn_fec fn)) i s)
    (\<lambda>t. good s0 t \<and> lde_nbrs t = lde_nbrs s \<and> ft t = ft s)"
proof -
  have d: "fn_deref s (Ft (fn_fec fn)) = Inr fn" using assms(1,2) by (simp add: fn_deref_Ft_iff good_def)
  have l: "fn_local_label fn = NO_LABEL" using good_fn(1)[OF assms(1,2)] .
  show ?thesis
    using assms d l
    by (auto simp: lde_send_change_klabel_def nh_deref_def Let_def pw_change_klabel_id
        l2vpn_sync_pws_id[of s0] split: fec_type.split)
qed

lemma delete_klabel_good:
  assumes "good s0 s" and "fn \<in> fns s" and "i < length (fn_nexthops fn)"
  shows "ensures (lde_send_delete_klabel (Ft (fn_fec fn)) i s)
    (\<lambda>t. good s0 t \<and> lde_nbrs t = lde_nbrs s \<and> ft t = ft s)"
proof -
  have d: "fn_deref s (Ft (fn_fec fn)) = Inr fn" using assms(1,2) by (simp add: fn_deref_Ft_iff good_def)
  show ?thesis
    using assms d pw_delete_fn[OF assms(1,2)]
    by (auto simp: lde_send_delete_klabel_def nh_deref_def Let_def
        l2vpn_sync_pws_id[of s0] split: fec_type.split)
qed

subsection \<open>Updates of neighbours and of label information base entries\<close>

lemma nbs_nbr_update: "nbs (nbr_update pid g s) = at_peer pid g ` nbs s"
  by (simp add: nbr_update_def)

lemma nbr_update_fields [simp]:
  "ft (nbr_update pid g s) = ft s" "label_nbrs (nbr_update pid g s) = label_nbrs s"
  "tmps (nbr_update pid g s) = tmps s" "pws (nbr_update pid g s) = pws s"
  "l2vpns (nbr_update pid g s) = l2vpns s" "l2vpn_list (nbr_update pid g s) = l2vpn_list s"
  "to_parent (nbr_update pid g s) = to_parent s" "leaf (nbr_update pid g s) = leaf s"
  "label_ctr (nbr_update pid g s) = label_ctr s" "disp_ln1 (nbr_update pid g s) = disp_ln1 s"
  by (simp_all add: nbr_update_def)

text \<open>What a change of a neighbour record may do: everything outside its five trees stays.\<close>

definition same_nbr :: "lde_nbr \<Rightarrow> lde_nbr \<Rightarrow> bool" where
  "same_nbr n m \<longleftrightarrow> peerid m = peerid n \<and> nbr_id m = nbr_id n \<and> v4_enabled m = v4_enabled n \<and>
     v6_enabled m = v6_enabled n \<and> addr_list m = addr_list n"

lemma nbr_update_frame:
  assumes "\<And>n. n \<in> nbs s \<Longrightarrow> peerid n = pid \<Longrightarrow> same_nbr n (g n)"
  shows "frame_of (nbr_update pid g s) = frame_of s"
  using assms by (auto simp: frame_of_def nbr_update_def same_nbr_def at_peer_def)

lemma nbr_update_tables:
  assumes "tables_ok s" and "\<And>n. n \<in> nbs s \<Longrightarrow> peerid n = pid \<Longrightarrow> peerid (g n) = pid \<and> nbr_trees_ok (g n)"
  shows "tables_ok (nbr_update pid g s)"
proof -
  have "lde_nbr_order.ordered peerid (map_rbt (at_peer pid g) (lde_nbrs s))"
    by (rule lde_nbr_order.map_ordered) (use assms in \<open>auto simp: tables_ok_def at_peer_def\<close>)
  then show ?thesis using assms by (auto simp: tables_ok_def nbr_update_def at_peer_def)
qed

lemma nbr_update_good:
  assumes "good s0 s"
    and "\<And>n. n \<in> nbs s \<Longrightarrow> peerid n = pid \<Longrightarrow>
      same_nbr n (g n) \<and> nbr_trees_ok (g n) \<and> recv_map (g n) = recv_map n \<and> sent_map (g n) = sent_map n"
  shows "good s0 (nbr_update pid g s)"
proof -
  let ?s = "nbr_update pid g s"
  let ?g = "at_peer pid g"
  have i: "lde_inv s" using assms(1) by (simp add: good_def)
  have g: "peerid (?g n) = peerid n" "recv_map (?g n) = recv_map n" "sent_map (?g n) = sent_map n"
    if "n \<in> nbs s" for n using assms(2)[of n] that by (auto simp: same_nbr_def at_peer_def)
  have "tables_ok ?s" using i assms(2) by (intro nbr_update_tables) (auto simp: lde_inv_def same_nbr_def)
  moreover have "links_ok ?s"
  proof -
    have "recv_links ?s = recv_links s" "sent_links ?s = sent_links s"
      unfolding recv_links_def sent_links_def nbs_nbr_update using g by simp_all
    moreover have "recv_ok (?g n) = recv_ok n" "sent_ok (?g n) = sent_ok n" if "n \<in> nbs s" for n
      unfolding recv_ok_def sent_ok_def using g[OF that] by simp_all
    ultimately show ?thesis using i unfolding lde_inv_def links_ok_def nbs_nbr_update
      by (simp add: down_links_def up_links_def)
  qed
  ultimately have "lde_inv ?s"
    using i by (simp add: lde_inv_def labels_ok_def pws_ok_def tmps_ok_def config_ok_def fn_pw_ok_def)
  moreover have "frame_of ?s = frame_of s" using assms(2) by (intro nbr_update_frame) auto
  ultimately show ?thesis using assms(1) by (simp add: good_def)
qed

lemma good_trees: "good s0 s \<Longrightarrow> n \<in> nbs s \<Longrightarrow> nbr_trees_ok n"
  by (simp add: good_def lde_inv_defs)

lemma req_del_good:
  assumes "good s0 s" and "n \<in> nbs s" and "peerid n = pid"
    and "q \<in> set (inorder (if sent then sent_req n else recv_req n))"
  shows "good s0 (lde_req_del pid q sent s)"
proof -
  have u: "m = n" if "m \<in> nbs s" "peerid m = pid" for m
    using that assms(1-3) peerid_inj[of s m n] by (simp add: good_def lde_inv_defs)
  show ?thesis
    unfolding lde_req_del_def
    using good_trees[OF assms(1,2)] assms(4)
    by (intro nbr_update_good[OF assms(1)])
       (auto dest!: u simp: same_nbr_def nbr_trees_ok_def fec_remove_ordered split: if_splits)
qed

lemma req_add_good:
  assumes "good s0 s"
  shows "good s0 (lde_req_add pid f sent i s)"
  unfolding lde_req_add_def using good_trees[OF assms]
  by (intro nbr_update_good[OF assms]) (auto simp: same_nbr_def nbr_trees_ok_def Let_def)

lemma wdraw_add_good:
  assumes "good s0 s"
  shows "good s0 (lde_wdraw_add pid f l s)"
  unfolding lde_wdraw_add_def using good_trees[OF assms]
  by (intro nbr_update_good[OF assms]) (auto simp: same_nbr_def nbr_trees_ok_def)

lemma wdraw_set_good:
  assumes "good s0 s"
  shows "good s0 (lde_wdraw_set pid f l s)"
  unfolding lde_wdraw_set_def using good_trees[OF assms]
  by (intro nbr_update_good[OF assms])
     (auto simp: same_nbr_def nbr_trees_ok_def intro!: fec_order.map_ordered)

lemma wdraw_del_good:
  assumes "good s0 s" and "n \<in> nbs s" and "peerid n = pid" and "w \<in> set (inorder (sent_wdraw n))"
  shows "good s0 (lde_wdraw_del pid w s)"
proof -
  have u: "m = n" if "m \<in> nbs s" "peerid m = pid" for m
    using that assms(1-3) peerid_inj[of s m n] by (simp add: good_def lde_inv_defs)
  show ?thesis
    unfolding lde_wdraw_del_def
    using good_trees[OF assms(1,2)] assms(4)
    by (intro nbr_update_good[OF assms(1)])
       (auto dest!: u simp: same_nbr_def nbr_trees_ok_def fec_remove_ordered)
qed

text \<open>The entry of the label information base an update may change, and how.\<close>

definition same_fn :: "fec_node \<Rightarrow> fec_node \<Rightarrow> bool" where
  "same_fn n m \<longleftrightarrow> fn_fec m = fn_fec n \<and> length (fn_nexthops m) = length (fn_nexthops n) \<and>
     fn_data m = fn_data n \<and> fn_local_label m = fn_local_label n"

lemma fns_fn_update [simp]: "fns (fn_update (Ft f) h s) = at_fec f h ` fns s"
  by (simp add: fn_update_def)

lemma fn_update_fields [simp]:
  "lde_nbrs (fn_update r h s) = lde_nbrs s" "label_nbrs (fn_update r h s) = label_nbrs s"
  "pws (fn_update r h s) = pws s" "l2vpns (fn_update r h s) = l2vpns s"
  "l2vpn_list (fn_update r h s) = l2vpn_list s" "to_parent (fn_update r h s) = to_parent s"
  "leaf (fn_update r h s) = leaf s" "label_ctr (fn_update r h s) = label_ctr s"
  "disp_ln1 (fn_update r h s) = disp_ln1 s" "tmps (fn_update (Ft f) h s) = tmps s"
  "ft (fn_update (Tmp k) h s) = ft s"
  by (simp_all add: fn_update_def split: fn_ref.split)

lemma at_fec_same:
  assumes "\<And>n. n \<in> fns s \<Longrightarrow> fn_fec n = f \<Longrightarrow> same_fn n (h n)" and "n \<in> fns s"
  shows "same_fn n (at_fec f h n)"
  using assms by (simp add: at_fec_def same_fn_def)

lemma at_peer_same:
  assumes "\<And>n. n \<in> nbs s \<Longrightarrow> peerid n = pid \<Longrightarrow> same_nbr n (g n)" and "n \<in> nbs s"
  shows "same_nbr n (at_peer pid g n)"
  using assms by (simp add: at_peer_def same_nbr_def)

text \<open>A change of one entry and one neighbour keeps everything but the links.\<close>

lemma update2_good:
  fixes pid f g h s
  defines "t \<equiv> nbr_update pid g (fn_update (Ft f) h s)"
  assumes "good s0 s"
    and h: "\<And>n. n \<in> fns s \<Longrightarrow> fn_fec n = f \<Longrightarrow> same_fn n (h n)"
    and g: "\<And>n. n \<in> nbs s \<Longrightarrow> peerid n = pid \<Longrightarrow> same_nbr n (g n) \<and> nbr_trees_ok (g n)"
    and l: "links_ok t"
  shows "good s0 t"
proof -
  have i: "lde_inv s" using assms(2) by (simp add: good_def)
  have f: "fns t = at_fec f h ` fns s" by (simp add: t_def)
  have s: "same_fn n (at_fec f h n)" if "n \<in> fns s" for n using at_fec_same[OF h that] .
  have o: "fec_order.ordered fn_fec (ft (fn_update (Ft f) h s))"
    unfolding fn_update_def using i s
    by (auto simp: lde_inv_def tables_ok_def same_fn_def intro!: fec_order.map_ordered)
  then have "tables_ok (fn_update (Ft f) h s)"
    using i by (simp add: lde_inv_def tables_ok_def)
  then have "tables_ok t" unfolding t_def
    by (rule nbr_update_tables) (use g in \<open>auto simp: same_nbr_def\<close>)
  moreover have "labels_ok t"
    using i s unfolding lde_inv_def labels_ok_def f by (auto simp: same_fn_def)
  moreover have "pws_ok t"
  proof -
    have "fn_pw_ok t (at_fec f h n)" if n: "n \<in> fns s" for n
    proof -
      have "fn_nexthops (at_fec f h n) = [] \<longleftrightarrow> fn_nexthops n = []"
        using s[OF n] unfolding same_fn_def by (cases "fn_nexthops (at_fec f h n)"; cases "fn_nexthops n") auto
      moreover have "fn_pw_ok s n" using i n by (simp add: lde_inv_def pws_ok_def)
      moreover have "pws t = pws s" by (simp add: t_def)
      ultimately show ?thesis using s[OF n] by (simp add: fn_pw_ok_def same_fn_def)
    qed
    moreover have "config_ok t = config_ok s" "to_parent t = to_parent s" by (simp_all add: config_ok_def t_def)
    ultimately show ?thesis using i unfolding lde_inv_def pws_ok_def f by simp
  qed
  ultimately have "lde_inv t" using i l by (simp add: lde_inv_def tmps_ok_def t_def)
  moreover have "frame_of (fn_update (Ft f) h s) = frame_of s"
    using s by (auto simp: frame_of_def fn_update_def same_fn_def)
  then have "frame_of t = frame_of s"
    unfolding t_def using g by (subst nbr_update_frame) auto
  ultimately show ?thesis using assms(2) by (simp add: good_def)
qed

lemma fn_update_good:
  assumes "good s0 s"
    and "\<And>n. n \<in> fns s \<Longrightarrow> fn_fec n = f \<Longrightarrow>
      same_fn n (h n) \<and> fn_downstream (h n) = fn_downstream n \<and> fn_upstream (h n) = fn_upstream n"
  shows "good s0 (fn_update (Ft f) h s)"
proof -
  have "at_peer pid (\<lambda>n. n) = (\<lambda>n. n)" for pid by (rule ext) (simp add: at_peer_def)
  then have id: "nbr_update pid (\<lambda>n. n) t = t" for pid t
    by (simp add: nbr_update_def rbt.map_ident)
  have i: "lde_inv s" using assms(1) by (simp add: good_def)
  let ?t = "fn_update (Ft f) h s"
  have a: "fn_fec (at_fec f h n) = fn_fec n" "fn_downstream (at_fec f h n) = fn_downstream n"
    "fn_upstream (at_fec f h n) = fn_upstream n" if "n \<in> fns s" for n
    using assms(2)[OF that] by (auto simp: at_fec_def same_fn_def)
  have "down_links ?t = down_links s" "up_links ?t = up_links s"
    unfolding down_links_def up_links_def fns_fn_update using a by simp_all
  then have "links_ok ?t"
    using i a unfolding lde_inv_def links_ok_def by (simp add: recv_links_def sent_links_def)
  then show ?thesis
    using update2_good[of s0 s f h undefined "\<lambda>n. n"] assms good_trees[OF assms(1)]
    by (simp add: id same_nbr_def)
qed

lemma nh_set_label_good:
  assumes "good s0 s"
  shows "good s0 (nh_set_label (Ft f) i l s)"
  unfolding nh_set_label_def
  by (rule fn_update_good[OF assms]) (simp add: same_fn_def)

subsection \<open>Links\<close>

text \<open>Adding one link, removing one, or neither, at one member of a union.\<close>

definition link_op :: "'a \<Rightarrow> ('a set \<Rightarrow> 'a set) \<Rightarrow> bool" where
  "link_op e Z \<longleftrightarrow> Z = insert e \<or> Z = (\<lambda>A. A - {e}) \<or> Z = (\<lambda>A. A)"

lemma link_ops [simp]: "link_op e (insert e)" "link_op e (\<lambda>A. A - {e})" "link_op e (\<lambda>A. A)"
  by (simp_all add: link_op_def)

lemma UN_link_op:
  fixes A :: "'i set" and F :: "'i \<Rightarrow> 'a set"
  assumes "link_op e Z" and "x \<in> A" and "F' x = Z (F x)"
    and "\<And>y. y \<in> A \<Longrightarrow> y \<noteq> x \<Longrightarrow> F' y = F y \<and> e \<notin> F y"
  shows "(\<Union>y \<in> A. F' y) = Z (\<Union>y \<in> A. F y)"
proof -
  have s: "(\<Union>y \<in> A. G y) = G x \<union> (\<Union>y \<in> A - {x}. G y)" for G :: "'i \<Rightarrow> 'a set" using assms(2) by blast
  have r: "(\<Union>y \<in> A - {x}. F' y) = (\<Union>y \<in> A - {x}. F y)" using assms(4) by simp
  have "e \<notin> (\<Union>y \<in> A - {x}. F y)" using assms(4) by auto
  then have "Z (F x) \<union> (\<Union>y \<in> A - {x}. F y) = Z (F x \<union> (\<Union>y \<in> A - {x}. F y))"
    using assms(1) by (auto simp: link_op_def)
  then show ?thesis using s[of F'] s[of F] r assms(3) by simp
qed

text \<open>The two records a mapping concerns, once and for all.\<close>

lemma good_peer_unique:
  "good s0 s \<Longrightarrow> n \<in> nbs s \<Longrightarrow> m \<in> nbs s \<Longrightarrow> peerid m = peerid n \<Longrightarrow> m = n"
  using peerid_inj[of s m n] by (simp add: good_def lde_inv_defs)

lemma good_fec_unique:
  "good s0 s \<Longrightarrow> n \<in> fns s \<Longrightarrow> m \<in> fns s \<Longrightarrow> fn_fec m = fn_fec n \<Longrightarrow> m = n"
  using fn_fec_inj[of s m n] by (simp add: good_def lde_inv_defs)

lemma at_fec_id: "fn_update (Ft f) (\<lambda>n. n) s = s"
proof -
  have "at_fec f (\<lambda>n. n) = (\<lambda>n. n)" by (rule ext) (simp add: at_fec_def)
  then show ?thesis by (simp add: fn_update_def rbt.map_ident)
qed

lemma nbr_update_links_good:
  assumes "good s0 s"
    and "\<And>n. n \<in> nbs s \<Longrightarrow> peerid n = pid \<Longrightarrow> same_nbr n (g n) \<and> nbr_trees_ok (g n)"
    and "links_ok (nbr_update pid g s)"
  shows "good s0 (nbr_update pid g s)"
  using update2_good[of s0 s undefined "\<lambda>n. n" pid g] assms
  by (simp add: at_fec_id same_fn_def)

text \<open>The links after a change of one entry and one neighbour.\<close>

lemma links_t:
  fixes pid f g h s
  defines "t \<equiv> nbr_update pid g (fn_update (Ft f) h s)"
  shows "down_links t = (\<Union>n \<in> fns s. {fn_fec (at_fec f h n)} \<times> set (fn_downstream (at_fec f h n)))"
    and "up_links t = (\<Union>n \<in> fns s. {fn_fec (at_fec f h n)} \<times> set (fn_upstream (at_fec f h n)))"
    and "recv_links t = (\<Union>n \<in> nbs s. me_fec ` maps (recv_map (at_peer pid g n)) \<times> {peerid (at_peer pid g n)})"
    and "sent_links t = (\<Union>n \<in> nbs s.
      me_fec ` {me \<in> maps (sent_map (at_peer pid g n)). me_owner me = Ft (me_fec me)}
      \<times> {peerid (at_peer pid g n)})"
  by (simp_all add: t_def down_links_def up_links_def recv_links_def sent_links_def nbs_nbr_update)

lemma links_change:
  assumes "good s0 s" and n: "n \<in> nbs s" "peerid n = pid" and fn: "fn \<in> fns s" "fn_fec fn = f"
    and h: "fn_fec (h fn) = f" and g: "peerid (g n) = pid"
    and X: "link_op (f, pid) X" and Y: "link_op (f, pid) Y"
    and d: "{f} \<times> set (fn_downstream (h fn)) = X ({f} \<times> set (fn_downstream fn))"
    and r: "me_fec ` maps (recv_map (g n)) \<times> {pid} = X (me_fec ` maps (recv_map n) \<times> {pid})"
    and u: "{f} \<times> set (fn_upstream (h fn)) = Y ({f} \<times> set (fn_upstream fn))"
    and t: "me_fec ` {me \<in> maps (sent_map (g n)). me_owner me = Ft (me_fec me)} \<times> {pid} =
            Y (me_fec ` {me \<in> maps (sent_map n). me_owner me = Ft (me_fec me)} \<times> {pid})"
    and dist: "distinct (fn_downstream (h fn))" "distinct (fn_upstream (h fn))"
    and ok: "recv_ok (g n)" "sent_ok (g n)"
  shows "links_ok (nbr_update pid g (fn_update (Ft f) h s))"
proof -
  let ?t = "nbr_update pid g (fn_update (Ft f) h s)"
  have i: "links_ok s" using assms(1) by (simp add: good_def lde_inv_def)
  have fo: "at_fec f h m = m" "f \<noteq> fn_fec m" if "m \<in> fns s" "m \<noteq> fn" for m
    using good_fec_unique[OF assms(1) fn(1) that(1)] that(2) fn(2) by (auto simp: at_fec_def)
  have no: "at_peer pid g m = m" "pid \<noteq> peerid m" if "m \<in> nbs s" "m \<noteq> n" for m
    using good_peer_unique[OF assms(1) n(1) that(1)] that(2) n(2) by (auto simp: at_peer_def)
  have fa: "at_fec f h fn = h fn" and na: "at_peer pid g n = g n"
    using fn n by (simp_all add: at_fec_def at_peer_def)
  have "down_links ?t = X (down_links s)"
    by (simp only: links_t down_links_def[of s], rule UN_link_op[OF X fn(1)]) (simp_all add: fo fa h fn(2) d)
  moreover have "up_links ?t = Y (up_links s)"
    by (simp only: links_t up_links_def[of s], rule UN_link_op[OF Y fn(1)]) (simp_all add: fo fa h fn(2) u)
  moreover have "recv_links ?t = X (recv_links s)"
    by (simp only: links_t recv_links_def[of s], rule UN_link_op[OF X n(1)]) (simp_all add: no na g n(2) r)
  moreover have "sent_links ?t = Y (sent_links s)"
    by (simp only: links_t sent_links_def[of s], rule UN_link_op[OF Y n(1)]) (simp_all add: no na g n(2) t)
  moreover have "distinct (fn_downstream (at_fec f h m)) \<and> distinct (fn_upstream (at_fec f h m))" if "m \<in> fns s" for m
    using that i dist fo fa by (cases "m = fn") (auto simp: links_ok_def)
  moreover have "recv_ok (at_peer pid g m) \<and> sent_ok (at_peer pid g m)" if "m \<in> nbs s" for m
    using that i ok no na by (cases "m = n") (auto simp: links_ok_def)
  ultimately show ?thesis using i by (simp add: links_ok_def nbs_nbr_update)
qed

subsection \<open>Recording and forgetting mappings\<close>

lemma good_nbr_ok: "good s0 s \<Longrightarrow> n \<in> nbs s \<Longrightarrow> recv_ok n \<and> sent_ok n"
  by (simp add: good_def lde_inv_defs)

lemma good_distinct: "good s0 s \<Longrightarrow> fn \<in> fns s \<Longrightarrow> distinct (fn_downstream fn) \<and> distinct (fn_upstream fn)"
  by (simp add: good_def lde_inv_defs)

text \<open>An entry lists the peer exactly when the peer's tree has the mapping.\<close>

lemma down_iff:
  assumes "good s0 s" and n: "n \<in> nbs s" and fn: "fn \<in> fns s"
  shows "peerid n \<in> set (fn_downstream fn) \<longleftrightarrow> fn_fec fn \<in> me_fec ` maps (recv_map n)"
proof -
  have "(fn_fec fn, peerid n) \<in> down_links s \<longleftrightarrow> peerid n \<in> set (fn_downstream fn)"
    unfolding down_links_def using fn by (auto dest: good_fec_unique[OF assms(1) _ fn])
  moreover have "(fn_fec fn, peerid n) \<in> recv_links s \<longleftrightarrow> fn_fec fn \<in> me_fec ` maps (recv_map n)"
    unfolding recv_links_def using n by (auto dest: good_peer_unique[OF assms(1) _ n])
  moreover have "down_links s = recv_links s" using assms(1) by (simp add: good_def lde_inv_defs)
  ultimately show ?thesis by simp
qed

lemma up_iff:
  assumes "good s0 s" and n: "n \<in> nbs s" and fn: "fn \<in> fns s"
  shows "peerid n \<in> set (fn_upstream fn) \<longleftrightarrow>
    fn_fec fn \<in> me_fec ` {me \<in> maps (sent_map n). me_owner me = Ft (me_fec me)}"
proof -
  have "(fn_fec fn, peerid n) \<in> up_links s \<longleftrightarrow> peerid n \<in> set (fn_upstream fn)"
    unfolding up_links_def using fn by (auto dest: good_fec_unique[OF assms(1) _ fn])
  moreover have "(fn_fec fn, peerid n) \<in> sent_links s \<longleftrightarrow>
      fn_fec fn \<in> me_fec ` {me \<in> maps (sent_map n). me_owner me = Ft (me_fec me)}"
    unfolding sent_links_def using n by (auto dest: good_peer_unique[OF assms(1) _ n])
  moreover have "up_links s = sent_links s" using assms(1) by (simp add: good_def lde_inv_defs)
  ultimately show ?thesis by simp
qed

lemma map_add_Ft_good:
  assumes "good s0 s" and n: "n \<in> nbs s" "peerid n = pid" and fn: "fn \<in> fns s" "fn_fec fn = f"
    and abs: "fec_find me_fec (if sent then sent_map n else recv_map n) f = None"
    and m: "\<not> sent \<Longrightarrow> map_af_ok m"
  shows "ensures (lde_map_add pid (Ft f) sent m s) (good s0)"
proof -
  have d: "fn_deref s (Ft f) = Inr fn" using assms(1) fn by (simp add: fn_deref_Ft_iff good_def)
  let ?me = "\<lparr>me_fec = f, me_nexthop = pid, me_map = m, me_owner = Ft f\<rparr>"
  have tr: "nbr_trees_ok n" using good_trees[OF assms(1) n(1)] .
  have none: "f \<notin> me_fec ` maps (if sent then sent_map n else recv_map n)"
    using abs tr by (cases sent) (auto simp: nbr_trees_ok_def fec_find_None)
  have ins: "maps (snd (fec_insert me_fec ?me (if sent then sent_map n else recv_map n))) =
      insert ?me (maps (if sent then sent_map n else recv_map n))"
    using set_fec_insert[of me_fec "if sent then sent_map n else recv_map n" ?me] abs by simp
  have u: "k = n" if "k \<in> nbs s" "peerid k = pid" for k
    using good_peer_unique[OF assms(1) n(1) that(1)] that(2) n(2) by simp
  note dist = good_distinct[OF assms(1) fn(1)] and ok = good_nbr_ok[OF assms(1) n(1)]
  show ?thesis
  proof (cases sent)
    case True
    have fil: "{me \<in> insert ?me A. me_owner me = Ft (me_fec me)} =
        insert ?me {me \<in> A. me_owner me = Ft (me_fec me)}" for A by auto
    have "pid \<notin> set (fn_upstream fn)" using up_iff[OF assms(1) n(1) fn(1)] none True n fn by auto
    then have "links_ok (nbr_update pid (\<lambda>n. n\<lparr>sent_map := snd (fec_insert me_fec ?me (sent_map n))\<rparr>)
              (fn_update (Ft f) (\<lambda>n. n\<lparr>fn_upstream := pid # fn_upstream n\<rparr>) s))"
    proof (intro links_change[OF assms(1) n fn, where X = "\<lambda>A. A" and Y = "insert (f, pid)"])
      have e: "maps (sent_map (n\<lparr>sent_map := snd (fec_insert me_fec ?me (sent_map n))\<rparr>)) =
          insert ?me (maps (sent_map n))"
        using ins True by simp
      show "me_fec ` {me \<in> maps (sent_map (n\<lparr>sent_map := snd (fec_insert me_fec ?me (sent_map n))\<rparr>)).
            me_owner me = Ft (me_fec me)} \<times> {pid} =
          insert (f, pid) (me_fec ` {me \<in> maps (sent_map n). me_owner me = Ft (me_fec me)} \<times> {pid})"
        unfolding e fil by auto
    qed (use ins dist ok True n fn in \<open>auto simp: recv_ok_def sent_ok_def\<close>)
    then show ?thesis using d fn tr True
      by (auto simp: lde_map_add_def Let_def same_fn_def same_nbr_def nbr_trees_ok_def
          intro!: update2_good[OF assms(1)] dest!: u)
  next
    case False
    have "pid \<notin> set (fn_downstream fn)" using down_iff[OF assms(1) n(1) fn(1)] none False n fn by auto
    then have "links_ok (nbr_update pid (\<lambda>n. n\<lparr>recv_map := snd (fec_insert me_fec ?me (recv_map n))\<rparr>)
              (fn_update (Ft f) (\<lambda>n. n\<lparr>fn_downstream := pid # fn_downstream n\<rparr>) s))"
      using ins dist ok False n fn m
      by (intro links_change[OF assms(1) n fn, where X = "insert (f, pid)" and Y = "\<lambda>A. A"])
         (auto simp: recv_ok_def sent_ok_def)
    then show ?thesis using d fn tr False
      by (auto simp: lde_map_add_def Let_def same_fn_def same_nbr_def nbr_trees_ok_def
          intro!: update2_good[OF assms(1)] dest!: u)
  qed
qed

lemma links_nbr_update:
  assumes "links_ok s"
    and g: "\<And>n. n \<in> nbs s \<Longrightarrow> peerid n = pid \<Longrightarrow> peerid (g n) = pid \<and>
      me_fec ` maps (recv_map (g n)) = me_fec ` maps (recv_map n) \<and>
      me_fec ` {me \<in> maps (sent_map (g n)). me_owner me = Ft (me_fec me)} =
      me_fec ` {me \<in> maps (sent_map n). me_owner me = Ft (me_fec me)} \<and> recv_ok (g n) \<and> sent_ok (g n)"
  shows "links_ok (nbr_update pid g s)"
proof -
  have a: "peerid (at_peer pid g n) = peerid n"
    "me_fec ` maps (recv_map (at_peer pid g n)) = me_fec ` maps (recv_map n)"
    "me_fec ` {me \<in> maps (sent_map (at_peer pid g n)). me_owner me = Ft (me_fec me)} =
      me_fec ` {me \<in> maps (sent_map n). me_owner me = Ft (me_fec me)}"
    "recv_ok (at_peer pid g n) \<and> sent_ok (at_peer pid g n)" if "n \<in> nbs s" for n
    using g[OF that] assms(1) that by (simp_all add: at_peer_def links_ok_def)
  have "recv_links (nbr_update pid g s) = recv_links s" "sent_links (nbr_update pid g s) = sent_links s"
    unfolding recv_links_def sent_links_def nbs_nbr_update using a(1-3) by simp_all
  then show ?thesis using assms(1) a(4)
    by (simp add: links_ok_def nbs_nbr_update down_links_def up_links_def)
qed

lemma set_map_good:
  assumes "good s0 s" and "\<not> sent \<Longrightarrow> map_af_ok m"
  shows "good s0 (set_map pid f sent m s)"
proof -
  define g :: "lde_map \<Rightarrow> lde_map" where "g = (\<lambda>me. if me_fec me = f then me\<lparr>me_map := m\<rparr> else me)"
  have g [simp]: "me_fec (g x) = me_fec x" "me_nexthop (g x) = me_nexthop x" "me_owner (g x) = me_owner x" for x
    by (simp_all add: g_def)
  have im: "me_fec ` g ` A = me_fec ` A" for A by (simp add: image_image)
  have im2: "me_fec ` {me \<in> g ` A. me_owner me = Ft (me_fec me)} =
      me_fec ` {me \<in> A. me_owner me = Ft (me_fec me)}" for A
  proof -
    have "{me \<in> g ` A. me_owner me = Ft (me_fec me)} = g ` {me \<in> A. me_owner me = Ft (me_fec me)}" by auto
    then show ?thesis by (simp only: im)
  qed
  have ok: "map_af_ok (me_map (g x))" if "map_af_ok (me_map x)" "\<not> sent" for x
    using that assms(2) by (simp add: g_def)
  have e: "set_map pid f sent m = nbr_update pid
      (\<lambda>n. if sent then n\<lparr>sent_map := map_rbt g (sent_map n)\<rparr> else n\<lparr>recv_map := map_rbt g (recv_map n)\<rparr>)"
    by (simp only: set_map_def g_def Let_def)
  have "links_ok (set_map pid f sent m s)"
    unfolding e using assms(1) good_nbr_ok[OF assms(1)] ok
    by (intro links_nbr_update) (auto simp: good_def lde_inv_def recv_ok_def sent_ok_def im im2)
  then show ?thesis
    unfolding e using good_trees[OF assms(1)]
    by (intro nbr_update_links_good[OF assms(1)])
       (auto simp: same_nbr_def nbr_trees_ok_def intro!: fec_order.map_ordered)
qed

lemma fn_nbr_commute: "fn_update r h (nbr_update pid g s) = nbr_update pid g (fn_update r h s)"
  by (simp add: fn_update_def nbr_update_def split: fn_ref.split)

lemma fn_deref_nbr_update [simp]: "fn_deref (nbr_update pid g s) r = fn_deref s r"
  by (simp add: fn_deref_def split: fn_ref.split)

lemma me_fec_remove:
  assumes "fec_order.ordered me_fec t" and "me \<in> maps t"
  shows "me_fec ` {x \<in> maps (fec_remove me_fec (me_fec me) t). P x} = me_fec ` {x \<in> maps t. P x} - {me_fec me}"
  using set_fec_remove[OF assms] fec_remove_key[OF assms] fec_order.ordered_key_inj[OF assms(1) _ assms(2)] by auto

text \<open>The entry a recorded mapping is linked into.\<close>

lemma recv_owner:
  assumes "good s0 s" and "n \<in> nbs s" and "me \<in> maps (recv_map n)"
  obtains fn where "fn \<in> fns s" and "fn_fec fn = me_fec me"
proof -
  have "(me_fec me, peerid n) \<in> recv_links s" unfolding recv_links_def using assms by auto
  then have "(me_fec me, peerid n) \<in> down_links s" using assms(1) by (simp add: good_def lde_inv_defs)
  then show ?thesis using that unfolding down_links_def by auto
qed

lemma sent_owner:
  assumes "good s0 s" and "n \<in> nbs s" and "me \<in> maps (sent_map n)" and "me_owner me = Ft (me_fec me)"
  obtains fn where "fn \<in> fns s" and "fn_fec fn = me_fec me"
proof -
  have "(me_fec me, peerid n) \<in> sent_links s" unfolding sent_links_def using assms by auto
  then have "(me_fec me, peerid n) \<in> up_links s" using assms(1) by (simp add: good_def lde_inv_defs)
  then show ?thesis using that unfolding up_links_def by auto
qed

lemma map_del_recv_good:
  assumes "good s0 s" and n: "n \<in> nbs s" "peerid n = pid" and me: "me \<in> maps (recv_map n)"
  shows "ensures (lde_map_del pid me False s) (good s0)"
proof -
  obtain fn where fn: "fn \<in> fns s" "fn_fec fn = me_fec me" by (rule recv_owner[OF assms(1) n(1) me])
  have d: "fn_deref s (Ft (me_fec me)) = Inr fn" using assms(1) fn by (simp add: fn_deref_Ft_iff good_def)
  note ok = good_nbr_ok[OF assms(1) n(1)] and dist = good_distinct[OF assms(1) fn(1)]
    and tr = good_trees[OF assms(1) n(1)]
  have o: "me_owner me = Ft (me_fec me)" "me_nexthop me = pid" using ok me n(2) by (auto simp: recv_ok_def)
  have or: "fec_order.ordered me_fec (recv_map n)" using tr by (simp add: nbr_trees_ok_def)
  have u: "k = n" if "k \<in> nbs s" "peerid k = pid" for k
    using good_peer_unique[OF assms(1) n(1) that(1)] that(2) n(2) by simp
  have im: "me_fec ` maps (fec_remove me_fec (me_fec me) (recv_map n)) = me_fec ` maps (recv_map n) - {me_fec me}"
    using me_fec_remove[OF or me, of "\<lambda>_. True"] by simp
  let ?t = "nbr_update pid (\<lambda>n. n\<lparr>recv_map := fec_remove me_fec (me_fec me) (recv_map n)\<rparr>)
     (fn_update (Ft (me_fec me)) (\<lambda>n. n\<lparr>fn_downstream := remove1 pid (fn_downstream n)\<rparr>) s)"
  have "links_ok ?t"
    using dist ok n fn im set_fec_remove[OF or me]
    by (intro links_change[OF assms(1) n fn, where X = "\<lambda>A. A - {(me_fec me, pid)}" and Y = "\<lambda>A. A"])
       (auto simp: recv_ok_def sent_ok_def)
  then have "good s0 ?t" using tr me
    by (auto simp: same_fn_def same_nbr_def nbr_trees_ok_def fec_remove_ordered
        intro!: update2_good[OF assms(1)] dest!: u)
  then show ?thesis using d o by (simp add: lde_map_del_def lde_map_free_def fn_nbr_commute)
qed

lemma map_del_sent_good:
  assumes "good s0 s" and n: "n \<in> nbs s" "peerid n = pid" and me: "me \<in> maps (sent_map n)"
    and o: "me_owner me = Ft (me_fec me)"
  shows "ensures (lde_map_del pid me True s) (good s0)"
proof -
  obtain fn where fn: "fn \<in> fns s" "fn_fec fn = me_fec me" by (rule sent_owner[OF assms(1) n(1) me o])
  have d: "fn_deref s (Ft (me_fec me)) = Inr fn" using assms(1) fn by (simp add: fn_deref_Ft_iff good_def)
  note ok = good_nbr_ok[OF assms(1) n(1)] and dist = good_distinct[OF assms(1) fn(1)]
    and tr = good_trees[OF assms(1) n(1)]
  have o2: "me_nexthop me = pid" using ok me n(2) by (auto simp: sent_ok_def)
  have or: "fec_order.ordered me_fec (sent_map n)" using tr by (simp add: nbr_trees_ok_def)
  have u: "k = n" if "k \<in> nbs s" "peerid k = pid" for k
    using good_peer_unique[OF assms(1) n(1) that(1)] that(2) n(2) by simp
  note im = me_fec_remove[OF or me, of "\<lambda>x. me_owner x = Ft (me_fec x)"]
  let ?t = "nbr_update pid (\<lambda>n. n\<lparr>sent_map := fec_remove me_fec (me_fec me) (sent_map n)\<rparr>)
     (fn_update (Ft (me_fec me)) (\<lambda>n. n\<lparr>fn_upstream := remove1 pid (fn_upstream n)\<rparr>) s)"
  have "links_ok ?t"
    using dist ok n fn im set_fec_remove[OF or me]
    by (intro links_change[OF assms(1) n fn, where X = "\<lambda>A. A" and Y = "\<lambda>A. A - {(me_fec me, pid)}"])
       (auto simp: recv_ok_def sent_ok_def)
  then have "good s0 ?t" using tr me
    by (auto simp: same_fn_def same_nbr_def nbr_trees_ok_def fec_remove_ordered
        intro!: update2_good[OF assms(1)] dest!: u)
  then show ?thesis using d o o2 by (simp add: lde_map_del_def lde_map_free_def fn_nbr_commute)
qed

end
