(* ===== verification/Lde_Safe.thy ===== *)
theory Lde_Safe
  imports Lde_Inv
begin

text \<open>
  The procedures of the label decision engine keep its invariant and end without a fault.

  For the senders and the classic label distribution procedures (mappings, requests, releases,
  withdraws, routes, the end of a session, the garbage collector) the lemmas are total: from a state of
  \<open>lde_inv\<close> with a live neighbour they end without a fault, in a state of \<open>lde_inv\<close>.  The sent mappings
  of multipoint trees, whose list entry lies in freed memory, are the exception: a release of such a
  mapping faults, and the lemmas that touch sent mappings say so in a hypothesis.
\<close>

subsection \<open>Live pointers\<close>

lemma good_nbr:
  assumes "good s0 s" and "nbr_live s0 pid"
  obtains n where "n \<in> nbs s" and "peerid n = pid" and "nbr_deref s pid = Inr n"
proof -
  have "nbr_live s pid" using good_frame(1)[OF assms(1)] assms(2) by simp
  then obtain n where "n \<in> nbs s" "peerid n = pid" by (auto simp: nbr_live_def)
  with that show ?thesis using nbr_deref_iff[OF good_inv[OF assms(1)]] by blast
qed

lemma good_fn_ref:
  assumes "good s0 s" and "fn_live s0 r"
  obtains fn where "fn_deref s r = Inr fn" and "\<forall>p. fn_data fn = Some p \<longrightarrow> pws s p \<noteq> None"
    and "\<forall>f. r = Ft f \<longrightarrow> fn \<in> fns s \<and> fn_fec fn = f"
proof -
  have l: "fn_live s r" using good_frame(2)[OF assms(1)] assms(2) by simp
  show ?thesis
  proof (cases r)
    case (Ft f)
    then obtain fn where "fn \<in> fns s" "fn_fec fn = f" using l by (auto simp: fn_live_def)
    then show ?thesis using Ft fn_deref_Ft_iff[OF good_inv[OF assms(1)]] good_fn(2)[OF assms(1)]
      by (intro that[of fn]) auto
  next
    case (Tmp k)
    then have k: "k < length (tmps s)" "snd (tmps s ! k)" using l by (auto simp: fn_live_def)
    moreover have "fn_data (fst (tmps s ! k)) = None"
      using assms(1) k(1) by (auto simp: good_def lde_inv_defs)
    ultimately show ?thesis using that Tmp by (simp add: fn_deref_def)
  qed
qed

lemma good_fec_live: "good s0 s \<Longrightarrow> fn \<in> fns s \<Longrightarrow> fn_live s0 (Ft (fn_fec fn))"
  using good_frame(3)[of s0 s] by (auto simp: fn_live_def)

lemma good_nbr_live: "good s0 s \<Longrightarrow> n \<in> nbs s \<Longrightarrow> nbr_live s0 (peerid n)"
  using good_frame(4)[of s0 s] by (auto simp: nbr_live_def)

lemma nbr_update_find:
  assumes "n \<in> nbs s" and "peerid n = pid" and "P (g n)"
  shows "\<exists>n' \<in> nbs (nbr_update pid g s). P n'"
  unfolding nbs_nbr_update using assms by (intro bexI[of _ "at_peer pid g n"]) (auto simp: at_peer_def)

lemma fn_deref_compose: "fn_deref (compose_ldpe m s) r = fn_deref s r"
  by (simp add: fn_deref_def split: fn_ref.split)

subsection \<open>Nodes allocated for one message\<close>

lemma fn_update_tmp_good:
  assumes "good s0 s" and k: "k < length (tmps s)" "fst (tmps s ! k) = fn"
    and h: "fn_fec (h fn) = fn_fec fn" "fn_data (h fn) = fn_data fn"
  shows "good s0 (fn_update (Tmp k) h s)"
proof -
  let ?t = "fn_update (Tmp k) h s"
  have t: "ft ?t = ft s" "tmps ?t = (tmps s)[k := (h fn, snd (tmps s ! k))]" using k by (simp_all add: fn_update_def)
  have "fn_data (fst x) = None" if "x \<in> set (tmps ?t)" for x
  proof -
    have o: "fn_data (fst y) = None" if "y \<in> set (tmps s)" for y
      using that assms(1) by (simp add: good_def lde_inv_def tmps_ok_def)
    have "x = (h fn, snd (tmps s ! k)) \<or> x \<in> set (tmps s)"
      using that set_update_subset_insert[of "tmps s" k] unfolding t by auto
    then show ?thesis using o[of x] o[OF nth_mem[OF k(1)]] k(2) h(2) by auto
  qed
  then have "tmps_ok ?t" by (simp add: tmps_ok_def)
  then have "lde_inv ?t"
    using assms(1) unfolding good_def lde_inv_def tables_ok_def links_ok_def labels_ok_def pws_ok_def config_ok_def
      fn_pw_ok_def down_links_def up_links_def recv_links_def sent_links_def by simp
  moreover have "map (\<lambda>x. (fn_fec (fst x), snd x)) (tmps ?t) = map (\<lambda>x. (fn_fec (fst x), snd x)) (tmps s)"
    using k h(1) unfolding t by (auto simp: map_update intro: list_update_same_conv[THEN iffD2])
  then have "frame_of ?t = frame_of s" by (simp add: frame_of_def)
  ultimately show ?thesis using assms(1) by (simp add: good_def)
qed

lemma map_add_sent_good:
  assumes "good s0 s" and n: "n \<in> nbs s" "peerid n = pid" and r: "fn_live s0 r"
    and fn: "fn_deref s r = Inr fn" and abs: "fec_find me_fec (sent_map n) (fn_fec fn) = None"
  shows "ensures (lde_map_add pid r True m s) (good s0)"
proof (cases r)
  case (Ft f)
  then have "fn \<in> fns s" "fn_fec fn = f" using fn fn_deref_Ft_iff[OF good_inv[OF assms(1)]] by auto
  then show ?thesis using map_add_Ft_good[OF assms(1) n, of fn f True m] abs Ft by simp
next
  case (Tmp k)
  let ?me = "\<lparr>me_fec = fn_fec fn, me_nexthop = pid, me_map = m, me_owner = Tmp k\<rparr>"
  let ?g = "\<lambda>n. n\<lparr>sent_map := snd (fec_insert me_fec ?me (sent_map n))\<rparr>"
  let ?t = "fn_update (Tmp k) (\<lambda>n. n\<lparr>fn_upstream := pid # fn_upstream n\<rparr>) s"
  have t: "good s0 ?t"
    using fn Tmp by (intro fn_update_tmp_good[OF assms(1)]) (auto simp: fn_deref_def split: if_splits)
  have ins: "maps (sent_map (?g n)) = insert ?me (maps (sent_map n))"
    using set_fec_insert[of me_fec "sent_map n" ?me] abs by simp
  have u: "x = n" if "x \<in> nbs ?t" "peerid x = pid" for x
    using good_peer_unique[OF assms(1) n(1), of x] that n(2) by simp
  have fil: "{me \<in> maps (sent_map (?g n)). me_owner me = Ft (me_fec me)} =
      {me \<in> maps (sent_map n). me_owner me = Ft (me_fec me)}" unfolding ins by auto
  have "links_ok (nbr_update pid ?g ?t)"
  proof (rule links_nbr_update)
    fix x assume "x \<in> nbs ?t" "peerid x = pid"
    then have x: "x = n" by (rule u)
    show "peerid (?g x) = pid \<and> me_fec ` maps (recv_map (?g x)) = me_fec ` maps (recv_map x) \<and>
        me_fec ` {me \<in> maps (sent_map (?g x)). me_owner me = Ft (me_fec me)} =
        me_fec ` {me \<in> maps (sent_map x). me_owner me = Ft (me_fec me)} \<and> recv_ok (?g x) \<and> sent_ok (?g x)"
      unfolding x fil using good_nbr_ok[OF assms(1) n(1)] n(2) ins by (simp add: recv_ok_def sent_ok_def)
  qed (use t in \<open>simp add: good_def lde_inv_def\<close>)
  then have "good s0 (nbr_update pid ?g ?t)"
    using good_trees[OF t] by (intro nbr_update_links_good[OF t]) (auto simp: same_nbr_def nbr_trees_ok_def)
  then show ?thesis using fn Tmp by (simp add: lde_map_add_def)
qed

text \<open>
  Forgetting a sent mapping may follow a pointer into a node that has been freed.  When it does not,
  the invariant holds again.
\<close>

lemma map_del_sent_keeps:
  assumes "good s0 s" and n: "n \<in> nbs s" "peerid n = pid" and me: "me \<in> maps (sent_map n)"
  shows "keeps (lde_map_del pid me True s) (good s0)"
proof (cases "me_owner me = Ft (me_fec me)")
  case True
  then show ?thesis by (rule ensures_keeps[OF map_del_sent_good[OF assms]])
next
  case False
  then obtain k where k: "me_owner me = Tmp k" using good_nbr_ok[OF assms(1) n(1)] me by (auto simp: sent_ok_def)
  let ?d = "\<lambda>n. n\<lparr>sent_map := fec_remove me_fec (me_fec me) (sent_map n)\<rparr>"
  let ?s = "nbr_update pid ?d s"
  have or: "fec_order.ordered me_fec (sent_map n)" using good_trees[OF assms(1) n(1)] by (simp add: nbr_trees_ok_def)
  have u: "x = n" if "x \<in> nbs s" "peerid x = pid" for x
    using good_peer_unique[OF assms(1) n(1), of x] that n(2) by simp
  have fil: "{x \<in> maps (sent_map (?d n)). me_owner x = Ft (me_fec x)} =
      {x \<in> maps (sent_map n). me_owner x = Ft (me_fec x)}" using set_fec_remove[OF or me] False by auto
  have "links_ok ?s"
  proof (rule links_nbr_update)
    fix x assume "x \<in> nbs s" "peerid x = pid"
    then have x: "x = n" by (rule u)
    show "peerid (?d x) = pid \<and> me_fec ` maps (recv_map (?d x)) = me_fec ` maps (recv_map x) \<and>
        me_fec ` {me \<in> maps (sent_map (?d x)). me_owner me = Ft (me_fec me)} =
        me_fec ` {me \<in> maps (sent_map x). me_owner me = Ft (me_fec me)} \<and> recv_ok (?d x) \<and> sent_ok (?d x)"
      unfolding x fil using good_nbr_ok[OF assms(1) n(1)] n(2) set_fec_remove[OF or me]
      by (simp add: recv_ok_def sent_ok_def)
  qed (use assms(1) in \<open>simp add: good_def lde_inv_def\<close>)
  then have "good s0 ?s" using good_trees[OF assms(1) n(1)] me
    by (intro nbr_update_links_good[OF assms(1)])
       (auto dest!: u simp: same_nbr_def nbr_trees_ok_def fec_remove_ordered)
  then show ?thesis using k
    by (auto simp: lde_map_del_def lde_map_free_def keeps_iff split: if_splits intro!: fn_update_tmp_good)
qed

subsection \<open>Label messages\<close>

lemma sendable_ensures:
  assumes "good s0 s" and "\<forall>p. fn_data fn = Some p \<longrightarrow> pws s p \<noteq> None"
    and "\<And>p pw m. pws s p = Some pw \<Longrightarrow> \<exists>m'. ext pw m = Inr m'"
  shows "\<exists>x. sendable ln fn ext s = Inr x"
proof (cases "fn_data fn")
  case None
  then show ?thesis by (simp add: sendable_def Let_def split: fec_type.split)
next
  case (Some p)
  with assms(2) obtain pw where "pws s p = Some pw" by blast
  with assms(3) obtain m' where "ext pw (lde_fec2map (fn_fec fn)) = Inr m'" by blast
  with Some \<open>pws s p = Some pw\<close> show ?thesis by (simp add: sendable_def Let_def pw_deref_def split: fec_type.split)
qed

lemma mapping_ext_ensures:
  "good s0 s \<Longrightarrow> pws s p = Some pw \<Longrightarrow> \<exists>m'. mapping_pw_ext s pw m = Inr m'"
  using good_pw(2)[of s0 s p pw] by (auto simp: mapping_pw_ext_def l2vpn_deref_def Let_def)

lemma labelmapping_good:
  assumes "good s0 s" and "nbr_live s0 pid" and "fn_live s0 r"
  shows "ensures (lde_send_labelmapping pid r single s) (good s0)"
proof -
  obtain n where n: "n \<in> nbs s" "peerid n = pid" "nbr_deref s pid = Inr n" by (rule good_nbr[OF assms(1,2)])
  obtain fn where fn: "fn_deref s r = Inr fn" "\<forall>p. fn_data fn = Some p \<longrightarrow> pws s p \<noteq> None"
    "\<forall>f. r = Ft f \<longrightarrow> fn \<in> fns s \<and> fn_fec fn = f" by (rule good_fn_ref[OF assms(1,3)])
  obtain sm where sm: "sendable n fn (mapping_pw_ext s) s = Inr sm"
    using sendable_ensures[OF assms(1) fn(2)] mapping_ext_ensures[OF assms(1)] by blast
  let ?lre = "fec_find lre_fec (recv_req n) (fn_fec fn)"
  let ?s1 = "case ?lre of None \<Rightarrow> s | Some q \<Rightarrow> lde_req_del pid q False s"
  have g1: "good s0 ?s1"
  proof (cases ?lre)
    case (Some q)
    have "fec_order.ordered lre_fec (recv_req n)" using good_trees[OF assms(1) n(1)] by (simp add: nbr_trees_ok_def)
    from fec_find_Some[OF this Some] show ?thesis using Some req_del_good[OF assms(1) n(1,2), of q False] by simp
  qed (simp add: assms(1))
  have n1: "\<exists>n' \<in> nbs ?s1. peerid n' = pid \<and> sent_map n' = sent_map n"
  proof (cases ?lre)
    case None
    then show ?thesis using n(1,2) by auto
  next
    case (Some q)
    show ?thesis unfolding Some option.case lde_req_del_def
      by (rule nbr_update_find[OF n(1,2)]) (simp add: n(2))
  qed
  have f1: "fn_deref ?s1 r = Inr fn" using fn(1) by (simp add: lde_req_del_def split: option.split)
  have fin: "ensures (case fec_find me_fec (sent_map n) (fn_fec fn) of
        None \<Rightarrow> lde_map_add pid r True m t | Some me \<Rightarrow> Inr (set_map pid (me_fec me) True m t)) (good s0)"
    if "good s0 t" "lde_nbrs t = lde_nbrs ?s1" "fn_deref t r = Inr fn" for m t
    using that n1 map_add_sent_good[OF that(1) _ _ assms(3) that(3)] set_map_good[OF that(1), of True]
    by (auto split: option.split)
  show ?thesis
  proof (cases sm)
    case None
    then show ?thesis using n(3) fn(1) sm assms(1) by (simp add: lde_send_labelmapping_def)
  next
    case (Some m0)
    show ?thesis unfolding lde_send_labelmapping_def n(3) fn(1) sm Some and_then_simps option.case Let_def
      by (rule fin) (use g1 f1 in \<open>auto simp: fn_deref_compose\<close>)
  qed
qed

lemma record_wdraw_good:
  assumes "good s0 s" and "nbr_live s0 pid"
  shows "ensures (record_wdraw pid l f s) (good s0)"
proof -
  obtain n where "n \<in> nbs s" "peerid n = pid" "nbr_deref s pid = Inr n" by (rule good_nbr[OF assms])
  then show ?thesis using wdraw_add_good[OF assms(1)] wdraw_set_good[OF assms(1)]
    by (simp add: record_wdraw_def split: option.split)
qed

lemma labelwithdraw_good:
  assumes "good s0 s" and "nbr_live s0 pid" and "\<And>r. fno = Some r \<Longrightarrow> fn_live s0 r"
  shows "ensures (lde_send_labelwithdraw pid fno label st s) (good s0)"
proof -
  obtain n where n: "n \<in> nbs s" "peerid n = pid" "nbr_deref s pid = Inr n" by (rule good_nbr[OF assms(1,2)])
  show ?thesis
  proof (cases fno)
    case None
    then show ?thesis using n(3) assms(1) record_wdraw_good[OF _ assms(2)]
      by (auto simp: lde_send_labelwithdraw_def Let_def intro!: ensures_foreach)
  next
    case (Some r)
    obtain fn where fn: "fn_deref s r = Inr fn" "\<forall>p. fn_data fn = Some p \<longrightarrow> pws s p \<noteq> None"
      using good_fn_ref[OF assms(1) assms(3)[OF Some]] by metis
    obtain sm where sm: "sendable n fn cword_pw_ext s = Inr sm"
      using sendable_ensures[OF assms(1), of fn cword_pw_ext] fn(2) by (auto simp: cword_pw_ext_def)
    show ?thesis using n(3) fn(1) sm Some assms(1)
      by (auto simp: lde_send_labelwithdraw_def Let_def intro!: record_wdraw_good[OF _ assms(2)] split: option.split)
  qed
qed

lemma labelwithdraw_all_good:
  assumes "good s0 s" and "fn_live s0 r"
  shows "ensures (lde_send_labelwithdraw_all r label s) (good s0)"
  unfolding lde_send_labelwithdraw_all_def
  by (rule ensures_foreach[where P = "good s0"])
     (use assms good_nbr_live[OF assms(1)] in \<open>auto simp: rb_foreach_inorder intro!: labelwithdraw_good\<close>)

lemma labelrelease_good:
  assumes "good s0 s" and "nbr_live s0 pid" and "\<And>r. fno = Some r \<Longrightarrow> fn_live s0 r"
  shows "ensures (lde_send_labelrelease pid fno label s) (\<lambda>t. good s0 t \<and> lde_nbrs t = lde_nbrs s \<and> ft t = ft s)"
proof -
  obtain n where n: "nbr_deref s pid = Inr n" by (rule good_nbr[OF assms(1,2)])
  show ?thesis
  proof (cases fno)
    case None
    then show ?thesis using n assms(1) by (simp add: lde_send_labelrelease_def)
  next
    case (Some r)
    obtain fn where fn: "fn_deref s r = Inr fn" "\<forall>p. fn_data fn = Some p \<longrightarrow> pws s p \<noteq> None"
      using good_fn_ref[OF assms(1) assms(3)[OF Some]] by metis
    obtain sm where sm: "sendable n fn cword_pw_ext s = Inr sm"
      using sendable_ensures[OF assms(1), of fn cword_pw_ext] fn(2) by (auto simp: cword_pw_ext_def)
    then show ?thesis using n fn(1) Some assms(1) by (simp add: lde_send_labelrelease_def split: option.split)
  qed
qed

lemma fec_snap_good:
  assumes "good s0 s" and "nbr_live s0 pid"
  shows "ensures (fec_snap pid s) (\<lambda>t. t = compose_ldpe (IMSG_MAPPING_ADD_END pid) s)"
proof -
  have "foreach (\<lambda>f s. and_then (fn_deref s (Ft f)) (\<lambda>fn.
      if fn_local_label fn = NO_LABEL then Inr s else lde_send_labelmapping pid (Ft f) False s))
    (map fn_fec (rb_foreach (ft s))) s = Inr s"
  proof (rule foreach_id)
    fix f assume "f \<in> set (map fn_fec (rb_foreach (ft s)))"
    then obtain fn where fn: "fn \<in> fns s" "fn_fec fn = f" by (auto simp: rb_foreach_inorder)
    then have "fn_deref s (Ft f) = Inr fn" using fn_deref_Ft_iff[OF good_inv[OF assms(1)]] by simp
    then show "and_then (fn_deref s (Ft f)) (\<lambda>fn.
      if fn_local_label fn = NO_LABEL then Inr s else lde_send_labelmapping pid (Ft f) False s) = Inr s"
      using good_fn(1)[OF assms(1) fn(1)] by simp
  qed
  then show ?thesis by (simp add: fec_snap_def)
qed

subsection \<open>Pseudowire negotiation\<close>

lemma pw_flags_good:
  assumes "good s0 s" and "b \<in> {F_PW_CWORD, F_PW_STATUSTLV}"
  shows "good s0 (pw_update p (\<lambda>pw. pw\<lparr>pw_flags := pw_flags pw AND NOT b\<rparr>) s)"
    and "good s0 (pw_update p (\<lambda>pw. pw\<lparr>pw_flags := pw_flags pw OR b\<rparr>) s)"
  using good_pw(1)[OF assms(1)] assms(2) by (auto intro!: pw_update_good[OF assms(1)] simp: bit_simps)

lemma negotiate_good:
  assumes "good s0 s" and "nbr_live s0 pid" and "fn_live s0 r"
  shows "ensures (l2vpn_pw_negotiate pid r m s) (\<lambda>x. good s0 (snd x))"
proof -
  obtain n where n: "nbr_deref s pid = Inr n" by (rule good_nbr[OF assms(1,2)])
  obtain fn where fn: "fn_deref s r = Inr fn" "\<forall>p. fn_data fn = Some p \<longrightarrow> pws s p \<noteq> None"
    using good_fn_ref[OF assms(1,3)] by metis
  have w: "ensures (and_then (lde_send_labelwithdraw pid (Some r) NO_LABEL st s) (\<lambda>s1.
      and_then (lde_send_labelmapping pid r True
        (pw_update p (\<lambda>pw. pw\<lparr>pw_flags := pw_flags pw AND NOT F_PW_CWORD\<rparr>) s1)) (\<lambda>s2. Inr (False, s2))))
    (\<lambda>x. good s0 (snd x))" for st p
    by (rule ensures_and_then[OF labelwithdraw_good[OF assms(1,2)]], use assms(3) in simp,
        rule ensures_and_then[OF labelmapping_good[OF pw_flags_good(1) assms(2,3)]]) auto
  have s: "ensures (and_then (nbr_deref s1 pid) (\<lambda>ln1.
        if fec_find me_fec (recv_map ln1) (fn_fec fn) = None \<and> \<not> has_flag (m_flags m) F_MAP_PW_STATUS
        then Inr (False, pw_update p (\<lambda>pw. pw\<lparr>pw_flags := pw_flags pw AND NOT F_PW_STATUSTLV\<rparr>) s1)
        else Inr (False, s1))) (\<lambda>x. good s0 (snd x))" if g: "good s0 s1" for s1 p
  proof -
    obtain n1 where "nbr_deref s1 pid = Inr n1" by (rule good_nbr[OF g assms(2)])
    then show ?thesis using g pw_flags_good(1)[OF g, of F_PW_STATUSTLV] by simp
  qed
  show ?thesis
  proof (cases "fn_data fn")
    case None
    then show ?thesis using n fn(1) assms(1) by (simp add: l2vpn_pw_negotiate_def)
  next
    case (Some p)
    with fn(2) obtain pw where pw: "pws s p = Some pw" by blast
    show ?thesis unfolding l2vpn_pw_negotiate_def n fn(1) and_then_simps Some option.case pw_deref_def pw
      by (rule ensures_and_then[where Q = "\<lambda>x. good s0 (snd x)"])
         (use w s assms(1) pw_flags_good[OF assms(1), of F_PW_CWORD] in \<open>auto split: prod.split\<close>)
  qed
qed

subsection \<open>New entries of the label information base\<close>

text \<open>The part of the frame that describes the neighbours.\<close>

definition nbr_frame :: "lde_state \<Rightarrow> (u32 \<times> u32 \<times> bool \<times> bool \<times> lde_addr list) list" where
  "nbr_frame s = map (\<lambda>n. (peerid n, nbr_id n, v4_enabled n, v6_enabled n, addr_list n)) (inorder (lde_nbrs s))"

lemma good_nbr_frame: "good s0 s \<Longrightarrow> nbr_frame s = nbr_frame s0"
  by (simp add: good_def frame_of_def nbr_frame_def)

lemma nbr_frame_live:
  assumes "nbr_frame s = nbr_frame t"
  shows "nbr_live s pid = nbr_live t pid"
proof -
  have "peerid ` nbs s = fst ` set (nbr_frame s)" for s by (simp add: nbr_frame_def image_image)
  then show ?thesis using assms by (simp add: nbr_live_def)
qed

lemma fec_add_fns:
  assumes "fec_find fn_fec (ft s) f = None"
  shows "fns (fec_add f s) = insert (fec_node_new f NO_LABEL) (fns s)"
  using set_fec_insert[of fn_fec "ft s" "fec_node_new f NO_LABEL"] assms
  by (simp add: fec_add_def fec_node_new_def)

lemma fec_add_fields [simp]:
  "lde_nbrs (fec_add f s) = lde_nbrs s" "label_nbrs (fec_add f s) = label_nbrs s"
  "pws (fec_add f s) = pws s" "l2vpns (fec_add f s) = l2vpns s" "l2vpn_list (fec_add f s) = l2vpn_list s"
  "to_parent (fec_add f s) = to_parent s" "tmps (fec_add f s) = tmps s"
  by (simp_all add: fec_add_def)

lemma fec_add_inv:
  assumes "lde_inv s" and "fec_find fn_fec (ft s) f = None"
  shows "lde_inv (fec_add f s)"
proof -
  have "tables_ok (fec_add f s)" using assms(1) by (simp add: lde_inv_def tables_ok_def) (simp add: fec_add_def)
  moreover have "down_links (fec_add f s) = down_links s" "up_links (fec_add f s) = up_links s"
    unfolding down_links_def up_links_def fec_add_fns[OF assms(2)] by (simp_all add: fec_node_new_def)
  then have "links_ok (fec_add f s)"
    using assms(1) unfolding lde_inv_def links_ok_def fec_add_fns[OF assms(2)] recv_links_def sent_links_def
    by (simp add: fec_node_new_def)
  moreover have "labels_ok (fec_add f s)" "pws_ok (fec_add f s)"
    using assms(1) unfolding lde_inv_def labels_ok_def pws_ok_def fec_add_fns[OF assms(2)]
    by (simp_all add: fec_node_new_def config_ok_def fn_pw_ok_def)
  ultimately show ?thesis using assms(1) by (simp add: lde_inv_def tmps_ok_def)
qed

lemma fec_get_inv:
  assumes "lde_inv s" and "fec_get fec s = (f, s1)"
  shows "lde_inv s1" and "lde_nbrs s1 = lde_nbrs s" and "pws s1 = pws s"
    and "fec_key f = fec_key fec" and "\<exists>fn \<in> fns s1. fn_fec fn = f"
proof -
  have o: "fec_order.ordered fn_fec (ft s)" using assms(1) by (simp add: lde_inv_defs)
  have "lde_inv s1 \<and> lde_nbrs s1 = lde_nbrs s \<and> pws s1 = pws s \<and> fec_key f = fec_key fec \<and> (\<exists>fn \<in> fns s1. fn_fec fn = f)"
  proof (cases "fec_find fn_fec (ft s) fec")
    case None
    then show ?thesis using assms fec_add_inv[OF assms(1) None] fec_add_fns[OF None]
      by (auto simp: fec_get_def fec_node_new_def)
  next
    case (Some fn)
    then show ?thesis using assms fec_find_Some[OF o Some] by (auto simp: fec_get_def)
  qed
  then show "lde_inv s1" and "lde_nbrs s1 = lde_nbrs s" and "pws s1 = pws s"
    and "fec_key f = fec_key fec" and "\<exists>fn \<in> fns s1. fn_fec fn = f" by blast+
qed

lemma fec_key_type: "fec_key f = fec_key g \<Longrightarrow> ftype f = ftype g"
  by (metis fst_fec_key)

lemma fn_update_inv:
  assumes "lde_inv s"
    and h: "\<And>n. n \<in> fns s \<Longrightarrow> fn_fec n = f \<Longrightarrow> fn_fec (h n) = f \<and> fn_downstream (h n) = fn_downstream n \<and>
      fn_upstream (h n) = fn_upstream n \<and> fn_local_label (h n) = NO_LABEL \<and> fn_pw_ok s (h n)"
  shows "lde_inv (fn_update (Ft f) h s)"
proof -
  let ?t = "fn_update (Ft f) h s"
  have a: "fn_fec (at_fec f h n) = fn_fec n" "fn_downstream (at_fec f h n) = fn_downstream n"
    "fn_upstream (at_fec f h n) = fn_upstream n" "fn_local_label (at_fec f h n) = NO_LABEL"
    "fn_pw_ok s (at_fec f h n)" if "n \<in> fns s" for n
    using h[OF that] assms(1) that by (auto simp: at_fec_def lde_inv_def labels_ok_def pws_ok_def)
  have "fec_order.ordered fn_fec (ft ?t)" unfolding fn_update_def using assms(1) a(1)
    by (auto simp: lde_inv_def tables_ok_def intro!: fec_order.map_ordered)
  then have "tables_ok ?t" using assms(1) by (simp add: lde_inv_def tables_ok_def)
  moreover have "down_links ?t = down_links s" "up_links ?t = up_links s"
    unfolding down_links_def up_links_def fns_fn_update using a(1-3) by simp_all
  then have "links_ok ?t" using assms(1) a(2,3) unfolding lde_inv_def links_ok_def fns_fn_update
    by (simp add: recv_links_def sent_links_def)
  moreover have "labels_ok ?t" unfolding labels_ok_def fns_fn_update using a(4) by simp
  moreover have "fn_pw_ok ?t = fn_pw_ok s" by (simp add: fn_pw_ok_def fun_eq_iff)
  then have "pws_ok ?t" using assms(1) a(5) unfolding lde_inv_def pws_ok_def fns_fn_update
    by (simp add: config_ok_def)
  ultimately show ?thesis using assms(1) by (simp add: lde_inv_def tmps_ok_def)
qed

subsection \<open>Loops over next hops\<close>

text \<open>What the bodies of the loops keep: the frame, the invariant and the trees of the neighbours.\<close>

definition calm :: "lde_state \<Rightarrow> lde_nbr rbt \<Rightarrow> lde_state \<Rightarrow> bool" where
  "calm s0 ns s \<longleftrightarrow> good s0 s \<and> lde_nbrs s = ns"

lemma nh_ref:
  assumes "lde_inv s0" and "good s0 s" and "fn0 \<in> fns s0" and "i < length (fn_nexthops fn0)"
  obtains fn where "fn \<in> fns s" and "fn_fec fn = fn_fec fn0" and "fn_deref s (Ft (fn_fec fn0)) = Inr fn"
    and "i < length (fn_nexthops fn)" and "nh_deref fn i = Inr (fn_nexthops fn ! i)" and "fn_data fn = fn_data fn0"
proof -
  obtain fn where fn: "fn \<in> fns s" "fn_fec fn = fn_fec fn0" using good_frame(3)[OF assms(2)] assms(3) by force
  have f: "frame_of s = frame_of s0" using assms(2) by (simp add: good_def)
  have "length (fn_nexthops fn) = length (fn_nexthops fn0)" "fn_data fn = fn_data fn0"
    using frame_nexthops[OF f assms(1) fn(1) assms(3) fn(2)] .
  moreover have "fn_deref s (Ft (fn_fec fn0)) = Inr fn" using fn_deref_Ft_iff[OF good_inv[OF assms(2)]] fn by simp
  ultimately show ?thesis using that fn assms(4) by (simp add: nh_deref_def)
qed

lemma foreach_nh_calm:
  assumes "lde_inv s0" and "calm s0 ns s" and "fn0 \<in> fns s0"
    and "\<And>i t. i < length (fn_nexthops fn0) \<Longrightarrow> calm s0 ns t \<Longrightarrow> ensures (body i t) (calm s0 ns)"
  shows "ensures (foreach_nh (Ft (fn_fec fn0)) body s) (calm s0 ns)"
proof -
  have g: "good s0 s" using assms(2) by (simp add: calm_def)
  obtain fn where fn: "fn \<in> fns s" "fn_fec fn = fn_fec fn0" using good_frame(3)[OF g] assms(3) by force
  have d: "fn_deref s (Ft (fn_fec fn0)) = Inr fn" using fn_deref_Ft_iff[OF good_inv[OF g]] fn by simp
  have "frame_of s = frame_of s0" using g by (simp add: good_def)
  then have "length (fn_nexthops fn) = length (fn_nexthops fn0)"
    using frame_nexthops(1)[OF _ assms(1) fn(1) assms(3) fn(2)] by simp
  then show ?thesis unfolding foreach_nh_def d and_then_simps
    using assms(2,4) by (intro ensures_foreach) auto
qed

text \<open>Taking one next hop's label out of use.\<close>

lemma drop_label_calm:
  assumes "lde_inv s0" and "calm s0 ns s" and "fn0 \<in> fns s0" and "i < length (fn_nexthops fn0)"
  shows "ensures (and_then (lde_send_delete_klabel (Ft (fn_fec fn0)) i s)
    (\<lambda>s1. Inr (nh_set_label (Ft (fn_fec fn0)) i NO_LABEL s1))) (calm s0 ns)"
proof -
  have g: "good s0 s" using assms(2) by (simp add: calm_def)
  obtain fn where fn: "fn \<in> fns s" "fn_fec fn = fn_fec fn0" "i < length (fn_nexthops fn)"
    by (rule nh_ref[OF assms(1) g assms(3,4)])
  show ?thesis using delete_klabel_good[OF g fn(1,3)] fn(2) assms(2)
    by (intro ensures_and_then[of _ "calm s0 ns"])
       (auto simp: calm_def nh_set_label_good elim: ensures_mono, simp add: nh_set_label_def)
qed

lemma uninstall_calm:
  assumes "lde_inv s0" and "calm s0 ns s" and "fn0 \<in> fns s0" and "i < length (fn_nexthops fn0)"
  shows "ensures (uninstall_if_nexthop ln (Ft (fn_fec fn0)) i s) (calm s0 ns)"
proof -
  have g: "good s0 s" using assms(2) by (simp add: calm_def)
  obtain fn where "fn_deref s (Ft (fn_fec fn0)) = Inr fn" "nh_deref fn i = Inr (fn_nexthops fn ! i)"
    by (rule nh_ref[OF assms(1) g assms(3,4)])
  then show ?thesis using drop_label_calm[OF assms] assms(2) by (simp add: uninstall_if_nexthop_def)
qed

lemma withdraw_nh_calm:
  assumes "lde_inv s0" and "calm s0 ns s" and "fn0 \<in> fns s0" and "i < length (fn_nexthops fn0)"
  shows "ensures (withdraw_nh ln t (Ft (fn_fec fn0)) i s) (calm s0 ns)"
proof -
  have g: "good s0 s" using assms(2) by (simp add: calm_def)
  obtain fn where "fn_deref s (Ft (fn_fec fn0)) = Inr fn" "nh_deref fn i = Inr (fn_nexthops fn ! i)"
    by (rule nh_ref[OF assms(1) g assms(3,4)])
  then show ?thesis using drop_label_calm[OF assms] assms(2) by (simp add: withdraw_nh_def)
qed

subsection \<open>Label mappings\<close>

lemma install_calm:
  assumes "lde_inv s0" and "calm s0 ns s" and "fn0 \<in> fns s0" and "i < length (fn_nexthops fn0)"
  shows "ensures (install_mapping ln t m (Ft (fn_fec fn0)) i s) (calm s0 ns)"
proof -
  let ?r = "Ft (fn_fec fn0)"
  have g: "good s0 s" using assms(2) by (simp add: calm_def)
  obtain fn where fn: "fn \<in> fns s" "fn_fec fn = fn_fec fn0" "fn_deref s ?r = Inr fn"
    "i < length (fn_nexthops fn)" "nh_deref fn i = Inr (fn_nexthops fn ! i)"
    by (rule nh_ref[OF assms(1) g assms(3,4)])
  have change: "ensures (lde_send_change_klabel ?r i s1) (calm s0 ns)" if c: "calm s0 ns s1" for s1
  proof -
    have g1: "good s0 s1" using c by (simp add: calm_def)
    obtain fn1 where fn1: "fn1 \<in> fns s1" "fn_fec fn1 = fn_fec fn0" "i < length (fn_nexthops fn1)"
      by (rule nh_ref[OF assms(1) g1 assms(3,4)])
    from change_klabel_good[OF g1 fn1(1,3)] show ?thesis
      unfolding fn1(2) by (rule ensures_mono) (use c in \<open>simp add: calm_def\<close>)
  qed
  have lab: "calm s0 ns (nh_set_label ?r i l s1)" if "calm s0 ns s1" for l s1
    using that nh_set_label_good[of s0 s1] by (simp add: calm_def nh_set_label_def)
  show ?thesis
  proof (cases "t = FEC_TYPE_PWID")
    case False
    then show ?thesis using fn(3,5) assms(2) change lab by (simp add: install_mapping_def)
  next
    case True
    show ?thesis
    proof (cases "fn_data fn")
      case None
      then show ?thesis using True fn(3,5) assms(2) by (simp add: install_mapping_def)
    next
      case (Some p)
      then obtain pw where pw: "pws s p = Some pw" using good_fn(2)[OF g fn(1)] by blast
      then obtain v where v: "l2vpns s (pw_l2vpn pw) = Some v" using good_pw(2)[OF g] by blast
      have c1: "calm s0 ns (nh_set_label ?r i (m_label m) (pw_update p (\<lambda>_. pw3) s))"
        if "pw_l2vpn pw3 = pw_l2vpn pw" "pw_flags pw3 = pw_flags pw" for pw3
      proof (rule lab)
        have "good s0 (pw_update p (\<lambda>_. pw3) s)"
          by (rule pw_update_good[OF g]) (use that pw good_pw(1)[OF g pw] in simp)
        then show "calm s0 ns (pw_update p (\<lambda>_. pw3) s)" using assms(2) by (simp add: calm_def pw_update_def)
      qed
      have "l2vpn_pw_ok (nh_set_label ?r i (m_label m) (pw_update p (\<lambda>_. pw3) s)) pw3 l = Inr False"
        if "pw_l2vpn pw3 = pw_l2vpn pw" "pw_flags pw3 = pw_flags pw" for pw3 l
        using c1[OF that] that(1) v
        by (intro l2vpn_pw_ok_False[of s0 _ _ v]) (simp_all add: calm_def nh_set_label_def pw_update_def)
      then show ?thesis using True fn(3,5) Some pw c1 by (simp add: install_mapping_def pw_deref_def Let_def)
    qed
  qed
qed

text \<open>The neighbour's tree has the mapping for the FEC.\<close>

definition recorded :: "lde_state \<Rightarrow> u32 \<Rightarrow> fec \<Rightarrow> map_tlv \<Rightarrow> bool" where
  "recorded s pid f m \<longleftrightarrow>
     (\<exists>n \<in> nbs s. peerid n = pid \<and> map_option me_map (fec_find me_fec (recv_map n) f) = Some m)"

lemma record_mapping:
  assumes "good s0 s" and n: "n \<in> nbs s" "peerid n = pid" and fn: "fn \<in> fns s" and m: "map_af_ok m"
  shows "ensures (case fec_find me_fec (recv_map n) (fn_fec fn) of
      None \<Rightarrow> lde_map_add pid (Ft (fn_fec fn)) False m s
    | Some e \<Rightarrow> Inr (set_map pid (me_fec e) False m s)) (\<lambda>t. good s0 t \<and> recorded t pid (fn_fec fn) m)"
proof -
  have o: "fec_order.ordered me_fec (recv_map n)" using good_trees[OF assms(1) n(1)] by (simp add: nbr_trees_ok_def)
  show ?thesis
  proof (cases "fec_find me_fec (recv_map n) (fn_fec fn)")
    case None
    let ?me = "\<lparr>me_fec = fn_fec fn, me_nexthop = pid, me_map = m, me_owner = Ft (fn_fec fn)\<rparr>"
    have d: "fn_deref s (Ft (fn_fec fn)) = Inr fn" using assms(1) fn by (simp add: fn_deref_Ft_iff good_def)
    have "fec_find me_fec (snd (fec_insert me_fec ?me (recv_map n))) (fn_fec fn) = Some ?me"
      using set_fec_insert[of me_fec "recv_map n" ?me] None fec_insert_ordered[OF o, of ?me]
        fec_find_self[of me_fec _ ?me] by simp
    then have "recorded t pid (fn_fec fn) m" if "lde_map_add pid (Ft (fn_fec fn)) False m s = Inr t" for t
      using that d n unfolding recorded_def
      by (auto simp: lde_map_add_def Let_def intro!: nbr_update_find)
    then show ?thesis using map_add_Ft_good[OF assms(1) n fn refl, of False m] None m
      by (auto simp: ensures_iff)
  next
    case (Some e)
    define g :: "lde_map \<Rightarrow> lde_map" where "g = (\<lambda>me. if me_fec me = me_fec e then me\<lparr>me_map := m\<rparr> else me)"
    have "fec_find me_fec (map_rbt g (recv_map n)) (fn_fec fn) = Some (g e)"
      using Some by (simp add: fec_find_def fec_order.find_map g_def)
    then have "recorded (set_map pid (me_fec e) False m s) pid (fn_fec fn) m"
      unfolding recorded_def set_map_def using n
      by (intro nbr_update_find) (auto simp: Let_def g_def)
    then show ?thesis using Some set_map_good[OF assms(1), of False m] m by simp
  qed
qed

end
