(* ===== verification/Lde_Handlers.thy ===== *)
theory Lde_Handlers
  imports Lde_Safe
begin

text \<open>
  The handlers of the label decision engine: what each does to a state of the invariant.

  \<open>lde_check_mapping\<close>, \<open>lde_check_request\<close>, \<open>lde_check_release\<close>, \<open>lde_check_withdraw\<close> and the
  wildcard forms, \<open>lde_kernel_insert\<close>, \<open>lde_kernel_remove\<close>, \<open>lde_nbr_new\<close>, \<open>lde_nbr_del\<close> and
  \<open>lde_gc_timer\<close> end without a fault in a state of \<open>lde_inv\<close>, and leave the tables the procedure of
  RFC 5036 asks for.
\<close>

subsection \<open>Label mappings\<close>

lemma map2fec_Inr: "map_af_ok m \<Longrightarrow> \<exists>f. lde_map2fec m i = Inr f"
  by (auto simp: map_af_ok_def lde_map2fec_def)

lemma fec_find_key:
  assumes "fec_order.ordered key t" and "fec_key f = fec_key g"
  shows "fec_find key t f = fec_find key t g"
proof (cases "fec_find key t g")
  case None
  then have "fec_find key t f = None"
    using assms(2) fec_find_None[OF assms(1), of f] fec_find_None[OF assms(1), of g] by simp
  with None show ?thesis by simp
next
  case (Some x)
  then show ?thesis using fec_order.find_Some_iff[OF assms(1), of g x] fec_order.find_Some_iff[OF assms(1), of f x] assms(2)
    by (simp add: fec_find_def)
qed

lemma release_calm:
  assumes "good s0 s" and "nbr_live s0 pid" and "fn_live s0 (Ft f)"
  shows "ensures (lde_send_labelrelease pid (Some (Ft f)) l s) (calm s0 (lde_nbrs s))"
  by (rule ensures_mono[OF labelrelease_good[OF assms(1,2)]]) (use assms(3) in \<open>auto simp: calm_def\<close>)

lemma accept_mapping_ok:
  assumes inv: "lde_inv s0" and "good s0 s" and live: "nbr_live s0 pid" and fn: "fn \<in> fns s0" and m: "map_af_ok m"
  shows "ensures (accept_mapping m pid t (fn_fec fn) requested s)
    (\<lambda>t. good s0 t \<and> recorded t pid (fn_fec fn) m)"
proof -
  let ?f = "fn_fec fn"
  have lf: "fn_live s0 (Ft ?f)" using fn by (auto simp: fn_live_def)
  obtain n where n: "n \<in> nbs s" "peerid n = pid" "nbr_deref s pid = Inr n" by (rule good_nbr[OF assms(2) live])
  let ?c = "calm s0 (lde_nbrs s)"
  have c: "?c s" using assms(2) by (simp add: calm_def)
  have un: "ensures (foreach_nh (Ft ?f) (uninstall_if_nexthop n (Ft ?f)) x) ?c" if "?c x" for x
    by (rule foreach_nh_calm[OF inv that fn]) (rule uninstall_calm[OF inv _ fn])
  have ins: "ensures (foreach_nh (Ft ?f) (install_mapping n t m (Ft ?f)) x) ?c" if "?c x" for x
    by (rule foreach_nh_calm[OF inv that fn]) (rule install_calm[OF inv _ fn])
  have rec: "ensures (case fec_find me_fec (recv_map n) ?f of
      None \<Rightarrow> lde_map_add pid (Ft ?f) False m x | Some e \<Rightarrow> Inr (set_map pid (me_fec e) False m x))
      (\<lambda>t. good s0 t \<and> recorded t pid ?f m)" if x: "?c x" for x
  proof -
    have g: "good s0 x" "n \<in> nbs x" using x n(1) by (simp_all add: calm_def)
    obtain fx where fx: "fx \<in> fns x" "fn_fec fx = ?f" using good_frame(3)[OF g(1)] fn by force
    from record_mapping[OF g n(2) fx(1) m] show ?thesis unfolding fx(2) .
  qed
  show ?thesis unfolding accept_mapping_def n(3) and_then_simps Let_def
  proof (rule ensures_and_then[of _ ?c])
    show "ensures (case fec_find me_fec (recv_map n) ?f of None \<Rightarrow> Inr s
        | Some e \<Rightarrow> if m_label (me_map e) \<noteq> m_label m \<and> \<not> requested
            then and_then (lde_send_labelrelease pid (Some (Ft ?f)) (m_label (me_map e)) s)
              (foreach_nh (Ft ?f) (uninstall_if_nexthop n (Ft ?f))) else Inr s) ?c"
      using c by (auto split: option.split intro: ensures_and_then[OF release_calm[OF assms(2) live lf] un])
  qed (rule ensures_and_then[OF ins rec])
qed

text \<open>The mappings that are not ignored end in the neighbour's tree.\<close>

lemma check_mapping_ok:
  assumes inv: "lde_inv s" and n: "n \<in> nbs s" "peerid n = pid" and fec: "lde_map2fec m (nbr_id n) = Inr fec"
  shows "ensures (lde_check_mapping m pid s) (\<lambda>t. lde_inv t \<and> nbr_frame t = nbr_frame s \<and>
    (\<exists>f \<in> fn_fec ` fns t. fec_key f = fec_key fec \<and> (m_type m \<noteq> MAP_TYPE_PWID \<longrightarrow> recorded t pid f m)))"
proof -
  have m: "map_af_ok m" using fec by (auto simp: map_af_ok_def lde_map2fec_def split: if_splits)
  have d: "nbr_deref s pid = Inr n" using nbr_deref_iff[OF inv] n by simp
  obtain f s1 where get: "fec_get fec s = (f, s1)" by (cases "fec_get fec s")
  note g = fec_get_inv[OF inv get]
  obtain fn where fn: "fn \<in> fns s1" "fn_fec fn = f" using g(5) by blast
  have n1: "n \<in> nbs s1" using n(1) g(2) by simp
  have live: "nbr_live s1 pid" "fn_live s1 (Ft f)" using n1 n(2) fn by (auto simp: nbr_live_def fn_live_def)
  define lre where "lre = fec_find lre_fec (sent_req n) f"
  define s2 where "s2 = (case lre of None \<Rightarrow> s1 | Some q \<Rightarrow> lde_req_del pid q True s1)"
  have g2: "good s1 s2"
  proof (cases lre)
    case (Some q)
    have "fec_order.ordered lre_fec (sent_req n)"
      using good_trees[OF good_refl[OF g(1)] n1] by (simp add: nbr_trees_ok_def)
    from fec_find_Some[OF this Some[unfolded lre_def]] show ?thesis
      using Some req_del_good[OF good_refl[OF g(1)] n1 n(2), of q True] by (simp add: s2_def)
  qed (simp add: s2_def good_refl g(1))
  let ?Q = "\<lambda>t. good s1 t \<and> (m_type m \<noteq> MAP_TYPE_PWID \<longrightarrow> recorded t pid f m)"
  have "ensures (if m_type m = MAP_TYPE_PWID then l2vpn_pw_negotiate pid (Ft f) m s2 else Inr (False, s2))
      (\<lambda>x. good s1 (snd x) \<and> (m_type m \<noteq> MAP_TYPE_PWID \<longrightarrow> \<not> fst x))"
    using negotiate_good[OF g2 live, of m] g2 by simp
  then have "ensures (lde_check_mapping m pid s) ?Q"
    unfolding lde_check_mapping_def d fec and_then_simps get Let_def prod.case lre_def[symmetric] s2_def[symmetric]
  proof (rule ensures_and_then)
    fix x assume x: "good s1 (snd x) \<and> (m_type m \<noteq> MAP_TYPE_PWID \<longrightarrow> \<not> fst x)"
    then have "ensures (accept_mapping m pid (ftype fec) f (lre \<noteq> None) (snd x)) ?Q"
      using accept_mapping_ok[OF g(1) _ live(1) fn(1) m] unfolding fn(2) by (auto intro: ensures_mono)
    with x show "ensures (case x of (ignore, s3) \<Rightarrow> if ignore then Inr s3
        else accept_mapping m pid (ftype fec) f (lre \<noteq> None) s3) ?Q" by (auto split: prod.split)
  qed
  then show ?thesis
  proof (rule ensures_mono)
    fix t assume t: "?Q t"
    then have "f \<in> fn_fec ` fns t" using good_frame(3)[of s1 t] fn by auto
    then show "lde_inv t \<and> nbr_frame t = nbr_frame s \<and> (\<exists>f \<in> fn_fec ` fns t. fec_key f = fec_key fec \<and>
        (m_type m \<noteq> MAP_TYPE_PWID \<longrightarrow> recorded t pid f m))"
      using t g(2,4) good_inv[of s1 t] good_nbr_frame[of s1 t] by (auto simp: nbr_frame_def)
  qed
qed

subsection \<open>Requests\<close>

lemma check_request_ok:
  assumes inv: "lde_inv s" and live: "nbr_live s pid" and m: "map_af_ok m"
  shows "ensures (lde_check_request m pid s) (good s)"
proof -
  note gr = good_refl[OF inv]
  obtain n where n: "n \<in> nbs s" "peerid n = pid" "nbr_deref s pid = Inr n" by (rule good_nbr[OF gr live])
  obtain fec where fec: "lde_map2fec m (nbr_id n) = Inr fec" using map2fec_Inr[OF m] by blast
  show ?thesis
  proof (cases "fec_find fn_fec (ft s) fec")
    case None
    then show ?thesis using n(3) fec gr by (simp add: lde_check_request_def lde_send_notification_def)
  next
    case (Some fn)
    have "fn_live s (Ft (fn_fec fn))" using fec_find_fns(1)[OF gr Some] by (auto simp: fn_live_def)
    then have "ensures (lde_send_labelmapping pid (Ft (fn_fec fn)) True
        (lde_req_add pid (fn_fec fn) False (ntohl (m_msg_id m)) s)) (good s)"
      using labelmapping_good[OF req_add_good[OF gr] live] by simp
    then show ?thesis using n(3) fec Some gr
      by (simp add: lde_check_request_def lde_send_notification_def)
  qed
qed

subsection \<open>Releases\<close>

text \<open>No mapping sent to the neighbour is linked into a node that has been freed.\<close>

definition sent_owned :: "lde_state \<Rightarrow> u32 \<Rightarrow> bool" where
  "sent_owned s pid \<longleftrightarrow>
     (\<forall>n \<in> nbs s. peerid n = pid \<longrightarrow> (\<forall>me \<in> maps (sent_map n). me_owner me = Ft (me_fec me)))"

lemma sent_owned_update:
  assumes "sent_owned s pid" and "\<And>n. n \<in> nbs s \<Longrightarrow> peerid n = pid \<Longrightarrow> maps (sent_map (g n)) \<subseteq> maps (sent_map n)"
  shows "sent_owned (nbr_update pid g s) pid"
  unfolding sent_owned_def nbs_nbr_update
proof (intro ballI impI)
  fix n' me assume "n' \<in> at_peer pid g ` nbs s" "peerid n' = pid" "me \<in> maps (sent_map n')"
  then obtain n where "n \<in> nbs s" "n' = at_peer pid g n" by blast
  then show "me_owner me = Ft (me_fec me)"
    using assms \<open>me \<in> maps (sent_map n')\<close> \<open>peerid n' = pid\<close>
    by (cases "peerid n = pid") (auto simp: at_peer_def sent_owned_def)
qed

lemma sent_owned_cong: "lde_nbrs s = lde_nbrs t \<Longrightarrow> sent_owned s pid = sent_owned t pid"
  by (simp add: sent_owned_def)

lemma map_del_owned:
  assumes "good s0 s" and "sent_owned s pid" and n: "n \<in> nbs s" "peerid n = pid" and "me \<in> maps (sent_map n)"
  shows "ensures (lde_map_del pid me True s) (\<lambda>t. good s0 t \<and> sent_owned t pid)"
proof -
  have o: "me_owner me = Ft (me_fec me)" using assms(2-5) by (simp add: sent_owned_def)
  have u: "k = n" if "k \<in> nbs s" "peerid k = pid" for k
    using good_peer_unique[OF assms(1) n(1) that(1)] that(2) n(2) by simp
  have or: "fec_order.ordered me_fec (sent_map n)" using good_trees[OF assms(1) n(1)] by (simp add: nbr_trees_ok_def)
  let ?s = "nbr_update pid (\<lambda>n. n\<lparr>sent_map := fec_remove me_fec (me_fec me) (sent_map n)\<rparr>) s"
  have so: "sent_owned ?s pid"
    by (rule sent_owned_update[OF assms(2)]) (use set_fec_remove[OF or assms(5)] in \<open>auto dest!: u\<close>)
  have "sent_owned t pid" if "lde_map_del pid me True s = Inr t" for t
  proof -
    have "lde_nbrs t = lde_nbrs ?s" using that o by (auto simp: lde_map_del_def lde_map_free_def)
    then show ?thesis using so by (rule sent_owned_cong[THEN iffD2])
  qed
  then show ?thesis using map_del_sent_good[OF assms(1) n assms(5) o] by (auto simp: ensures_iff)
qed

lemma release_fec_ok:
  assumes "good s0 s" and "nbr_live s0 pid" and "sent_owned s pid"
  shows "ensures (release_fec m pid f s) (\<lambda>t. good s0 t \<and> sent_owned t pid)"
proof -
  obtain n where n: "n \<in> nbs s" "peerid n = pid" "nbr_deref s pid = Inr n" by (rule good_nbr[OF assms(1,2)])
  have o: "fec_order.ordered lw_fec (sent_wdraw n)" "fec_order.ordered me_fec (sent_map n)"
    using good_trees[OF assms(1) n(1)] by (simp_all add: nbr_trees_ok_def)
  define s1 where "s1 = (case fec_find lw_fec (sent_wdraw n) f of
      None \<Rightarrow> s
    | Some lw \<Rightarrow> if m_label m = NO_LABEL \<or> (lw_label lw \<noteq> NO_LABEL \<and> m_label m = lw_label lw)
        then lde_wdraw_del pid lw s else s)"
  have w: "good s0 (lde_wdraw_del pid lw s) \<and> sent_owned (lde_wdraw_del pid lw s) pid \<and>
      (\<exists>n' \<in> nbs (lde_wdraw_del pid lw s). peerid n' = pid \<and> sent_map n' = sent_map n)"
    if "fec_find lw_fec (sent_wdraw n) f = Some lw" for lw
    using fec_find_Some[OF o(1) that] wdraw_del_good[OF assms(1) n(1,2), of lw] assms(3) n(2)
    by (auto simp: lde_wdraw_del_def intro!: sent_owned_update nbr_update_find[OF n(1)])
  have s1: "good s0 s1" "sent_owned s1 pid" "\<exists>n' \<in> nbs s1. peerid n' = pid \<and> sent_map n' = sent_map n"
    using w assms(1,3) n(1,2) unfolding s1_def by (auto split: option.split)
  from s1(3) obtain n' where n': "n' \<in> nbs s1" "peerid n' = pid" "sent_map n' = sent_map n" by blast
  have "ensures (lde_map_del pid me True s1) (\<lambda>t. good s0 t \<and> sent_owned t pid)"
    if "fec_find me_fec (sent_map n) f = Some me" for me
    using map_del_owned[OF s1(1,2) n'(1,2)] n'(3) fec_find_Some[OF o(2) that] by simp
  then show ?thesis unfolding release_fec_def n(3) and_then_simps Let_def s1_def[symmetric]
    using s1(1,2) by (auto split: option.split)
qed

lemma check_release_ok:
  assumes inv: "lde_inv s" and live: "nbr_live s pid" and m: "map_af_ok m" and o: "sent_owned s pid"
  shows "ensures (lde_check_release m pid s) (good s)"
proof -
  note gr = good_refl[OF inv]
  obtain n where n: "nbr_deref s pid = Inr n" by (rule good_nbr[OF gr live])
  obtain fec where fec: "lde_map2fec m (nbr_id n) = Inr fec" using map2fec_Inr[OF m] by blast
  have "ensures (release_fec m pid f s) (good s)" for f
    by (rule ensures_mono[OF release_fec_ok[OF gr live o]]) simp
  then show ?thesis using n fec gr by (simp add: lde_check_release_def split: option.split)
qed

lemma check_release_wcard_ok:
  assumes "lde_inv s" and "nbr_live s pid" and "sent_owned s pid"
  shows "ensures (lde_check_release_wcard m pid s) (good s)"
proof -
  have "ensures (lde_check_release_wcard m pid s) (\<lambda>t. good s t \<and> sent_owned t pid)"
    unfolding lde_check_release_wcard_def
    by (rule ensures_foreach) (use assms good_refl[OF assms(1)] release_fec_ok in auto)
  then show ?thesis by (rule ensures_mono) simp
qed

subsection \<open>Withdraws\<close>

lemma forget_mapping_ok:
  assumes "good s0 s" and "nbr_live s0 pid"
  shows "ensures (forget_mapping m pid f s) (good s0)"
proof -
  obtain n where n: "n \<in> nbs s" "peerid n = pid" "nbr_deref s pid = Inr n" by (rule good_nbr[OF assms])
  have o: "fec_order.ordered me_fec (recv_map n)" using good_trees[OF assms(1) n(1)] by (simp add: nbr_trees_ok_def)
  show ?thesis using n(3) assms(1) map_del_recv_good[OF assms(1) n(1,2)] fec_find_Some[OF o]
    by (auto simp: forget_mapping_def split: option.split)
qed

lemma check_withdraw_ok:
  assumes inv: "lde_inv s" and live: "nbr_live s pid" and m: "map_af_ok m"
  shows "ensures (lde_check_withdraw m pid s) (\<lambda>t. lde_inv t \<and> nbr_frame t = nbr_frame s)"
proof -
  obtain n where n: "n \<in> nbs s" "peerid n = pid" "nbr_deref s pid = Inr n"
    by (rule good_nbr[OF good_refl[OF inv] live])
  obtain fec where fec: "lde_map2fec m (nbr_id n) = Inr fec" using map2fec_Inr[OF m] by blast
  obtain f s1 where get: "fec_get fec s = (f, s1)" by (cases "fec_get fec s")
  note g = fec_get_inv[OF inv get]
  obtain fn where fn: "fn \<in> fns s1" "fn_fec fn = f" using g(5) by blast
  have l1: "nbr_live s1 pid" "fn_live s1 (Ft f)" using n g(2) fn by (auto simp: nbr_live_def fn_live_def)
  have "ensures (foreach_nh (Ft f) (withdraw_nh n (ftype fec) (Ft f)) s1) (calm s1 (lde_nbrs s1))"
    unfolding fn(2)[symmetric]
    by (rule foreach_nh_calm[OF g(1) _ fn(1) withdraw_nh_calm[OF g(1) _ fn(1)]])
       (use good_refl[OF g(1)] in \<open>auto simp: calm_def\<close>)
  then have "ensures (and_then (foreach_nh (Ft f) (withdraw_nh n (ftype fec) (Ft f)) s1) (\<lambda>s2.
      and_then (lde_send_labelrelease pid (Some (Ft f)) (m_label m) s2) (forget_mapping m pid f))) (good s1)"
    by (rule ensures_and_then)
       (auto simp: calm_def intro!: ensures_and_then[OF release_calm[OF _ l1]] forget_mapping_ok[OF _ l1(1)])
  then have "ensures (and_then (foreach_nh (Ft f) (withdraw_nh n (ftype fec) (Ft f)) s1) (\<lambda>s2.
      and_then (lde_send_labelrelease pid (Some (Ft f)) (m_label m) s2) (forget_mapping m pid f)))
      (\<lambda>t. lde_inv t \<and> nbr_frame t = nbr_frame s)"
    by (rule ensures_mono) (use good_nbr_frame[of s1] g(2) in \<open>auto simp: good_inv nbr_frame_def\<close>)
  then show ?thesis using n(3) fec get inv by (simp add: lde_check_withdraw_def)
qed

lemma check_withdraw_wcard_ok:
  assumes "lde_inv s" and "nbr_live s pid"
  shows "ensures (lde_check_withdraw_wcard m pid s) (good s)"
  unfolding lde_check_withdraw_wcard_def
  by (rule ensures_and_then[OF labelrelease_good[OF good_refl[OF assms(1)] assms(2)]], simp,
      rule ensures_foreach) (use forget_mapping_ok[OF _ assms(2)] in auto)

subsection \<open>Routes\<close>

lemma fn_pw_okD: "lde_inv s \<Longrightarrow> fn \<in> fns s \<Longrightarrow> fn_pw_ok s fn \<and> fn_local_label fn = NO_LABEL"
  by (simp add: lde_inv_def pws_ok_def labels_ok_def)

lemma fn_update_find:
  assumes "fn \<in> fns s" and "fn_fec fn = f" and "P (h fn)"
  shows "\<exists>x \<in> fns (fn_update (Ft f) h s). P x"
  unfolding fns_fn_update using assms by (intro bexI[of _ "at_fec f h fn"]) (auto simp: at_fec_def)

lemma fn_update_cases:
  assumes "x \<in> fns (fn_update (Ft f) h s)"
  obtains y where "y \<in> fns s" and "x = (if fn_fec y = f then h y else y)"
  using assms unfolding fns_fn_update at_fec_def by blast

text \<open>A new next hop, with the pseudowire of a pseudowire FEC.\<close>

lemma new_nexthop_inv:
  fixes a nexthop priority data f s
  assumes inv: "lde_inv s" and fn: "fn \<in> fns s" "fn_fec fn = f"
    and data: "ftype f = FEC_TYPE_PWID \<longrightarrow> (\<exists>p. data = Some p \<and> pws s p \<noteq> None)"
  defines "s2 \<equiv> (if ftype f = FEC_TYPE_PWID then fn_update (Ft f) (\<lambda>n. n\<lparr>fn_data := data\<rparr>) s else s)"
  defines "s3 \<equiv> fec_nh_add (Ft f) a nexthop priority s2"
  shows "lde_inv s3" and "lde_nbrs s3 = lde_nbrs s" and "\<exists>x \<in> fns s3. fn_fec x = f \<and> fn_nexthops x \<noteq> []"
proof -
  have i2: "lde_inv s2"
  proof (cases "ftype f = FEC_TYPE_PWID")
    case True
    then obtain q where "data = Some q" "pws s q \<noteq> None" using data by auto
    then show ?thesis unfolding s2_def if_P[OF True] using fn_pw_okD[OF inv]
      by (intro fn_update_inv[OF inv]) (auto simp: fn_pw_ok_def)
  qed (simp add: s2_def inv)
  have p: "\<exists>q. fn_data n = Some q" if "n \<in> fns s2" "fn_fec n = f" "ftype f = FEC_TYPE_PWID" for n
  proof -
    show "\<exists>q. fn_data n = Some q"
      using that(1) unfolding s2_def if_P[OF that(3)]
      by (rule fn_update_cases) (use that(2,3) data in \<open>auto split: if_splits\<close>)
  qed
  show "lde_inv s3"
    unfolding s3_def fec_nh_add_def using fn_pw_okD[OF i2] p
    by (intro fn_update_inv[OF i2]) (auto simp: fn_pw_ok_def)
  show "lde_nbrs s3 = lde_nbrs s" by (simp add: s3_def s2_def fec_nh_add_def)
  have "\<exists>x \<in> fns s2. fn_fec x = f"
    unfolding s2_def using fn fn_update_find[OF fn, of "\<lambda>x. fn_fec x = f"] by auto
  then obtain x where "x \<in> fns s2" "fn_fec x = f" by blast
  then show "\<exists>x \<in> fns s3. fn_fec x = f \<and> fn_nexthops x \<noteq> []"
    unfolding s3_def fec_nh_add_def by (rule fn_update_find) (use \<open>fn_fec x = f\<close> in simp)
qed

lemma kernel_insert_ok:
  assumes inv: "lde_inv s"
    and data: "ftype fec = FEC_TYPE_PWID \<Longrightarrow> \<exists>p. data = Some p \<and> pws s p \<noteq> None"
  shows "ensures (lde_kernel_insert fec a nexthop priority data s) (\<lambda>t. lde_inv t \<and> nbr_frame t = nbr_frame s)"
proof -
  obtain f s1 where get: "fec_get fec s = (f, s1)" by (cases "fec_get fec s")
  note g = fec_get_inv[OF inv get]
  obtain fn where fn: "fn \<in> fns s1" "fn_fec fn = f" using g(5) by blast
  have d: "fn_deref s1 (Ft f) = Inr fn" using fn_deref_Ft_iff[OF g(1)] fn by simp
  define s2 where "s2 = (if ftype f = FEC_TYPE_PWID then fn_update (Ft f) (\<lambda>n. n\<lparr>fn_data := data\<rparr>) s1 else s1)"
  define s3 where "s3 = fec_nh_add (Ft f) a nexthop priority s2"
  have dt: "ftype f = FEC_TYPE_PWID \<longrightarrow> (\<exists>p. data = Some p \<and> pws s1 p \<noteq> None)"
    using data fec_key_type[OF g(4)] g(3) by simp
  note n3 = new_nexthop_inv[OF g(1) fn dt, where a = a and nexthop = nexthop and priority = priority,
      folded s2_def, folded s3_def]
  from n3(3) obtain x where x: "x \<in> fns s3" "fn_fec x = f" "0 < length (fn_nexthops x)" by auto
  have c: "ensures (lde_send_change_klabel (Ft f) 0 s3) (good s3)"
    by (rule ensures_mono[OF change_klabel_good[OF good_refl[OF n3(1)] x(1,3), unfolded x(2)]]) simp
  have nf: "nbr_frame s3 = nbr_frame s" using n3(2) g(2) by (simp add: nbr_frame_def)
  have m: "ensures (lde_check_mapping (me_map me) (peerid ln) s4) (\<lambda>t. lde_inv t \<and> nbr_frame t = nbr_frame s)"
    if "good s3 s4" "lde_nbr_find_by_lsrid s4 l = Some ln" "fec_find me_fec (recv_map ln) f = Some me" for s4 l ln me
  proof -
    have ln: "ln \<in> nbs s4"
      using that(2) find_Some_in unfolding lde_nbr_find_by_lsrid_def Let_def rb_foreach_inorder by fastforce
    have "fec_order.ordered me_fec (recv_map ln)" using good_trees[OF that(1) ln] by (simp add: nbr_trees_ok_def)
    from fec_find_Some[OF this that(3)] have "map_af_ok (me_map me)"
      using good_nbr_ok[OF that(1) ln] by (simp add: recv_ok_def)
    then obtain f' where "lde_map2fec (me_map me) (nbr_id ln) = Inr f'" using map2fec_Inr by blast
    from check_mapping_ok[OF good_inv[OF that(1)] ln refl this] show ?thesis
      by (rule ensures_mono) (use nf good_nbr_frame[OF that(1)] in simp)
  qed
  have k: "lde_inv s4 \<and> nbr_frame s4 = nbr_frame s" if "good s3 s4" for s4
    using that good_inv good_nbr_frame nf by auto
  show ?thesis
    unfolding lde_kernel_insert_def get Let_def prod.case d and_then_simps s2_def[symmetric] s3_def[symmetric]
    using g(1,2) k m by (auto simp: nbr_frame_def split: option.split intro!: ensures_and_then[OF c])
qed

lemma list_remove_at_nonempty: "list_remove_at i xs \<noteq> [] \<Longrightarrow> xs \<noteq> []"
  by (auto simp: list_remove_at_def)

lemma fn_liveI: "fn \<in> fns s \<Longrightarrow> fn_fec fn = f \<Longrightarrow> fn_live s (Ft f)"
  by (auto simp: fn_live_def)

lemma nh_del_inv:
  assumes "lde_inv s"
  shows "lde_inv (fec_nh_del (Ft f) i s)"
  unfolding fec_nh_del_def using fn_pw_okD[OF assms]
  by (intro fn_update_inv[OF assms]) (auto simp: fn_pw_ok_def dest!: list_remove_at_nonempty)

text \<open>An entry whose last next hop went loses its label and its pseudowire.\<close>

lemma drop_entry_inv:
  assumes inv: "lde_inv s" and "\<And>n. n \<in> fns s \<Longrightarrow> fn_fec n = f \<Longrightarrow> fn_nexthops n = []"
  shows "lde_inv (fn_update (Ft f) (\<lambda>n. n\<lparr>fn_local_label := NO_LABEL, fn_data := (if b then None else fn_data n)\<rparr>) s)"
proof (rule fn_update_inv[OF inv])
  fix n assume n: "n \<in> fns s" "fn_fec n = f"
  let ?n = "n\<lparr>fn_local_label := NO_LABEL, fn_data := (if b then None else fn_data n)\<rparr>"
  have "fn_pw_ok s ?n" using fn_pw_okD[OF inv n(1)] assms(2)[OF n] by (cases b) (simp_all add: fn_pw_ok_def)
  then show "fn_fec ?n = f \<and> fn_downstream ?n = fn_downstream n \<and> fn_upstream ?n = fn_upstream n \<and>
      fn_local_label ?n = NO_LABEL \<and> fn_pw_ok s ?n" using n(2) by simp
qed

lemma kernel_remove_rest:
  assumes inv: "lde_inv s" and live: "fn_live s (Ft f)"
  shows "ensures (and_then (fn_deref s (Ft f)) (\<lambda>fn2.
      if fn_nexthops fn2 \<noteq> [] then Inr s
      else and_then (lde_send_labelwithdraw_all (Ft f) NO_LABEL s) (\<lambda>s3.
        Inr (fn_update (Ft f) (\<lambda>n. n\<lparr>fn_local_label := NO_LABEL,
          fn_data := (if ftype (fn_fec fn2) = FEC_TYPE_PWID then None else fn_data n)\<rparr>) s3))))
    (\<lambda>t. lde_inv t \<and> nbr_frame t = nbr_frame s)"
proof -
  obtain fn where fn: "fn_deref s (Ft f) = Inr fn" "fn \<in> fns s" "fn_fec fn = f"
    using ensures_fn_deref_Ft[OF inv] live by (auto simp: ensures_iff fn_live_def)
  have "lde_inv (fn_update (Ft f) (\<lambda>n. n\<lparr>fn_local_label := NO_LABEL, fn_data := (if b then None else fn_data n)\<rparr>) t) \<and>
      nbr_frame (fn_update (Ft f) (\<lambda>n. n\<lparr>fn_local_label := NO_LABEL, fn_data := (if b then None else fn_data n)\<rparr>) t) = nbr_frame s"
    if g: "good s t" and e: "fn_nexthops fn = []" for t b
  proof -
    have "fn_nexthops n = []" if "n \<in> fns t" "fn_fec n = f" for n
      using frame_nexthops(1)[OF _ inv that(1) fn(2)] g that(2) fn(3) e by (simp add: good_def)
    then show ?thesis using drop_entry_inv[OF good_inv[OF g]] good_nbr_frame[OF g] by (simp add: nbr_frame_def)
  qed
  then show ?thesis unfolding fn(1) and_then_simps using inv
    by (auto intro!: ensures_and_then[OF labelwithdraw_all_good[OF good_refl[OF inv] live]])
qed

lemma kernel_remove_ok:
  assumes inv: "lde_inv s"
  shows "ensures (lde_kernel_remove fec a nexthop priority s) (\<lambda>t. lde_inv t \<and> nbr_frame t = nbr_frame s)"
proof (cases "fec_find fn_fec (ft s) fec")
  case None
  then show ?thesis using inv by (simp add: lde_kernel_remove_def)
next
  case (Some fn)
  note fn = fec_find_fns(1)[OF good_refl[OF inv] Some]
  show ?thesis
  proof (cases "fec_nh_find fn a nexthop priority")
    case None
    then show ?thesis using inv Some by (simp add: lde_kernel_remove_def)
  next
    case i: (Some i)
    let ?r = "Ft (fn_fec fn)"
    have il: "i < length (fn_nexthops fn)" using i by (simp add: fec_nh_find_def find_index_Some)
    have "ensures (lde_send_delete_klabel ?r i s) (good s)"
      by (rule ensures_mono[OF delete_klabel_good[OF good_refl[OF inv] fn il]]) simp
    then show ?thesis unfolding lde_kernel_remove_def Some i option.case Let_def
    proof (rule ensures_and_then)
      fix s1 assume g1: "good s s1"
      obtain x where x: "x \<in> fns s1" "fn_fec x = fn_fec fn" using good_frame(3)[OF g1] fn by force
      have "\<exists>y \<in> fns (fec_nh_del ?r i s1). fn_fec y = fn_fec fn"
        unfolding fec_nh_del_def by (rule fn_update_find[OF x]) (simp add: x(2))
      then have "fn_live (fec_nh_del ?r i s1) ?r" by (blast intro: fn_liveI)
      from kernel_remove_rest[OF nh_del_inv[OF good_inv[OF g1]] this] show
        "ensures (and_then (fn_deref (fec_nh_del ?r i s1) ?r) (\<lambda>fn2.
          if fn_nexthops fn2 \<noteq> [] then Inr (fec_nh_del ?r i s1)
          else and_then (lde_send_labelwithdraw_all ?r NO_LABEL (fec_nh_del ?r i s1)) (\<lambda>s3.
            Inr (fn_update ?r (\<lambda>n. n\<lparr>fn_local_label := NO_LABEL,
              fn_data := (if ftype (fn_fec fn2) = FEC_TYPE_PWID then None else fn_data n)\<rparr>) s3))))
          (\<lambda>t. lde_inv t \<and> nbr_frame t = nbr_frame s)"
        by (rule ensures_mono) (use good_nbr_frame[OF g1] in \<open>simp add: nbr_frame_def fec_nh_del_def\<close>)
    qed
  qed
qed

subsection \<open>The beginning and the end of a session\<close>

lemma nbr_update_inv:
  assumes inv: "lde_inv s"
    and g: "\<And>n. n \<in> nbs s \<Longrightarrow> peerid n = pid \<Longrightarrow> peerid (g n) = pid \<and> nbr_trees_ok (g n) \<and>
      recv_map (g n) = recv_map n \<and> sent_map (g n) = sent_map n"
  shows "lde_inv (nbr_update pid g s)"
proof -
  have "tables_ok (nbr_update pid g s)" using inv g by (intro nbr_update_tables) (auto simp: lde_inv_def)
  moreover have "recv_ok n \<and> sent_ok n" if "n \<in> nbs s" for n using good_nbr_ok[OF good_refl[OF inv] that] .
  then have "links_ok (nbr_update pid g s)" using inv g
    by (intro links_nbr_update) (auto simp: lde_inv_def recv_ok_def sent_ok_def)
  ultimately show ?thesis
    using inv by (simp add: lde_inv_def labels_ok_def pws_ok_def tmps_ok_def config_ok_def fn_pw_ok_def)
qed

lemma nbr_new_ok:
  assumes inv: "lde_inv s" and new: "lde_nbr_find s pid = None" and small: "peerid_small pid"
  shows "ensures (lde_nbr_new pid i v4 v6 s) (\<lambda>t. lde_inv t \<and> nbr_live t pid \<and> sent_owned t pid \<and> ft t = ft s)"
proof -
  let ?n = "\<lparr>peerid = pid, nbr_id = i, v4_enabled = v4, v6_enabled = v6, recv_req = RNil,
    sent_req = RNil, recv_map = RNil, sent_map = RNil, sent_wdraw = RNil, addr_list = []\<rparr>"
  let ?t = "snd (rb_insert lde_nbr_compare peerid ?n (lde_nbrs s))"
  let ?s = "s\<lparr>lde_nbrs := ?t\<rparr>"
  have f: "rb_find lde_nbr_compare peerid (peerid ?n) (lde_nbrs s) = None" using new by (simp add: lde_nbr_find_def)
  have o: "lde_nbr_order.ordered peerid (lde_nbrs s)" using inv by (simp add: lde_inv_defs)
  have n: "nbs ?s = insert ?n (nbs s)" using set_rb_insert_absent[of lde_nbr_compare peerid ?n, OF f] by simp
  have "lde_nbr_order.ordered peerid ?t" using lde_nbr_order.insert_ordered[OF o, of ?n] small by simp
  moreover have "nbr_trees_ok ?n" "recv_ok ?n" "sent_ok ?n"
    by (simp_all add: nbr_trees_ok_def fec_order.ordered_def recv_ok_def sent_ok_def)
  moreover have "recv_links ?s = recv_links s" "sent_links ?s = sent_links s"
    unfolding recv_links_def sent_links_def n by simp_all
  ultimately have "lde_inv ?s" using inv
    unfolding lde_inv_def tables_ok_def links_ok_def n
    by (simp add: down_links_def up_links_def labels_ok_def pws_ok_def tmps_ok_def config_ok_def fn_pw_ok_def)
  moreover have "nbr_live ?s pid" unfolding nbr_live_def n by simp
  moreover have "sent_owned ?s pid"
    unfolding sent_owned_def n using lde_nbr_order.find_None_iff[OF o, of pid] f small by auto
  moreover have "lde_nbr_new pid i v4 v6 s = Inr ?s"
    using f rb_insert_fst[of lde_nbr_compare peerid ?n "lde_nbrs s"]
    by (cases "rb_insert lde_nbr_compare peerid ?n (lde_nbrs s)") (simp add: lde_nbr_new_def)
  ultimately show ?thesis by simp
qed

lemma pw_reset_good:
  assumes "good s0 s" and "pws s p \<noteq> None"
  shows "ensures (l2vpn_pw_reset p s) (\<lambda>t. good s0 t \<and> lde_nbrs t = lde_nbrs s)"
proof -
  obtain pw where pw: "pws s p = Some pw" using assms(2) by blast
  have "bit (l2vpn_pw_reset_flags x) 4 = bit x 4" for x :: u8
    by (simp add: l2vpn_pw_reset_flags_def Let_def bit_simps)
  then have "good s0 (pw_update p (\<lambda>pw. pw\<lparr>pw_remote_group := 0, pw_remote_mtu := 0, pw_remote_status := 0,
      pw_flags := l2vpn_pw_reset_flags (pw_flags pw)\<rparr>) s)"
    using good_pw(1)[OF assms(1)] by (intro pw_update_good[OF assms(1)]) simp
  then show ?thesis using pw by (simp add: l2vpn_pw_reset_def pw_deref_def) (simp add: pw_update_def)
qed

lemma nbr_del_nh_calm:
  assumes "lde_inv s0" and "calm s0 ns s" and "fn0 \<in> fns s0" and "i < length (fn_nexthops fn0)"
  shows "ensures (nbr_del_nh ln (fn_fec fn0) i s) (calm s0 ns)"
proof -
  have g: "good s0 s" using assms(2) by (simp add: calm_def)
  obtain fn where fn: "fn \<in> fns s" "fn_deref s (Ft (fn_fec fn0)) = Inr fn" "nh_deref fn i = Inr (fn_nexthops fn ! i)"
    by (rule nh_ref[OF assms(1) g assms(3,4)])
  have "ensures (if ftype (fn_fec fn0) = FEC_TYPE_PWID
      then (case fn_data fn of None \<Rightarrow> Inr s | Some p \<Rightarrow> l2vpn_pw_reset p s) else Inr s) (calm s0 ns)"
  proof (cases "fn_data fn")
    case None
    then show ?thesis using assms(2) by simp
  next
    case (Some p)
    have "ensures (l2vpn_pw_reset p s) (calm s0 ns)"
      by (rule ensures_mono[OF pw_reset_good[OF g]])
         (use good_fn(2)[OF g fn(1) Some] assms(2) in \<open>auto simp: calm_def\<close>)
    then show ?thesis using Some assms(2) by simp
  qed
  then show ?thesis unfolding nbr_del_nh_def fn(2,3) and_then_simps
    using assms(2) by (auto intro: ensures_and_then drop_label_calm[OF assms(1) _ assms(3,4)])
qed

lemma map_del_nbrs:
  "lde_map_del pid me sent s = Inr t \<Longrightarrow> lde_nbrs t = lde_nbrs (nbr_update pid
     (\<lambda>n. if sent then n\<lparr>sent_map := fec_remove me_fec (me_fec me) (sent_map n)\<rparr>
          else n\<lparr>recv_map := fec_remove me_fec (me_fec me) (recv_map n)\<rparr>) s)"
  by (auto simp: lde_map_del_def lde_map_free_def Let_def split: fn_ref.splits if_splits)

text \<open>A neighbour without mappings leaves the table.\<close>

lemma nbr_remove_inv:
  assumes inv: "lde_inv s" and n: "n \<in> nbs s" "peerid n = pid" "recv_map n = RNil" "sent_map n = RNil"
  defines "t \<equiv> s\<lparr>lde_nbrs := rb_remove (\<lambda>n. peerid n = pid) (lde_nbrs s)\<rparr>"
  shows "lde_inv t" and "nbs t = nbs s - {n}"
proof -
  have o: "lde_nbr_order.ordered peerid (lde_nbrs s)" using inv by (simp add: lde_inv_defs)
  have "nbs t = {x \<in> nbs s. peerid x \<noteq> pid}"
    using lde_nbr_order.remove_key[OF o, of "\<lambda>n. peerid n = pid" pid] by (simp add: t_def)
  then show nt: "nbs t = nbs s - {n}" using n peerid_inj[OF o] by auto
  have "lde_nbr_order.ordered peerid (lde_nbrs t)"
    using lde_nbr_order.remove_ordered[OF o, of "\<lambda>n. peerid n = pid" pid] by (simp add: t_def)
  moreover have "recv_links t = recv_links s" "sent_links t = sent_links s"
    unfolding recv_links_def sent_links_def nt using n(3,4) by auto
  ultimately show "lde_inv t" using inv nt unfolding lde_inv_def tables_ok_def links_ok_def
    by (simp add: t_def down_links_def up_links_def labels_ok_def pws_ok_def tmps_ok_def config_ok_def fn_pw_ok_def)
qed

text \<open>
  Two readings of a procedure: it ends without a fault in a state of \<open>P\<close> (\<open>ensures\<close>), or it does if
  it ends without a fault (\<open>keeps\<close>).  The end of a session has both, from what unlinking one mapping
  does in each reading.
\<close>

locale outcome =
  fixes R :: "lde_state result \<Rightarrow> (lde_state \<Rightarrow> bool) \<Rightarrow> bool"
  assumes of_ensures: "ensures m P \<Longrightarrow> R m P"
    and seq: "R m Q \<Longrightarrow> (\<And>x. Q x \<Longrightarrow> R (f x) P) \<Longrightarrow> R (and_then m f) P"
    and conj: "R m P \<Longrightarrow> (\<And>x. m = Inr x \<Longrightarrow> Q x) \<Longrightarrow> R m (\<lambda>x. P x \<and> Q x)"

locale session_end = outcome +
  fixes I :: "u32 \<Rightarrow> lde_state \<Rightarrow> lde_state \<Rightarrow> bool"
  assumes I_good: "I pid s0 s \<Longrightarrow> good s0 s"
    and I_calm: "I pid s0 s \<Longrightarrow> calm s0 (lde_nbrs s) t \<Longrightarrow> I pid s0 t"
    and I_address: "I pid s0 s \<Longrightarrow> lde_inv (lde_address_list_free pid s) \<Longrightarrow>
      I pid (lde_address_list_free pid s) (lde_address_list_free pid s)"
    and I_recv: "I pid s0 s \<Longrightarrow> n \<in> nbs s \<Longrightarrow> peerid n = pid \<Longrightarrow> me \<in> maps (recv_map n) \<Longrightarrow>
      R (lde_map_del pid me False s) (I pid s0)"
    and I_sent: "I pid s0 s \<Longrightarrow> n \<in> nbs s \<Longrightarrow> peerid n = pid \<Longrightarrow> me \<in> maps (sent_map n) \<Longrightarrow>
      R (lde_map_del pid me True s) (I pid s0)"
begin

text \<open>Emptying one of the two trees of mappings.\<close>

lemma drain:
  assumes step: "\<And>s n x. I pid s0 s \<Longrightarrow> n \<in> nbs s \<Longrightarrow> peerid n = pid \<Longrightarrow> x \<in> maps (tree n) \<Longrightarrow>
      R (lde_map_del pid x sent s) (\<lambda>s1. I pid s0 s1 \<and> del x n \<in> nbs s1)"
    and del: "\<And>n x. peerid (del x n) = peerid n \<and> other (del x n) = other n \<and>
      tree (del x n) = fec_remove me_fec (me_fec x) (tree n)"
    and "I pid s0 s" and "n \<in> nbs s" and "peerid n = pid"
  shows "R (foreach (\<lambda>me. lde_map_del pid me sent) (fec_clear me_fec (tree n)) s)
    (\<lambda>s'. I pid s0 s' \<and> (\<exists>n' \<in> nbs s'. peerid n' = pid \<and> tree n' = RNil \<and> other n' = other n))"
  using assms(3-)
proof (induction "length (inorder (tree n))" arbitrary: s n rule: less_induct)
  case less
  show ?case
  proof (cases "tree n")
    case RNil
    then show ?thesis using less.prems by (auto intro!: of_ensures)
  next
    case (RNode c l x r)
    have x: "x \<in> maps (tree n)" using RNode by simp
    have "R (and_then (lde_map_del pid x sent s)
        (foreach (\<lambda>me. lde_map_del pid me sent) (fec_clear me_fec (tree (del x n)))))
      (\<lambda>s'. I pid s0 s' \<and> (\<exists>n' \<in> nbs s'. peerid n' = pid \<and> tree n' = RNil \<and> other n' = other n))"
    proof (rule seq[OF step[OF less.prems x]])
      fix s1 assume s1: "I pid s0 s1 \<and> del x n \<in> nbs s1"
      have "length (inorder (tree (del x n))) < length (inorder (tree n))"
        using length_fec_remove[OF x] del by simp
      from less.hyps[OF this, of s1] s1 less.prems(3) del[of x n] show
        "R (foreach (\<lambda>me. lde_map_del pid me sent) (fec_clear me_fec (tree (del x n))) s1)
          (\<lambda>s'. I pid s0 s' \<and> (\<exists>n' \<in> nbs s'. peerid n' = pid \<and> tree n' = RNil \<and> other n' = other n))"
        by simp
    qed
    then show ?thesis using RNode del by simp
  qed
qed

lemma deleted:
  assumes "n \<in> nbs s" and "peerid n = pid" and "lde_map_del pid x sent s = Inr t"
  shows "(if sent then n\<lparr>sent_map := fec_remove me_fec (me_fec x) (sent_map n)\<rparr>
          else n\<lparr>recv_map := fec_remove me_fec (me_fec x) (recv_map n)\<rparr>) \<in> nbs t"
proof -
  have "g n \<in> nbs (nbr_update pid g s)" for g
    using nbr_update_find[OF assms(1,2), of "\<lambda>y. y = g n"] by simp
  then show ?thesis unfolding map_del_nbrs[OF assms(3)] .
qed

lemma empty_and_remove:
  assumes I: "I pid s0 s" and n: "n \<in> nbs s" "peerid n = pid"
  shows "R (and_then (foreach (\<lambda>me. lde_map_del pid me False) (fec_clear me_fec (recv_map n)) s) (\<lambda>s3.
      and_then (foreach (\<lambda>me. lde_map_del pid me True) (fec_clear me_fec (sent_map n)) s3) (\<lambda>s4.
        Inr (s4\<lparr>lde_nbrs := rb_remove (\<lambda>n. peerid n = pid) (lde_nbrs s4)\<rparr>))))
    (\<lambda>t. lde_inv t \<and> peerid ` nbs t = peerid ` nbs s0 - {pid})"
proof (rule seq)
  show "R (foreach (\<lambda>me. lde_map_del pid me False) (fec_clear me_fec (recv_map n)) s)
    (\<lambda>s'. I pid s0 s' \<and> (\<exists>n' \<in> nbs s'. peerid n' = pid \<and> recv_map n' = RNil \<and> sent_map n' = sent_map n))"
    by (rule drain[where del = "\<lambda>x n. n\<lparr>recv_map := fec_remove me_fec (me_fec x) (recv_map n)\<rparr>", OF _ _ I n])
       (auto intro!: conj I_recv dest: deleted)
  fix s3 assume a: "I pid s0 s3 \<and> (\<exists>n' \<in> nbs s3. peerid n' = pid \<and> recv_map n' = RNil \<and> sent_map n' = sent_map n)"
  then obtain n3 where n3: "n3 \<in> nbs s3" "peerid n3 = pid" "recv_map n3 = RNil" "sent_map n3 = sent_map n" by blast
  show "R (and_then (foreach (\<lambda>me. lde_map_del pid me True) (fec_clear me_fec (sent_map n)) s3) (\<lambda>s4.
        Inr (s4\<lparr>lde_nbrs := rb_remove (\<lambda>n. peerid n = pid) (lde_nbrs s4)\<rparr>)))
    (\<lambda>t. lde_inv t \<and> peerid ` nbs t = peerid ` nbs s0 - {pid})"
  proof (rule seq)
    show "R (foreach (\<lambda>me. lde_map_del pid me True) (fec_clear me_fec (sent_map n)) s3)
      (\<lambda>s4. I pid s0 s4 \<and> (\<exists>n' \<in> nbs s4. peerid n' = pid \<and> sent_map n' = RNil \<and> recv_map n' = recv_map n3))"
      unfolding n3(4)[symmetric]
      by (rule drain[where del = "\<lambda>x n. n\<lparr>sent_map := fec_remove me_fec (me_fec x) (sent_map n)\<rparr>", OF _ _ conjunct1[OF a] n3(1,2)])
         (auto intro!: conj I_sent dest: deleted)
    fix s4 assume b: "I pid s0 s4 \<and> (\<exists>n' \<in> nbs s4. peerid n' = pid \<and> sent_map n' = RNil \<and> recv_map n' = recv_map n3)"
    then obtain n4 where n4: "n4 \<in> nbs s4" "peerid n4 = pid" "recv_map n4 = RNil" "sent_map n4 = RNil"
      using n3(3) by auto
    have g4: "good s0 s4" using b I_good by blast
    have "inj_on peerid (nbs s4)" by (rule inj_onI) (rule good_peer_unique[OF g4])
    then have "peerid ` (nbs s4 - {n4}) = peerid ` nbs s4 - {pid}"
      using n4(1,2) by (simp add: inj_on_image_set_diff[of _ "nbs s4"])
    then show "R (Inr (s4\<lparr>lde_nbrs := rb_remove (\<lambda>n. peerid n = pid) (lde_nbrs s4)\<rparr>))
        (\<lambda>t. lde_inv t \<and> peerid ` nbs t = peerid ` nbs s0 - {pid})"
      using nbr_remove_inv[OF good_inv[OF g4] n4] good_frame(4)[OF g4] by (intro of_ensures) simp
  qed
qed

lemma nbr_gone:
  assumes inv: "lde_inv s" and live: "nbr_live s pid" and I: "I pid s s"
  shows "R (lde_nbr_del (Ptr pid) s) (\<lambda>t. lde_inv t \<and> peerid ` nbs t = peerid ` nbs s - {pid})"
proof -
  obtain n where n: "n \<in> nbs s" "peerid n = pid" "nbr_deref s pid = Inr n" by (rule good_nbr[OF good_refl[OF inv] live])
  have one: "ensures (foreach (\<lambda>f. foreach_nh (Ft f) (nbr_del_nh n f)) (map fn_fec (rb_foreach (ft s))) s) (calm s (lde_nbrs s))"
    by (rule ensures_foreach)
       (use good_refl[OF inv] foreach_nh_calm[OF inv _ _ nbr_del_nh_calm[OF inv]] in \<open>auto simp: calm_def[of s _ s] rb_foreach_inorder\<close>)
  show ?thesis unfolding lde_nbr_del_def ptr.case n(3) and_then_simps
  proof (rule seq[OF of_ensures[OF one]])
    fix s1 assume c: "calm s (lde_nbrs s) s1"
    then have g1: "good s s1" and n1: "n \<in> nbs s1" and I1: "I pid s s1"
      using n(1) I_calm[OF I] by (simp_all add: calm_def)
    let ?s2 = "lde_address_list_free pid s1" and ?n2 = "n\<lparr>addr_list := []\<rparr>"
    have i2: "lde_inv ?s2" unfolding lde_address_list_free_def
      using good_trees[OF g1] by (intro nbr_update_inv[OF good_inv[OF g1]]) (auto simp: nbr_trees_ok_def)
    have n2: "?n2 \<in> nbs ?s2"
      using nbr_update_find[OF n1(1) n(2), of "\<lambda>y. y = ?n2"] by (simp add: lde_address_list_free_def)
    have "peerid (at_peer pid (\<lambda>n. n\<lparr>addr_list := []\<rparr>) x) = peerid x" for x by (simp add: at_peer_def)
    then have p2: "peerid ` nbs ?s2 = peerid ` nbs s"
      using good_frame(4)[OF g1] by (simp add: lde_address_list_free_def nbs_nbr_update image_image)
    have d2: "nbr_deref ?s2 pid = Inr ?n2" using nbr_deref_iff[OF i2] n2(1) n(2) by simp
    show "R (let s2 = ?s2 in and_then (nbr_deref s2 pid) (\<lambda>ln.
          and_then (foreach (\<lambda>me. lde_map_del pid me False) (fec_clear me_fec (recv_map ln)) s2) (\<lambda>s3.
          and_then (foreach (\<lambda>me. lde_map_del pid me True) (fec_clear me_fec (sent_map ln)) s3) (\<lambda>s4.
            Inr (s4\<lparr>lde_nbrs := rb_remove (\<lambda>n. peerid n = pid) (lde_nbrs s4)\<rparr>)))))
        (\<lambda>t. lde_inv t \<and> peerid ` nbs t = peerid ` nbs s - {pid})"
      using empty_and_remove[OF I_address[OF I1 i2] n2] n(2) p2 unfolding Let_def d2 and_then_simps by simp
  qed
qed

end

interpretation total_end: session_end ensures "\<lambda>pid s0 s. good s0 s \<and> sent_owned s pid"
proof (unfold_locales, goal_cases)
  case (4 pid s0 s)
  then show ?case by simp
next
  case (5 pid s0 s t)
  then show ?case using sent_owned_cong[of t s] by (simp add: calm_def)
next
  case (6 pid s0 s)
  then show ?case using good_refl sent_owned_update[of s pid] by (simp add: lde_address_list_free_def)
next
  case (7 pid s0 s n me)
  have "sent_owned t pid" if "lde_map_del pid me False s = Inr t" for t
    using sent_owned_cong[OF map_del_nbrs[OF that]] sent_owned_update[of s pid] 7(1) by simp
  then show ?case using map_del_recv_good[of s0 s n pid me] 7 by (auto intro: ensures_conj)
next
  case (8 pid s0 s n me)
  then show ?case using map_del_owned by blast
qed (auto intro: ensures_and_then ensures_conj)

interpretation partial_end: session_end keeps "\<lambda>pid s0 s. good s0 s"
proof (unfold_locales, goal_cases)
  case (2 m Q f P)
  then show ?case by (rule keeps_and_then)
next
  case (3 m P Q)
  then show ?case by (cases m) auto
qed (auto simp: calm_def good_refl intro: ensures_keeps map_del_recv_good map_del_sent_keeps)

lemmas nbr_del_ok = total_end.nbr_gone and nbr_del_keeps = partial_end.nbr_gone

subsection \<open>The garbage collector\<close>

definition fn_used :: "fec_node \<Rightarrow> bool" where
  "fn_used fn \<longleftrightarrow> fn_nexthops fn \<noteq> [] \<or> fn_downstream fn \<noteq> [] \<or> fn_upstream fn \<noteq> []"

lemma gc_fold:
  fixes P key t xs
  assumes "fec_order.ordered key t" and "distinct xs" and "set xs \<subseteq> set (inorder t)"
  defines "t' \<equiv> fold (\<lambda>x t. if P x then t else fec_remove key (key x) t) xs t"
  shows "fec_order.ordered key t' \<and> set (inorder t') = set (inorder t) - {x \<in> set xs. \<not> P x}"
  using assms(1-3) unfolding t'_def
proof (induction xs arbitrary: t)
  case (Cons x xs)
  show ?case
  proof (cases "P x")
    case True
    then show ?thesis using Cons.IH[of t] Cons.prems by auto
  next
    case False
    have x: "x \<in> set (inorder t)" using Cons.prems(3) by simp
    note r = fec_remove_ordered[OF Cons.prems(1) x] and s = set_fec_remove[OF Cons.prems(1) x]
    have "set xs \<subseteq> set (inorder (fec_remove key (key x) t))" using s Cons.prems by auto
    from Cons.IH[OF r _ this] show ?thesis using False s Cons.prems(2) by auto
  qed
qed simp

lemma gc_timer_ok:
  assumes inv: "lde_inv s"
  shows "lde_inv (lde_gc_timer s)" and "fns (lde_gc_timer s) = {fn \<in> fns s. fn_used fn}"
proof -
  let ?t = "lde_gc_timer s"
  have o: "fec_order.ordered fn_fec (ft s)" using inv by (simp add: lde_inv_defs)
  have d: "distinct (inorder (ft s))"
    using fec_order.ordered_distinct[OF o] by (auto simp: distinct_map)
  have g: "fec_order.ordered fn_fec (ft ?t) \<and> fns ?t = fns s - {fn \<in> fns s. \<not> fn_used fn}"
    using gc_fold[OF o d subset_refl, where P = fn_used]
    by (simp add: lde_gc_timer_def rb_foreach_inorder fn_used_def)
  then show f: "fns ?t = {fn \<in> fns s. fn_used fn}" by auto
  have t: "lde_nbrs ?t = lde_nbrs s" "label_nbrs ?t = label_nbrs s" "pws ?t = pws s" "l2vpns ?t = l2vpns s"
    "l2vpn_list ?t = l2vpn_list s" "to_parent ?t = to_parent s" "tmps ?t = tmps s"
    by (simp_all add: lde_gc_timer_def)
  have "down_links ?t = down_links s" "up_links ?t = up_links s"
    unfolding down_links_def up_links_def f by (auto simp: fn_used_def)
  moreover have "recv_links ?t = recv_links s" "sent_links ?t = sent_links s"
    by (simp_all add: recv_links_def sent_links_def t)
  ultimately have "links_ok ?t" using inv by (simp add: lde_inv_def links_ok_def f t)
  moreover have "tables_ok ?t" using inv g by (simp add: lde_inv_def tables_ok_def t)
  moreover have "labels_ok ?t" using inv by (simp add: lde_inv_def labels_ok_def f)
  moreover have "config_ok ?t = config_ok s" "fn_pw_ok ?t = fn_pw_ok s"
    by (simp_all add: config_ok_def fn_pw_ok_def fun_eq_iff t)
  then have "pws_ok ?t" using inv by (simp add: lde_inv_def pws_ok_def f t)
  ultimately show "lde_inv ?t" using inv by (simp add: lde_inv_def tmps_ok_def t)
qed

subsection \<open>Pseudowires\<close>

lemma l2vpn_deref_pw:
  assumes "lde_inv s" and "pws s p = Some pw"
  obtains v where "l2vpns s (pw_l2vpn pw) = Some v"
  using good_pw(2)[OF good_refl[OF assms(1)] assms(2)] by blast

lemma pw_init_ok:
  assumes inv: "lde_inv s" and p: "pws s p \<noteq> None"
  shows "ensures (l2vpn_pw_init p s) (\<lambda>t. lde_inv t \<and> nbr_frame t = nbr_frame s)"
  unfolding l2vpn_pw_init_def
proof (rule ensures_and_then[OF pw_reset_good[OF good_refl[OF inv] p]])
  fix s1 assume s1: "good s s1 \<and> lde_nbrs s1 = lde_nbrs s"
  have i1: "lde_inv s1" using s1 good_inv by blast
  have "dom (pws s1) = dom (pws s)" using s1 frame_fields(7)[of s1 s] by (simp add: good_def)
  then obtain pw where pw: "pws s1 p = Some pw" using p by blast
  obtain v where v: "l2vpns s1 (pw_l2vpn pw) = Some v" by (rule l2vpn_deref_pw[OF i1 pw])
  have "nbr_frame s1 = nbr_frame s" using s1 by (simp add: nbr_frame_def)
  then show "ensures (and_then (pw_deref s1 p) (\<lambda>pw. and_then (l2vpn_pw_fec s1 pw) (\<lambda>f.
      lde_kernel_insert f AF_INET (v4_addr (pw_lsr_id pw)) 0 (Some p) s1)))
      (\<lambda>t. lde_inv t \<and> nbr_frame t = nbr_frame s)"
    using kernel_insert_ok[OF i1, where data = "Some p"] pw v
    by (simp add: pw_deref_def l2vpn_pw_fec_def l2vpn_deref_def)
qed

lemma pw_exit_ok:
  assumes inv: "lde_inv s" and p: "pws s p \<noteq> None"
  shows "ensures (l2vpn_pw_exit p s) (\<lambda>t. lde_inv t \<and> nbr_frame t = nbr_frame s)"
proof -
  obtain pw where pw: "pws s p = Some pw" using p by blast
  obtain v where "l2vpns s (pw_l2vpn pw) = Some v" by (rule l2vpn_deref_pw[OF inv pw])
  then show ?thesis using kernel_remove_ok[OF inv] pw
    by (simp add: l2vpn_pw_exit_def pw_deref_def l2vpn_pw_fec_def l2vpn_deref_def)
qed

lemma recv_pw_status_ok:
  assumes inv: "lde_inv s" and live: "nbr_live s pid" and m: "map_af_ok (nm_fec nm)"
  shows "ensures (l2vpn_recv_pw_status pid nm s) (good s)"
proof -
  note gr = good_refl[OF inv]
  obtain n where n: "nbr_deref s pid = Inr n" by (rule good_nbr[OF gr live])
  obtain fec where fec: "lde_map2fec (nm_fec nm) (nbr_id n) = Inr fec" using map2fec_Inr[OF m] by blast
  have "ensures (and_then (pw_deref s p) (\<lambda>pw.
      if pw_remote_status pw = nm_pw_status nm then Inr s
      else
        let pw1 = pw\<lparr>pw_remote_status := nm_pw_status nm\<rparr>; s1 = pw_update p (\<lambda>_. pw1) s
        in and_then (l2vpn_pw_ok s1 pw1 (nh_remote_label (fn_nexthops fn ! i))) (\<lambda>ok.
             if ok then lde_send_change_klabel (Ft (fn_fec fn)) i s1
             else lde_send_delete_klabel (Ft (fn_fec fn)) i s1))) (good s)"
    if fn: "fec_find fn_fec (ft s) fec = Some fn" and p: "fn_data fn = Some p"
      and i: "fec_nh_find fn AF_INET (v4_addr (nbr_id n)) 0 = Some i" for fn p i
  proof -
    have f: "fn \<in> fns s" "i < length (fn_nexthops fn)"
      using fec_find_fns(1)[OF gr fn] i by (simp_all add: fec_nh_find_def find_index_Some)
    obtain pw where pw: "pws s p = Some pw" using good_fn(2)[OF gr f(1) p] by blast
    obtain v where v: "l2vpns s (pw_l2vpn pw) = Some v" by (rule l2vpn_deref_pw[OF inv pw])
    let ?pw1 = "pw\<lparr>pw_remote_status := nm_pw_status nm\<rparr>"
    let ?s1 = "pw_update p (\<lambda>_. ?pw1) s"
    have g1: "good s ?s1" using pw good_pw(1)[OF gr pw] by (intro pw_update_good[OF gr]) simp
    have "l2vpn_pw_ok ?s1 ?pw1 l = Inr False" for l
      using l2vpn_pw_ok_False[OF g1, of ?pw1 v] v by (simp add: pw_update_def)
    moreover have "fn \<in> fns ?s1" using f(1) by (simp add: pw_update_def)
    then have "ensures (lde_send_delete_klabel (Ft (fn_fec fn)) i ?s1) (good s)"
      by (rule ensures_mono[OF delete_klabel_good[OF g1 _ f(2)]]) simp
    ultimately show ?thesis using pw gr by (simp add: pw_deref_def Let_def)
  qed
  then show ?thesis using n fec gr unfolding l2vpn_recv_pw_status_def by (auto split: option.split)
qed

subsection \<open>Addresses of a neighbour\<close>

lemma nbr_replace_inv:
  assumes inv: "lde_inv s" and n: "n \<in> nbs s" and "peerid n' = peerid n" and "nbr_trees_ok n \<longrightarrow> nbr_trees_ok n'"
    and "recv_map n' = recv_map n" and "sent_map n' = sent_map n"
  shows "lde_inv (nbr_update (peerid n) (\<lambda>_. n') s)"
  by (rule nbr_update_inv[OF inv])
     (use assms(3-) good_trees[OF good_refl[OF inv] n] in \<open>auto dest!: good_peer_unique[OF good_refl[OF inv] n]\<close>)

lemma address_add_inv:
  assumes "lde_inv s" and "n \<in> nbs s" and "lde_address_add n x = Some n'"
  shows "lde_inv (nbr_update (peerid n) (\<lambda>_. n') s)"
  by (rule nbr_replace_inv[OF assms(1,2)])
     (use assms(3) in \<open>auto simp: lde_address_add_def nbr_trees_ok_def split: if_splits\<close>)

lemma address_del_inv:
  assumes "lde_inv s" and "n \<in> nbs s" and "lde_address_del n x = Some n'"
  shows "lde_inv (nbr_update (peerid n) (\<lambda>_. n') s)"
  by (rule nbr_replace_inv[OF assms(1,2)])
     (use assms(3) in \<open>auto simp: lde_address_del_def nbr_trees_ok_def split: option.splits\<close>)

end
