(* ===== verification/Lde_Reach.thy ===== *)
theory Lde_Reach
  imports Lde_Handlers
begin

text \<open>
  Every state the label decision engine reaches is a state of the invariant.

  The multipoint extension can follow a bad pointer (the faults are shown in \<open>Lde_Tree\<close>); here it
  is shown that whenever one of its handlers ends, the invariant holds again.  \<open>lde_step\<close> is one event
  of the process: a message of the protocol engine, a route of the parent process, a pseudowire that is
  configured or removed, or the garbage collector.  \<open>lde_reach\<close> is the reachable states.
\<close>

subsection \<open>The label table and temporary nodes\<close>

lemma label_table_inv:
  "lde_inv s \<Longrightarrow> label_nbr_order.ordered lb_key t \<Longrightarrow> lde_inv (s\<lparr>label_nbrs := t\<rparr>)"
  by (simp add: inv_unfold)

lemma label_nbr_add_keeps:
  assumes "lde_inv s"
  shows "keeps (label_nbr_add l ll pid f t s) (\<lambda>s'. lde_inv s' \<and> (\<exists>x. s' = s\<lparr>label_nbrs := x\<rparr>))"
proof -
  have "label_nbr_order.ordered lb_key (label_nbrs s)" using assms by (simp add: lde_inv_defs)
  from label_nbr_order.insert_ordered[OF this] show ?thesis
    using label_table_inv[OF assms]
    by (auto simp: label_nbr_add_def keeps_iff Let_def split: prod.splits option.splits) (metis snd_conv)
qed

lemma label_nbr_del_inv:
  assumes "lde_inv s" and x: "\<And>x. lb = Some x \<Longrightarrow> x \<in> set (inorder (label_nbrs s))"
  shows "lde_inv (label_nbr_del lb s)"
proof (cases lb)
  case (Some y)
  have o: "label_nbr_order.ordered lb_key (label_nbrs s)" using assms(1) by (simp add: lde_inv_defs)
  have "label_nbr_order.ordered lb_key (rb_remove (\<lambda>z. lb_key z = lb_key y) (label_nbrs s))"
    using label_nbr_order.ordered_key_inj[OF o _ x[OF Some]]
    by (intro label_nbr_order.remove_ordered[OF o, where k = "label_nbr_key (lb_key y)"]) auto
  then show ?thesis using label_table_inv[OF assms(1)] Some by (simp add: label_nbr_del_def)
qed (simp add: label_nbr_del_def assms(1))

lemma lb_update_inv:
  assumes "lde_inv s"
  shows "lde_inv (lb_update k (\<lambda>x. x\<lparr>lb_label := l\<rparr>) s)"
proof -
  have "label_nbr_order.ordered lb_key (label_nbrs s)" using assms by (simp add: lde_inv_defs)
  then have "label_nbr_order.ordered lb_key
      (map_rbt (\<lambda>x. if lb_key x = k then x\<lparr>lb_label := l\<rparr> else x) (label_nbrs s))"
    by (rule label_nbr_order.map_ordered) (simp add: lb_key_def)
  then show ?thesis using label_table_inv[OF assms] by (simp add: lb_update_def)
qed

lemma tmps_inv:
  assumes "lde_inv s" and "\<And>x. x \<in> set ts \<Longrightarrow> fn_data (fst x) = None"
  shows "lde_inv (s\<lparr>tmps := ts\<rparr>)"
  using assms by (simp add: inv_unfold)

lemma tmp_alloc_inv:
  assumes "lde_inv s" and "tmp_alloc (fec_node_new f l) s = (r, s')"
  shows "lde_inv s'" and "fn_live s' r" and "lde_nbrs s' = lde_nbrs s"
proof -
  have e: "s' = s\<lparr>tmps := tmps s @ [(fec_node_new f l, True)]\<rparr>" "r = Tmp (length (tmps s))"
    using assms(2) by (simp_all add: tmp_alloc_def)
  have "\<forall>x \<in> set (tmps s). fn_data (fst x) = None" using assms(1) by (simp add: lde_inv_def tmps_ok_def)
  then show "lde_inv s'" unfolding e
    by (intro tmps_inv[OF assms(1)]) (auto simp: fec_node_new_def)
  show "fn_live s' r" and "lde_nbrs s' = lde_nbrs s" by (simp_all add: e fn_live_def)
qed

lemma tmp_free_inv:
  assumes "lde_inv s" and "fn_live s r"
  shows "lde_inv (tmp_free r s)"
proof (cases r)
  case (Tmp k)
  have o: "fn_data (fst x) = None" if "x \<in> set (tmps s)" for x
    using that assms(1) by (simp add: lde_inv_def tmps_ok_def)
  have k: "k < length (tmps s)" using assms(2) Tmp by (simp add: fn_live_def)
  have "fn_data (fst x) = None" if "x \<in> set ((tmps s)[k := (fst (tmps s ! k), False)])" for x
    using that o[of x] o[OF nth_mem[OF k]] set_update_subset_insert[of "tmps s" k "(fst (tmps s ! k), False)"] by auto
  then show ?thesis using tmps_inv[OF assms(1)] Tmp by (simp add: tmp_free_def)
qed (simp add: tmp_free_def assms(1))

lemma lsp_label_inv:
  assumes "lde_inv s" and "lsp_label f s = (l, s')"
  shows "lde_inv s'"
  using assms by (auto simp: lsp_label_def lde_assign_label_def Let_def split: option.splits)

text \<open>What the multipoint handlers carry: the invariant, and the node of the message is live.\<close>

definition mldp_ok :: "fn_ref \<Rightarrow> lde_state \<Rightarrow> bool" where
  "mldp_ok r s \<longleftrightarrow> lde_inv s \<and> fn_live s r"

lemma send_tmp_keeps:
  assumes "mldp_ok r s"
  shows "keeps (lde_send_labelmapping pid r single s) (mldp_ok r)"
proof (cases "nbr_deref s pid")
  case (Inl e)
  then show ?thesis by (simp add: lde_send_labelmapping_def)
next
  case (Inr n)
  have i: "lde_inv s" "fn_live s r" using assms by (simp_all add: mldp_ok_def)
  have "nbr_live s pid" using Inr nbr_deref_iff[OF i(1)] by (auto simp: nbr_live_def)
  from labelmapping_good[OF good_refl[OF i(1)] this i(2)] have "keeps (lde_send_labelmapping pid r single s) (good s)"
    by (rule ensures_keeps)
  then show ?thesis by (rule keeps_mono) (use i(2) good_frame(2) in \<open>auto simp: mldp_ok_def good_inv\<close>)
qed

lemma label_add_keeps:
  assumes "mldp_ok r s"
  shows "keeps (label_nbr_add l ll pid f t s) (mldp_ok r)"
proof -
  have "fn_live (s\<lparr>label_nbrs := x\<rparr>) r = fn_live s r" for x by (simp add: fn_live_def split: fn_ref.split)
  moreover have i: "lde_inv s" using assms by (simp add: mldp_ok_def)
  ultimately show ?thesis
    by (intro keeps_mono[OF label_nbr_add_keeps[OF i]]) (use assms in \<open>auto simp: mldp_ok_def\<close>)
qed

subsection \<open>Mappings of multipoint trees\<close>

lemma mldp_okI: "tmp_alloc (fec_node_new f l) s = (r, s') \<Longrightarrow> lde_inv s \<Longrightarrow> mldp_ok r s'"
  using tmp_alloc_inv by (auto simp: mldp_ok_def)

lemma mldp_free: "mldp_ok r s \<Longrightarrow> lde_inv (tmp_free r s)"
  by (simp add: mldp_ok_def tmp_free_inv)

lemma mldp_ok_ln1 [simp]: "mldp_ok r (s\<lparr>disp_ln1 := p\<rparr>) = mldp_ok r s"
  by (simp add: mldp_ok_def fn_live_def split: fn_ref.split)

lemma keeps_bind: "(\<And>x. m = Inr x \<Longrightarrow> keeps (f x) P) \<Longrightarrow> keeps (and_then m f) P"
  by (cases m) simp_all

lemma tree_up_keeps:
  assumes "lde_inv s"
  shows "keeps (tree_up root ov s) lde_inv"
proof -
  have chain: "keeps (and_then (ptr_get ln2) (\<lambda>pid. and_then (nbr_deref s2 pid) (\<lambda>ln.
      and_then (label_nbr_add NO_LABEL label (peerid ln) fec4 STREAM_TYPE_UP s2) (\<lambda>s3.
      and_then (lde_send_labelmapping pid fn1 True s3) (\<lambda>s4. Inr (tmp_free fn1 s4)))))) lde_inv"
    if "mldp_ok fn1 s2" for ln2 label fec4 fn1 s2
    by (rule keeps_bind, rule keeps_bind, rule keeps_and_then[OF label_add_keeps[OF that]],
        rule keeps_and_then[OF send_tmp_keeps]) (auto simp: mldp_free)
  show ?thesis using assms
    by (auto simp: tree_up_def Let_def lde_assign_label_def split: option.split prod.split intro!: chain elim!: mldp_okI)
qed

lemma mapping_root_keeps:
  assumes "lde_inv s"
  shows "keeps (mapping_root m pid fec1 s) lde_inv"
proof -
  obtain label s1 where l: "lsp_label fec1 s = (label, s1)" by (cases "lsp_label fec1 s")
  obtain fn s2 where t: "tmp_alloc (fec_node_new fec1 label) s1 = (fn, s2)"
    by (cases "tmp_alloc (fec_node_new fec1 label) s1")
  have ok: "mldp_ok fn s2" using mldp_okI[OF t lsp_label_inv[OF assms l]] .
  show ?thesis unfolding mapping_root_def l t Let_def prod.case
    by (rule keeps_and_then[OF label_add_keeps[OF ok]], rule keeps_bind, rule keeps_and_then[where Q = "mldp_ok fn"])
       (auto simp: mldp_free send_tmp_keeps)
qed

lemma transit_send_keeps:
  assumes "mldp_ok fn s"
  shows "keeps (mapping_transit_send pid fec1 label fn h s) (mldp_ok fn)"
proof -
  have "keeps (and_then (label_nbr_add NO_LABEL label p fec1 STREAM_TYPE_UP (s\<lparr>disp_ln1 := q\<rparr>))
      (lde_send_labelmapping p fn True)) (mldp_ok fn)" for p q
    by (rule keeps_and_then[OF label_add_keeps]) (use assms send_tmp_keeps in auto)
  then show ?thesis using assms send_tmp_keeps
    by (auto simp: mapping_transit_send_def Let_def split: option.split)
qed

lemma mapping_transit_keeps:
  assumes "lde_inv s"
  shows "keeps (mapping_transit m pid fec1 s) lde_inv"
proof -
  let ?s0 = "s\<lparr>leaf := 0\<rparr>"
  obtain label s1 where l: "lsp_label fec1 ?s0 = (label, s1)" by (cases "lsp_label fec1 ?s0")
  obtain fn s2 where t: "tmp_alloc (fec_node_new fec1 label) s1 = (fn, s2)"
    by (cases "tmp_alloc (fec_node_new fec1 label) s1")
  have ok: "mldp_ok fn s2" using mldp_okI[OF t lsp_label_inv[OF _ l]] assms by simp
  have fin: "keeps (and_then (mapping_transit_send pid fec1 label fn h x) (\<lambda>s4. Inr (tmp_free fn s4))) lde_inv"
    if "mldp_ok fn x" for h x
    by (rule keeps_and_then[OF transit_send_keeps[OF that]]) (simp add: mldp_free)
  show ?thesis unfolding mapping_transit_def l t Let_def prod.case
    by (rule keeps_and_then[OF label_add_keeps[OF ok]], rule keeps_bind)
       (auto simp: mldp_ok_def[THEN iffD1] fin split: option.splits list.splits)
qed

lemma down_entry_keeps:
  assumes "mldp_ok fn s"
  shows "keeps (mapping_down_entry fec1 fn lb s) (mldp_ok fn)"
proof -
  have "keeps (and_then (ptr_get (disp_ln1 s1)) (\<lambda>pid. and_then (nbr_deref s1 pid) (\<lambda>ln1.
      if fec_find me_fec (sent_map ln1) fec1 = None then lde_send_labelmapping pid fn True s1 else Inr s1)))
      (mldp_ok fn)" if "mldp_ok fn s1" for s1
    by (rule keeps_bind, rule keeps_bind) (use that send_tmp_keeps in auto)
  then show ?thesis using assms by (auto simp: mapping_down_entry_def Let_def split: option.split)
qed

lemma mapping_upstream_keeps:
  assumes "lde_inv s"
  shows "keeps (mapping_upstream m pid fec1 lnr s) lde_inv"
proof -
  have i: "lde_inv (lb_update (lb_key lnr) (\<lambda>x. x\<lparr>lb_label := m_label m\<rparr>) s)" using lb_update_inv[OF assms] .
  have loop: "keeps (and_then (foreach (mapping_down_entry fec1 fn) xs s2) (\<lambda>s3. Inr (tmp_free fn s3))) lde_inv"
    if "mldp_ok fn s2" for fn xs s2
    by (rule keeps_and_then[where Q = "mldp_ok fn"], rule keeps_foreach)
       (auto simp: that down_entry_keeps mldp_free)
  show ?thesis unfolding mapping_upstream_def Let_def using i
    by (auto split: prod.split option.split intro!: loop elim!: mldp_okI simp: lde_assign_label_def Let_def)
qed

lemma dump_keeps: "lde_inv s \<Longrightarrow> keeps (dump_label_nbrs s) lde_inv"
  unfolding dump_label_nbrs_def by (rule keeps_foreach) (auto split: option.split)

lemma mldp_mapping_keeps:
  assumes "lde_inv s"
  shows "keeps (mldp_mapping m pid s) lde_inv"
proof -
  have "keeps (and_then (case label_nbr_find s pid fec1 of
      Some lnr \<Rightarrow> mapping_upstream m pid fec1 lnr s
    | None \<Rightarrow> (case find_root (ipv4_prefix fec1) s of
        None \<Rightarrow> Inl Uninit_read
      | Some fec4 \<Rightarrow> (case fec_find fn_fec (ft s) fec4 of
          None \<Rightarrow> Inl Null_deref
        | Some fn1 \<Rightarrow>
            let s1 = (if \<exists>h \<in> set (fn_nexthops fn1). a0 (nh_nexthop h) = 0 then s\<lparr>leaf := 2\<rparr> else s)
            in if leaf s1 = 2 then mapping_root m pid fec1 s1 else mapping_transit m pid fec1 s1))) dump_label_nbrs)
    lde_inv" for fec1
    by (rule keeps_and_then[OF _ dump_keeps])
       (use assms in \<open>auto simp: Let_def mapping_upstream_keeps mapping_root_keeps mapping_transit_keeps split: option.split\<close>)
  then show ?thesis unfolding mldp_mapping_def by (rule keeps_bind[OF keeps_bind])
qed

subsection \<open>Withdraws and leaving\<close>

text \<open>Both loops free the entry they stand on, so an iteration never comes back.\<close>

lemma tree_down_loop_Inr: "tree_down_loop root ov xs ln s = Inr t \<Longrightarrow> xs = [] \<and> t = s"
  by (cases xs) (auto simp: Let_def)

lemma withdraw_up_loop_Inr:
  "withdraw_up_loop xs s = Inr t \<Longrightarrow> (\<forall>x \<in> set xs. lb_type x \<noteq> STREAM_TYPE_UP) \<and> t = s"
  by (induction xs s rule: withdraw_up_loop.induct) (auto simp: Let_def split: if_splits)

lemma tree_down_keeps: "lde_inv s \<Longrightarrow> keeps (tree_down root ov s) lde_inv"
  by (auto simp: keeps_iff tree_down_def Let_def dest!: tree_down_loop_Inr)

lemma mldp_withdraw_keeps:
  assumes "lde_inv s"
  shows "keeps (mldp_withdraw m pid s) lde_inv"
proof -
  let ?l = "find (\<lambda>lb. lb_local_label lb = m_label m \<and> lb_peerid lb = pid) (rb_foreach (label_nbrs s))"
  have "lde_inv (label_nbr_del ?l s)"
    by (rule label_nbr_del_inv[OF assms]) (auto simp: rb_foreach_inorder dest: find_Some_in)
  then show ?thesis by (auto simp: keeps_iff mldp_withdraw_def Let_def dest!: withdraw_up_loop_Inr split: if_splits)
qed

subsection \<open>The handlers of messages\<close>

lemma map2fec_af: "lde_map2fec m i = Inr f \<Longrightarrow> map_af_ok m"
  by (auto simp: map_af_ok_def lde_map2fec_def split: if_splits)

lemma good_keeps_inv: "keeps m (good s) \<Longrightarrow> keeps m lde_inv"
  by (erule keeps_mono) (rule good_inv)

lemma release_fec_keeps:
  assumes "good s0 s" and "nbr_live s0 pid"
  shows "keeps (release_fec m pid f s) (good s0)"
proof -
  obtain n where n: "n \<in> nbs s" "peerid n = pid" "nbr_deref s pid = Inr n" by (rule good_nbr[OF assms(1,2)])
  have o: "fec_order.ordered lw_fec (sent_wdraw n)" "fec_order.ordered me_fec (sent_map n)"
    using good_trees[OF assms(1) n(1)] by (simp_all add: nbr_trees_ok_def)
  have del: "keeps (lde_map_del pid me True t) (good s0)"
    if "fec_find me_fec (sent_map n) f = Some me" "good s0 t" "\<exists>n' \<in> nbs t. peerid n' = pid \<and> sent_map n' = sent_map n" for me t
    using that fec_find_Some[OF o(2) that(1)] map_del_sent_keeps[OF that(2)] by fastforce
  have w: "good s0 (lde_wdraw_del pid lw s) \<and>
      (\<exists>n' \<in> nbs (lde_wdraw_del pid lw s). peerid n' = pid \<and> sent_map n' = sent_map n)"
    if "fec_find lw_fec (sent_wdraw n) f = Some lw" for lw
    using fec_find_Some[OF o(1) that] wdraw_del_good[OF assms(1) n(1,2), of lw] n(2)
    by (auto simp: lde_wdraw_del_def intro!: nbr_update_find[OF n(1)])
  show ?thesis unfolding release_fec_def n(3) and_then_simps Let_def
    using w del assms(1) n(1,2) by (auto split: option.split)
qed

lemma release_keeps:
  assumes "lde_inv s" and "nbr_live s pid"
  shows "keeps (lde_check_release m pid s) lde_inv" and "keeps (lde_check_release_wcard m pid s) lde_inv"
proof -
  note gr = good_refl[OF assms(1)] and rel = release_fec_keeps[OF _ assms(2)]
  have "keeps (lde_check_release m pid s) (good s)"
    unfolding lde_check_release_def using gr rel[OF gr]
    by (auto intro!: keeps_bind split: option.split)
  then show "keeps (lde_check_release m pid s) lde_inv" by (rule good_keeps_inv)
  have "keeps (lde_check_release_wcard m pid s) (good s)"
    unfolding lde_check_release_wcard_def by (rule keeps_foreach) (use gr rel in auto)
  then show "keeps (lde_check_release_wcard m pid s) lde_inv" by (rule good_keeps_inv)
qed

lemma check_mapping_keeps:
  assumes inv: "lde_inv s" and "nbr_live s pid"
  shows "keeps (lde_check_mapping m pid s) lde_inv"
proof -
  obtain n where n: "n \<in> nbs s" "peerid n = pid" "nbr_deref s pid = Inr n"
    by (rule good_nbr[OF good_refl[OF inv] assms(2)])
  show ?thesis
  proof (cases "lde_map2fec m (nbr_id n)")
    case (Inl e)
    then show ?thesis using n(3) by (simp add: lde_check_mapping_def)
  next
    case (Inr fec)
    from ensures_keeps[OF check_mapping_ok[OF inv n(1,2) Inr]] show ?thesis by (rule keeps_mono) simp
  qed
qed

text \<open>A procedure that reads the FEC of its map first keeps what it keeps on maps whose FEC can be read.\<close>

lemma by_map_af:
  assumes "map_af_ok m \<Longrightarrow> ensures p P" and "\<not> map_af_ok m \<Longrightarrow> keeps p P"
  shows "keeps p P"
  using assms by (cases "map_af_ok m") (auto intro: ensures_keeps)

lemma check_request_keeps:
  assumes "lde_inv s" and "nbr_live s pid"
  shows "keeps (lde_check_request m pid s) lde_inv"
proof (rule good_keeps_inv[OF by_map_af[OF check_request_ok[OF assms]]])
  assume "\<not> map_af_ok m"
  then show "keeps (lde_check_request m pid s) (good s)"
    unfolding lde_check_request_def by (intro keeps_bind) (auto dest: map2fec_af)
qed

lemma check_withdraw_keeps:
  assumes "lde_inv s" and "nbr_live s pid"
  shows "keeps (lde_check_withdraw m pid s) lde_inv"
proof (rule by_map_af)
  assume "map_af_ok m"
  from check_withdraw_ok[OF assms this] show "ensures (lde_check_withdraw m pid s) lde_inv"
    by (rule ensures_mono) simp
next
  assume "\<not> map_af_ok m"
  then show "keeps (lde_check_withdraw m pid s) lde_inv"
    unfolding lde_check_withdraw_def using assms(1) by (auto intro!: keeps_bind dest!: map2fec_af)
qed

lemma recv_pw_status_keeps:
  assumes "lde_inv s" and "nbr_live s pid"
  shows "keeps (l2vpn_recv_pw_status pid nm s) lde_inv"
proof (rule good_keeps_inv[OF by_map_af[OF recv_pw_status_ok[OF assms]]])
  assume "\<not> map_af_ok (nm_fec nm)"
  then show "keeps (l2vpn_recv_pw_status pid nm s) (good s)"
    unfolding l2vpn_recv_pw_status_def using good_refl[OF assms(1)] by (auto intro!: keeps_bind dest!: map2fec_af)
qed

lemma nbr_find_live: "lde_nbr_find s pid = Some n \<Longrightarrow> n \<in> nbs s \<and> peerid n = pid \<and> nbr_live s pid"
  by (auto simp: nbr_live_def dest: lde_nbr_find_Some)

lemma with_nbr_keeps:
  assumes "lde_inv s" and "nbr_live s pid \<Longrightarrow> keeps (h pid s) lde_inv"
  shows "keeps (with_nbr pid h s) lde_inv"
  using assms by (auto simp: with_nbr_def split: option.split dest!: nbr_find_live)

text \<open>The egress label of connected prefixes changes: no entry has one, so nothing is advertised.\<close>

lemma readvertise_id:
  assumes "good s0 s" and "f \<in> fn_fec ` fns s"
  shows "readvertise a pid f s = Inr s"
proof -
  obtain fn where fn: "fn \<in> fns s" "fn_fec fn = f" "fn_deref s (Ft f) = Inr fn"
    using assms(2) fn_deref_Ft_iff[OF good_inv[OF assms(1)]] by auto
  then show ?thesis using good_fn(1)[OF assms(1) fn(1)]
    by (simp add: readvertise_def NO_LABEL_def MPLS_LABEL_RESERVED_MAX_def)
qed

lemma change_egress_ok:
  assumes "lde_inv s"
  shows "ensures (lde_change_egress_label a was_implicit s) (good s)"
  unfolding lde_change_egress_label_def
proof (rule ensures_foreach)
  fix pid t assume "pid \<in> set (map peerid (rb_foreach (lde_nbrs s)))" and g: "good s t"
  then have live: "nbr_live s pid" by (auto simp: rb_foreach_inorder nbr_live_def)
  obtain n where n: "nbr_deref t pid = Inr n" by (rule good_nbr[OF g live])
  note w = labelwithdraw_good[OF _ live, where fno = None, simplified]
  have a: "ensures (and_then (foreach (readvertise a pid) (map fn_fec (rb_foreach (ft u))) u)
      (\<lambda>v. Inr (compose_ldpe (IMSG_MAPPING_ADD_END pid) v))) (good s)" if u: "good s u" for u
  proof -
    have "foreach (readvertise a pid) (map fn_fec (rb_foreach (ft u))) u = Inr u"
      by (rule foreach_id) (use readvertise_id[OF u] in \<open>auto simp: rb_foreach_inorder\<close>)
    then show ?thesis using u by simp
  qed
  show "ensures (and_then (nbr_deref t pid) (\<lambda>ln. and_then
      (if was_implicit then lde_send_labelwithdraw pid None MPLS_LABEL_IMPLNULL None t
       else and_then (if v4_enabled ln then lde_send_labelwithdraw pid None MPLS_LABEL_IPV4NULL None t else Inr t)
         (\<lambda>s. if v6_enabled ln then lde_send_labelwithdraw pid None MPLS_LABEL_IPV6NULL None s else Inr s))
      (\<lambda>s1. and_then (foreach (readvertise a pid) (map fn_fec (rb_foreach (ft s1))) s1)
        (\<lambda>s2. Inr (compose_ldpe (IMSG_MAPPING_ADD_END pid) s2))))) (good s)"
    unfolding n and_then_simps
    by (rule ensures_and_then[OF _ a]) (use w g in \<open>auto intro!: ensures_and_then[of _ "good s"]\<close>)
qed (simp add: good_refl assms)

lemma dumps_keep:
  assumes "lde_inv s"
  shows "keeps (rt_dump p s) lde_inv" and "keeps (l2vpn_pw_ctl p s) lde_inv" and "keeps (l2vpn_binding_ctl p s) lde_inv"
proof -
  show "keeps (rt_dump p s) lde_inv" unfolding rt_dump_def
    by (rule keeps_foreach) (use assms in \<open>auto simp: rt_dump_entry_def Let_def split: fec_type.split option.split\<close>)
  show "keeps (l2vpn_pw_ctl p s) lde_inv" unfolding l2vpn_pw_ctl_def
    by (rule keeps_foreach, rule assms, rule keeps_bind, rule keeps_foreach) (auto intro!: keeps_bind)
  have "keeps (binding_entry p fn t) lde_inv" if "lde_inv t" for fn t
    unfolding binding_entry_def Let_def
    by (auto simp: that intro!: keeps_bind split: option.split)
  then show "keeps (l2vpn_binding_ctl p s) lde_inv" unfolding l2vpn_binding_ctl_def
    by (intro keeps_foreach) (use assms in auto)
qed

text \<open>The protocol engine numbers its neighbours from 1 upwards.\<close>

fun imsg_ok :: "ldpe_imsg \<Rightarrow> bool" where
  "imsg_ok (IMSG_NEIGHBOR_UP pid i v4 v6) = peerid_small pid"
| "imsg_ok _ = True"

lemma handle_imsg_keeps:
  assumes inv: "lde_inv s" and "imsg_ok m"
  shows "keeps (lde_handle_imsg m s) lde_inv"
proof (cases m)
  case (IMSG_LABEL_MAPPING_FULL pid)
  have "keeps (fec_snap pid s) lde_inv" if "nbr_live s pid"
    using fec_snap_good[OF good_refl[OF inv] that] inv by (auto simp: keeps_iff ensures_iff)
  then show ?thesis using IMSG_LABEL_MAPPING_FULL inv by (auto intro!: with_nbr_keeps)
next
  case (IMSG_LABEL_MAPPING pid m)
  then show ?thesis using inv by (auto intro!: with_nbr_keeps keeps_and_then[OF check_mapping_keeps] mldp_mapping_keeps)
next
  case (IMSG_LABEL_WITHDRAW pid m)
  have "keeps (lde_check_withdraw_wcard m pid s) lde_inv" if "nbr_live s pid"
    using good_keeps_inv[OF ensures_keeps[OF check_withdraw_wcard_ok[OF inv that]]] .
  then show ?thesis using IMSG_LABEL_WITHDRAW inv check_withdraw_keeps[OF inv]
    by (auto intro!: with_nbr_keeps keeps_and_then[OF _ mldp_withdraw_keeps])
next
  case (IMSG_ADDRESS_ADD pid x)
  then show ?thesis using inv nbr_deref_iff[OF inv] address_add_inv[OF inv, of _ x]
    by (auto intro!: with_nbr_keeps keeps_bind split: option.split)
next
  case (IMSG_ADDRESS_DEL pid x)
  then show ?thesis using inv nbr_deref_iff[OF inv] address_del_inv[OF inv, of _ x]
    by (auto intro!: with_nbr_keeps keeps_bind split: option.split)
next
  case (IMSG_NEIGHBOR_UP pid i v4 v6)
  then show ?thesis using assms nbr_new_ok[OF inv, of pid i v4 v6] by (auto simp: keeps_iff ensures_iff)
next
  case (IMSG_NEIGHBOR_DOWN pid)
  show ?thesis
  proof (cases "lde_nbr_find s pid")
    case None
    then show ?thesis using IMSG_NEIGHBOR_DOWN inv by (simp add: nbr_ptr_def lde_nbr_del_def)
  next
    case (Some n)
    have "keeps (lde_nbr_del (Ptr pid) s) lde_inv"
      by (rule keeps_mono[OF nbr_del_keeps[OF inv]]) (use nbr_find_live[OF Some] good_refl[OF inv] in auto)
    then show ?thesis using IMSG_NEIGHBOR_DOWN Some nbr_find_live[OF Some] by (simp add: nbr_ptr_def)
  qed
next
  case (IMSG_CTL_MLDP_LSP_REQ p op root ov)
  then show ?thesis using tree_up_keeps[OF inv] tree_down_keeps[OF inv]
    by (auto simp: keeps_iff split: mldp_op.splits)
qed (use inv check_request_keeps release_keeps recv_pw_status_keeps dumps_keep[OF inv] in
      \<open>auto intro!: with_nbr_keeps keeps_and_then[of _ lde_inv]\<close>)

subsection \<open>Reachable states\<close>

text \<open>
  The engine starts with empty tables and a configuration: pseudowires of known domains, none of
  them up.
\<close>

definition lde_start :: "nat list \<Rightarrow> (nat \<Rightarrow> l2vpn option) \<Rightarrow> (nat \<Rightarrow> l2vpn_pw option) \<Rightarrow> lde_state" where
  "lde_start ls vs ps = lde_init\<lparr>l2vpn_list := ls, l2vpns := vs, pws := ps\<rparr>"

inductive lde_step :: "lde_state \<Rightarrow> lde_state \<Rightarrow> bool" where
  ldpe: "list_all imsg_ok ms \<Longrightarrow> lde_dispatch_imsg ms s = Inr t \<Longrightarrow> lde_step s t"
| parent: "lde_handle_parent junk m s = Inr t \<Longrightarrow> lde_step s t"
| egress: "lde_change_egress_label a was_implicit s = Inr t \<Longrightarrow> lde_step s t"
| pw_init: "pws s p \<noteq> None \<Longrightarrow> l2vpn_pw_init p s = Inr t \<Longrightarrow> lde_step s t"
| pw_exit: "pws s p \<noteq> None \<Longrightarrow> l2vpn_pw_exit p s = Inr t \<Longrightarrow> lde_step s t"
| gc: "lde_step s (lde_gc_timer s)"

inductive lde_reach :: "lde_state \<Rightarrow> bool" where
  start: "config_ok (lde_start ls vs ps) \<Longrightarrow> lde_reach (lde_start ls vs ps)"
| step: "lde_reach s \<Longrightarrow> lde_step s t \<Longrightarrow> lde_reach t"

lemma start_inv: "config_ok (lde_start ls vs ps) \<Longrightarrow> lde_inv (lde_start ls vs ps)"
  by (simp add: lde_inv_defs lde_start_def lde_init_def fec_order.ordered_def lde_nbr_order.ordered_def
      label_nbr_order.ordered_def down_links_def up_links_def recv_links_def sent_links_def)

lemma route_fec_type: "ftype (route_fec junk a prefix prefixlen) \<noteq> FEC_TYPE_PWID"
  by (cases a) (simp_all add: route_fec_def set_ipv4_def set_ipv6_def)

lemma step_inv:
  assumes "lde_step s t" and "lde_inv s"
  shows "lde_inv t"
  using assms
proof (induction rule: lde_step.induct)
  case (ldpe ms s t)
  have "keeps (lde_dispatch_imsg ms s) lde_inv" unfolding lde_dispatch_imsg_def
    by (rule keeps_foreach) (use ldpe in \<open>auto simp: list_all_iff intro!: handle_imsg_keeps\<close>)
  then show ?case using ldpe by (simp add: keeps_iff)
next
  case (parent junk m s t)
  have "ensures (lde_handle_parent junk m s) (\<lambda>t. lde_inv t \<and> nbr_frame t = nbr_frame s)"
  proof (cases m)
    case (IMSG_NETWORK_ADD a prefix prefixlen nexthop priority)
    then show ?thesis using kernel_insert_ok[OF parent(2), of "route_fec junk a prefix prefixlen" None]
      by (simp add: route_fec_type)
  qed (simp add: kernel_remove_ok[OF parent(2)])
  then show ?case using parent(1) by simp
next
  case (egress a w s t)
  then show ?case using change_egress_ok[OF egress(2), of a w] by (auto simp: ensures_iff good_inv)
next
  case (pw_init s p t)
  then show ?case using pw_init_ok[OF pw_init(3,1)] by (auto simp: ensures_iff)
next
  case (pw_exit s p t)
  then show ?case using pw_exit_ok[OF pw_exit(3,1)] by (auto simp: ensures_iff)
next
  case (gc s)
  then show ?case by (rule gc_timer_ok(1))
qed

lemma reach_inv: "lde_reach s \<Longrightarrow> lde_inv s"
  by (induction rule: lde_reach.induct) (auto intro: start_inv step_inv)

end
