(* ===== verification/Lde_Labels.thy ===== *)
theory Lde_Labels
  imports Lde_Reach
begin

text \<open>
  Which label the engine uses towards a next hop.  Three loops over the next hops of an entry of the
  label information base change it: the one that installs the label of an accepted mapping, the one
  that takes it out of use on a withdraw or on a mapping with another label, and the one that does
  so when the neighbour leaves.  Each is shown to be the list function \<open>relabel\<close>, which touches the
  next hops whose address is one of the neighbour's and no other.
\<close>

subsection \<open>The next hops of an entry\<close>

definition nexthops_of :: "lde_state \<Rightarrow> fec \<Rightarrow> fec_nh list result" where
  "nexthops_of s f = and_then (fn_deref s (Ft f)) (\<lambda>fn. Inr (fn_nexthops fn))"

definition via :: "lde_nbr \<Rightarrow> fec_nh \<Rightarrow> bool" where
  "via n h \<longleftrightarrow> lde_address_find n (nh_af h) (nh_nexthop h) \<noteq> None"

definition relabel :: "lde_nbr \<Rightarrow> u32 \<Rightarrow> fec_nh list \<Rightarrow> fec_nh list" where
  "relabel n l = map (\<lambda>h. if via n h then h\<lparr>nh_remote_label := l\<rparr> else h)"

lemma relabel_relabel [simp]: "relabel n l (relabel n l' hs) = relabel n l hs"
  by (simp add: relabel_def via_def)

lemma relabel_Nil [simp]: "relabel n l [] = []"
  by (simp add: relabel_def)

lemma nexthops_of_Inr: "nexthops_of s f = Inr hs \<longleftrightarrow> (\<exists>fn. fn_deref s (Ft f) = Inr fn \<and> fn_nexthops fn = hs)"
  by (auto simp: nexthops_of_def and_then_Inr_iff)

lemma nexthops_of_ft: "ft t = ft s \<Longrightarrow> nexthops_of t f = nexthops_of s f"
  by (simp add: nexthops_of_def fn_deref_def)

lemma same_nexthops: "nexthops_of s f = Inr hs \<Longrightarrow> ft t = ft s \<Longrightarrow> nexthops_of t f = Inr hs"
  using nexthops_of_ft[of t s f] by simp

lemma find_map_fst:
  assumes "\<And>x. x \<in> set xs \<Longrightarrow> P (h x) = P x"
  shows "find P (map h xs) = map_option h (find P xs)"
  using assms by (induction xs) auto

lemma fn_deref_update:
  assumes "\<And>n. fn_fec (g n) = fn_fec n"
  shows "fn_deref (fn_update (Ft f') g s) (Ft f) = and_then (fn_deref s (Ft f)) (\<lambda>n. Inr (at_fec f' g n))"
proof -
  have "find (\<lambda>n. fn_fec n = f) (map (at_fec f' g) (inorder (ft s))) =
      map_option (at_fec f' g) (find (\<lambda>n. fn_fec n = f) (inorder (ft s)))"
    by (rule find_map_fst) (simp add: at_fec_def assms)
  then show ?thesis by (simp add: fn_deref_def fn_update_def split: option.split)
qed

lemma nexthops_of_other:
  assumes "f \<noteq> f'" and "\<And>n. fn_fec (g n) = fn_fec n"
  shows "nexthops_of (fn_update (Ft f') g s) f = nexthops_of s f"
proof -
  have "and_then (fn_deref s (Ft f)) (\<lambda>n. Inr (fn_nexthops (at_fec f' g n))) = nexthops_of s f"
    using assms(1) by (auto simp: nexthops_of_def fn_deref_def at_fec_def split: option.split dest!: find_Some_in)
  then show ?thesis by (simp add: nexthops_of_def fn_deref_update[OF assms(2)] and_then_assoc)
qed

lemma nexthops_of_keep:
  assumes "\<And>n. fn_fec (g n) = fn_fec n" and "\<And>n. fn_nexthops (g n) = fn_nexthops n"
  shows "nexthops_of (fn_update r g s) f = nexthops_of s f"
proof (cases r)
  case (Ft f')
  have "fn_nexthops (at_fec f' g n) = fn_nexthops n" for n by (simp add: at_fec_def assms(2))
  then show ?thesis unfolding Ft by (simp add: nexthops_of_def fn_deref_update[OF assms(1)] and_then_assoc)
qed (simp add: nexthops_of_def fn_deref_def)

lemma nexthops_of_set_label:
  assumes "nexthops_of s f = Inr hs"
  shows "nexthops_of (nh_set_label (Ft f) i l s) f = Inr (hs[i := (hs ! i)\<lparr>nh_remote_label := l\<rparr>])"
proof -
  obtain fn where fn: "fn_deref s (Ft f) = Inr fn" "fn_nexthops fn = hs" using assms by (auto simp: nexthops_of_Inr)
  have "fn_fec fn = f" using fn(1) by (auto simp: fn_deref_def split: option.splits dest: find_Some_in)
  then show ?thesis using fn
    by (simp add: nexthops_of_def nh_set_label_def fn_deref_update at_fec_def)
qed

subsection \<open>What does not touch the base\<close>

lemma keeps_foreach_same:
  assumes "\<And>x t. keeps (f x t) (\<lambda>u. g u = g t)"
  shows "keeps (foreach f xs s) (\<lambda>u. g u = g s)"
proof (rule keeps_foreach)
  fix x t assume "g t = g s"
  then show "keeps (f x t) (\<lambda>u. g u = g s)" using assms[of x t] by simp
qed simp

lemma sync_pws_ft: "keeps (l2vpn_sync_pws a x s) (\<lambda>t. (ft t, lde_nbrs t) = (ft s, lde_nbrs s))"
proof -
  have "keeps (pw_change_klabel fn h t) (\<lambda>u. (ft u, lde_nbrs u) = (ft t, lde_nbrs t))"
    "keeps (pw_delete_klabel fn h t) (\<lambda>u. (ft u, lde_nbrs u) = (ft t, lde_nbrs t))" for fn h t
    by (auto simp: pw_change_klabel_def pw_delete_klabel_def Let_def keeps_iff compose_parent_def pw_update_def
        split: option.splits if_splits)
  then have "keeps (sync_pw a x p t) (\<lambda>u. (ft u, lde_nbrs u) = (ft t, lde_nbrs t))" for p t
    unfolding sync_pw_def Let_def by (auto simp: keeps_iff split: option.splits if_splits)
  then show ?thesis unfolding l2vpn_sync_pws_def by (intro keeps_foreach_same keeps_bind)
qed

lemma klabel_ft:
  "keeps (lde_send_change_klabel r i s) (\<lambda>t. ft t = ft s \<and> lde_nbrs t = lde_nbrs s)"
  "keeps (lde_send_delete_klabel r i s) (\<lambda>t. ft t = ft s \<and> lde_nbrs t = lde_nbrs s)"
  using sync_pws_ft
  by (auto simp: lde_send_change_klabel_def lde_send_delete_klabel_def Let_def keeps_iff compose_parent_def
      pw_change_klabel_def pw_delete_klabel_def pw_update_def split: fec_type.splits option.splits if_splits)

lemma labelrelease_ft: "keeps (lde_send_labelrelease pid fno l s) (\<lambda>t. ft t = ft s \<and> lde_nbrs t = lde_nbrs s)"
  by (auto simp: lde_send_labelrelease_def keeps_iff compose_ldpe_def split: option.splits)

subsection \<open>The loops\<close>

lemma keeps_foreach_upt:
  assumes "\<And>i s. i < n \<Longrightarrow> Q i s \<Longrightarrow> keeps (body i s) (Q (Suc i))" and "Q 0 s"
  shows "keeps (foreach body [0..<n] s) (Q n)"
  using assms
proof (induction n)
  case (Suc n)
  have "keeps (foreach body [0..<n] s) (Q n)" using Suc by simp
  then have "keeps (and_then (foreach body [0..<n] s) (body n)) (Q (Suc n))"
    by (rule keeps_and_then) (simp add: Suc.prems(1))
  then show ?case by (auto simp: foreach_append keeps_iff)
qed simp

text \<open>A loop whose body sets the label of the next hops that are the neighbour's.\<close>

lemma relabel_loop:
  assumes body: "\<And>i t. keeps (body i t) (\<lambda>u. \<forall>hs. nexthops_of t f = Inr hs \<and> i < length hs \<longrightarrow>
      nexthops_of u f = Inr (if via n (hs ! i) then hs[i := (hs ! i)\<lparr>nh_remote_label := l\<rparr>] else hs))"
    and s: "nexthops_of s f = Inr hs"
  shows "keeps (foreach_nh (Ft f) body s) (\<lambda>t. nexthops_of t f = Inr (relabel n l hs))"
proof -
  define Q where "Q k t \<longleftrightarrow> nexthops_of t f = Inr (relabel n l (take k hs) @ drop k hs)" for k t
  obtain fn where fn: "fn_deref s (Ft f) = Inr fn" "fn_nexthops fn = hs" using s by (auto simp: nexthops_of_Inr)
  have "keeps (foreach body [0..<length hs] s) (Q (length hs))"
  proof (rule keeps_foreach_upt)
    fix i t assume i: "i < length hs" and "Q i t"
    then have t: "nexthops_of t f = Inr (relabel n l (take i hs) @ drop i hs)" by (simp add: Q_def)
    have len: "length (relabel n l (take i hs)) = i" using i by (simp add: relabel_def)
    have d: "drop i hs = hs ! i # drop (Suc i) hs" using i by (simp add: Cons_nth_drop_Suc)
    have "relabel n l (take (Suc i) hs) =
        relabel n l (take i hs) @ [if via n (hs ! i) then (hs ! i)\<lparr>nh_remote_label := l\<rparr> else hs ! i]"
      using i by (simp add: take_Suc_conv_app_nth relabel_def)
    then show "keeps (body i t) (Q (Suc i))"
      using t len i d by (intro keeps_mono[OF body]) (auto simp: Q_def nth_append list_update_append)
  qed (simp add: Q_def s)
  then have "keeps (foreach body [0..<length hs] s) (\<lambda>t. nexthops_of t f = Inr (relabel n l hs))"
    by (rule keeps_mono) (simp add: Q_def)
  then show ?thesis using fn by (simp add: foreach_nh_def)
qed

lemma set_label_body:
  assumes "keeps m (\<lambda>u. nexthops_of u f = Inr hs)"
  shows "keeps (and_then m (\<lambda>u. Inr (nh_set_label (Ft f) i l u)))
    (\<lambda>u. nexthops_of u f = Inr (hs[i := (hs ! i)\<lparr>nh_remote_label := l\<rparr>]))"
  by (rule keeps_and_then[OF assms]) (simp add: nexthops_of_set_label)

lemma delete_nexthops:
  assumes "nexthops_of s f = Inr hs"
  shows "keeps (lde_send_delete_klabel r i s) (\<lambda>u. nexthops_of u f = Inr hs)"
    and "keeps (lde_send_change_klabel r i s) (\<lambda>u. nexthops_of u f = Inr hs)"
  by (auto intro!: keeps_mono[OF klabel_ft(2)] keeps_mono[OF klabel_ft(1)] same_nexthops[OF assms])


lemma set_label_changes:
  assumes "nexthops_of t f = Inr hs"
  shows "keeps (lde_send_change_klabel (Ft f) i (nh_set_label (Ft f) i l t))
    (\<lambda>u. nexthops_of u f = Inr (hs[i := (hs ! i)\<lparr>nh_remote_label := l\<rparr>]))"
  using delete_nexthops(2)[OF nexthops_of_set_label[OF assms]] .

lemma nh_deref_Inr: "nh_deref fn i = Inr h \<longleftrightarrow> i < length (fn_nexthops fn) \<and> h = fn_nexthops fn ! i"
  by (auto simp: nh_deref_def)

text \<open>The bodies of the loops.\<close>

lemma loop_body:
  assumes "\<And>fn. fn_deref t (Ft f) = Inr fn \<Longrightarrow> i < length (fn_nexthops fn) \<Longrightarrow> fn_nexthops fn = hs \<Longrightarrow>
      keeps (b fn (hs ! i)) (\<lambda>u. nexthops_of u f = Inr (g hs))"
  shows "keeps (and_then (fn_deref t (Ft f)) (\<lambda>fn. and_then (nh_deref fn i) (b fn)))
    (\<lambda>u. nexthops_of t f = Inr hs \<and> i < length hs \<longrightarrow> nexthops_of u f = Inr (g hs))"
  using assms by (auto simp: keeps_iff nexthops_of_Inr nh_deref_Inr)

lemma keeps_all: "(\<And>x. keeps m (P x)) \<Longrightarrow> keeps m (\<lambda>u. \<forall>x. P x u)"
  by (auto simp: keeps_iff)

lemma drop_label:
  assumes "nexthops_of t f = Inr hs"
  shows "keeps (and_then (lde_send_delete_klabel (Ft f) i t) (\<lambda>s1. Inr (nh_set_label (Ft f) i NO_LABEL s1)))
    (\<lambda>u. nexthops_of u f = Inr (hs[i := (hs ! i)\<lparr>nh_remote_label := NO_LABEL\<rparr>]))"
  by (rule set_label_body[OF delete_nexthops(1)[OF assms]])

lemma uninstall_relabels:
  assumes "nexthops_of s f = Inr hs"
  shows "keeps (foreach_nh (Ft f) (uninstall_if_nexthop n (Ft f)) s)
    (\<lambda>t. nexthops_of t f = Inr (relabel n NO_LABEL hs))"
  by (rule relabel_loop[OF keeps_all assms], unfold uninstall_if_nexthop_def, rule loop_body)
     (use drop_label in \<open>auto simp: via_def nexthops_of_Inr\<close>)

lemma withdraw_relabels:
  assumes "nexthops_of s f = Inr hs" and "t \<noteq> FEC_TYPE_PWID"
  shows "keeps (foreach_nh (Ft f) (withdraw_nh n t (Ft f)) s) (\<lambda>u. nexthops_of u f = Inr (relabel n NO_LABEL hs))"
  by (rule relabel_loop[OF keeps_all assms(1)], unfold withdraw_nh_def, rule loop_body)
     (use drop_label assms(2) in \<open>auto simp: via_def nexthops_of_Inr\<close>)

lemma nbr_del_relabels:
  assumes "nexthops_of s f = Inr hs" and "ftype f \<noteq> FEC_TYPE_PWID"
  shows "keeps (foreach_nh (Ft f) (nbr_del_nh n f) s) (\<lambda>u. nexthops_of u f = Inr (relabel n NO_LABEL hs))"
  by (rule relabel_loop[OF keeps_all assms(1)], unfold nbr_del_nh_def, rule loop_body)
     (use drop_label assms(2) in \<open>auto simp: via_def nexthops_of_Inr\<close>)

lemma install_relabels:
  assumes "nexthops_of s f = Inr hs" and "t \<noteq> FEC_TYPE_PWID"
  shows "keeps (foreach_nh (Ft f) (install_mapping n t m (Ft f)) s)
    (\<lambda>u. nexthops_of u f = Inr (relabel n (m_label m) hs))"
  by (rule relabel_loop[OF keeps_all assms(1)], unfold install_mapping_def, rule loop_body)
     (use set_label_changes assms(2) in \<open>auto simp: via_def nexthops_of_Inr\<close>)


subsection \<open>Mappings and withdraws\<close>

lemma map_add_nexthops: "keeps (lde_map_add pid r sent m s) (\<lambda>u. nexthops_of u f = nexthops_of s f)"
  by (auto simp: lde_map_add_def Let_def keeps_iff nexthops_of_keep nexthops_of_ft[OF nbr_update_fields(1)] split: if_splits)

lemma set_map_nexthops: "nexthops_of (set_map pid g sent m s) f = nexthops_of s f"
  unfolding set_map_def by (rule nexthops_of_ft) simp

lemma accept_mapping_nexthops:
  assumes hs: "nexthops_of s f = Inr hs" and t: "t \<noteq> FEC_TYPE_PWID" and n: "nbr_deref s pid = Inr n"
  shows "keeps (accept_mapping m pid t f requested s) (\<lambda>u. nexthops_of u f = Inr (relabel n (m_label m) hs))"
  unfolding accept_mapping_def n and_then_simps Let_def
proof (rule keeps_and_then)
  let ?P = "\<lambda>u. \<exists>hs1. nexthops_of u f = Inr hs1 \<and> relabel n (m_label m) hs1 = relabel n (m_label m) hs"
  have "keeps (and_then (lde_send_labelrelease pid (Some (Ft f)) l s)
      (foreach_nh (Ft f) (uninstall_if_nexthop n (Ft f)))) ?P" for l
    by (rule keeps_and_then[OF labelrelease_ft], rule keeps_mono[OF uninstall_relabels])
       (auto intro: same_nexthops[OF hs])
  then show "keeps (case fec_find me_fec (recv_map n) f of None \<Rightarrow> Inr s
      | Some e \<Rightarrow> if m_label (me_map e) \<noteq> m_label m \<and> \<not> requested
          then and_then (lde_send_labelrelease pid (Some (Ft f)) (m_label (me_map e)) s)
                 (foreach_nh (Ft f) (uninstall_if_nexthop n (Ft f)))
          else Inr s) ?P"
    using hs by (auto split: option.split)
next
  fix s1
  assume "\<exists>hs1. nexthops_of s1 f = Inr hs1 \<and> relabel n (m_label m) hs1 = relabel n (m_label m) hs"
  then obtain hs1 where h: "nexthops_of s1 f = Inr hs1" "relabel n (m_label m) hs1 = relabel n (m_label m) hs" by blast
  show "keeps (and_then (foreach_nh (Ft f) (install_mapping n t m (Ft f)) s1) (\<lambda>s2.
      case fec_find me_fec (recv_map n) f of None \<Rightarrow> lde_map_add pid (Ft f) False m s2
      | Some e \<Rightarrow> Inr (set_map pid (me_fec e) False m s2))) (\<lambda>u. nexthops_of u f = Inr (relabel n (m_label m) hs))"
    by (rule keeps_and_then[OF install_relabels[OF h(1) t]])
       (use h(2) map_add_nexthops in \<open>auto simp: set_map_nexthops keeps_iff split: option.split\<close>)
qed

text \<open>The next hops of a FEC before the handler looks it up or adds it.\<close>

definition known_nexthops :: "lde_state \<Rightarrow> fec \<Rightarrow> fec_nh list" where
  "known_nexthops s f = (case fec_find fn_fec (ft s) f of None \<Rightarrow> [] | Some fn \<Rightarrow> fn_nexthops fn)"

lemma fec_get_nexthops:
  assumes inv: "lde_inv s" and get: "fec_get fec s = (f, s1)"
  shows "nexthops_of s1 f = Inr (known_nexthops s fec)"
proof (cases "fec_find fn_fec (ft s) fec")
  case None
  then have "s1 = fec_add fec s" "f = fec" using get by (auto simp: fec_get_def)
  moreover have "fec_node_new fec NO_LABEL \<in> fns (fec_add fec s)" by (simp add: fec_add_fns[OF None])
  then have "fn_deref (fec_add fec s) (Ft fec) = Inr (fec_node_new fec NO_LABEL)"
    using fn_deref_Ft_iff[OF fec_add_inv[OF inv None]] by (simp add: fec_node_new_def)
  ultimately show ?thesis using None by (simp add: known_nexthops_def nexthops_of_def fec_node_new_def)
next
  case (Some fn)
  then have "s1 = s" "f = fn_fec fn" using get by (auto simp: fec_get_def)
  moreover have "fn \<in> fns s" using fec_find_fns(1)[OF good_refl[OF inv] Some] .
  ultimately show ?thesis using Some fn_deref_Ft_iff[OF inv, of "fn_fec fn" fn]
    by (simp add: known_nexthops_def nexthops_of_def)
qed

lemma map2fec_type:
  "lde_map2fec m i = Inr fec \<Longrightarrow> m_type m \<noteq> MAP_TYPE_PWID \<Longrightarrow> ftype fec \<noteq> FEC_TYPE_PWID"
  by (auto simp: lde_map2fec_def set_ipv4_def set_ipv6_def fec_zero_def split: if_splits)

lemma nbr_deref_nbrs: "lde_nbrs t = lde_nbrs s \<Longrightarrow> nbr_deref t pid = nbr_deref s pid"
  by (simp add: nbr_deref_def)

lemma relabel_addrs: "addr_list n' = addr_list n \<Longrightarrow> relabel n' l hs = relabel n l hs"
  by (simp add: relabel_def via_def lde_address_find_def)

lemma nbr_deref_update:
  assumes "nbr_deref s pid = Inr n" and "\<And>n. peerid (g n) = peerid n"
  shows "nbr_deref (nbr_update pid g s) pid = Inr (g n)"
proof -
  have "find (\<lambda>n. peerid n = pid) (map (at_peer pid g) (inorder (lde_nbrs s))) =
      map_option (at_peer pid g) (find (\<lambda>n. peerid n = pid) (inorder (lde_nbrs s)))"
    by (rule find_map_fst) (simp add: at_peer_def assms(2))
  then show ?thesis using assms(1)
    by (auto simp: nbr_deref_def nbr_update_def at_peer_def split: option.splits dest: find_Some_in)
qed

lemma req_del_nbr:
  assumes "nbr_deref s pid = Inr n"
  obtains n' where "nbr_deref (lde_req_del pid q sent s) pid = Inr n'" and "addr_list n' = addr_list n"
  using that nbr_deref_update[OF assms] by (simp add: lde_req_del_def)

lemma check_mapping_nexthops:
  assumes inv: "lde_inv s" and n: "nbr_deref s pid = Inr n" and fec: "lde_map2fec m (nbr_id n) = Inr fec"
    and m: "m_type m \<noteq> MAP_TYPE_PWID" and get: "fec_get fec s = (f, s1)"
  shows "keeps (lde_check_mapping m pid s) (\<lambda>u. nexthops_of u f = Inr (relabel n (m_label m) (known_nexthops s fec)))"
proof -
  have ty: "ftype fec \<noteq> FEC_TYPE_PWID" by (rule map2fec_type[OF fec m])
  have n1: "nbr_deref s1 pid = Inr n" using fec_get_inv(2)[OF inv get] n nbr_deref_nbrs by metis
  note hs = fec_get_nexthops[OF inv get]
  have "keeps (accept_mapping m pid (ftype fec) f b (lde_req_del pid q True s1))
      (\<lambda>u. nexthops_of u f = Inr (relabel n (m_label m) (known_nexthops s fec)))" for b q
  proof -
    obtain n' where n': "nbr_deref (lde_req_del pid q True s1) pid = Inr n'" "addr_list n' = addr_list n"
      by (rule req_del_nbr[OF n1])
    have "nexthops_of (lde_req_del pid q True s1) f = Inr (known_nexthops s fec)"
      unfolding lde_req_del_def hs[symmetric] by (rule nexthops_of_ft) simp
    from accept_mapping_nexthops[OF this ty n'(1)] show ?thesis unfolding relabel_addrs[OF n'(2)] .
  qed
  moreover have "keeps (accept_mapping m pid (ftype fec) f b s1)
      (\<lambda>u. nexthops_of u f = Inr (relabel n (m_label m) (known_nexthops s fec)))" for b
    by (rule accept_mapping_nexthops[OF hs ty n1])
  ultimately show ?thesis by (simp add: lde_check_mapping_def Let_def n fec get m split: option.split)
qed


text \<open>A withdraw takes the label out of use and, when it names the recorded label, forgets it.\<close>

lemma map_del_nexthops: "keeps (lde_map_del pid me sent s) (\<lambda>u. nexthops_of u f = nexthops_of s f)"
proof -
  have "nexthops_of (fn_update r (\<lambda>n. if sent then n\<lparr>fn_upstream := x n\<rparr> else n\<lparr>fn_downstream := y n\<rparr>) t) f = nexthops_of t f"
    for r x y t by (rule nexthops_of_keep) simp_all
  moreover have "nexthops_of (nbr_update pid g s) f = nexthops_of s f" for g by (rule nexthops_of_ft) simp
  ultimately show ?thesis
    by (auto simp: lde_map_del_def lde_map_free_def Let_def keeps_iff split: fn_ref.splits if_splits)
qed

lemma check_withdraw_nexthops:
  assumes inv: "lde_inv s" and n: "nbr_deref s pid = Inr n" and fec: "lde_map2fec m (nbr_id n) = Inr fec"
    and m: "m_type m \<noteq> MAP_TYPE_PWID" and get: "fec_get fec s = (f, s1)"
  shows "keeps (lde_check_withdraw m pid s) (\<lambda>u. nexthops_of u f = Inr (relabel n NO_LABEL (known_nexthops s fec)))"
proof -
  let ?P = "\<lambda>u. nexthops_of u f = Inr (relabel n NO_LABEL (known_nexthops s fec))"
  have ty: "ftype fec \<noteq> FEC_TYPE_PWID" by (rule map2fec_type[OF fec m])
  have "keeps (forget_mapping m pid f u) ?P" if "?P u" for u
    using that map_del_nexthops by (auto simp: forget_mapping_def keeps_iff split: option.splits if_splits)
  moreover have "keeps (lde_send_labelrelease pid (Some (Ft f)) (m_label m) u) ?P" if "?P u" for u
    by (rule keeps_mono[OF labelrelease_ft]) (auto intro: same_nexthops[OF that])
  ultimately have "keeps (and_then (foreach_nh (Ft f) (withdraw_nh n (ftype fec) (Ft f)) s1) (\<lambda>s2.
      and_then (lde_send_labelrelease pid (Some (Ft f)) (m_label m) s2) (forget_mapping m pid f))) ?P"
    by (intro keeps_and_then[OF withdraw_relabels[OF fec_get_nexthops[OF inv get] ty]] keeps_and_then[of _ ?P])
  then show ?thesis by (simp add: lde_check_withdraw_def n fec get m)
qed

lemma withdraw_loop_nbrs: "keeps (foreach_nh r (withdraw_nh n t r) s) (\<lambda>u. lde_nbrs u = lde_nbrs s)"
proof -
  have "keeps (withdraw_nh n t r i u) (\<lambda>v. lde_nbrs v = lde_nbrs u)" for i u
    using klabel_ft(2)[of r i u] by (auto simp: withdraw_nh_def keeps_iff nh_set_label_def split: if_splits)
  then show ?thesis unfolding foreach_nh_def by (intro keeps_bind keeps_foreach_same)
qed

text \<open>What is left of a recorded mapping after a withdraw of the label \<open>l\<close>.\<close>

definition withdrawn :: "u32 \<Rightarrow> lde_map option \<Rightarrow> lde_map option" where
  "withdrawn l meo =
     (case meo of None \<Rightarrow> None | Some me \<Rightarrow> if l = NO_LABEL \<or> l = m_label (me_map me) then None else Some me)"

lemma fec_find_remove:
  assumes "fec_order.ordered key t" and "fec_find key t f = Some x"
  shows "fec_find key (fec_remove key (key x) t) f = None"
proof -
  have x: "x \<in> set (inorder t)" "fec_key (key x) = fec_key f" using fec_find_Some[OF assms] by auto
  show ?thesis
    unfolding fec_find_None[OF fec_remove_ordered[OF assms(1) x(1)]] set_fec_remove[OF assms(1) x(1)]
  proof (intro ballI notI)
    fix y assume "y \<in> set (inorder t) - {x}" and "fec_key (key y) = fec_key f"
    then show False using fec_order.ordered_key_inj[OF assms(1), of y x] x by simp
  qed
qed

lemma nbr_deref_in: "nbr_deref s pid = Inr n \<Longrightarrow> n \<in> nbs s \<and> peerid n = pid"
  by (auto simp: nbr_deref_def split: option.splits dest: find_Some_in)

lemma forget_mapping_find:
  assumes n: "nbr_deref s pid = Inr n" and o: "fec_order.ordered me_fec (recv_map n)"
  shows "keeps (forget_mapping m pid f s) (\<lambda>t. \<exists>n' \<in> nbs t. peerid n' = pid \<and>
    fec_find me_fec (recv_map n') f = withdrawn (m_label m) (fec_find me_fec (recv_map n) f))"
proof -
  have i: "n \<in> nbs s" "peerid n = pid" using nbr_deref_in[OF n] by auto
  have "\<exists>n' \<in> nbs t. peerid n' = pid \<and> fec_find me_fec (recv_map n') f = None"
    if "fec_find me_fec (recv_map n) f = Some me" "lde_map_del pid me False s = Inr t" for me t
    unfolding map_del_nbrs[OF that(2)]
    by (rule nbr_update_find[OF i]) (simp add: fec_find_remove[OF o that(1)] i(2))
  then show ?thesis using n i by (auto simp: forget_mapping_def keeps_iff withdrawn_def split: option.splits if_splits)
qed

lemma check_withdraw_find:
  assumes inv: "lde_inv s" and n: "nbr_deref s pid = Inr n" and fec: "lde_map2fec m (nbr_id n) = Inr fec"
    and m: "m_type m \<noteq> MAP_TYPE_PWID" and get: "fec_get fec s = (f, s1)"
  shows "keeps (lde_check_withdraw m pid s) (\<lambda>t. \<exists>n' \<in> nbs t. peerid n' = pid \<and>
    fec_find me_fec (recv_map n') f = withdrawn (m_label m) (fec_find me_fec (recv_map n) f))"
proof -
  have o: "fec_order.ordered me_fec (recv_map n)"
    using inv nbr_deref_in[OF n] by (simp add: lde_inv_defs nbr_trees_ok_def)
  have "keeps (and_then (foreach_nh (Ft f) (withdraw_nh n (ftype fec) (Ft f)) s1) (\<lambda>s2.
      and_then (lde_send_labelrelease pid (Some (Ft f)) (m_label m) s2) (forget_mapping m pid f)))
      (\<lambda>t. \<exists>n' \<in> nbs t. peerid n' = pid \<and>
        fec_find me_fec (recv_map n') f = withdrawn (m_label m) (fec_find me_fec (recv_map n) f))"
  proof (rule keeps_and_then[OF withdraw_loop_nbrs], rule keeps_and_then[OF labelrelease_ft])
    fix s2 s3 :: lde_state assume "lde_nbrs s2 = lde_nbrs s1" and "ft s3 = ft s2 \<and> lde_nbrs s3 = lde_nbrs s2"
    then have "lde_nbrs s3 = lde_nbrs s" using fec_get_inv(2)[OF inv get] by simp
    then have "nbr_deref s3 pid = Inr n" using n nbr_deref_nbrs[of s3 s pid] by simp
    then show "keeps (forget_mapping m pid f s3) (\<lambda>t. \<exists>n' \<in> nbs t. peerid n' = pid \<and>
        fec_find me_fec (recv_map n') f = withdrawn (m_label m) (fec_find me_fec (recv_map n) f))"
      by (rule forget_mapping_find[OF _ o])
  qed
  then show ?thesis by (simp add: lde_check_withdraw_def n fec get m)
qed

subsection \<open>Lookups in states of the invariant\<close>

lemma nbr_find_self: "lde_inv s \<Longrightarrow> n \<in> nbs s \<Longrightarrow> lde_nbr_find s (peerid n) = Some n"
  unfolding lde_nbr_find_def by (rule lde_nbr_order.find_self) (simp_all add: lde_inv_defs)

lemma nbr_find_deref: "lde_inv s \<Longrightarrow> lde_nbr_find s pid = Some n \<Longrightarrow> nbr_deref s pid = Inr n"
  using lde_nbr_find_Some[of s pid n] by (simp add: nbr_deref_iff)

text \<open>An entry found under any FEC the comparison function takes for the same.\<close>

lemma fec_find_entry:
  assumes "lde_inv s" and "fn \<in> fns s" and "fec_key (fn_fec fn) = fec_key fec"
  shows "fec_find fn_fec (ft s) fec = Some fn"
proof -
  have o: "fec_order.ordered fn_fec (ft s)" using assms(1) by (simp add: lde_inv_defs)
  show ?thesis using fec_find_key[OF o assms(3)[symmetric]] fec_find_self[OF o assms(2)] by simp
qed

lemma entry_nexthops:
  assumes inv: "lde_inv s" and "nexthops_of s f = Inr hs" and "fec_key f = fec_key fec"
  obtains fn where "fec_find fn_fec (ft s) fec = Some fn" and "fn_fec fn = f" and "fn_nexthops fn = hs"
proof -
  obtain fn where fn: "fn \<in> fns s" "fn_fec fn = f" "fn_nexthops fn = hs"
    using assms(2) fn_deref_Ft_iff[OF inv] by (auto simp: nexthops_of_Inr)
  then show ?thesis using that fec_find_entry[OF inv fn(1), of fec] assms(3) by simp
qed

text \<open>The entry of a recorded mapping lists the neighbour.\<close>

lemma recorded_downstream:
  assumes inv: "lde_inv s" and fn: "fn \<in> fns s" and n: "n \<in> nbs s"
    and me: "fec_find me_fec (recv_map n) (fn_fec fn) = Some me"
  shows "peerid n \<in> set (fn_downstream fn)"
proof -
  note g = good_refl[OF inv]
  have o: "fec_order.ordered me_fec (recv_map n)" "fec_order.ordered fn_fec (ft s)"
    using inv n by (simp_all add: lde_inv_defs nbr_trees_ok_def)
  have m: "me \<in> maps (recv_map n)" "fec_key (me_fec me) = fec_key (fn_fec fn)" using fec_find_Some[OF o(1) me] by auto
  obtain x where "x \<in> fns s" "fn_fec x = me_fec me" by (rule recv_owner[OF g n m(1)])
  with m fn have "fn_fec fn = me_fec me" using fec_order.ordered_key_inj[OF o(2), of x fn] by simp
  with m(1) show ?thesis using down_iff[OF g n fn] by simp
qed

subsection \<open>The end of a session\<close>

lemma nbr_del_other:
  assumes "g \<noteq> f"
  shows "keeps (foreach_nh (Ft g) (nbr_del_nh n g) s) (\<lambda>u. nexthops_of u f = nexthops_of s f)"
proof -
  have "nexthops_of (nh_set_label (Ft g) i l t) f = nexthops_of t f" for i l t
    unfolding nh_set_label_def using assms by (intro nexthops_of_other) auto
  moreover have "keeps (l2vpn_pw_reset p t) (\<lambda>u. nexthops_of u f = nexthops_of t f)" for p t
    by (auto simp: l2vpn_pw_reset_def keeps_iff pw_update_def intro!: nexthops_of_ft)
  moreover have "keeps (lde_send_delete_klabel r i t) (\<lambda>u. nexthops_of u f = nexthops_of t f)" for r i t
    by (rule keeps_mono[OF klabel_ft(2)]) (auto intro: nexthops_of_ft)
  ultimately have "keeps (nbr_del_nh n g i t) (\<lambda>u. nexthops_of u f = nexthops_of s f)"
    if "nexthops_of t f = nexthops_of s f" for i t
    using that by (auto simp: nbr_del_nh_def keeps_iff split: option.splits if_splits)
  then show ?thesis unfolding foreach_nh_def by (intro keeps_bind keeps_foreach) auto
qed

lemma nbr_del_loop:
  assumes "nexthops_of s f = Inr hs" and "ftype f \<noteq> FEC_TYPE_PWID"
  shows "keeps (foreach (\<lambda>g. foreach_nh (Ft g) (nbr_del_nh n g)) fs s)
    (\<lambda>u. nexthops_of u f = Inr (if f \<in> set fs then relabel n NO_LABEL hs else hs))"
  using assms(1)
proof (induction fs arbitrary: s hs)
  case (Cons g fs)
  let ?h = "if g = f then relabel n NO_LABEL hs else hs"
  have "keeps (foreach_nh (Ft g) (nbr_del_nh n g) s) (\<lambda>u. nexthops_of u f = Inr ?h)"
    using nbr_del_relabels[OF Cons.prems assms(2), of n] nbr_del_other[of g f n s] Cons.prems by auto
  then show ?case unfolding foreach.simps
    by (rule keeps_and_then) (rule keeps_mono[OF Cons.IH], auto)
qed simp

lemma nbr_del_nexthops:
  assumes n: "nbr_deref s pid = Inr n" and hs: "nexthops_of s f = Inr hs"
    and f: "f \<in> fn_fec ` fns s" "ftype f \<noteq> FEC_TYPE_PWID"
  shows "keeps (lde_nbr_del (Ptr pid) s) (\<lambda>u. nexthops_of u f = Inr (relabel n NO_LABEL hs))"
proof -
  let ?P = "\<lambda>u. nexthops_of u f = Inr (relabel n NO_LABEL hs)"
  have d: "keeps (foreach (\<lambda>me. lde_map_del pid me b) mes u) ?P" if "?P u" for b mes u
    by (rule keeps_foreach) (use that map_del_nexthops in \<open>auto simp: keeps_iff\<close>)
  have e: "?P (t\<lparr>lde_nbrs := x\<rparr>)" if "?P t" for t x using that by (rule same_nexthops) simp
  have a: "?P (lde_address_list_free pid t)" if "?P t" for t
    using that by (rule same_nexthops) (simp add: lde_address_list_free_def)
  have "keeps (foreach (\<lambda>g. foreach_nh (Ft g) (nbr_del_nh n g)) (map fn_fec (rb_foreach (ft s))) s) ?P"
    using nbr_del_loop[OF hs f(2), of n "map fn_fec (rb_foreach (ft s))"] f(1) by (simp add: rb_foreach_inorder)
  then show ?thesis unfolding lde_nbr_del_def Let_def n and_then_simps ptr.case
  proof (rule keeps_and_then)
    fix s1 assume "?P s1"
    show "keeps (and_then (nbr_deref (lde_address_list_free pid s1) pid) (\<lambda>ln.
        and_then (foreach (\<lambda>me. lde_map_del pid me False) (fec_clear me_fec (recv_map ln)) (lde_address_list_free pid s1)) (\<lambda>s3.
        and_then (foreach (\<lambda>me. lde_map_del pid me True) (fec_clear me_fec (sent_map ln)) s3) (\<lambda>s4.
          Inr (s4\<lparr>lde_nbrs := rb_remove (\<lambda>n. peerid n = pid) (lde_nbrs s4)\<rparr>))))) ?P"
      by (rule keeps_bind, rule keeps_and_then[OF d[OF a[OF \<open>?P s1\<close>]]], erule keeps_and_then[OF d]) (simp add: e)
  qed
qed

end
