(* ===== verification/Lde_Example.thy ===== *)
theory Lde_Example
  imports Lde_Labels
begin

text \<open>
  A run of the label decision engine, evaluated: a neighbour comes up, announces an address and maps
  a label to the tree of the root 7.7.7.7; then the kernel reports the route 8.8.8.8/32 through that
  neighbour.  The state it ends in is the instance at which the properties are applied.
\<close>

definition demo_fec :: fec where
  "demo_fec = set_ipv4 (in_addr4 7 7 7 7) 32 fec_zero"

definition demo_map :: map_tlv where
  "demo_map = (lde_fec2map demo_fec)\<lparr>m_label := 100\<rparr>"

definition demo_msgs :: "ldpe_imsg list" where
  "demo_msgs = [IMSG_NEIGHBOR_UP 1 (in_addr4 9 9 9 9) True False,
     IMSG_ADDRESS_ADD 1 (AF_INET, v4_addr (in_addr4 10 0 0 2)), IMSG_LABEL_MAPPING 1 demo_map]"

definition demo_route :: parent_imsg where
  "demo_route = IMSG_NETWORK_ADD AF_INET (v4_addr (in_addr4 8 8 8 8)) 32 (v4_addr (in_addr4 10 0 0 2)) 0"

definition route_demo_fec :: fec where
  "route_demo_fec = set_ipv4 (in_addr4 8 8 8 8) 32 fec_zero"

definition demo_fn :: fec_node where
  "demo_fn = (fec_node_new demo_fec NO_LABEL)\<lparr>fn_downstream := [1]\<rparr>"

definition demo_nh :: fec_nh where
  "demo_nh = \<lparr>nh_af = AF_INET, nh_nexthop = v4_addr (in_addr4 10 0 0 2), nh_remote_label = NO_LABEL, nh_priority = 0\<rparr>"

definition route_fn :: fec_node where
  "route_fn = (fec_node_new route_demo_fec NO_LABEL)\<lparr>fn_nexthops := [demo_nh]\<rparr>"

definition demo_me :: lde_map where
  "demo_me = \<lparr>me_fec = demo_fec, me_nexthop = 1, me_map = demo_map, me_owner = Ft demo_fec\<rparr>"

definition demo_nbr :: lde_nbr where
  "demo_nbr = \<lparr>peerid = 1, nbr_id = in_addr4 9 9 9 9, v4_enabled = True, v6_enabled = False,
     recv_req = RNil, sent_req = RNil, recv_map = RNode RB_BLACK RNil demo_me RNil,
     sent_map = RNil, sent_wdraw = RNil, addr_list = [(AF_INET, v4_addr (in_addr4 10 0 0 2))]\<rparr>"

definition demo_lb :: label_nbr where
  "demo_lb = \<lparr>lb_label = 100, lb_local_label = 16, lb_peerid = 1, lb_fec = demo_fec, lb_type = STREAM_TYPE_DOWN\<rparr>"

definition demo_up :: lde_state where
  "demo_up = (case lde_dispatch_imsg demo_msgs lde_init of Inl e \<Rightarrow> lde_init | Inr s \<Rightarrow> s)"

definition demo_state :: lde_state where
  "demo_state = (case lde_handle_parent fec_zero demo_route demo_up of Inl e \<Rightarrow> lde_init | Inr s \<Rightarrow> s)"

lemma demo_run: "lde_dispatch_imsg demo_msgs lde_init = Inr demo_up"
    "lde_handle_parent fec_zero demo_route demo_up = Inr demo_state"
  and demo_tables [simp]: "ft demo_state = RNode RB_BLACK RNil demo_fn (RNode RB_RED RNil route_fn RNil)"
    "lde_nbrs demo_state = RNode RB_BLACK RNil demo_nbr RNil"
    "label_nbrs demo_state = RNode RB_BLACK RNil demo_lb RNil"
    "leaf demo_state = 0" "label_ctr demo_state = 16"
proof -
  have "case lde_dispatch_imsg demo_msgs lde_init of Inl e \<Rightarrow> False
    | Inr s0 \<Rightarrow> (case lde_handle_parent fec_zero demo_route s0 of Inl e \<Rightarrow> False
        | Inr s \<Rightarrow> ft s = RNode RB_BLACK RNil demo_fn (RNode RB_RED RNil route_fn RNil) \<and>
            lde_nbrs s = RNode RB_BLACK RNil demo_nbr RNil \<and>
            label_nbrs s = RNode RB_BLACK RNil demo_lb RNil \<and> leaf s = 0 \<and> label_ctr s = 16)"
    by code_simp
  then show "lde_dispatch_imsg demo_msgs lde_init = Inr demo_up"
    "lde_handle_parent fec_zero demo_route demo_up = Inr demo_state"
    "ft demo_state = RNode RB_BLACK RNil demo_fn (RNode RB_RED RNil route_fn RNil)"
    "lde_nbrs demo_state = RNode RB_BLACK RNil demo_nbr RNil"
    "label_nbrs demo_state = RNode RB_BLACK RNil demo_lb RNil"
    "leaf demo_state = 0" "label_ctr demo_state = 16"
    by (simp_all add: demo_up_def demo_state_def split: sum.splits)
qed

lemma init_reach: "lde_reach lde_init"
proof -
  have "lde_start [] (\<lambda>_. None) (\<lambda>_. None) = lde_init" by (simp add: lde_start_def lde_init_def)
  moreover have "config_ok lde_init" by (simp add: config_ok_def lde_init_def)
  ultimately show ?thesis using lde_reach.start[of "[]" "\<lambda>_. None" "\<lambda>_. None"] by simp
qed

lemma demo_reach: "lde_reach demo_state"
proof -
  have "lde_reach demo_up"
    by (rule lde_reach.step[OF init_reach lde_step.ldpe[OF _ demo_run(1)]]) (simp add: demo_msgs_def peerid_small_def)
  then show ?thesis by (rule lde_reach.step) (rule lde_step.parent[OF demo_run(2)])
qed

lemma demo_find [simp]: "lde_nbr_find demo_state 1 = Some demo_nbr"
  by (simp add: lde_nbr_find_def demo_nbr_def lde_nbr_compare_def)

lemma demo_fields [simp]:
  "peerid demo_nbr = 1" "nbr_id demo_nbr = in_addr4 9 9 9 9" "recv_map demo_nbr = RNode RB_BLACK RNil demo_me RNil"
  "sent_map demo_nbr = RNil" "recv_req demo_nbr = RNil" "v4_enabled demo_nbr" "me_fec demo_me = demo_fec"
  "me_map demo_me = demo_map" "fn_fec demo_fn = demo_fec" "fn_fec route_fn = route_demo_fec"
  "fn_nexthops demo_fn = []" "fn_nexthops route_fn = [demo_nh]" "fn_downstream demo_fn = [1]"
  "fn_downstream route_fn = []" "fn_upstream demo_fn = []" "fn_upstream route_fn = []"
  by (simp_all add: demo_nbr_def demo_me_def demo_fn_def route_fn_def fec_node_new_def)

end
