(* ===== verification/Lde_Correct.thy ===== *)
theory Lde_Correct
  imports Lde_Example
begin

text \<open>
  What the label decision engine guarantees: in every state it can reach, and for every message it
  handles in such a state.
\<close>

subsection \<open>Reachable states\<close>

text \<open>
  C2: in every reachable state the two structures a mapping hangs in agree: a neighbour is in the
  downstream list of an entry of the label information base exactly when its own tree has a received
  mapping for the FEC of the entry, and in the upstream list exactly when it has a sent mapping that
  belongs to that entry.
\<close>

theorem reachable_mappings_linked:
  assumes "lde_reach s"
  shows "((\<exists>fn \<in> fns s. fn_fec fn = f \<and> pid \<in> set (fn_downstream fn)) \<longleftrightarrow>
          (\<exists>n \<in> nbs s. peerid n = pid \<and> f \<in> me_fec ` maps (recv_map n))) \<and>
         ((\<exists>fn \<in> fns s. fn_fec fn = f \<and> pid \<in> set (fn_upstream fn)) \<longleftrightarrow>
          (\<exists>n \<in> nbs s. peerid n = pid \<and>
             f \<in> me_fec ` {me \<in> maps (sent_map n). me_owner me = Ft (me_fec me)}))"
proof -
  have l: "down_links s = recv_links s" "up_links s = sent_links s"
    using reach_inv[OF assms] by (simp_all add: lde_inv_defs)
  have d: "(\<exists>fn \<in> fns s. fn_fec fn = f \<and> pid \<in> set (fn_downstream fn)) \<longleftrightarrow> (f, pid) \<in> down_links s"
    "(\<exists>fn \<in> fns s. fn_fec fn = f \<and> pid \<in> set (fn_upstream fn)) \<longleftrightarrow> (f, pid) \<in> up_links s"
    by (auto simp: down_links_def up_links_def)
  show ?thesis unfolding d l by (auto simp: recv_links_def sent_links_def)
qed

theorem reachable_mappings_linked_witness:
  "(\<exists>fn \<in> fns demo_state. fn_fec fn = demo_fec \<and> 1 \<in> set (fn_downstream fn)) \<and>
   (\<exists>n \<in> nbs demo_state. peerid n = 1 \<and> demo_fec \<in> me_fec ` maps (recv_map n))"
  using reachable_mappings_linked[OF demo_reach, of demo_fec 1] by simp

text \<open>
  C22: in every reachable state each lookup function finds what the table holds: entries of the label
  information base by their FEC, neighbours by their peer id, the received and sent mappings of a
  neighbour by their FEC and entries of the label table by FEC and peer id.
\<close>

theorem reachable_lookups:
  assumes "lde_reach s"
  shows "(\<forall>fn \<in> fns s. fec_find fn_fec (ft s) (fn_fec fn) = Some fn) \<and>
    (\<forall>n \<in> nbs s. lde_nbr_find s (peerid n) = Some n \<and>
       (\<forall>me \<in> maps (recv_map n). fec_find me_fec (recv_map n) (me_fec me) = Some me) \<and>
       (\<forall>me \<in> maps (sent_map n). fec_find me_fec (sent_map n) (me_fec me) = Some me)) \<and>
    (\<forall>lb \<in> set (inorder (label_nbrs s)). label_nbr_find s (lb_peerid lb) (lb_fec lb) = Some lb)"
proof -
  have inv: "lde_inv s" by (rule reach_inv[OF assms])
  then have o: "fec_order.ordered fn_fec (ft s)" "label_nbr_order.ordered lb_key (label_nbrs s)"
    "\<forall>n \<in> nbs s. fec_order.ordered me_fec (recv_map n) \<and> fec_order.ordered me_fec (sent_map n)"
    by (auto simp: lde_inv_defs nbr_trees_ok_def)
  have "label_nbr_find s (lb_peerid lb) (lb_fec lb) = Some lb" if "lb \<in> set (inorder (label_nbrs s))" for lb
    using label_nbr_order.find_self[OF o(2) that] by (simp add: label_nbr_find_def lb_key_def)
  then show ?thesis using o nbr_find_self[OF inv] by (auto simp: fec_find_self)
qed

theorem reachable_lookups_witness:
  "fec_find fn_fec (ft demo_state) route_demo_fec = Some route_fn \<and> lde_nbr_find demo_state 1 = Some demo_nbr"
  using reachable_lookups[OF demo_reach] by (simp add: ball_Un)

text \<open>
  C25: no entry of the label information base of a reachable state has a local label, so the
  advertisement of all labels to a neighbour whose session came up is the end marker alone.
\<close>

theorem reachable_no_local_label:
  assumes "lde_reach s" and "lde_nbr_find s pid = Some n"
  shows "(\<forall>fn \<in> fns s. fn_local_label fn = NO_LABEL) \<and>
    lde_handle_imsg (IMSG_LABEL_MAPPING_FULL pid) s = Inr (compose_ldpe (IMSG_MAPPING_ADD_END pid) s)"
proof -
  have inv: "lde_inv s" by (rule reach_inv[OF assms(1)])
  have "ensures (fec_snap pid s) (\<lambda>t. t = compose_ldpe (IMSG_MAPPING_ADD_END pid) s)"
    using fec_snap_good[OF good_refl[OF inv]] nbr_find_live[OF assms(2)] by blast
  then show ?thesis using inv assms(2) nbr_find_live[OF assms(2)]
    by (auto simp: lde_inv_defs with_nbr_def ensures_iff)
qed

theorem reachable_no_local_label_witness:
  "lde_handle_imsg (IMSG_LABEL_MAPPING_FULL 1) demo_state = Inr (compose_ldpe (IMSG_MAPPING_ADD_END 1) demo_state)"
  using reachable_no_local_label[OF demo_reach demo_find] by simp

text \<open>
  C26: in every reachable state no pseudowire is up, and the engine has never told the parent process
  to install or remove one.
\<close>

theorem reachable_no_pseudowire:
  assumes "lde_reach s"
  shows "(\<forall>p pw. pws s p = Some pw \<longrightarrow> \<not> has_flag (pw_flags pw) F_PW_STATUS_UP) \<and>
    (\<forall>m \<in> set (to_parent s). \<not> pw_msg m)"
  using reach_inv[OF assms] by (simp add: lde_inv_defs config_ok_def)

text \<open>A domain with one pseudowire.\<close>

definition pw_demo :: l2vpn_pw where
  "pw_demo = \<lparr>pw_l2vpn = 0, pw_lsr_id = in_addr4 9 9 9 9, pw_af = AF_INET, pw_addr = v4_addr (in_addr4 9 9 9 9),
     pw_pwid = 5, pw_ifname = ''mpw0'', pw_ifindex = 3, pw_remote_group = 0, pw_remote_mtu = 0,
     pw_remote_status = 0, pw_flags = F_PW_STATUSTLV_CONF\<rparr>"

definition pw_start :: lde_state where
  "pw_start = lde_start [0] [0 \<mapsto> \<lparr>l2_name = ''v'', l2_pw_type = 5, l2_mtu = 1500, l2_pw_list = [0]\<rparr>] [0 \<mapsto> pw_demo]"

theorem reachable_no_pseudowire_witness:
  "pws pw_start 0 = Some pw_demo \<and> \<not> has_flag (pw_flags pw_demo) F_PW_STATUS_UP"
proof -
  have "config_ok pw_start"
    by (auto simp: config_ok_def pw_start_def lde_start_def pw_demo_def has_flag_def split: if_splits)
  then have "lde_reach pw_start" unfolding pw_start_def by (rule lde_reach.start)
  from reachable_no_pseudowire[OF this] show ?thesis by (simp add: pw_start_def lde_start_def)
qed


subsection \<open>Label messages\<close>



definition route_demo_map :: map_tlv where
  "route_demo_map = (lde_fec2map route_demo_fec)\<lparr>m_label := 200\<rparr>"

lemma route_demo_fec2: "lde_map2fec route_demo_map i = Inr route_demo_fec"
  by (simp add: lde_map2fec_def route_demo_map_def lde_fec2map_def route_demo_fec_def set_ipv4_def fec_zero_def
      ipv4_prefix_def ipv4_prefixlen_def v4_addr_def put_low8_def)

lemma route_demo_nexthops: "known_nexthops demo_state route_demo_fec = [demo_nh]"
  using fec_find_entry[OF reach_inv[OF demo_reach], of route_fn route_demo_fec] by (simp add: known_nexthops_def)



text \<open>
  C6: a withdraw for an address prefix from a known neighbour is always processed without a fault.
  Afterwards no next hop of the entry that belongs to the neighbour uses a label, the others are as
  before, and the recorded mapping is gone exactly when the withdraw names no label or the recorded
  one.
\<close>

theorem withdraw_honoured:
  assumes "lde_reach s" and "lde_nbr_find s pid = Some n" and "lde_map2fec m (nbr_id n) = Inr fec"
    and "m_type m \<noteq> MAP_TYPE_PWID"
  shows "\<exists>t n' fn. lde_check_withdraw m pid s = Inr t \<and>
    lde_nbr_find t pid = Some n' \<and>
    fec_find me_fec (recv_map n') fec = withdrawn (m_label m) (fec_find me_fec (recv_map n) fec) \<and>
    fec_find fn_fec (ft t) fec = Some fn \<and> fn_nexthops fn = relabel n NO_LABEL (known_nexthops s fec)"
proof -
  have inv: "lde_inv s" by (rule reach_inv[OF assms(1)])
  note d = nbr_find_deref[OF inv assms(2)]
  obtain f s1 where get: "fec_get fec s = (f, s1)" by (cases "fec_get fec s")
  have k: "fec_key f = fec_key fec" by (rule fec_get_inv(4)[OF inv get])
  obtain t where t: "lde_check_withdraw m pid s = Inr t" "lde_inv t"
    using check_withdraw_ok[OF inv _ map2fec_af[OF assms(3)]] nbr_find_live[OF assms(2)] by (auto simp: ensures_iff)
  obtain n' where n': "n' \<in> nbs t" "peerid n' = pid"
    "fec_find me_fec (recv_map n') f = withdrawn (m_label m) (fec_find me_fec (recv_map n) f)"
    using check_withdraw_find[OF inv d assms(3,4) get] t(1) by auto
  have o: "fec_order.ordered me_fec (recv_map x)" if "lde_inv u" "x \<in> nbs u" for x u
    using that by (simp add: lde_inv_defs nbr_trees_ok_def)
  have "fec_find me_fec (recv_map n') fec = withdrawn (m_label m) (fec_find me_fec (recv_map n) fec)"
    using n'(3) fec_find_key[OF o[OF t(2) n'(1)] k] fec_find_key[OF o[OF inv] k, of n] nbr_deref_in[OF d] by simp
  moreover have "nexthops_of t f = Inr (relabel n NO_LABEL (known_nexthops s fec))"
    using check_withdraw_nexthops[OF inv d assms(3,4) get] t(1) by simp
  ultimately show ?thesis using entry_nexthops[OF t(2) _ k] t(1) nbr_find_self[OF t(2) n'(1)] n'(2) by metis
qed

lemma demo_fec2: "lde_map2fec demo_map i = Inr demo_fec"
  by (simp add: lde_map2fec_def demo_map_def lde_fec2map_def demo_fec_def set_ipv4_def fec_zero_def
      ipv4_prefix_def ipv4_prefixlen_def v4_addr_def put_low8_def)

lemma demo_mapped: "fec_find me_fec (recv_map demo_nbr) demo_fec = Some demo_me"
  by (simp add: fec_find_def fec_compare_def demo_fec_def set_ipv4_def)

theorem withdraw_honoured_witness:
  "\<exists>t n'. lde_check_withdraw demo_map 1 demo_state = Inr t \<and> lde_nbr_find t 1 = Some n' \<and>
    fec_find me_fec (recv_map n') demo_fec = None"
proof -
  have "m_type demo_map \<noteq> MAP_TYPE_PWID" by (simp add: demo_map_def lde_fec2map_def demo_fec_def set_ipv4_def)
  from withdraw_honoured[OF demo_reach demo_find demo_fec2 this] show ?thesis
    unfolding demo_mapped withdrawn_def by auto
qed

lemma request_reply:
  assumes n: "nbr_deref s pid = Inr n" and o: "fec_order.ordered lre_fec (recv_req n)"
    and fn: "fn_deref s (Ft f) = Inr fn" "fn_fec fn = f" "ftype f = FEC_TYPE_IPV4" "fn_local_label fn = NO_LABEL"
    and new: "fec_find lre_fec (recv_req n) f = None"
  shows "\<exists>t. lde_send_labelmapping pid (Ft f) True (lde_req_add pid f False i s) = Inr t \<and>
    to_ldpe t = to_ldpe s @ (if v4_enabled n then
      [IMSG_MAPPING_ADD pid ((lde_fec2map f)\<lparr>m_label := NO_LABEL, m_requestid := i, m_flags := F_MAP_REQ_ID\<rparr>),
       IMSG_MAPPING_ADD_END pid] else [])"
proof -
  let ?q = "\<lparr>lre_fec = f, lre_msg_id = i\<rparr>"
  let ?n = "n\<lparr>recv_req := snd (fec_insert lre_fec ?q (recv_req n))\<rparr>"
  let ?s = "lde_req_add pid f False i s"
  have d: "nbr_deref ?s pid = Inr ?n" using nbr_deref_update[OF n] by (simp add: lde_req_add_def Let_def)
  have r: "fn_deref ?s (Ft f) = Inr fn" using fn(1) by (simp add: lde_req_add_def)
  have q: "fec_find lre_fec (recv_req ?n) f = Some ?q"
    using fec_find_self[OF fec_insert_ordered[OF o, of ?q], of ?q] set_fec_insert[of lre_fec "recv_req n" ?q] new by simp
  have dd: "fn_deref (compose_ldpe m1 (compose_ldpe m2 (lde_req_del pid ?q False ?s))) (Ft f) = Inr fn" for m1 m2
    using r by (simp add: fn_deref_compose lde_req_del_def)
  show ?thesis using d r q dd fn(2-4)
    by (auto simp: lde_send_labelmapping_def sendable_def Let_def lde_map_add_def set_map_def compose_ldpe_def
        lde_req_del_def lde_req_add_def nbr_update_def fn_update_def split: option.split)
qed

text \<open>
  C17: the answer to a label request for an IPv4 prefix.  No next hop: a no-route notification.  A
  next hop that is the asking neighbour: a loop notification.  A request already pending, or a
  neighbour without IPv4: nothing.  Otherwise one mapping with the id of the request and, because no
  entry has a label, \<open>NO_LABEL\<close> as its label.
\<close>

theorem request_answer:
  assumes "lde_reach s" and "lde_nbr_find s pid = Some n" and "lde_map2fec m (nbr_id n) = Inr fec"
    and "ftype fec = FEC_TYPE_IPV4"
  shows "\<exists>t. lde_check_request m pid s = Inr t \<and> to_ldpe t = to_ldpe s @
    (if known_nexthops s fec = [] then
       [IMSG_NOTIFICATION_SEND pid (notify_zero\<lparr>nm_status_code := 0xd, nm_msg_id := m_msg_id m, nm_msg_type := htons 0x0401\<rparr>)]
     else if \<exists>h \<in> set (known_nexthops s fec). via n h then
       [IMSG_NOTIFICATION_SEND pid (notify_zero\<lparr>nm_status_code := 0xb, nm_msg_id := m_msg_id m, nm_msg_type := htons 0x0401\<rparr>)]
     else if fec_find lre_fec (recv_req n) fec \<noteq> None \<or> \<not> v4_enabled n then []
     else [IMSG_MAPPING_ADD pid ((lde_fec2map fec)\<lparr>m_label := NO_LABEL, m_requestid := ntohl (m_msg_id m),
             m_flags := F_MAP_REQ_ID\<rparr>), IMSG_MAPPING_ADD_END pid])"
proof -
  have inv: "lde_inv s" by (rule reach_inv[OF assms(1)])
  note d = nbr_find_deref[OF inv assms(2)]
  show ?thesis
  proof (cases "fec_find fn_fec (ft s) fec")
    case None
    then show ?thesis using d assms(3)
      by (auto simp: lde_check_request_def known_nexthops_def lde_send_notification_def compose_ldpe_def)
  next
    case (Some fn)
    note fn = fec_find_fns[OF good_refl[OF inv] Some]
    have o: "fec_order.ordered lre_fec (recv_req n)"
      using inv nbr_deref_in[OF d] by (simp add: lde_inv_defs nbr_trees_ok_def)
    have e: "fec_find lre_fec (recv_req n) (fn_fec fn) = fec_find lre_fec (recv_req n) fec"
      by (rule fec_find_key[OF o fn(2)])
    have l: "fn_local_label fn = NO_LABEL" using fn_pw_okD[OF inv fn(1)] by simp
    have r: "fn_deref s (Ft (fn_fec fn)) = Inr fn" using fn_deref_Ft_iff[OF inv] fn(1) by simp
    have v: "lde_nbr_is_nexthop fn n \<longleftrightarrow> (\<exists>h \<in> set (fn_nexthops fn). via n h)"
      by (simp add: lde_nbr_is_nexthop_def via_def)
    have t: "ftype (fn_fec fn) = FEC_TYPE_IPV4" using fn(3) assms(4) by simp
    have c: "lde_fec2map (fn_fec fn) = lde_fec2map fec" using fn(2) t assms(4) by (simp add: fec_key_def lde_fec2map_def)
    show ?thesis using request_reply[OF d o r refl t l, of "ntohl (m_msg_id m)"] d assms(3,4) Some e v c
      by (auto simp: lde_check_request_def known_nexthops_def lde_send_notification_def compose_ldpe_def)
  qed
qed


theorem request_answer_witness:
  "\<exists>t. lde_check_request route_demo_map 1 demo_state = Inr t \<and> to_ldpe t = to_ldpe demo_state @
     [IMSG_NOTIFICATION_SEND 1 (notify_zero\<lparr>nm_status_code := 0xb, nm_msg_type := htons 0x0401\<rparr>)]"
proof -
  have "via demo_nbr demo_nh" by (simp add: via_def lde_address_find_def demo_nbr_def demo_nh_def ldp_addrcmp_def)
  moreover have "ftype route_demo_fec = FEC_TYPE_IPV4" by (simp add: route_demo_fec_def set_ipv4_def)
  moreover have "m_msg_id route_demo_map = 0"
    by (simp add: route_demo_map_def lde_fec2map_def map_zero_def route_demo_fec_def set_ipv4_def)
  ultimately show ?thesis
    using request_answer[OF demo_reach demo_find route_demo_fec2] by (auto simp: route_demo_nexthops notify_zero_def)
qed


subsection \<open>Routes\<close>

lemma withdraw_all_ft: "keeps (lde_send_labelwithdraw_all r l s) (\<lambda>t. ft t = ft s)"
proof -
  have "keeps (record_wdraw pid l f t) (\<lambda>u. ft u = ft t)" for pid l f t
    by (auto simp: record_wdraw_def keeps_iff lde_wdraw_add_def lde_wdraw_set_def split: option.splits)
  moreover from this have "keeps (foreach (record_wdraw pid l) fs t) (\<lambda>u. ft u = ft t)" for pid l fs t
    by (rule keeps_foreach_same)
  ultimately have "keeps (lde_send_labelwithdraw pid fno l st t) (\<lambda>u. ft u = ft t)" for pid fno l st t
    by (fastforce simp: lde_send_labelwithdraw_def Let_def keeps_iff split: option.splits)
  then show ?thesis unfolding lde_send_labelwithdraw_all_def by (rule keeps_foreach_same)
qed

lemma nh_del_nexthops:
  assumes "nexthops_of s f = Inr hs"
  shows "nexthops_of (fec_nh_del (Ft f) i s) f = Inr (list_remove_at i hs)"
proof -
  obtain fn where fn: "fn_deref s (Ft f) = Inr fn" "fn_nexthops fn = hs" using assms by (auto simp: nexthops_of_Inr)
  have "fn_fec fn = f" using fn(1) by (auto simp: fn_deref_def split: option.splits dest: find_Some_in)
  then show ?thesis using fn by (simp add: nexthops_of_def fec_nh_del_def fn_deref_update at_fec_def)
qed

lemma kernel_remove_nexthops:
  assumes "fec_find fn_fec (ft s) fec = Some fn" and "fec_nh_find fn a nexthop priority = Some i"
    and "nexthops_of s (fn_fec fn) = Inr hs"
  shows "keeps (lde_kernel_remove fec a nexthop priority s)
    (\<lambda>t. nexthops_of t (fn_fec fn) = Inr (list_remove_at i hs))"
proof -
  let ?f = "fn_fec fn" and ?P = "\<lambda>t. nexthops_of t (fn_fec fn) = Inr (list_remove_at i hs)"
  have drop: "?P (fn_update (Ft ?f) (\<lambda>n. n\<lparr>fn_local_label := x, fn_data := d n\<rparr>) t)" if "?P t" for t x d
    using that by (simp add: nexthops_of_keep)
  have rest: "keeps (and_then (lde_send_labelwithdraw_all (Ft ?f) NO_LABEL t) (\<lambda>s3.
      Inr (fn_update (Ft ?f) (\<lambda>n. n\<lparr>fn_local_label := NO_LABEL, fn_data := d n\<rparr>) s3))) ?P" if "?P t" for t d
    by (rule keeps_and_then[OF withdraw_all_ft], simp, rule drop, rule same_nexthops[OF that])
  have "keeps (and_then (lde_send_delete_klabel (Ft ?f) i s) (\<lambda>s1.
      let s2 = fec_nh_del (Ft ?f) i s1 in and_then (fn_deref s2 (Ft ?f)) (\<lambda>fn2.
        if fn_nexthops fn2 \<noteq> [] then Inr s2
        else and_then (lde_send_labelwithdraw_all (Ft ?f) NO_LABEL s2) (\<lambda>s3.
          Inr (fn_update (Ft ?f) (\<lambda>n. n\<lparr>fn_local_label := NO_LABEL,
            fn_data := (if ftype (fn_fec fn2) = FEC_TYPE_PWID then None else fn_data n)\<rparr>) s3))))) ?P"
    unfolding Let_def
    by (rule keeps_and_then[OF delete_nexthops(1)[OF assms(3)]], rule keeps_bind)
       (use rest nh_del_nexthops in auto)
  then show ?thesis by (simp add: lde_kernel_remove_def assms(1,2) Let_def)
qed

text \<open>
  C20: every route change the parent process reports is handled without a fault and leads to a
  reachable state again.
\<close>

theorem routes_never_fault:
  assumes "lde_reach s"
  shows "\<exists>t. lde_handle_parent junk m s = Inr t \<and> lde_reach t"
proof -
  have inv: "lde_inv s" by (rule reach_inv[OF assms])
  have "\<exists>t. lde_handle_parent junk m s = Inr t"
  proof (cases m)
    case (IMSG_NETWORK_ADD a prefix prefixlen nexthop priority)
    then show ?thesis using kernel_insert_ok[OF inv, of "route_fec junk a prefix prefixlen" None a nexthop priority]
      by (auto simp: ensures_iff route_fec_type)
  next
    case (IMSG_NETWORK_DEL a prefix prefixlen nexthop priority)
    then show ?thesis using kernel_remove_ok[OF inv, of "route_fec junk a prefix prefixlen" a nexthop priority]
      by (auto simp: ensures_iff)
  qed
  then show ?thesis using lde_reach.step[OF assms lde_step.parent] by blast
qed

theorem routes_never_fault_witness:
  "\<exists>t. lde_handle_parent fec_zero demo_route demo_state = Inr t \<and> lde_reach t"
  by (rule routes_never_fault[OF demo_reach])

text \<open>
  C21: removing a route never faults, and the entry of its FEC keeps exactly the other next hops, in
  their order: the first one with the address family, address and priority of the route is gone, and
  nothing if there is none.
\<close>

theorem route_removed:
  assumes "lde_reach s"
  shows "\<exists>t. lde_kernel_remove fec a nexthop priority s = Inr t \<and> known_nexthops t fec =
      (case find_index (fec_nh_match a nexthop priority) (known_nexthops s fec) of
         None \<Rightarrow> known_nexthops s fec | Some i \<Rightarrow> list_remove_at i (known_nexthops s fec))"
proof (cases "fec_find fn_fec (ft s) fec")
  case None
  then show ?thesis by (simp add: lde_kernel_remove_def known_nexthops_def)
next
  case (Some fn)
  have inv: "lde_inv s" by (rule reach_inv[OF assms])
  note fn = fec_find_fns[OF good_refl[OF inv] Some]
  obtain t where t: "lde_kernel_remove fec a nexthop priority s = Inr t" "lde_inv t"
    using kernel_remove_ok[OF inv, of fec a nexthop priority] by (auto simp: ensures_iff)
  have hs: "nexthops_of s (fn_fec fn) = Inr (fn_nexthops fn)"
    using fn_deref_Ft_iff[OF inv] fn(1) by (auto simp: nexthops_of_Inr)
  show ?thesis
  proof (cases "fec_nh_find fn a nexthop priority")
    case None
    then show ?thesis using Some t by (simp add: lde_kernel_remove_def known_nexthops_def fec_nh_find_def)
  next
    case (Some i)
    have "nexthops_of t (fn_fec fn) = Inr (list_remove_at i (fn_nexthops fn))"
      using kernel_remove_nexthops[OF \<open>fec_find fn_fec (ft s) fec = Some fn\<close> Some hs] t(1) by simp
    then obtain fn' where "fec_find fn_fec (ft t) fec = Some fn'" "fn_nexthops fn' = list_remove_at i (fn_nexthops fn)"
      by (rule entry_nexthops[OF t(2) _ fn(2)])
    then show ?thesis using Some t(1) \<open>fec_find fn_fec (ft s) fec = Some fn\<close>
      by (simp add: known_nexthops_def fec_nh_find_def)
  qed
qed

theorem route_removed_witness:
  "\<exists>t. lde_kernel_remove route_demo_fec AF_INET (v4_addr (in_addr4 10 0 0 2)) 0 demo_state = Inr t \<and>
     known_nexthops t route_demo_fec = []"
  using route_removed[OF demo_reach, of route_demo_fec AF_INET "v4_addr (in_addr4 10 0 0 2)" 0]
  by (simp add: route_demo_nexthops fec_nh_match_def demo_nh_def ldp_addrcmp_def list_remove_at_def)

subsection \<open>The end of a session\<close>




lemma nbr_clear_enough:
  assumes "lde_inv s" and "card (peerid ` nbs s) \<le> k"
  shows "lde_nbr_clear k s \<noteq> None"
  using assms
proof (induction k arbitrary: s)
  case 0
  then have "inorder (lde_nbrs s) = []" by simp
  then have "lde_nbrs s = RNil" by (cases "lde_nbrs s") simp_all
  then show ?case by simp
next
  case (Suc k)
  show ?case
  proof (cases "lde_nbrs s")
    case (RNode c l n r)
    then have n: "n \<in> nbs s" by simp
    show ?thesis
    proof (cases "lde_nbr_del (Ptr (peerid n)) s")
      case (Inr t)
      have "nbr_live s (peerid n)" using n by (simp add: nbr_live_def)
      then have "lde_inv t \<and> peerid ` nbs t = peerid ` nbs s - {peerid n}"
        using nbr_del_keeps[OF Suc.prems(1), of "peerid n"] good_refl[OF Suc.prems(1)] Inr by (simp add: keeps_iff)
      moreover from this have "card (peerid ` nbs t) \<le> k" using Suc.prems(2) n by simp
      ultimately show ?thesis using Suc.IH[of t] RNode Inr by simp
    qed (use RNode in simp)
  qed simp
qed

text \<open>
  C24: clearing the neighbour table ends.  In a reachable state as many rounds as there are
  neighbours are enough, whether or not one of them faults.
\<close>

theorem nbr_clear_terminates:
  assumes "lde_reach s" and "length (inorder (lde_nbrs s)) \<le> k"
  shows "\<exists>r. lde_nbr_clear k s = Some r"
proof -
  have "card (peerid ` nbs s) \<le> k"
    using card_image_le[of "nbs s" peerid] card_length[of "inorder (lde_nbrs s)"] assms(2) by simp
  then show ?thesis using nbr_clear_enough[OF reach_inv[OF assms(1)]] by blast
qed

theorem nbr_clear_terminates_witness: "\<exists>r. lde_nbr_clear 1 demo_state = Some r"
  by (rule nbr_clear_terminates[OF demo_reach]) simp

text \<open>
  C23: the garbage collector drops exactly the entries without next hops and mappings; every other
  lookup answers as before.
\<close>

theorem gc_exact:
  assumes "lde_reach s"
  shows "fec_find fn_fec (ft (lde_gc_timer s)) f =
    (case fec_find fn_fec (ft s) f of
       None \<Rightarrow> None
     | Some fn \<Rightarrow> if fn_nexthops fn \<noteq> [] \<or> fn_downstream fn \<noteq> [] \<or> fn_upstream fn \<noteq> [] then Some fn else None)"
proof -
  have inv: "lde_inv s" by (rule reach_inv[OF assms])
  have inv': "lde_inv (lde_gc_timer s)" by (rule gc_timer_ok(1)[OF inv])
  note fns = gc_timer_ok(2)[OF inv]
  have o: "fec_order.ordered fn_fec (ft s)" "fec_order.ordered fn_fec (ft (lde_gc_timer s))"
    using inv inv' by (simp_all add: lde_inv_defs)
  show ?thesis
  proof (cases "fec_find fn_fec (ft s) f")
    case None
    then have "fec_find fn_fec (ft (lde_gc_timer s)) f = None"
      using fec_find_None[OF o(1), of f] fec_find_None[OF o(2), of f] fns by simp
    then show ?thesis using None by simp
  next
    case (Some fn)
    note fn = fec_find_Some[OF o(1) Some]
    show ?thesis
    proof (cases "fn_used fn")
      case True
      then show ?thesis using Some fn fns fec_find_entry[OF inv', of fn f] by (simp add: fn_used_def)
    next
      case False
      have "fec_find fn_fec (ft (lde_gc_timer s)) f = None"
        unfolding fec_find_None[OF o(2)] fns
        using False fn fec_order.ordered_key_inj[OF o(1), of _ fn] by fastforce
      then show ?thesis using Some False by (simp add: fn_used_def)
    qed
  qed
qed

theorem gc_exact_witness:
  "fec_find fn_fec (ft (lde_gc_timer demo_state)) demo_fec = Some demo_fn"
  using gc_exact[OF demo_reach, of demo_fec] fec_find_entry[OF reach_inv[OF demo_reach], of demo_fn demo_fec] by simp

subsection \<open>Tables\<close>

text \<open>The map from the rank of a FEC to the element a tree holds for it.\<close>

definition tree_map :: "('a \<Rightarrow> fec) \<Rightarrow> 'a rbt \<Rightarrow> fec_rank \<Rightarrow> 'a option" where
  "tree_map key t k = find (\<lambda>x. fec_key (key x) = k) (inorder t)"

lemma tree_map_iff:
  assumes "fec_order.ordered key t"
  shows "tree_map key t k = Some x \<longleftrightarrow> x \<in> set (inorder t) \<and> fec_key (key x) = k"
proof
  assume "tree_map key t k = Some x"
  then show "x \<in> set (inorder t) \<and> fec_key (key x) = k" by (auto simp: tree_map_def dest: find_Some_in)
next
  assume x: "x \<in> set (inorder t) \<and> fec_key (key x) = k"
  then obtain y where y: "tree_map key t k = Some y"
    by (cases "tree_map key t k") (auto simp: tree_map_def find_None_none)
  then have "y \<in> set (inorder t)" "fec_key (key y) = k" by (auto simp: tree_map_def dest: find_Some_in)
  then have "y = x" using x fec_order.ordered_key_inj[OF assms, of y x] by simp
  with y show "tree_map key t k = Some x" by simp
qed

lemma tree_map_eqI:
  assumes "\<And>k x. m k = Some x \<longleftrightarrow> m' k = Some x"
  shows "m = m'"
proof
  fix k show "m k = m' k" by (metis assms not_Some_eq)
qed

lemma tree_map_find:
  assumes "fec_order.ordered key t"
  shows "fec_find key t f = tree_map key t (fec_key f)"
proof (cases "fec_find key t f")
  case None
  then have "tree_map key t (fec_key f) = None"
    unfolding fec_find_None[OF assms] by (simp add: tree_map_def find_None_none)
  then show ?thesis using None by simp
next
  case (Some x)
  then show ?thesis using fec_find_Some[OF assms Some] tree_map_iff[OF assms, of "fec_key f" x] by simp
qed

lemma tree_map_insert:
  assumes o: "fec_order.ordered key t" and new: "tree_map key t (fec_key (key x)) = None"
  shows "tree_map key (snd (fec_insert key x t)) = (tree_map key t)(fec_key (key x) \<mapsto> x)"
proof (rule tree_map_eqI)
  fix k y
  have i: "set (inorder (snd (fec_insert key x t))) = insert x (set (inorder t))"
    using set_fec_insert[of key t x] new tree_map_find[OF o, of "key x"] by simp
  have "fec_key (key z) \<noteq> fec_key (key x)" if "z \<in> set (inorder t)" for z
    using new that by (auto simp: tree_map_def find_None_none)
  then show "tree_map key (snd (fec_insert key x t)) k = Some y \<longleftrightarrow> ((tree_map key t)(fec_key (key x) \<mapsto> x)) k = Some y"
    unfolding tree_map_iff[OF fec_insert_ordered[OF o]] i using tree_map_iff[OF o, of k y] by auto
qed

lemma tree_map_remove:
  assumes o: "fec_order.ordered key t" and y: "y \<in> set (inorder t)"
  shows "tree_map key (fec_remove key (key y) t) = (tree_map key t)(fec_key (key y) := None)"
proof (rule tree_map_eqI)
  fix k z
  have "z = y" if "z \<in> set (inorder t)" "fec_key (key z) = fec_key (key y)"
    using fec_order.ordered_key_inj[OF o that(1) y] that(2) by simp
  then show "tree_map key (fec_remove key (key y) t) k = Some z \<longleftrightarrow> ((tree_map key t)(fec_key (key y) := None)) k = Some z"
    unfolding tree_map_iff[OF fec_remove_ordered[OF o y]] set_fec_remove[OF o y] using tree_map_iff[OF o, of k z] by auto
qed

text \<open>
  C15: a tree of records ordered by FEC refines a finite map.  Lookup is application, insertion adds
  the record unless the map has one for the FEC, in which case it is refused and nothing changes, and
  taking a record out removes its key; each operation keeps the order.
\<close>

theorem fec_tree_refines_map:
  assumes o: "fec_order.ordered key t"
  shows "fec_find key t f = tree_map key t (fec_key f) \<and>
    (case fec_insert key x t of (r, t') \<Rightarrow> fec_order.ordered key t' \<and>
       (if tree_map key t (fec_key (key x)) = None
        then r = 0 \<and> tree_map key t' = (tree_map key t)(fec_key (key x) \<mapsto> x)
        else r = -1 \<and> tree_map key t' = tree_map key t)) \<and>
    (\<forall>y \<in> set (inorder t). fec_order.ordered key (fec_remove key (key y) t) \<and>
       tree_map key (fec_remove key (key y) t) = (tree_map key t)(fec_key (key y) := None))"
proof -
  note find = tree_map_find[OF o]
  have "fst (fec_insert key x t) = (if tree_map key t (fec_key (key x)) = None then 0 else -1)"
    using rb_insert_fst[of fec_compare key x t] find[of "key x"]
    by (cases "rb_insert fec_compare key x t"; cases "tree_map key t (fec_key (key x))")
       (simp_all add: fec_insert_def fec_find_def)
  moreover have "snd (fec_insert key x t) = t" if "tree_map key t (fec_key (key x)) = Some z" for z
    using rb_insert_present[of fec_compare key x t z] find[of "key x"] that by (simp add: fec_insert_def fec_find_def)
  ultimately have "case fec_insert key x t of (r, t') \<Rightarrow> fec_order.ordered key t' \<and>
       (if tree_map key t (fec_key (key x)) = None
        then r = 0 \<and> tree_map key t' = (tree_map key t)(fec_key (key x) \<mapsto> x)
        else r = -1 \<and> tree_map key t' = tree_map key t)"
    using fec_insert_ordered[OF o, of x] tree_map_insert[OF o, of x] by (cases "fec_insert key x t") auto
  then show ?thesis using find fec_remove_ordered[OF o] tree_map_remove[OF o] by simp
qed

theorem fec_tree_refines_map_witness:
  "fec_find fn_fec (ft demo_state) demo_fec = tree_map fn_fec (ft demo_state) (fec_key demo_fec) \<and>
   tree_map fn_fec (fec_remove fn_fec demo_fec (ft demo_state)) (fec_key demo_fec) = None"
proof -
  have "fec_order.ordered fn_fec (ft demo_state)" using reach_inv[OF demo_reach] by (simp add: lde_inv_defs)
  from fec_tree_refines_map[OF this, of demo_fec] show ?thesis by (auto simp: ball_Un)
qed

text \<open>
  C28: a FEC survives the way into a label message and out of it again: the map of a FEC reads back
  as a FEC the comparison function takes for the same, for a pseudowire when the neighbour is its far
  end.
\<close>

theorem fec_map_roundtrip:
  assumes "ftype f = FEC_TYPE_PWID \<Longrightarrow> pwid_lsr_id f = i"
  shows "\<exists>g. lde_map2fec (lde_fec2map f) i = Inr g \<and> fec_compare g f = 0"
proof -
  have c: "fec_compare g f = 0" if "fec_key g = fec_key f" for g
    using fec_compare_sign[of g f] that by simp
  have m: "(0xff :: u32) = mask 8" "(0xffff :: u32) = mask 16" by (simp_all add: mask_eq_exp_minus_1)
  have low: "ucast (put_low8 w b) = b" "ucast (put_low16 w h) = h" for w :: u32 and b :: u8 and h :: u16
    unfolding put_low8_def put_low16_def m by (rule bit_word_eqI, auto simp: bit_simps)+
  show ?thesis using assms
    by (cases "ftype f")
       (auto intro!: c simp: lde_fec2map_def lde_map2fec_def fec_key_def set_ipv4_def set_ipv6_def set_pwid_def
          ipv4_prefix_def ipv4_prefixlen_def ipv6_prefix_def ipv6_prefixlen_def pwid_type_def pwid_pwid_def
          pwid_lsr_id_def v4_addr_def low)
qed

theorem fec_map_roundtrip_witness: "\<exists>g. lde_map2fec (lde_fec2map demo_fec) 0 = Inr g \<and> fec_compare g demo_fec = 0"
  by (rule fec_map_roundtrip) (simp add: demo_fec_def set_ipv4_def)

text \<open>
  The order of the neighbour table is not an order once peer ids differ by more than half the
  range of a word: three ids of which each is greater than the one before and the last smaller than
  the first.
\<close>

theorem nbr_compare_not_transitive:
  "lde_nbr_compare 0x60000000 0 > 0 \<and> lde_nbr_compare 0xC0000000 0x60000000 > 0 \<and> lde_nbr_compare 0xC0000000 0 < 0"
  by (simp add: lde_nbr_compare_def)


subsection \<open>Tables\<close>

end
