(* ===== verification/Lde_Tree.thy ===== *)
theory Lde_Tree
  imports Lde_Correct
begin

text \<open>
  The multipoint extension: what joining a tree and a label mapping do to the label table, and the
  faults the extension can run into.
\<close>

subsection \<open>The label table\<close>

abbreviation lbs :: "lde_state \<Rightarrow> label_nbr set" where "lbs s \<equiv> set (inorder (label_nbrs s))"

lemma label_nbr_add_Inr:
  assumes "label_nbr_add l ll pid f t s = Inr s'"
  shows "lbs s' = insert \<lparr>lb_label = l, lb_local_label = ll, lb_peerid = pid, lb_fec = f, lb_type = t\<rparr> (lbs s)"
    and "\<exists>x. s' = s\<lparr>label_nbrs := x\<rparr>"
proof -
  let ?lb = "\<lparr>lb_label = l, lb_local_label = ll, lb_peerid = pid, lb_fec = f, lb_type = t\<rparr>"
  obtain x where x: "rb_insert label_nbr_compare lb_key ?lb (label_nbrs s) = (None, x)" "s' = s\<lparr>label_nbrs := x\<rparr>"
    using assms by (auto simp: label_nbr_add_def Let_def split: prod.splits option.splits)
  then have "set (inorder x) = insert ?lb (lbs s)"
    using set_rb_insert_absent[of label_nbr_compare lb_key ?lb "label_nbrs s"]
      rb_insert_fst[of label_nbr_compare lb_key ?lb "label_nbrs s"] by simp
  then show "lbs s' = insert ?lb (lbs s)" using x(2) by simp
  show "\<exists>x. s' = s\<lparr>label_nbrs := x\<rparr>" using x(2) by blast
qed

text \<open>A message changes the label table only through \<open>label_nbr_add\<close>.\<close>

lemma labelmapping_lbs: "keeps (lde_send_labelmapping pid r single s) (\<lambda>t. label_nbrs t = label_nbrs s)"
proof -
  have "keeps (lde_map_add pid r b m u) (\<lambda>t. label_nbrs t = label_nbrs u)" for b m u
    by (auto simp: lde_map_add_def Let_def keeps_iff split: if_splits)
  then show ?thesis
    by (auto simp: lde_send_labelmapping_def sendable_def Let_def keeps_iff set_map_def lde_req_del_def
        compose_ldpe_def split: option.splits fec_type.splits if_splits)
qed


subsection \<open>One label for each tree\<close>

text \<open>All entries of one tree carry the same local label.\<close>

definition one_label :: "lde_state \<Rightarrow> bool" where
  "one_label s \<longleftrightarrow> (\<forall>x \<in> lbs s. \<forall>y \<in> lbs s. same_lsp (lb_fec x) y \<longrightarrow> lb_local_label x = lb_local_label y)"

lemma one_labelD: "one_label s \<Longrightarrow> x \<in> lbs s \<Longrightarrow> y \<in> lbs s \<Longrightarrow> same_lsp (lb_fec x) y \<Longrightarrow> lb_local_label x = lb_local_label y"
  unfolding one_label_def by blast

text \<open>And that of the tree \<open>f\<close> is \<open>l\<close>.\<close>

definition tree_label :: "fec \<Rightarrow> u32 \<Rightarrow> lde_state \<Rightarrow> bool" where
  "tree_label f l s \<longleftrightarrow> one_label s \<and> (\<forall>x \<in> lbs s. same_lsp f x \<longrightarrow> lb_local_label x = l)"

lemma one_label_lbs: "label_nbrs t = label_nbrs s \<Longrightarrow> one_label s \<Longrightarrow> one_label t"
  unfolding one_label_def by simp

lemma tree_label_lbs: "label_nbrs t = label_nbrs s \<Longrightarrow> tree_label f l s \<Longrightarrow> tree_label f l t"
  unfolding tree_label_def one_label_def by simp

lemma lsp_label_tree:
  assumes "one_label s" and "lsp_label f s = (l, s')"
  shows "tree_label f l s'" and "label_nbrs s' = label_nbrs s"
proof -
  show e: "label_nbrs s' = label_nbrs s"
    using assms(2) by (auto simp: lsp_label_def lde_assign_label_def Let_def split: option.splits)
  have "lb_local_label x = l" if "x \<in> lbs s" "same_lsp f x" for x
  proof (cases "find_lsp f s")
    case None
    then show ?thesis using that by (auto simp: find_lsp_def rb_foreach_inorder find_None_none)
  next
    case (Some lb)
    then have lb: "lb \<in> lbs s" "same_lsp f lb" by (auto simp: find_lsp_def rb_foreach_inorder dest: find_Some_in)
    then have "lb_local_label lb = lb_local_label x" using that by (intro one_labelD[OF assms(1)]) (auto simp: same_lsp_def)
    then show ?thesis using assms(2) Some by (simp add: lsp_label_def)
  qed
  moreover have "one_label s'" by (rule one_label_lbs[OF e assms(1)])
  ultimately show "tree_label f l s'" using e by (simp add: tree_label_def)
qed

lemma add_tree_label:
  assumes "tree_label f l s"
  shows "keeps (label_nbr_add r l pid f t s) (tree_label f l)"
  unfolding keeps_iff
proof (intro allI impI)
  fix s' assume "label_nbr_add r l pid f t s = Inr s'"
  note i = label_nbr_add_Inr(1)[OF this]
  have "lb_local_label x = l" if "x \<in> lbs s'" "same_lsp f x" for x using that assms i by (auto simp: tree_label_def)
  moreover have "lb_local_label x = lb_local_label y" if "x \<in> lbs s'" "y \<in> lbs s'" "same_lsp (lb_fec x) y" for x y
  proof (cases "x \<in> lbs s \<and> y \<in> lbs s")
    case True
    then show ?thesis using that(3) one_labelD[of s x y] assms by (simp add: tree_label_def)
  next
    case False
    then have "same_lsp f x" "same_lsp f y" using that i by (auto simp: same_lsp_def)
    then show ?thesis using calculation that by simp
  qed
  ultimately show "tree_label f l s'" unfolding tree_label_def one_label_def by blast
qed

lemma send_tree_label:
  assumes "tree_label f l s"
  shows "keeps (lde_send_labelmapping pid r single s) (tree_label f l)"
  by (rule keeps_mono[OF labelmapping_lbs]) (erule tree_label_lbs[OF _ assms])

lemma tree_label_simps [simp]:
  "one_label (tmp_free r s) = one_label s" "tree_label f l (tmp_free r s) = tree_label f l s"
  "tree_label f l (s\<lparr>disp_ln1 := p\<rparr>) = tree_label f l s" "one_label (s\<lparr>disp_ln1 := p\<rparr>) = one_label s"
  "one_label (s\<lparr>leaf := i\<rparr>) = one_label s"
  unfolding one_label_def tree_label_def tmp_free_def by (simp_all split: fn_ref.split)

lemma alloc_tree_label:
  "tmp_alloc n s = (r, s') \<Longrightarrow> tree_label f l s' = tree_label f l s"
  unfolding tree_label_def one_label_def by (auto simp: tmp_alloc_def)

lemma tree_label_one: "tree_label f l s \<Longrightarrow> one_label s"
  by (simp add: tree_label_def)

lemma root_one_label:
  assumes "one_label s"
  shows "keeps (mapping_root m pid fec1 s) one_label"
proof -
  obtain l s1 where l: "lsp_label fec1 s = (l, s1)" by (cases "lsp_label fec1 s")
  obtain fn s2 where t: "tmp_alloc (fec_node_new fec1 l) s1 = (fn, s2)" by (cases "tmp_alloc (fec_node_new fec1 l) s1")
  have s2: "tree_label fec1 l s2" using lsp_label_tree(1)[OF assms l] alloc_tree_label[OF t] by simp
  have "keeps (and_then (label_nbr_add (m_label m) l pid fec1 STREAM_TYPE_DOWN s2) (\<lambda>s3. and_then (nbr_deref s3 pid) (\<lambda>ln.
      and_then (if fec_find me_fec (sent_map ln) fec1 = None then lde_send_labelmapping pid fn True s3 else Inr s3)
        (\<lambda>s4. Inr (tmp_free fn s4))))) one_label"
    by (rule keeps_and_then[OF add_tree_label[OF s2]], rule keeps_bind, rule keeps_and_then[of _ "tree_label fec1 l"])
       (use send_tree_label tree_label_one in auto)
  then show ?thesis by (simp add: mapping_root_def l t)
qed

lemma transit_send_label:
  assumes "tree_label fec1 l s"
  shows "keeps (mapping_transit_send pid fec1 l fn h s) (tree_label fec1 l)"
proof -
  have "keeps (and_then (label_nbr_add NO_LABEL l p fec1 STREAM_TYPE_UP (s\<lparr>disp_ln1 := q\<rparr>))
      (lde_send_labelmapping p fn True)) (tree_label fec1 l)" for p q
    by (rule keeps_and_then[OF add_tree_label]) (use assms send_tree_label in auto)
  then show ?thesis using assms send_tree_label[of fec1 l "s\<lparr>disp_ln1 := q\<rparr>" for q]
    by (auto simp: mapping_transit_send_def Let_def split: option.split)
qed

lemma transit_one_label:
  assumes "one_label s"
  shows "keeps (mapping_transit m pid fec1 s) one_label"
proof -
  let ?s0 = "s\<lparr>leaf := 0\<rparr>"
  obtain l s1 where l: "lsp_label fec1 ?s0 = (l, s1)" by (cases "lsp_label fec1 ?s0")
  obtain fn s2 where t: "tmp_alloc (fec_node_new fec1 l) s1 = (fn, s2)" by (cases "tmp_alloc (fec_node_new fec1 l) s1")
  have s2: "tree_label fec1 l s2" using lsp_label_tree(1)[OF _ l] assms alloc_tree_label[OF t] by simp
  have "keeps (and_then (mapping_transit_send pid fec1 l fn h s3) (\<lambda>s4. Inr (tmp_free fn s4))) one_label"
    if "tree_label fec1 l s3" for h s3
    by (rule keeps_and_then[OF transit_send_label[OF that]]) (use tree_label_one in auto)
  then show ?thesis unfolding mapping_transit_def Let_def l t prod.case
    by (intro keeps_and_then[OF add_tree_label[OF s2]] keeps_bind)
       (auto intro: tree_label_one split: option.splits list.splits)
qed

lemma down_entry_lbs: "keeps (mapping_down_entry fec1 fn lb v) (\<lambda>w. label_nbrs w = label_nbrs v)"
proof -
  have s: "keeps (lde_send_labelmapping p fn True u) (\<lambda>w. label_nbrs w = label_nbrs v)" if "label_nbrs u = label_nbrs v" for p u
    by (rule keeps_mono[OF labelmapping_lbs]) (simp add: that)
  show ?thesis unfolding mapping_down_entry_def Let_def
    by (auto intro!: keeps_bind s split: option.split)
qed

lemma upstream_one_label:
  assumes "one_label s"
  shows "keeps (mapping_upstream m pid fec1 lnr s) one_label"
proof -
  let ?u = "lb_update (lb_key lnr) (\<lambda>x. x\<lparr>lb_label := m_label m\<rparr>) s"
  define g :: "label_nbr \<Rightarrow> label_nbr" where "g = (\<lambda>x. if lb_key x = lb_key lnr then x\<lparr>lb_label := m_label m\<rparr> else x)"
  have g: "lb_fec (g x) = lb_fec x" "lb_local_label (g x) = lb_local_label x" for x by (simp_all add: g_def)
  have l: "lbs ?u = g ` lbs s" by (simp add: lb_update_def g_def)
  have u: "one_label ?u" unfolding one_label_def l
  proof (intro ballI impI)
    fix x y assume "x \<in> g ` lbs s" "y \<in> g ` lbs s" and sl: "same_lsp (lb_fec x) y"
    then obtain a b where ab: "a \<in> lbs s" "b \<in> lbs s" "x = g a" "y = g b" by blast
    with sl have "same_lsp (lb_fec a) b" by (simp add: same_lsp_def g)
    then show "lb_local_label x = lb_local_label y" using one_labelD[OF assms ab(1,2)] ab(3,4) by (simp add: g)
  qed
  note e = down_entry_lbs
  have loop: "keeps (and_then (foreach (mapping_down_entry fec1 fn) xs v) (\<lambda>w. Inr (tmp_free fn w))) one_label"
    if v: "label_nbrs v = label_nbrs ?u" for fn xs v
    by (rule keeps_and_then[OF keeps_foreach_same[OF e]]) (use one_label_lbs[OF _ u] v in simp)
  show ?thesis unfolding mapping_upstream_def Let_def
    by (auto simp: u lde_assign_label_def Let_def tmp_alloc_def split: option.split intro!: loop)
qed

lemma dump_lbs: "keeps (dump_label_nbrs s) (\<lambda>t. label_nbrs t = label_nbrs s)"
  unfolding dump_label_nbrs_def by (rule keeps_foreach_same) (auto split: option.split)


text \<open>
  C19: a label mapping keeps one local label for each multipoint tree: if all entries of a tree carry
  the same local label before a mapping for any tree is processed, they do after it.
\<close>

theorem mapping_keeps_one_label:
  assumes "one_label s" and "mldp_mapping m pid s = Inr t"
  shows "one_label t"
proof -
  have "keeps (and_then (case label_nbr_find s pid f of
      Some lnr \<Rightarrow> mapping_upstream m pid f lnr s
    | None \<Rightarrow> (case find_root (ipv4_prefix f) s of
         None \<Rightarrow> Inl Uninit_read
       | Some fec4 \<Rightarrow> (case fec_find fn_fec (ft s) fec4 of
            None \<Rightarrow> Inl Null_deref
          | Some fn1 \<Rightarrow>
              let s1 = (if \<exists>h \<in> set (fn_nexthops fn1). a0 (nh_nexthop h) = 0 then s\<lparr>leaf := 2\<rparr> else s)
              in if leaf s1 = 2 then mapping_root m pid f s1 else mapping_transit m pid f s1)))
      dump_label_nbrs) one_label" for f
    by (rule keeps_and_then[of _ one_label])
       (auto simp: Let_def assms(1) intro!: upstream_one_label root_one_label transit_one_label
          keeps_mono[OF dump_lbs] split: option.split elim: one_label_lbs)
  then have "keeps (mldp_mapping m pid s) one_label" unfolding mldp_mapping_def by - (rule keeps_bind, rule keeps_bind)
  then show ?thesis using assms(2) by simp
qed

definition branch :: "map_tlv \<Rightarrow> u32 \<Rightarrow> fec \<Rightarrow> lde_state \<Rightarrow> label_nbr" where
  "branch m pid f s = \<lparr>lb_label = m_label m, lb_local_label = fst (lsp_label f s), lb_peerid = pid,
     lb_fec = f, lb_type = STREAM_TYPE_DOWN\<rparr>"

lemma branch_leaf [simp]: "branch m pid f (s\<lparr>leaf := i\<rparr>) = branch m pid f s"
  by (simp add: branch_def lsp_label_def find_lsp_def lde_assign_label_def Let_def split: option.split)

lemma branch_added:
  assumes "lsp_label f s = (l, s1)"
  shows "keeps (label_nbr_add (m_label m) l pid f STREAM_TYPE_DOWN s2) (\<lambda>s3. branch m pid f s \<in> lbs s3)"
  using assms by (auto simp: keeps_iff branch_def dest!: label_nbr_add_Inr(1))

lemma send_lbs: "x \<in> lbs s \<Longrightarrow> keeps (lde_send_labelmapping pid r single s) (\<lambda>t. x \<in> lbs t)"
  by (rule keeps_mono[OF labelmapping_lbs]) simp

lemma free_lbs [simp]: "lbs (tmp_free r s) = lbs s"
  by (simp add: tmp_free_def split: fn_ref.split)

lemma root_records: "keeps (mapping_root m pid f s) (\<lambda>t. branch m pid f s \<in> lbs t)"
proof -
  obtain l s1 where l: "lsp_label f s = (l, s1)" by (cases "lsp_label f s")
  show ?thesis unfolding mapping_root_def l Let_def prod.case tmp_alloc_def
    by (rule keeps_and_then[OF branch_added[OF l]], rule keeps_bind,
        rule keeps_and_then[of _ "\<lambda>t. branch m pid f s \<in> lbs t"]) (auto intro: send_lbs)
qed

lemma transit_records: "keeps (mapping_transit m pid f s) (\<lambda>t. branch m pid f s \<in> lbs t)"
proof -
  let ?b = "branch m pid f s"
  obtain l s1 where l: "lsp_label f (s\<lparr>leaf := 0\<rparr>) = (l, s1)" by (cases "lsp_label f (s\<lparr>leaf := 0\<rparr>)")
  have a: "keeps (label_nbr_add x l p f t u) (\<lambda>v. ?b \<in> lbs v)" if "?b \<in> lbs u" for x p t u
    using that by (auto simp: keeps_iff dest!: label_nbr_add_Inr(1))
  have send: "keeps (mapping_transit_send pid f l fn h u) (\<lambda>v. ?b \<in> lbs v)" if "?b \<in> lbs u" for fn h u
    using that by (auto simp: mapping_transit_send_def Let_def split: option.split
        intro!: send_lbs keeps_and_then[OF a])
  have add: "keeps (label_nbr_add (m_label m) l pid f STREAM_TYPE_DOWN s2) (\<lambda>v. ?b \<in> lbs v)" for s2
    using branch_added[OF l, of m pid s2] by simp
  show ?thesis unfolding mapping_transit_def l Let_def prod.case tmp_alloc_def
    by (rule keeps_and_then[OF add], rule keeps_bind)
       (auto split: option.splits list.splits intro!: keeps_and_then[OF send])
qed

text \<open>
  C18: a mapping for a tree from a neighbour that has no entry for it yet records the branch: when
  the mapping has been processed, the table has the label of the mapping for the neighbour, with the
  local label the tree has already, or a new one.
\<close>

theorem branch_recorded:
  assumes inv: "lde_inv s" and n: "nbr_deref s pid = Inr n" "lde_map2fec m (nbr_id n) = Inr f"
    and new: "label_nbr_find s pid f = None" and t: "mldp_mapping m pid s = Inr t"
  shows "label_nbr_find t pid f = Some \<lparr>lb_label = m_label m, lb_local_label = fst (lsp_label f s),
    lb_peerid = pid, lb_fec = f, lb_type = STREAM_TYPE_DOWN\<rparr>"
proof -
  have d: "keeps (dump_label_nbrs u) (\<lambda>v. branch m pid f s \<in> lbs v)" if "branch m pid f s \<in> lbs u" for u
    by (rule keeps_mono[OF dump_lbs]) (simp add: that)
  have r: "keeps (mapping_root m pid f (s\<lparr>leaf := i\<rparr>)) (\<lambda>t. branch m pid f s \<in> lbs t)"
    "keeps (mapping_transit m pid f (s\<lparr>leaf := i\<rparr>)) (\<lambda>t. branch m pid f s \<in> lbs t)" for i
    using root_records[of m pid f "s\<lparr>leaf := i\<rparr>"] transit_records[of m pid f "s\<lparr>leaf := i\<rparr>"] by simp_all
  have "keeps (mldp_mapping m pid s) (\<lambda>t. branch m pid f s \<in> lbs t)"
    unfolding mldp_mapping_def n and_then_simps new option.case
    by (rule keeps_and_then[of _ "\<lambda>t. branch m pid f s \<in> lbs t"])
       (auto simp: Let_def intro: r root_records transit_records d split: option.split)
  then have "branch m pid f s \<in> lbs t" using t by simp
  moreover have "label_nbr_order.ordered lb_key (label_nbrs t)"
    using mldp_mapping_keeps[OF inv, of m pid] t by (simp add: lde_inv_defs)
  ultimately show ?thesis
    using label_nbr_order.find_self[of lb_key "label_nbrs t" "branch m pid f s"]
    by (simp add: label_nbr_find_def lb_key_def branch_def)
qed


text \<open>A second tree of the root 7.7.7.7, with the opaque value 5.\<close>

definition demo_fec5 :: fec where
  "demo_fec5 = set_ipv4 (in_addr4 7 7 7 7) 5 fec_zero"

definition demo_map5 :: map_tlv where
  "demo_map5 = (lde_fec2map demo_fec5)\<lparr>m_label := 105\<rparr>"

lemma demo5_run: "\<exists>t. mldp_mapping demo_map5 1 demo_state = Inr t"
proof -
  have "case mldp_mapping demo_map5 1 demo_state of Inl e \<Rightarrow> False | Inr t \<Rightarrow> True" by code_simp
  then show ?thesis by (auto split: sum.splits)
qed

theorem mapping_keeps_one_label_witness:
  "one_label demo_state \<and> (\<exists>t. mldp_mapping demo_map5 1 demo_state = Inr t \<and> one_label t)"
proof -
  have o: "one_label demo_state" by (simp add: one_label_def)
  then show ?thesis using demo5_run mapping_keeps_one_label[OF o] by blast
qed

theorem branch_recorded_witness:
  "\<exists>t. mldp_mapping demo_map5 1 demo_state = Inr t \<and>
     label_nbr_find t 1 demo_fec5 = Some \<lparr>lb_label = 105, lb_local_label = 17, lb_peerid = 1,
       lb_fec = demo_fec5, lb_type = STREAM_TYPE_DOWN\<rparr>"
proof -
  from demo5_run obtain t where t: "mldp_mapping demo_map5 1 demo_state = Inr t" by blast
  have f: "lde_map2fec demo_map5 (nbr_id demo_nbr) = Inr demo_fec5"
    by (simp add: lde_map2fec_def demo_map5_def lde_fec2map_def demo_fec5_def set_ipv4_def fec_zero_def
        ipv4_prefix_def ipv4_prefixlen_def v4_addr_def put_low8_def)
  have k: "ipv4_prefixlen demo_fec5 = 5" "ipv4_prefixlen demo_fec = 32" "ftype demo_fec5 = FEC_TYPE_IPV4"
    "ftype demo_fec = FEC_TYPE_IPV4" "ipv4_prefix demo_fec = ipv4_prefix demo_fec5"
    by (simp_all add: demo_fec_def demo_fec5_def set_ipv4_def fec_zero_def ipv4_prefix_def ipv4_prefixlen_def put_low8_def)
  have new: "label_nbr_find demo_state 1 demo_fec5 = None"
    by (simp add: label_nbr_find_def lb_key_def demo_lb_def label_nbr_compare_def Let_def k)
  have l: "fst (lsp_label demo_fec5 demo_state) = 17" "m_label demo_map5 = 105"
    by (simp_all add: lsp_label_def find_lsp_def rb_foreach_inorder same_lsp_def demo_lb_def k lde_assign_label_def
        demo_map5_def)
  have inv: "lde_inv demo_state" by (rule reach_inv[OF demo_reach])
  show ?thesis using branch_recorded[OF inv nbr_find_deref[OF inv demo_find] f new t] t l by simp
qed

subsection \<open>Leaving a tree\<close>


lemma withdraw_up_loop_iff:
  "(\<exists>t. withdraw_up_loop xs u = Inr t) \<longleftrightarrow> (\<forall>x \<in> set xs. lb_type x \<noteq> STREAM_TYPE_UP)"
  by (induction xs) (auto simp: Let_def)

lemma not_down [simp]: "t \<noteq> STREAM_TYPE_DOWN \<longleftrightarrow> t = STREAM_TYPE_UP"
  by (cases t) simp_all

text \<open>
  C30: the withdraw of a branch ends without a fault exactly when the node is a root, when a
  downstream branch of some tree is left, or when nothing is left.  When the last branch goes and an
  upstream entry is left, the loop over the table follows an entry it has freed.
\<close>

theorem branch_withdraw_outcome:
  "(\<exists>t. mldp_withdraw m pid s = Inr t) \<longleftrightarrow>
    (let left = lbs (label_nbr_del (find (\<lambda>lb. lb_local_label lb = m_label m \<and> lb_peerid lb = pid)
           (inorder (label_nbrs s))) s)
     in leaf s = 2 \<or> (\<exists>lb \<in> left. lb_type lb = STREAM_TYPE_DOWN) \<or> left = {})"
proof -
  define u where "u = label_nbr_del (find (\<lambda>lb. lb_local_label lb = m_label m \<and> lb_peerid lb = pid)
    (inorder (label_nbrs s))) s"
  have lf: "leaf u = leaf s" by (simp add: u_def label_nbr_del_def split: option.split)
  have dn: "find (\<lambda>lb. lb_type lb = STREAM_TYPE_DOWN) (inorder (label_nbrs u)) = None \<longleftrightarrow>
      (\<forall>lb \<in> lbs u. lb_type lb = STREAM_TYPE_UP)"
    by (simp add: find_None_none)
  have "(\<exists>t. mldp_withdraw m pid s = Inr t) \<longleftrightarrow>
      leaf s = 2 \<or> \<not> (\<forall>lb \<in> lbs u. lb_type lb = STREAM_TYPE_UP) \<or> (\<forall>lb \<in> lbs u. lb_type lb \<noteq> STREAM_TYPE_UP)"
    using withdraw_up_loop_iff[of "inorder (label_nbrs u)" u] lf dn
    by (simp add: mldp_withdraw_def Let_def rb_foreach_inorder u_def[symmetric])
  also have "\<dots> \<longleftrightarrow> leaf s = 2 \<or> (\<exists>lb \<in> lbs u. lb_type lb = STREAM_TYPE_DOWN) \<or> lbs u = {}"
    using not_down by (metis (no_types, lifting) all_not_in_conv stream_type.distinct(1))
  finally show ?thesis unfolding u_def Let_def .
qed


subsection \<open>Joining a tree\<close>

text \<open>What sending a mapping for a node of one message leaves as it is.\<close>

lemma nbr_frame_update:
  assumes "\<And>n. peerid (g n) = peerid n \<and> nbr_id (g n) = nbr_id n \<and> v4_enabled (g n) = v4_enabled n \<and>
    v6_enabled (g n) = v6_enabled n \<and> addr_list (g n) = addr_list n"
  shows "nbr_frame (nbr_update pid g s) = nbr_frame s"
  using assms by (simp add: nbr_frame_def nbr_update_def at_peer_def)

lemma tmp_mapping_frame:
  "keeps (lde_send_labelmapping pid (Tmp k) single s)
     (\<lambda>t. (ft t, nbr_frame t, label_nbrs t) = (ft s, nbr_frame s, label_nbrs s))"
proof -
  have c: "nbr_frame (compose_ldpe x u) = nbr_frame u" "nbr_frame (fn_update r g u) = nbr_frame u" for x r g u
    by (simp_all add: nbr_frame_def)
  have add: "keeps (lde_map_add pid (Tmp k) True m u) (\<lambda>t. (ft t, nbr_frame t, label_nbrs t) = (ft u, nbr_frame u, label_nbrs u))" for m u
    by (auto simp: lde_map_add_def Let_def keeps_iff c nbr_frame_update)
  have del: "(ft (lde_req_del pid q False u), nbr_frame (lde_req_del pid q False u), label_nbrs (lde_req_del pid q False u)) =
      (ft u, nbr_frame u, label_nbrs u)" for q u by (simp add: lde_req_del_def nbr_frame_update)
  have set: "(ft (set_map pid f True m u), nbr_frame (set_map pid f True m u), label_nbrs (set_map pid f True m u)) =
      (ft u, nbr_frame u, label_nbrs u)" for f m u by (simp add: set_map_def nbr_frame_update Let_def)
  define P where "P = (\<lambda>u. (ft u, nbr_frame u, label_nbrs u) = (ft s, nbr_frame s, label_nbrs s))"
  have P: "P s" "P u \<Longrightarrow> P (compose_ldpe x u)" "P u \<Longrightarrow> P (lde_req_del pid q False u)" "P u \<Longrightarrow> P (set_map pid f True m u)"
    "P u \<Longrightarrow> keeps (lde_map_add pid (Tmp k) True m u) P" for u x q f m
    using del[of q u] set[of f m u] add[of m u] by (simp_all add: P_def c)
  have "keeps (lde_send_labelmapping pid (Tmp k) single s) P" unfolding lde_send_labelmapping_def Let_def
    by (intro keeps_bind) (auto intro!: P split: option.split)
  then show ?thesis by (simp add: P_def)
qed

lemma nbr_find_by_addr_frame:
  assumes "nbr_frame t = nbr_frame s"
  shows "nbr_ptr (lde_nbr_find_by_addr t a x) = nbr_ptr (lde_nbr_find_by_addr s a x)"
proof -
  let ?F = "\<lambda>n. (peerid n, nbr_id n, v4_enabled n, v6_enabled n, addr_list n)"
  let ?Q = "\<lambda>(p, i, v4, v6, as). find (\<lambda>y. fst y = a \<and> ldp_addrcmp a (snd y) x = 0) as \<noteq> None"
  have f: "map_option ?F (find (\<lambda>n. lde_address_find n a x \<noteq> None) xs) = find ?Q (map ?F xs)" for xs
    by (induction xs) (simp_all add: lde_address_find_def)
  have p: "nbr_ptr o' = (case map_option ?F o' of None \<Rightarrow> Null | Some y \<Rightarrow> Ptr (fst y))" for o'
    by (simp add: nbr_ptr_def split: option.split)
  show ?thesis using f[of "inorder (lde_nbrs t)"] f[of "inorder (lde_nbrs s)"] assms
    unfolding p lde_nbr_find_by_addr_def rb_foreach_inorder nbr_frame_def by simp
qed

lemma last_nexthop_frame:
  assumes "nbr_frame t = nbr_frame s"
  shows "last_nexthop_nbr fn t = last_nexthop_nbr fn s"
  unfolding last_nexthop_nbr_def nbr_find_by_addr_frame[OF assms] ..

definition tree_fec :: "u32 \<Rightarrow> u8 \<Rightarrow> fec \<Rightarrow> fec" where
  "tree_fec root ov f = (set_ipv4 root ov fec_zero)\<lparr>ftype := ftype f\<rparr>"

text \<open>What a join that ends has done.\<close>

lemma tree_up_Inr:
  assumes "tree_up root ov s = Inr t" and "find_root root s = Some f"
  obtains fn pid n where "fec_find fn_fec (ft s) f = Some fn" and "last_nexthop_nbr fn s = Ptr pid"
    and "nbr_deref s pid = Inr n"
    and "lbs t = insert \<lparr>lb_label = NO_LABEL, lb_local_label = label_ctr s + 1, lb_peerid = pid,
      lb_fec = tree_fec root ov f, lb_type = STREAM_TYPE_UP\<rparr> (lbs s)"
    and "ft t = ft s" and "nbr_frame t = nbr_frame s"
proof -
  let ?s0 = "s\<lparr>leaf := 1\<rparr>" and ?l = "label_ctr s + 1" and ?f = "tree_fec root ov f"
  let ?s2 = "s\<lparr>leaf := 1, label_ctr := ?l, tmps := tmps s @ [(fec_node_new ?f ?l, True)]\<rparr>"
  have r: "find_root root ?s0 = Some f" using assms(2) by (simp add: find_root_def)
  have ln: "last_nexthop_nbr fn ?s0 = last_nexthop_nbr fn s" for fn by (rule last_nexthop_frame) (simp add: nbr_frame_def)
  obtain fn pid n s3 s4 where x: "fec_find fn_fec (ft s) f = Some fn" "ptr_get (last_nexthop_nbr fn s) = Inr pid"
    "nbr_deref ?s2 pid = Inr n" "label_nbr_add NO_LABEL ?l (peerid n) ?f STREAM_TYPE_UP ?s2 = Inr s3"
    "lde_send_labelmapping pid (Tmp (length (tmps s))) True s3 = Inr s4" "t = tmp_free (Tmp (length (tmps s))) s4"
    using assms(1) unfolding tree_up_def Let_def r
    by (auto simp: ln lde_assign_label_def tmp_alloc_def tree_fec_def Let_def split: option.splits)
  have p: "last_nexthop_nbr fn s = Ptr pid" using x(2) by (cases "last_nexthop_nbr fn s") simp_all
  have n: "nbr_deref s pid = Inr n" "peerid n = pid" using x(3) nbr_deref_in[OF x(3)] nbr_deref_nbrs[of ?s2 s pid] by simp_all
  obtain y where y: "s3 = ?s2\<lparr>label_nbrs := y\<rparr>" using label_nbr_add_Inr(2)[OF x(4)] by blast
  have s4: "ft s4 = ft s3" "nbr_frame s4 = nbr_frame s3" "label_nbrs s4 = label_nbrs s3"
    using tmp_mapping_frame[of pid "length (tmps s)" True s3] x(5) by simp_all
  have "nbr_frame t = nbr_frame s" using s4(2) y x(6) by (simp add: nbr_frame_def tmp_free_def)
  moreover have "ft t = ft s" using s4(1) y x(6) by (simp add: tmp_free_def)
  moreover have "lbs t = insert \<lparr>lb_label = NO_LABEL, lb_local_label = ?l, lb_peerid = pid, lb_fec = ?f,
      lb_type = STREAM_TYPE_UP\<rparr> (lbs s)"
    using label_nbr_add_Inr(1)[OF x(4)] s4(3) x(6) n(2) by simp
  ultimately show ?thesis using that[OF x(1) p n(1)] by blast
qed

text \<open>
  C31: joining the same tree twice ends the process.  Once a join has been processed for a root the
  engine knows, the next join for the same root and opaque value is a fatal error.
\<close>

theorem join_twice_fatal:
  assumes inv: "lde_inv s" and "find_root root s = Some f" and "tree_up root ov s = Inr t"
  shows "tree_up root ov t = Inl (Fatal ''lde_nbr_new: RB_INSERT failed'')"
proof -
  obtain fn pid n where x: "fec_find fn_fec (ft s) f = Some fn" "last_nexthop_nbr fn s = Ptr pid" "nbr_deref s pid = Inr n"
    "lbs t = insert \<lparr>lb_label = NO_LABEL, lb_local_label = label_ctr s + 1, lb_peerid = pid,
      lb_fec = tree_fec root ov f, lb_type = STREAM_TYPE_UP\<rparr> (lbs s)"
    "ft t = ft s" "nbr_frame t = nbr_frame s" by (rule tree_up_Inr[OF assms(3,2)])
  let ?e = "\<lparr>lb_label = NO_LABEL, lb_local_label = label_ctr s + 1, lb_peerid = pid, lb_fec = tree_fec root ov f,
    lb_type = STREAM_TYPE_UP\<rparr>"
  have inv': "lde_inv t" using tree_up_keeps[OF inv, of root ov] assms(3) by simp
  have r: "find_root root (t\<lparr>leaf := 1\<rparr>) = Some f" using assms(2) x(5) by (simp add: find_root_def)
  have ln: "last_nexthop_nbr fn (t\<lparr>leaf := 1\<rparr>) = Ptr pid"
    using last_nexthop_frame[of "t\<lparr>leaf := 1\<rparr>" s] x(2,6) by (simp add: nbr_frame_def)
  have "pid \<in> peerid ` nbs t" using nbr_deref_in[OF x(3)] nbr_frame_live[OF x(6), of pid] by (auto simp: nbr_live_def)
  then obtain n' where n': "nbr_deref t pid = Inr n'" "peerid n' = pid" using nbr_deref_iff[OF inv'] by auto
  have d: "nbr_deref (t\<lparr>leaf := i, label_ctr := c, tmps := z\<rparr>) pid = Inr n'" for i c z
    using n'(1) nbr_deref_nbrs[of "t\<lparr>leaf := i, label_ctr := c, tmps := z\<rparr>" t] by simp
  have o: "label_nbr_order.ordered lb_key (label_nbrs t)" using inv' by (simp add: lde_inv_defs)
  have "rb_find label_nbr_compare lb_key (tree_fec root ov f, pid) (label_nbrs t) = Some ?e"
    using label_nbr_order.find_self[OF o, of ?e] x(4) by (simp add: lb_key_def)
  then have "rb_insert label_nbr_compare lb_key \<lparr>lb_label = NO_LABEL, lb_local_label = l, lb_peerid = pid,
      lb_fec = tree_fec root ov f, lb_type = STREAM_TYPE_UP\<rparr> (label_nbrs t) = (Some ?e, label_nbrs t)" for l
    by (intro rb_insert_present) (simp add: lb_key_def)
  then show ?thesis unfolding tree_up_def Let_def r
    using x(1,5) ln d n'(2) by (simp add: tmp_alloc_def lde_assign_label_def Let_def label_nbr_add_def tree_fec_def)
qed


lemma demo_root: "find_root (in_addr4 8 8 8 8) demo_state = Some route_demo_fec"
proof -
  have "ipv4_prefix demo_fec = in_addr4 7 7 7 7" "ipv4_prefix route_demo_fec = in_addr4 8 8 8 8"
    by (simp_all add: demo_fec_def route_demo_fec_def set_ipv4_def ipv4_prefix_def)
  moreover have "in_addr4 7 7 7 7 \<noteq> in_addr4 8 8 8 8" by (simp add: in_addr4_def of_le32_def)
  ultimately show ?thesis by (simp add: find_root_def rb_foreach_inorder)
qed

theorem join_twice_fatal_witness:
  "\<exists>t. tree_up (in_addr4 8 8 8 8) 1 demo_state = Inr t \<and>
     tree_up (in_addr4 8 8 8 8) 1 t = Inl (Fatal ''lde_nbr_new: RB_INSERT failed'')"
proof -
  have "case tree_up (in_addr4 8 8 8 8) 1 demo_state of Inl e \<Rightarrow> False | Inr t \<Rightarrow> True" by code_simp
  then obtain t where "tree_up (in_addr4 8 8 8 8) 1 demo_state = Inr t" by (auto split: sum.splits)
  then show ?thesis using join_twice_fatal[OF reach_inv[OF demo_reach] demo_root] by blast
qed





subsection \<open>Runs that end the process\<close>




subsection \<open>The root of a tree is known\<close>

lemma fec_key_prefix: "fec_key f = fec_key g \<Longrightarrow> ipv4_prefix f = ipv4_prefix g"
  by (auto simp: fec_key_def s6_addr_inject ipv6_prefix_def ipv4_prefix_def pwid_pwid_def split: fec_type.splits)

text \<open>
  C27: the entry of the root exists when the multipoint part of a mapping runs.  After the ordinary
  part of the mapping of a known neighbour, the search for the address of the root finds an entry,
  so the variables it sets are set.
\<close>

theorem mapping_root_known:
  assumes "lde_reach s" and "lde_nbr_find s pid = Some n" and "lde_map2fec m (nbr_id n) = Inr fec"
    and "lde_check_mapping m pid s = Inr t"
  shows "\<exists>f fn. find_root (ipv4_prefix fec) t = Some f \<and> fec_find fn_fec (ft t) f = Some fn"
proof -
  have inv: "lde_inv s" by (rule reach_inv[OF assms(1)])
  note n = lde_nbr_find_Some[OF assms(2)]
  obtain x where t: "lde_inv t" "x \<in> fns t" "fec_key (fn_fec x) = fec_key fec"
    using check_mapping_ok[OF inv _ _ assms(3), of pid] n assms(4) by auto
  then have "find_root (ipv4_prefix fec) t \<noteq> None"
    using fec_key_prefix[OF t(3)] by (auto simp: find_root_def rb_foreach_inorder find_None_none)
  then obtain f where f: "find_root (ipv4_prefix fec) t = Some f" by blast
  then obtain fn where "fn \<in> fns t" "fn_fec fn = f"
    by (auto simp: find_root_def rb_foreach_inorder dest!: find_Some_in)
  then show ?thesis using f fec_find_entry[OF t(1), of fn f] by auto
qed

theorem mapping_root_known_witness:
  "\<exists>t f. lde_check_mapping route_demo_map 1 demo_state = Inr t \<and> find_root (ipv4_prefix route_demo_fec) t = Some f"
proof -
  have inv: "lde_inv demo_state" by (rule reach_inv[OF demo_reach])
  obtain t where "lde_check_mapping route_demo_map 1 demo_state = Inr t"
    using check_mapping_ok[OF inv _ _ route_demo_fec2, of demo_nbr 1] by (auto simp: ensures_iff)
  then show ?thesis using mapping_root_known[OF demo_reach demo_find route_demo_fec2] by blast
qed

end
