(* ===== verification/Ldpe_State.thy ===== *)
theory Ldpe_State
  imports Lde_Mldp
begin

text \<open>
  The state of the protocol engine (\<open>ldpd/ldpe.h\<close>, \<open>ldpd/ldpd.h\<close>): neighbours with their sessions,
  hello adjacencies, interfaces, targeted neighbours, pending connections and the configuration the
  engine works with.

  Neighbours, adjacencies, interfaces and targeted neighbours are objects of a heap: a pointer is a
  number, and following one that points to no object is the fault \<open>Use_after_free\<close>.  The three trees of
  neighbours hold pointers.  A TCP connection belongs to one neighbour and is kept in it.  A timer that
  is armed is the number of seconds it was armed with.

  What the engine hands to others is appended to logs in the order it is handed over: messages to the
  label decision engine, PDUs put on the write buffer of a connection (with its descriptor), hello
  packets.  The times kept for display (\<open>uptime\<close>), the port numbers and the MD5 keys are left out: nothing
  in the engine depends on them.
\<close>

subsection \<open>Neighbour states, events and actions\<close>

abbreviation (input) NBR_STA_PRESENT :: u32 where "NBR_STA_PRESENT \<equiv> 0x0001"
abbreviation (input) NBR_STA_INITIAL :: u32 where "NBR_STA_INITIAL \<equiv> 0x0002"
abbreviation (input) NBR_STA_OPENREC :: u32 where "NBR_STA_OPENREC \<equiv> 0x0004"
abbreviation (input) NBR_STA_OPENSENT :: u32 where "NBR_STA_OPENSENT \<equiv> 0x0008"
abbreviation (input) NBR_STA_OPER :: u32 where "NBR_STA_OPER \<equiv> 0x0010"

definition NBR_STA_SESSION :: u32 where
  "NBR_STA_SESSION = NBR_STA_INITIAL OR NBR_STA_OPENREC OR NBR_STA_OPENSENT OR NBR_STA_OPER"

datatype nbr_event =
    NBR_EVT_NOTHING
  | NBR_EVT_MATCH_ADJ
  | NBR_EVT_CONNECT_UP
  | NBR_EVT_CLOSE_SESSION
  | NBR_EVT_INIT_RCVD
  | NBR_EVT_KEEPALIVE_RCVD
  | NBR_EVT_PDU_RCVD
  | NBR_EVT_PDU_SENT
  | NBR_EVT_INIT_SENT

datatype nbr_action =
    NBR_ACT_NOTHING
  | NBR_ACT_RST_KTIMEOUT
  | NBR_ACT_SESSION_EST
  | NBR_ACT_RST_KTIMER
  | NBR_ACT_CONNECT_SETUP
  | NBR_ACT_PASSIVE_INIT
  | NBR_ACT_KEEPALIVE_SEND
  | NBR_ACT_CLOSE_SESSION

subsection \<open>Records\<close>

record tcp_conn =
  t_fd :: int
  t_rbuf :: "byte list"

record nbr =
  n_tcp :: "tcp_conn option"
  n_adj_list :: "nat list"
  n_ev_connect :: bool
  n_keepalive_timer :: "int option"
  n_keepalive_timeout :: "int option"
  n_init_timeout :: "int option"
  n_initdelay_timer :: "int option"
  n_mapping_list :: "map_tlv list"
  n_withdraw_list :: "map_tlv list"
  n_request_list :: "map_tlv list"
  n_release_list :: "map_tlv list"
  n_abortreq_list :: "map_tlv list"
  n_peerid :: u32
  n_af :: af
  n_ds_tlv :: bool
  n_v4_enabled :: bool
  n_v6_enabled :: bool
  n_id :: u32
  n_laddr :: ldpd_addr
  n_raddr :: ldpd_addr
  n_raddr_scope :: u32
  n_fd :: int
  n_state :: u32
  n_conf_seqnum :: u32
  n_idtimer_cnt :: int
  n_keepalive :: u16
  n_max_pdu_len :: u16
  n_flags :: u32

abbreviation (input) F_NBR_GTSM_NEGOTIATED :: u32 where "F_NBR_GTSM_NEGOTIATED \<equiv> 0x01"

text \<open>
  The source of a hello: the interface it came in on (with the address family, which selects the
  \<open>iface_af\<close>) and the address it came from, or the targeted neighbour.
\<close>

datatype hello_source =
    HELLO_LINK nat af ldpd_addr
  | HELLO_TARGETED nat

record adj =
  adj_lsr_id :: u32
  adj_nbr :: "nat option"
  adj_source :: hello_source
  adj_inactivity_timer :: "int option"
  adj_holdtime :: u16
  adj_trans_addr :: ldpd_addr

record if_addr =
  ifa_af :: af
  ifa_addr :: ldpd_addr
  ifa_prefixlen :: u8
  ifa_dstbrd :: ldpd_addr

record iface_af =
  ia_enabled :: bool
  ia_active :: bool
  ia_adj_list :: "nat list"
  ia_hello_timer :: "int option"
  ia_hello_holdtime :: u16
  ia_hello_interval :: u16

record iface =
  if_name :: string
  if_ifindex :: u32
  if_addr_list :: "if_addr list"
  if_linklocal :: ldpd_addr
  if_pointopoint :: bool
  if_flags :: u16
  if_ipv4 :: iface_af
  if_ipv6 :: iface_af

record tnbr =
  tn_hello_timer :: "int option"
  tn_adj :: "nat option"
  tn_af :: af
  tn_addr :: ldpd_addr
  tn_active :: bool
  tn_pw_count :: u16
  tn_flags :: u8

abbreviation (input) F_TNBR_CONFIGURED :: u8 where "F_TNBR_CONFIGURED \<equiv> 0x01"
abbreviation (input) F_TNBR_DYNAMIC :: u8 where "F_TNBR_DYNAMIC \<equiv> 0x02"

record nbr_params =
  np_lsr_id :: u32
  np_keepalive :: u16
  np_gtsm_enabled :: bool
  np_gtsm_hops :: u8
  np_md5sig :: bool
  np_flags :: u8

abbreviation (input) F_NBRP_KEEPALIVE :: u8 where "F_NBRP_KEEPALIVE \<equiv> 0x01"
abbreviation (input) F_NBRP_GTSM :: u8 where "F_NBRP_GTSM \<equiv> 0x02"
abbreviation (input) F_NBRP_GTSM_HOPS :: u8 where "F_NBRP_GTSM_HOPS \<equiv> 0x04"

record pending_conn =
  pc_fd :: int
  pc_af :: af
  pc_addr :: ldpd_addr

record ldpd_af_conf =
  ac_keepalive :: u16
  ac_lhello_holdtime :: u16
  ac_lhello_interval :: u16
  ac_thello_holdtime :: u16
  ac_thello_interval :: u16
  ac_trans_addr :: ldpd_addr
  ac_flags :: u32

abbreviation (input) F_LDPD_AF_ENABLED :: u32 where "F_LDPD_AF_ENABLED \<equiv> 0x0001"
abbreviation (input) F_LDPD_AF_THELLO_ACCEPT :: u32 where "F_LDPD_AF_THELLO_ACCEPT \<equiv> 0x0002"
abbreviation (input) F_LDPD_AF_NO_GTSM :: u32 where "F_LDPD_AF_NO_GTSM \<equiv> 0x0008"

record ldpd_conf =
  c_rtr_id :: u32
  c_ipv4 :: ldpd_af_conf
  c_ipv6 :: ldpd_af_conf
  c_iface_list :: "nat list"
  c_tnbr_list :: "nat list"
  c_nbrp_list :: "nbr_params list"
  c_lhello_holdtime :: u16
  c_lhello_interval :: u16
  c_thello_holdtime :: u16
  c_thello_interval :: u16
  c_trans_pref :: u16
  c_flags :: u32

abbreviation (input) F_LDPD_DS_CISCO_INTEROP :: u32 where "F_LDPD_DS_CISCO_INTEROP \<equiv> 0x0002"

record ldpd_af_global =
  ag_disc_socket :: int
  ag_edisc_socket :: int
  ag_session_socket :: int

text \<open>A hello packet on its way out: socket, destination, interface it is bound to, bytes.\<close>

record hello_pkt =
  hp_fd :: int
  hp_af :: af
  hp_dst :: ldpd_addr
  hp_bytes :: "byte list"

record ldpe =
  e_nbrs :: "nat \<Rightarrow> nbr option"
  nbrs_by_id :: "nat rbt"
  nbrs_by_addr :: "nat rbt"
  nbrs_by_pid :: "nat rbt"
  e_adjs :: "nat \<Rightarrow> adj option"
  e_adj_list :: "nat list"
  e_ifaces :: "nat \<Rightarrow> iface option"
  e_tnbrs :: "nat \<Rightarrow> tnbr option"
  e_next :: nat
  leconf :: ldpd_conf
  g_rtr_id :: u32
  g_ipv4 :: ldpd_af_global
  g_ipv6 :: ldpd_af_global
  g_conf_seqnum :: u32
  g_addr_list :: "if_addr list"
  g_pending_conns :: "pending_conn list"
  e_detached :: "int list"
  msgcnt :: u32
  peercnt :: u32
  e_to_lde :: "ldpe_imsg list"
  e_net :: "(int \<times> byte list) list"
  e_hellos :: "hello_pkt list"

subsection \<open>Following pointers\<close>

definition nbr_get :: "nat \<Rightarrow> ldpe \<Rightarrow> nbr result" where
  "nbr_get h s = (case e_nbrs s h of None \<Rightarrow> Inl Use_after_free | Some n \<Rightarrow> Inr n)"

definition nbr_set :: "nat \<Rightarrow> (nbr \<Rightarrow> nbr) \<Rightarrow> ldpe \<Rightarrow> ldpe" where
  "nbr_set h g s = s\<lparr>e_nbrs := (e_nbrs s)(h := map_option g (e_nbrs s h))\<rparr>"

definition adj_get :: "nat \<Rightarrow> ldpe \<Rightarrow> adj result" where
  "adj_get a s = (case e_adjs s a of None \<Rightarrow> Inl Use_after_free | Some x \<Rightarrow> Inr x)"

definition adj_set :: "nat \<Rightarrow> (adj \<Rightarrow> adj) \<Rightarrow> ldpe \<Rightarrow> ldpe" where
  "adj_set a g s = s\<lparr>e_adjs := (e_adjs s)(a := map_option g (e_adjs s a))\<rparr>"

definition iface_get :: "nat \<Rightarrow> ldpe \<Rightarrow> iface result" where
  "iface_get i s = (case e_ifaces s i of None \<Rightarrow> Inl Use_after_free | Some x \<Rightarrow> Inr x)"

definition tnbr_get :: "nat \<Rightarrow> ldpe \<Rightarrow> tnbr result" where
  "tnbr_get t s = (case e_tnbrs s t of None \<Rightarrow> Inl Use_after_free | Some x \<Rightarrow> Inr x)"

definition tnbr_set :: "nat \<Rightarrow> (tnbr \<Rightarrow> tnbr) \<Rightarrow> ldpe \<Rightarrow> ldpe" where
  "tnbr_set t g s = s\<lparr>e_tnbrs := (e_tnbrs s)(t := map_option g (e_tnbrs s t))\<rparr>"

text \<open>The connection of a neighbour; the pointer is \<open>NULL\<close> when there is none.\<close>

definition nbr_tcp :: "nat \<Rightarrow> ldpe \<Rightarrow> tcp_conn result" where
  "nbr_tcp h s = and_then (nbr_get h s) (\<lambda>n. case n_tcp n of None \<Rightarrow> Inl Null_deref | Some t \<Rightarrow> Inr t)"

subsection \<open>Configuration\<close>

definition ldp_af_conf_get :: "ldpd_conf \<Rightarrow> af \<Rightarrow> ldpd_af_conf" where
  "ldp_af_conf_get c a = (case a of AF_INET \<Rightarrow> c_ipv4 c | AF_INET6 \<Rightarrow> c_ipv6 c)"

definition ldp_af_global_get :: "ldpe \<Rightarrow> af \<Rightarrow> ldpd_af_global" where
  "ldp_af_global_get s a = (case a of AF_INET \<Rightarrow> g_ipv4 s | AF_INET6 \<Rightarrow> g_ipv6 s)"

definition ldp_is_dual_stack :: "ldpd_conf \<Rightarrow> bool" where
  "ldp_is_dual_stack c \<longleftrightarrow>
     has_flag (ac_flags (c_ipv4 c)) F_LDPD_AF_ENABLED \<and> has_flag (ac_flags (c_ipv6 c)) F_LDPD_AF_ENABLED"

definition ldp_rtr_id_get :: "ldpe \<Rightarrow> u32" where
  "ldp_rtr_id_get s = (if c_rtr_id (leconf s) \<noteq> 0 then c_rtr_id (leconf s) else g_rtr_id s)"

definition nbr_params_find :: "ldpd_conf \<Rightarrow> u32 \<Rightarrow> nbr_params option" where
  "nbr_params_find c lsr_id = find (\<lambda>p. np_lsr_id p = lsr_id) (c_nbrp_list c)"

definition nbr_get_keepalive :: "ldpe \<Rightarrow> af \<Rightarrow> u32 \<Rightarrow> u16" where
  "nbr_get_keepalive s a lsr_id =
     (case nbr_params_find (leconf s) lsr_id of
        Some p \<Rightarrow> if has_flag (np_flags p) F_NBRP_KEEPALIVE then np_keepalive p
                  else ac_keepalive (ldp_af_conf_get (leconf s) a)
      | None \<Rightarrow> ac_keepalive (ldp_af_conf_get (leconf s) a))"

subsection \<open>Logs\<close>

definition ldpe_imsg_compose_lde :: "ldpe_imsg \<Rightarrow> ldpe \<Rightarrow> ldpe" where
  "ldpe_imsg_compose_lde m s = s\<lparr>e_to_lde := e_to_lde s @ [m]\<rparr>"

definition evbuf_enqueue :: "int \<Rightarrow> byte list \<Rightarrow> ldpe \<Rightarrow> ldpe" where
  "evbuf_enqueue fd pdu s = s\<lparr>e_net := e_net s @ [(fd, pdu)]\<rparr>"

subsection \<open>Facts on the accessors\<close>

named_theorems ldpe_simps "accessors of the engine's heap"

lemma nbr_get_set [ldpe_simps]:
  "nbr_get h (nbr_set k g s) = (if h = k then and_then (nbr_get h s) (\<lambda>n. Inr (g n)) else nbr_get h s)"
  by (auto simp: nbr_get_def nbr_set_def split: option.splits)

lemma nbr_set_fields [simp]:
  "nbrs_by_id (nbr_set h g s) = nbrs_by_id s"
  "nbrs_by_addr (nbr_set h g s) = nbrs_by_addr s"
  "nbrs_by_pid (nbr_set h g s) = nbrs_by_pid s"
  "e_adjs (nbr_set h g s) = e_adjs s"
  "e_adj_list (nbr_set h g s) = e_adj_list s"
  "e_ifaces (nbr_set h g s) = e_ifaces s"
  "e_tnbrs (nbr_set h g s) = e_tnbrs s"
  "e_next (nbr_set h g s) = e_next s"
  "leconf (nbr_set h g s) = leconf s"
  "g_rtr_id (nbr_set h g s) = g_rtr_id s"
  "g_ipv4 (nbr_set h g s) = g_ipv4 s"
  "g_ipv6 (nbr_set h g s) = g_ipv6 s"
  "g_conf_seqnum (nbr_set h g s) = g_conf_seqnum s"
  "g_addr_list (nbr_set h g s) = g_addr_list s"
  "g_pending_conns (nbr_set h g s) = g_pending_conns s"
  "e_detached (nbr_set h g s) = e_detached s"
  "msgcnt (nbr_set h g s) = msgcnt s"
  "peercnt (nbr_set h g s) = peercnt s"
  "e_to_lde (nbr_set h g s) = e_to_lde s"
  "e_net (nbr_set h g s) = e_net s"
  "e_hellos (nbr_set h g s) = e_hellos s"
  by (simp_all add: nbr_set_def)

lemma e_nbrs_set [ldpe_simps]:
  "e_nbrs (nbr_set h g s) k = (if k = h then map_option g (e_nbrs s h) else e_nbrs s k)"
  by (simp add: nbr_set_def)

end
