(* ===== verification/Ldpe_Wire.thy ===== *)
theory Ldpe_Wire
  imports Ldpe_State
begin

text \<open>
  What the protocol engine writes to the wire: the write buffers of \<open>lib/imsg-buffer.c\<close>, the headers of
  \<open>packet.c\<close> and the TLVs of \<open>labelmapping.c\<close>, \<open>notification.c\<close>, \<open>init.c\<close>, \<open>address.c\<close> and \<open>hello.c\<close>.

  A field that C stores with \<open>htons\<close> or \<open>htonl\<close> is \<open>be16\<close> or \<open>be32\<close> of its value; a field that is copied
  as it is (addresses and router ids, which are kept in network byte order) is the bytes of the word in
  memory, \<open>le32\<close>.  The generators collect their errors with \<open>err |= ...\<close>; here the error flag is carried
  with the buffer.
\<close>

subsection \<open>Constants of the protocol\<close>

abbreviation (input) LDP_VERSION :: u16 where "LDP_VERSION \<equiv> 1"
abbreviation (input) LDP_MAX_LEN :: u16 where "LDP_MAX_LEN \<equiv> 4096"
abbreviation (input) IBUF_READ_SIZE :: nat where "IBUF_READ_SIZE \<equiv> 65535"
abbreviation (input) MIN_KEEPALIVE :: u16 where "MIN_KEEPALIVE \<equiv> 3"
abbreviation (input) MIN_HOLDTIME :: u16 where "MIN_HOLDTIME \<equiv> 3"
abbreviation (input) INFINITE_HOLDTIME :: u16 where "INFINITE_HOLDTIME \<equiv> 0xffff"
abbreviation (input) LINK_DFLT_HOLDTIME :: u16 where "LINK_DFLT_HOLDTIME \<equiv> 15"
abbreviation (input) TARGETED_DFLT_HOLDTIME :: u16 where "TARGETED_DFLT_HOLDTIME \<equiv> 45"

abbreviation (input) LDP_HDR_SIZE :: u16 where "LDP_HDR_SIZE \<equiv> 10"
abbreviation (input) LDP_HDR_PDU_LEN :: u16 where "LDP_HDR_PDU_LEN \<equiv> 6"
abbreviation (input) LDP_HDR_DEAD_LEN :: u16 where "LDP_HDR_DEAD_LEN \<equiv> 4"
abbreviation (input) TLV_HDR_SIZE :: u16 where "TLV_HDR_SIZE \<equiv> 4"
abbreviation (input) LDP_MSG_SIZE :: u16 where "LDP_MSG_SIZE \<equiv> 8"
abbreviation (input) LDP_MSG_LEN :: u16 where "LDP_MSG_LEN \<equiv> 4"
abbreviation (input) LDP_MSG_DEAD_LEN :: u16 where "LDP_MSG_DEAD_LEN \<equiv> 4"
abbreviation (input) SESS_PRMS_SIZE :: u16 where "SESS_PRMS_SIZE \<equiv> 18"
abbreviation (input) SESS_PRMS_LEN :: u16 where "SESS_PRMS_LEN \<equiv> 14"
abbreviation (input) STATUS_SIZE :: u16 where "STATUS_SIZE \<equiv> 14"
abbreviation (input) STATUS_TLV_LEN :: u16 where "STATUS_TLV_LEN \<equiv> 10"
abbreviation (input) FEC_ELM_WCARD_LEN :: u16 where "FEC_ELM_WCARD_LEN \<equiv> 1"
abbreviation (input) FEC_ELM_PREFIX_MIN_LEN :: u16 where "FEC_ELM_PREFIX_MIN_LEN \<equiv> 4"
abbreviation (input) FEC_PWID_ELM_MIN_LEN :: u16 where "FEC_PWID_ELM_MIN_LEN \<equiv> 8"
abbreviation (input) LABEL_TLV_SIZE :: u16 where "LABEL_TLV_SIZE \<equiv> 8"
abbreviation (input) LABEL_TLV_LEN :: u16 where "LABEL_TLV_LEN \<equiv> 4"
abbreviation (input) REQID_TLV_SIZE :: u16 where "REQID_TLV_SIZE \<equiv> 8"
abbreviation (input) REQID_TLV_LEN :: u16 where "REQID_TLV_LEN \<equiv> 4"
abbreviation (input) PW_STATUS_TLV_SIZE :: u16 where "PW_STATUS_TLV_SIZE \<equiv> 8"
abbreviation (input) PW_STATUS_TLV_LEN :: u16 where "PW_STATUS_TLV_LEN \<equiv> 4"
abbreviation (input) FEC_SUBTLV_IFMTU_SIZE :: u16 where "FEC_SUBTLV_IFMTU_SIZE \<equiv> 4"
abbreviation (input) SUBTLV_IFMTU :: u8 where "SUBTLV_IFMTU \<equiv> 1"
abbreviation (input) CONTROL_WORD_FLAG :: u16 where "CONTROL_WORD_FLAG \<equiv> 0x8000"
abbreviation (input) UNKNOWN_FLAG :: u16 where "UNKNOWN_FLAG \<equiv> 0x8000"
abbreviation (input) STATUS_FATAL :: u32 where "STATUS_FATAL \<equiv> 0x80000000"

abbreviation (input) MSG_TYPE_NOTIFICATION :: u16 where "MSG_TYPE_NOTIFICATION \<equiv> 0x0001"
abbreviation (input) MSG_TYPE_HELLO :: u16 where "MSG_TYPE_HELLO \<equiv> 0x0100"
abbreviation (input) MSG_TYPE_INIT :: u16 where "MSG_TYPE_INIT \<equiv> 0x0200"
abbreviation (input) MSG_TYPE_KEEPALIVE :: u16 where "MSG_TYPE_KEEPALIVE \<equiv> 0x0201"
abbreviation (input) MSG_TYPE_ADDR :: u16 where "MSG_TYPE_ADDR \<equiv> 0x0300"
abbreviation (input) MSG_TYPE_ADDRWITHDRAW :: u16 where "MSG_TYPE_ADDRWITHDRAW \<equiv> 0x0301"
abbreviation (input) MSG_TYPE_LABELMAPPING :: u16 where "MSG_TYPE_LABELMAPPING \<equiv> 0x0400"
abbreviation (input) MSG_TYPE_LABELREQUEST :: u16 where "MSG_TYPE_LABELREQUEST \<equiv> 0x0401"
abbreviation (input) MSG_TYPE_LABELWITHDRAW :: u16 where "MSG_TYPE_LABELWITHDRAW \<equiv> 0x0402"
abbreviation (input) MSG_TYPE_LABELRELEASE :: u16 where "MSG_TYPE_LABELRELEASE \<equiv> 0x0403"
abbreviation (input) MSG_TYPE_LABELABORTREQ :: u16 where "MSG_TYPE_LABELABORTREQ \<equiv> 0x0404"

abbreviation (input) TLV_TYPE_FEC :: u16 where "TLV_TYPE_FEC \<equiv> 0x0100"
abbreviation (input) TLV_TYPE_ADDRLIST :: u16 where "TLV_TYPE_ADDRLIST \<equiv> 0x0101"
abbreviation (input) TLV_TYPE_HOPCOUNT :: u16 where "TLV_TYPE_HOPCOUNT \<equiv> 0x0103"
abbreviation (input) TLV_TYPE_PATHVECTOR :: u16 where "TLV_TYPE_PATHVECTOR \<equiv> 0x0104"
abbreviation (input) TLV_TYPE_GENERICLABEL :: u16 where "TLV_TYPE_GENERICLABEL \<equiv> 0x0200"
abbreviation (input) TLV_TYPE_ATMLABEL :: u16 where "TLV_TYPE_ATMLABEL \<equiv> 0x0201"
abbreviation (input) TLV_TYPE_FRLABEL :: u16 where "TLV_TYPE_FRLABEL \<equiv> 0x0202"
abbreviation (input) TLV_TYPE_STATUS :: u16 where "TLV_TYPE_STATUS \<equiv> 0x0300"
abbreviation (input) TLV_TYPE_EXTSTATUS :: u16 where "TLV_TYPE_EXTSTATUS \<equiv> 0x0301"
abbreviation (input) TLV_TYPE_RETURNEDPDU :: u16 where "TLV_TYPE_RETURNEDPDU \<equiv> 0x0302"
abbreviation (input) TLV_TYPE_RETURNEDMSG :: u16 where "TLV_TYPE_RETURNEDMSG \<equiv> 0x0303"
abbreviation (input) TLV_TYPE_COMMONHELLO :: u16 where "TLV_TYPE_COMMONHELLO \<equiv> 0x0400"
abbreviation (input) TLV_TYPE_IPV4TRANSADDR :: u16 where "TLV_TYPE_IPV4TRANSADDR \<equiv> 0x0401"
abbreviation (input) TLV_TYPE_CONFIG :: u16 where "TLV_TYPE_CONFIG \<equiv> 0x0402"
abbreviation (input) TLV_TYPE_IPV6TRANSADDR :: u16 where "TLV_TYPE_IPV6TRANSADDR \<equiv> 0x0403"
abbreviation (input) TLV_TYPE_COMMONSESSION :: u16 where "TLV_TYPE_COMMONSESSION \<equiv> 0x0500"
abbreviation (input) TLV_TYPE_ATMSESSIONPAR :: u16 where "TLV_TYPE_ATMSESSIONPAR \<equiv> 0x0501"
abbreviation (input) TLV_TYPE_FRSESSION :: u16 where "TLV_TYPE_FRSESSION \<equiv> 0x0502"
abbreviation (input) TLV_TYPE_LABELREQUEST :: u16 where "TLV_TYPE_LABELREQUEST \<equiv> 0x0600"
abbreviation (input) TLV_TYPE_PW_STATUS :: u16 where "TLV_TYPE_PW_STATUS \<equiv> 0x096A"
abbreviation (input) TLV_TYPE_DUALSTACK :: u16 where "TLV_TYPE_DUALSTACK \<equiv> 0x8701"

abbreviation (input) S_BAD_LDP_ID :: u32 where "S_BAD_LDP_ID \<equiv> 0x80000001"
abbreviation (input) S_BAD_PROTO_VER :: u32 where "S_BAD_PROTO_VER \<equiv> 0x80000002"
abbreviation (input) S_BAD_PDU_LEN :: u32 where "S_BAD_PDU_LEN \<equiv> 0x80000003"
abbreviation (input) S_UNKNOWN_MSG :: u32 where "S_UNKNOWN_MSG \<equiv> 0x00000004"
abbreviation (input) S_BAD_MSG_LEN :: u32 where "S_BAD_MSG_LEN \<equiv> 0x80000005"
abbreviation (input) S_UNKNOWN_TLV :: u32 where "S_UNKNOWN_TLV \<equiv> 0x00000006"
abbreviation (input) S_BAD_TLV_LEN :: u32 where "S_BAD_TLV_LEN \<equiv> 0x80000007"
abbreviation (input) S_BAD_TLV_VAL :: u32 where "S_BAD_TLV_VAL \<equiv> 0x80000008"
abbreviation (input) S_HOLDTIME_EXP :: u32 where "S_HOLDTIME_EXP \<equiv> 0x80000009"
abbreviation (input) S_SHUTDOWN :: u32 where "S_SHUTDOWN \<equiv> 0x8000000A"
abbreviation (input) S_UNKNOWN_FEC :: u32 where "S_UNKNOWN_FEC \<equiv> 0x0000000C"
abbreviation (input) S_NO_HELLO :: u32 where "S_NO_HELLO \<equiv> 0x80000010"
abbreviation (input) S_KEEPALIVE_TMR :: u32 where "S_KEEPALIVE_TMR \<equiv> 0x80000014"
abbreviation (input) S_MISS_MSG :: u32 where "S_MISS_MSG \<equiv> 0x00000016"
abbreviation (input) S_UNSUP_ADDR :: u32 where "S_UNSUP_ADDR \<equiv> 0x00000017"
abbreviation (input) S_KEEPALIVE_BAD :: u32 where "S_KEEPALIVE_BAD \<equiv> 0x80000018"
abbreviation (input) S_PW_STATUS :: u32 where "S_PW_STATUS \<equiv> 0x00000028"
abbreviation (input) S_TRANS_MISMTCH :: u32 where "S_TRANS_MISMTCH \<equiv> 0x80000032"
abbreviation (input) S_DS_NONCMPLNCE :: u32 where "S_DS_NONCMPLNCE \<equiv> 0x80000033"

abbreviation (input) F_NOTIF_PW_STATUS :: u8 where "F_NOTIF_PW_STATUS \<equiv> 0x01"
abbreviation (input) F_NOTIF_FEC :: u8 where "F_NOTIF_FEC \<equiv> 0x02"

subsection \<open>Write buffers\<close>

text \<open>A buffer of fixed capacity, and the error flag of the generators that fill it.\<close>

record ibuf =
  ib_max :: nat
  ib_data :: "byte list"
  ib_err :: bool

definition ibuf_open :: "nat \<Rightarrow> ibuf" where
  "ibuf_open len = \<lparr>ib_max = len, ib_data = [], ib_err = False\<rparr>"

definition ibuf_add :: "byte list \<Rightarrow> ibuf \<Rightarrow> ibuf" where
  "ibuf_add data b =
     (if length (ib_data b) + length data > ib_max b then b\<lparr>ib_err := True\<rparr>
      else b\<lparr>ib_data := ib_data b @ data\<rparr>)"

subsection \<open>Headers\<close>

definition gen_ldp_hdr :: "u16 \<Rightarrow> ldpe \<Rightarrow> ibuf \<Rightarrow> ibuf" where
  "gen_ldp_hdr sz s =
     ibuf_add (be16 LDP_VERSION @ be16 (sz - LDP_HDR_DEAD_LEN) @ le32 (ldp_rtr_id_get s) @ be16 0)"

text \<open>Every message header takes the next message id.\<close>

definition gen_msg_hdr :: "u16 \<Rightarrow> u16 \<Rightarrow> ibuf \<times> ldpe \<Rightarrow> ibuf \<times> ldpe" where
  "gen_msg_hdr type sz bs =
     (case bs of (b, s) \<Rightarrow>
        (ibuf_add (be16 type @ be16 (sz - LDP_MSG_DEAD_LEN) @ be32 (msgcnt s + 1)) b,
         s\<lparr>msgcnt := msgcnt s + 1\<rparr>))"

subsection \<open>TLVs of label messages and notifications\<close>

definition gen_label_tlv :: "u32 \<Rightarrow> ibuf \<Rightarrow> ibuf" where
  "gen_label_tlv label = ibuf_add (be16 TLV_TYPE_GENERICLABEL @ be16 LABEL_TLV_LEN @ be32 label)"

definition gen_reqid_tlv :: "u32 \<Rightarrow> ibuf \<Rightarrow> ibuf" where
  "gen_reqid_tlv reqid = ibuf_add (be16 TLV_TYPE_LABELREQUEST @ be16 REQID_TLV_LEN @ be32 reqid)"

definition gen_pw_status_tlv :: "u32 \<Rightarrow> ibuf \<Rightarrow> ibuf" where
  "gen_pw_status_tlv status = ibuf_add (be16 TLV_TYPE_PW_STATUS @ be16 PW_STATUS_TLV_LEN @ be32 status)"

definition le16 :: "u16 \<Rightarrow> byte list" where
  "le16 w = [ucast w, ucast (drop_bit 8 w)]"

text \<open>The message id and type of the message complained about are already in network byte order.\<close>

definition gen_status_tlv :: "u32 \<Rightarrow> u32 \<Rightarrow> u16 \<Rightarrow> ibuf \<Rightarrow> ibuf" where
  "gen_status_tlv status_code msg_id msg_type =
     ibuf_add (be16 TLV_TYPE_STATUS @ be16 STATUS_TLV_LEN @ be32 status_code @ le32 msg_id @ le16 msg_type)"

definition PREFIX_SIZE :: "u8 \<Rightarrow> nat" where
  "PREFIX_SIZE x = (unat x + 7) div 8"

text \<open>The bytes \<open>ibuf_add\<close> copies from the prefix of a map; past the sixteenth it reads on in the map.\<close>

definition prefix_bytes :: "map_tlv \<Rightarrow> byte list" where
  "prefix_bytes m = take (PREFIX_SIZE (m_prefixlen m)) (s6_addr (m_prefix m))"

definition gen_fec_tlv :: "map_tlv \<Rightarrow> ibuf \<Rightarrow> ibuf result" where
  "gen_fec_tlv m b =
     (if m_type m = MAP_TYPE_WILDCARD
      then Inr (ibuf_add [m_type m] (ibuf_add (be16 TLV_TYPE_FEC @ be16 1) b))
      else if m_type m = MAP_TYPE_PREFIX
      then (let len = PREFIX_SIZE (m_prefixlen m);
                b1 = ibuf_add [m_prefixlen m] (ibuf_add (be16 (m_prefix_af m)) (ibuf_add [m_type m]
                       (ibuf_add (be16 TLV_TYPE_FEC @ be16 (of_nat (4 + len))) b)))
            in if len = 0 then Inr b1
               else if 16 < len then Inl Out_of_bounds_read
               else Inr (ibuf_add (prefix_bytes m) b1))
      else if m_type m = MAP_TYPE_PWID
      then (let pw_len = (if has_flag (m_flags m) F_MAP_PW_ID then PW_STATUS_TLV_LEN else 0)
                       + (if has_flag (m_flags m) F_MAP_PW_IFMTU then FEC_SUBTLV_IFMTU_SIZE else 0);
                pw_type = (if has_flag (m_flags m) F_MAP_PW_CWORD then m_pw_type m OR CONTROL_WORD_FLAG
                           else m_pw_type m);
                b1 = ibuf_add (be32 (m_group_id m)) (ibuf_add [ucast pw_len] (ibuf_add (be16 pw_type)
                       (ibuf_add [m_type m]
                         (ibuf_add (be16 TLV_TYPE_FEC @ be16 (FEC_PWID_ELM_MIN_LEN + pw_len)) b))));
                b2 = (if has_flag (m_flags m) F_MAP_PW_ID then ibuf_add (be32 (m_pwid m)) b1 else b1);
                b3 = (if has_flag (m_flags m) F_MAP_PW_IFMTU
                      then ibuf_add (be16 (m_ifmtu m)) (ibuf_add [SUBTLV_IFMTU, ucast FEC_SUBTLV_IFMTU_SIZE] b2)
                      else b2)
            in Inr b3)
      else Inr b)"

subsection \<open>Other TLVs\<close>

definition gen_init_prms_tlv :: "ldpe \<Rightarrow> nbr \<Rightarrow> ibuf \<Rightarrow> ibuf" where
  "gen_init_prms_tlv s n =
     ibuf_add (be16 TLV_TYPE_COMMONSESSION @ be16 SESS_PRMS_LEN @ be16 LDP_VERSION
       @ be16 (nbr_get_keepalive s (n_af n) (n_id n)) @ [0, 0] @ be16 0 @ le32 (n_id n) @ be16 0)"

definition addr_bytes :: "af \<Rightarrow> ldpd_addr \<Rightarrow> byte list" where
  "addr_bytes a x = (case a of AF_INET \<Rightarrow> le32 (a0 x) | AF_INET6 \<Rightarrow> s6_addr x)"

text \<open>The type of the address list TLV is stored without \<open>htons\<close>; both of its bytes are 1.\<close>

definition gen_address_list_tlv :: "u16 \<Rightarrow> af \<Rightarrow> if_addr option \<Rightarrow> ldpe \<Rightarrow> ibuf \<Rightarrow> ibuf" where
  "gen_address_list_tlv sz a ifa s b =
     (let b1 = ibuf_add (le16 TLV_TYPE_ADDRLIST @ be16 (sz - TLV_HDR_SIZE)
                 @ be16 (case a of AF_INET \<Rightarrow> AF_IPV4 | AF_INET6 \<Rightarrow> AF_IPV6)) b
      in case ifa of
           None \<Rightarrow> fold (\<lambda>x. ibuf_add (addr_bytes a (ifa_addr x))) (filter (\<lambda>x. ifa_af x = a) (g_addr_list s)) b1
         | Some x \<Rightarrow> ibuf_add (addr_bytes a (ifa_addr x)) b1)"

definition gen_hello_prms_tlv :: "u16 \<Rightarrow> u16 \<Rightarrow> ibuf \<Rightarrow> ibuf" where
  "gen_hello_prms_tlv holdtime flags =
     ibuf_add (be16 TLV_TYPE_COMMONHELLO @ be16 4 @ be16 holdtime @ be16 flags)"

text \<open>The value is stored as it is passed.\<close>

definition gen_opt4_hello_prms_tlv :: "u16 \<Rightarrow> u32 \<Rightarrow> ibuf \<Rightarrow> ibuf" where
  "gen_opt4_hello_prms_tlv type value = ibuf_add (be16 type @ be16 4 @ le32 value)"

definition gen_opt16_hello_prms_tlv :: "u16 \<Rightarrow> ldpd_addr \<Rightarrow> ibuf \<Rightarrow> ibuf" where
  "gen_opt16_hello_prms_tlv type value = ibuf_add (be16 type @ be16 16 @ s6_addr value)"

definition gen_ds_hello_prms_tlv :: "ldpe \<Rightarrow> u32 \<Rightarrow> ibuf \<Rightarrow> ibuf" where
  "gen_ds_hello_prms_tlv s value =
     gen_opt4_hello_prms_tlv TLV_TYPE_DUALSTACK
       (if has_flag (c_flags (leconf s)) F_LDPD_DS_CISCO_INTEROP then htonl value else htonl (push_bit 28 value))"

end
