(* ===== verification/Ldpe_Session.thy ===== *)
theory Ldpe_Session
  imports Ldpe_Wire
begin

text \<open>
  The session of a neighbour (\<open>ldpd/neighbor.c\<close>, the session functions of \<open>ldpd/packet.c\<close>, and the
  messages that are sent from inside the state machine: \<open>init.c\<close>, \<open>keepalive.c\<close>, \<open>notification.c\<close>,
  \<open>address.c\<close>).

  \<open>nbr_fsm\<close> and \<open>send_address\<close> call each other: establishing a session sends the addresses, and sending
  a PDU is an event of the machine.  The recursion ends because only two events, the keepalive that
  establishes a session and the connection that comes up, raise another one.

  The trees of neighbours compare through the pointers they hold; a pointer in a tree to a neighbour
  that does not exist would compare as a neighbour of zeros (\<open>Ldpe_Inv\<close> shows that there is none).
\<close>

subsection \<open>Trees of neighbours\<close>

definition nbr_id_compare :: "u32 \<Rightarrow> u32 \<Rightarrow> int" where
  "nbr_id_compare a b = sint (ntohl a - ntohl b)"

definition nbr_addr_compare :: "af \<times> ldpd_addr \<Rightarrow> af \<times> ldpd_addr \<Rightarrow> int" where
  "nbr_addr_compare a b =
     (case (fst a, fst b) of
        (AF_INET, AF_INET6) \<Rightarrow> -1
      | (AF_INET6, AF_INET) \<Rightarrow> 1
      | (x, _) \<Rightarrow> ldp_addrcmp x (snd a) (snd b))"

definition nbr_pid_compare :: "u32 \<Rightarrow> u32 \<Rightarrow> int" where
  "nbr_pid_compare a b = sint (a - b)"

definition id_of :: "ldpe \<Rightarrow> nat \<Rightarrow> u32" where
  "id_of s h = (case e_nbrs s h of None \<Rightarrow> 0 | Some n \<Rightarrow> n_id n)"

definition addr_of :: "ldpe \<Rightarrow> nat \<Rightarrow> af \<times> ldpd_addr" where
  "addr_of s h = (case e_nbrs s h of None \<Rightarrow> (AF_INET, addr_zero) | Some n \<Rightarrow> (n_af n, n_raddr n))"

definition pid_of :: "ldpe \<Rightarrow> nat \<Rightarrow> u32" where
  "pid_of s h = (case e_nbrs s h of None \<Rightarrow> 0 | Some n \<Rightarrow> n_peerid n)"

definition nbr_find_ldpid :: "u32 \<Rightarrow> ldpe \<Rightarrow> nat option" where
  "nbr_find_ldpid lsr_id s = rb_find nbr_id_compare (id_of s) lsr_id (nbrs_by_id s)"

definition nbr_find_addr :: "af \<Rightarrow> ldpd_addr \<Rightarrow> ldpe \<Rightarrow> nat option" where
  "nbr_find_addr a addr s = rb_find nbr_addr_compare (addr_of s) (a, addr) (nbrs_by_addr s)"

definition nbr_find_peerid :: "u32 \<Rightarrow> ldpe \<Rightarrow> nat option" where
  "nbr_find_peerid pid s = rb_find nbr_pid_compare (pid_of s) pid (nbrs_by_pid s)"

text \<open>The loop that looks for a peer id no neighbour has.\<close>

partial_function (option) next_peerid :: "ldpe \<Rightarrow> u32 \<Rightarrow> u32 option" where
  "next_peerid s c = (if nbr_find_peerid (c + 1) s \<noteq> None then next_peerid s (c + 1) else Some (c + 1))"

definition nbr_update_peerid :: "nat \<Rightarrow> ldpe \<Rightarrow> ldpe result" where
  "nbr_update_peerid h s =
     and_then (nbr_get h s) (\<lambda>n.
       let s1 = (if n_peerid n \<noteq> 0 then s\<lparr>nbrs_by_pid := rb_remove (\<lambda>x. x = h) (nbrs_by_pid s)\<rparr> else s)
       in case next_peerid s1 (peercnt s1) of
            None \<Rightarrow> Inl Hang
          | Some c \<Rightarrow>
              let s2 = nbr_set h (\<lambda>n. n\<lparr>n_peerid := c\<rparr>) (s1\<lparr>peercnt := c\<rparr>)
              in case rb_insert nbr_pid_compare (pid_of s2) h (nbrs_by_pid s2) of
                   (Some x, t) \<Rightarrow> Inl (Fatal ''nbr_update_peerid: RB_INSERT(nbrs_by_pid) failed'')
                 | (None, t) \<Rightarrow> Inr (s2\<lparr>nbrs_by_pid := t\<rparr>))"

definition nbr_session_active_role :: "nbr \<Rightarrow> bool" where
  "nbr_session_active_role n \<longleftrightarrow> ldp_addrcmp (n_af n) (n_laddr n) (n_raddr n) > 0"

subsection \<open>Timers\<close>

definition nbr_start_ktimer :: "nat \<Rightarrow> ldpe \<Rightarrow> ldpe" where
  "nbr_start_ktimer h = nbr_set h (\<lambda>n. n\<lparr>n_keepalive_timer := Some (uint (n_keepalive n) div 3)\<rparr>)"

definition nbr_stop_ktimer :: "nat \<Rightarrow> ldpe \<Rightarrow> ldpe" where
  "nbr_stop_ktimer h = nbr_set h (\<lambda>n. n\<lparr>n_keepalive_timer := None\<rparr>)"

definition nbr_start_ktimeout :: "nat \<Rightarrow> ldpe \<Rightarrow> ldpe" where
  "nbr_start_ktimeout h = nbr_set h (\<lambda>n. n\<lparr>n_keepalive_timeout := Some (uint (n_keepalive n))\<rparr>)"

definition nbr_stop_ktimeout :: "nat \<Rightarrow> ldpe \<Rightarrow> ldpe" where
  "nbr_stop_ktimeout h = nbr_set h (\<lambda>n. n\<lparr>n_keepalive_timeout := None\<rparr>)"

definition nbr_start_itimeout :: "nat \<Rightarrow> ldpe \<Rightarrow> ldpe" where
  "nbr_start_itimeout h = nbr_set h (\<lambda>n. n\<lparr>n_init_timeout := Some 15\<rparr>)"

definition nbr_stop_itimeout :: "nat \<Rightarrow> ldpe \<Rightarrow> ldpe" where
  "nbr_stop_itimeout h = nbr_set h (\<lambda>n. n\<lparr>n_init_timeout := None\<rparr>)"

text \<open>The exponential backoff: seconds to wait and the next count.\<close>

definition idtimer_backoff :: "int \<Rightarrow> int \<times> int" where
  "idtimer_backoff cnt =
     (if cnt = 0 then (15, cnt + 1)
      else if cnt = 1 then (15 * 2, cnt + 1)
      else if cnt = 2 then (15 * 2 * 2, cnt + 1)
      else (120, cnt))"

definition nbr_start_idtimer :: "nat \<Rightarrow> ldpe \<Rightarrow> ldpe" where
  "nbr_start_idtimer h =
     nbr_set h (\<lambda>n. n\<lparr>n_idtimer_cnt := snd (idtimer_backoff (n_idtimer_cnt n)),
       n_initdelay_timer := Some (fst (idtimer_backoff (n_idtimer_cnt n)))\<rparr>)"

definition nbr_stop_idtimer :: "nat \<Rightarrow> ldpe \<Rightarrow> ldpe" where
  "nbr_stop_idtimer h = nbr_set h (\<lambda>n. n\<lparr>n_initdelay_timer := None\<rparr>)"

definition nbr_pending_idtimer :: "nbr \<Rightarrow> bool" where
  "nbr_pending_idtimer n \<longleftrightarrow> n_initdelay_timer n \<noteq> None"

definition nbr_pending_connect :: "nbr \<Rightarrow> bool" where
  "nbr_pending_connect n \<longleftrightarrow> n_ev_connect n"

lemmas timer_defs = nbr_start_ktimer_def nbr_stop_ktimer_def nbr_start_ktimeout_def nbr_stop_ktimeout_def
  nbr_start_itimeout_def nbr_stop_itimeout_def nbr_start_idtimer_def nbr_stop_idtimer_def

subsection \<open>Connections\<close>

definition tcp_new :: "int \<Rightarrow> tcp_conn" where
  "tcp_new fd = \<lparr>t_fd = fd, t_rbuf = []\<rparr>"

definition session_close :: "nat \<Rightarrow> ldpe \<Rightarrow> ldpe result" where
  "session_close h s =
     and_then (nbr_tcp h s) (\<lambda>t.
       Inr (nbr_stop_itimeout h (nbr_stop_ktimeout h (nbr_stop_ktimer h
         (nbr_set h (\<lambda>n. n\<lparr>n_tcp := None\<rparr>) s)))))"

subsection \<open>Messages without an answer\<close>

definition send_init :: "nat \<Rightarrow> ldpe \<Rightarrow> ldpe result" where
  "send_init h s =
     and_then (nbr_get h s) (\<lambda>n.
       let sz = LDP_HDR_SIZE + LDP_MSG_SIZE + SESS_PRMS_SIZE;
           b = gen_ldp_hdr sz s (ibuf_open (unat sz));
           sz1 = sz - LDP_HDR_SIZE
       in case gen_msg_hdr MSG_TYPE_INIT sz1 (b, s) of (b1, s1) \<Rightarrow>
            let b2 = gen_init_prms_tlv s1 n b1
            in if ib_err b2 then Inr s1
               else and_then (nbr_tcp h s1) (\<lambda>t. Inr (evbuf_enqueue (t_fd t) (ib_data b2) s1)))"

definition send_keepalive :: "nat \<Rightarrow> ldpe \<Rightarrow> ldpe result" where
  "send_keepalive h s =
     (let sz = LDP_HDR_SIZE + LDP_MSG_SIZE;
          b = gen_ldp_hdr sz s (ibuf_open (unat sz))
      in case gen_msg_hdr MSG_TYPE_KEEPALIVE (sz - LDP_HDR_SIZE) (b, s) of (b1, s1) \<Rightarrow>
           and_then (nbr_tcp h s1) (\<lambda>t. Inr (evbuf_enqueue (t_fd t) (ib_data b1) s1)))"

definition notification_size :: "notify_msg \<Rightarrow> u16" where
  "notification_size nm =
     LDP_HDR_SIZE + LDP_MSG_SIZE + STATUS_SIZE
     + (if has_flag (nm_flags nm) F_NOTIF_PW_STATUS then PW_STATUS_TLV_SIZE else 0)
     + (if has_flag (nm_flags nm) F_NOTIF_FEC
        then TLV_HDR_SIZE
           + (if m_type (nm_fec nm) = MAP_TYPE_PWID
              then FEC_PWID_ELM_MIN_LEN + (if has_flag (m_flags (nm_fec nm)) F_MAP_PW_ID then 4 else 0)
              else 0)
        else 0)"

text \<open>The connection is given by its descriptor; it need not belong to a neighbour.\<close>

definition send_notification_full :: "int \<Rightarrow> notify_msg \<Rightarrow> ldpe \<Rightarrow> ldpe result" where
  "send_notification_full fd nm s =
     (let sz = notification_size nm;
          b = gen_ldp_hdr sz s (ibuf_open (unat sz))
      in case gen_msg_hdr MSG_TYPE_NOTIFICATION (sz - LDP_HDR_SIZE) (b, s) of (b1, s1) \<Rightarrow>
           let b2 = gen_status_tlv (nm_status_code nm) (nm_msg_id nm) (nm_msg_type nm) b1;
               b3 = (if has_flag (nm_flags nm) F_NOTIF_PW_STATUS then gen_pw_status_tlv (nm_pw_status nm) b2 else b2)
           in and_then (if has_flag (nm_flags nm) F_NOTIF_FEC then gen_fec_tlv (nm_fec nm) b3 else Inr b3) (\<lambda>b4.
                if ib_err b4 then Inr s1 else Inr (evbuf_enqueue fd (ib_data b4) s1)))"

definition send_notification :: "u32 \<Rightarrow> int \<Rightarrow> u32 \<Rightarrow> u16 \<Rightarrow> ldpe \<Rightarrow> ldpe result" where
  "send_notification status_code fd msg_id msg_type =
     send_notification_full fd \<lparr>nm_status_code = status_code, nm_msg_id = msg_id, nm_msg_type = msg_type,
       nm_pw_status = 0, nm_fec = map_zero, nm_flags = 0\<rparr>"

subsection \<open>The state machine\<close>

definition nbr_fsm_tbl :: "(u32 \<times> nbr_event \<times> nbr_action \<times> u32) list" where
  "nbr_fsm_tbl =
    [\<comment> \<open>passive role\<close>
     (NBR_STA_PRESENT, NBR_EVT_MATCH_ADJ, NBR_ACT_NOTHING, NBR_STA_INITIAL),
     (NBR_STA_INITIAL, NBR_EVT_INIT_RCVD, NBR_ACT_PASSIVE_INIT, NBR_STA_OPENREC),
     (NBR_STA_OPENREC, NBR_EVT_KEEPALIVE_RCVD, NBR_ACT_SESSION_EST, NBR_STA_OPER),
     \<comment> \<open>active role\<close>
     (NBR_STA_PRESENT, NBR_EVT_CONNECT_UP, NBR_ACT_CONNECT_SETUP, NBR_STA_INITIAL),
     (NBR_STA_INITIAL, NBR_EVT_INIT_SENT, NBR_ACT_NOTHING, NBR_STA_OPENSENT),
     (NBR_STA_OPENSENT, NBR_EVT_INIT_RCVD, NBR_ACT_KEEPALIVE_SEND, NBR_STA_OPENREC),
     \<comment> \<open>session maintenance\<close>
     (NBR_STA_OPER, NBR_EVT_PDU_RCVD, NBR_ACT_RST_KTIMEOUT, 0),
     (NBR_STA_SESSION, NBR_EVT_PDU_RCVD, NBR_ACT_NOTHING, 0),
     (NBR_STA_OPER, NBR_EVT_PDU_SENT, NBR_ACT_RST_KTIMER, 0),
     (NBR_STA_SESSION, NBR_EVT_PDU_SENT, NBR_ACT_NOTHING, 0),
     \<comment> \<open>session close\<close>
     (NBR_STA_PRESENT, NBR_EVT_CLOSE_SESSION, NBR_ACT_NOTHING, 0),
     (NBR_STA_SESSION, NBR_EVT_CLOSE_SESSION, NBR_ACT_CLOSE_SESSION, NBR_STA_PRESENT)]"

definition nbr_fsm_lookup :: "u32 \<Rightarrow> nbr_event \<Rightarrow> (nbr_action \<times> u32) option" where
  "nbr_fsm_lookup old_state event =
     map_option (\<lambda>e. snd (snd e)) (find (\<lambda>e. has_flag (fst e) old_state \<and> fst (snd e) = event) nbr_fsm_tbl)"

text \<open>The new state and the initialization timeout, before the action.\<close>

definition nbr_fsm_enter :: "nat \<Rightarrow> u32 \<Rightarrow> ldpe \<Rightarrow> ldpe" where
  "nbr_fsm_enter h new_state s =
     (let s1 = (if new_state \<noteq> 0 then nbr_set h (\<lambda>n. n\<lparr>n_state := new_state\<rparr>) s else s)
      in case e_nbrs s1 h of
           None \<Rightarrow> s1
         | Some n \<Rightarrow>
             if n_state n = NBR_STA_OPER \<or> n_state n = NBR_STA_PRESENT then nbr_stop_itimeout h s1
             else nbr_start_itimeout h s1)"

definition nbr_act_session_operational :: "nat \<Rightarrow> ldpe \<Rightarrow> ldpe result" where
  "nbr_act_session_operational h s =
     and_then (nbr_update_peerid h (nbr_set h (\<lambda>n. n\<lparr>n_idtimer_cnt := 0\<rparr>) s)) (\<lambda>s1.
     and_then (nbr_get h s1) (\<lambda>n.
       Inr (ldpe_imsg_compose_lde (IMSG_NEIGHBOR_UP (n_peerid n) (n_id n) (n_v4_enabled n) (n_v6_enabled n)) s1)))"

definition nbr_send_labelmappings :: "nat \<Rightarrow> ldpe \<Rightarrow> ldpe result" where
  "nbr_send_labelmappings h s =
     and_then (nbr_get h s) (\<lambda>n. Inr (ldpe_imsg_compose_lde (IMSG_LABEL_MAPPING_FULL (n_peerid n)) s))"

text \<open>The address message, up to the event it raises.\<close>

definition address_pdu :: "nat \<Rightarrow> af \<Rightarrow> if_addr option \<Rightarrow> bool \<Rightarrow> ldpe \<Rightarrow> (bool \<times> ldpe) result" where
  "address_pdu h a ifa withdraw s =
     (let msg_type = (if withdraw then MSG_TYPE_ADDRWITHDRAW else MSG_TYPE_ADDR);
          iface_count = (case ifa of None \<Rightarrow> length (filter (\<lambda>x. ifa_af x = a) (g_addr_list s)) | Some x \<Rightarrow> 1);
          sz = LDP_HDR_SIZE + LDP_MSG_SIZE + 6
               + of_nat (iface_count * (case a of AF_INET \<Rightarrow> 4 | AF_INET6 \<Rightarrow> 16));
          b = gen_ldp_hdr sz s (ibuf_open (unat sz));
          sz1 = sz - LDP_HDR_SIZE
      in case gen_msg_hdr msg_type sz1 (b, s) of (b1, s1) \<Rightarrow>
           let b2 = gen_address_list_tlv (sz1 - LDP_MSG_SIZE) a ifa s1 b1
           in if ib_err b2 then Inr (False, s1)
              else and_then (nbr_tcp h s1) (\<lambda>t. Inr (True, evbuf_enqueue (t_fd t) (ib_data b2) s1)))"

text \<open>Only two events take an action that raises another event.\<close>

lemma fsm_lookup_action:
  assumes "nbr_fsm_lookup st event = Some (action, new)"
  shows "action = NBR_ACT_SESSION_EST \<Longrightarrow> event = NBR_EVT_KEEPALIVE_RCVD"
    and "action = NBR_ACT_CONNECT_SETUP \<Longrightarrow> event = NBR_EVT_CONNECT_UP"
proof -
  from assms obtain e where e: "e \<in> set nbr_fsm_tbl" "fst (snd e) = event" "snd (snd e) = (action, new)"
    unfolding nbr_fsm_lookup_def by (auto dest!: find_Some_in)
  show "action = NBR_ACT_SESSION_EST \<Longrightarrow> event = NBR_EVT_KEEPALIVE_RCVD"
    and "action = NBR_ACT_CONNECT_SETUP \<Longrightarrow> event = NBR_EVT_CONNECT_UP"
    using e by (auto simp: nbr_fsm_tbl_def)
qed

fun event_rank :: "nbr_event \<Rightarrow> nat" where
  "event_rank NBR_EVT_KEEPALIVE_RCVD = 2"
| "event_rank NBR_EVT_CONNECT_UP = 2"
| "event_rank _ = 0"

function nbr_fsm :: "nat \<Rightarrow> nbr_event \<Rightarrow> ldpe \<Rightarrow> ldpe result"
  and send_address :: "nat \<Rightarrow> af \<Rightarrow> if_addr option \<Rightarrow> bool \<Rightarrow> ldpe \<Rightarrow> ldpe result" where
  "nbr_fsm h event s =
     and_then (nbr_get h s) (\<lambda>n.
       case nbr_fsm_lookup (n_state n) event of
         None \<Rightarrow> Inr s
       | Some (action, new_state) \<Rightarrow>
           let s1 = nbr_fsm_enter h new_state s
           in case action of
                NBR_ACT_RST_KTIMEOUT \<Rightarrow> Inr (nbr_start_ktimeout h s1)
              | NBR_ACT_RST_KTIMER \<Rightarrow> Inr (nbr_start_ktimer h s1)
              | NBR_ACT_SESSION_EST \<Rightarrow>
                  and_then (nbr_act_session_operational h s1) (\<lambda>s2.
                    let s3 = nbr_start_ktimeout h (nbr_start_ktimer h s2)
                    in and_then (if n_v4_enabled n then send_address h AF_INET None False s3 else Inr s3) (\<lambda>s4.
                       and_then (if n_v6_enabled n then send_address h AF_INET6 None False s4 else Inr s4) (\<lambda>s5.
                       nbr_send_labelmappings h s5)))
              | NBR_ACT_CONNECT_SETUP \<Rightarrow>
                  and_then (send_init h (nbr_set h (\<lambda>n. n\<lparr>n_tcp := Some (tcp_new (n_fd n))\<rparr>) s1)) (\<lambda>s2.
                    nbr_fsm h NBR_EVT_INIT_SENT s2)
              | NBR_ACT_PASSIVE_INIT \<Rightarrow> and_then (send_init h s1) (send_keepalive h)
              | NBR_ACT_KEEPALIVE_SEND \<Rightarrow> send_keepalive h (nbr_start_ktimeout h s1)
              | NBR_ACT_CLOSE_SESSION \<Rightarrow>
                  session_close h (ldpe_imsg_compose_lde (IMSG_NEIGHBOR_DOWN (n_peerid n)) s1)
              | NBR_ACT_NOTHING \<Rightarrow> Inr s1)"
| "send_address h a ifa withdraw s =
     and_then (address_pdu h a ifa withdraw s) (\<lambda>(sent, s1).
       if sent then nbr_fsm h NBR_EVT_PDU_SENT s1 else Inr s1)"
  by pat_completeness auto

termination
  by (relation "measure (case_sum (\<lambda>(h, ev, s). event_rank ev) (\<lambda>_. 1))")
     (auto dest: fsm_lookup_action)

declare nbr_fsm.simps [simp del] send_address.simps [simp del]

definition send_notification_nbr :: "nat \<Rightarrow> u32 \<Rightarrow> u32 \<Rightarrow> u16 \<Rightarrow> ldpe \<Rightarrow> ldpe result" where
  "send_notification_nbr h status_code msg_id msg_type s =
     and_then (nbr_tcp h s) (\<lambda>t.
     and_then (send_notification status_code (t_fd t) msg_id msg_type s) (nbr_fsm h NBR_EVT_PDU_SENT))"

definition session_shutdown :: "nat \<Rightarrow> u32 \<Rightarrow> u32 \<Rightarrow> u16 \<Rightarrow> ldpe \<Rightarrow> ldpe result" where
  "session_shutdown h status msg_id msg_type s =
     and_then (nbr_get h s) (\<lambda>n.
       if n_state n = NBR_STA_PRESENT
       then Inr (if nbr_pending_connect n then nbr_set h (\<lambda>n. n\<lparr>n_ev_connect := False\<rparr>) s else s)
       else if n_state n \<in> {NBR_STA_INITIAL, NBR_STA_OPENREC, NBR_STA_OPENSENT, NBR_STA_OPER}
       then and_then (send_notification_nbr h status msg_id msg_type s) (nbr_fsm h NBR_EVT_CLOSE_SESSION)
       else Inl (Fatal ''session_shutdown: unknown neighbor state''))"

subsection \<open>Timer handlers\<close>

definition nbr_ktimer :: "nat \<Rightarrow> ldpe \<Rightarrow> ldpe result" where
  "nbr_ktimer h s =
     and_then (send_keepalive h (nbr_stop_ktimer h s)) (\<lambda>s1. Inr (nbr_start_ktimer h s1))"

definition nbr_ktimeout :: "nat \<Rightarrow> ldpe \<Rightarrow> ldpe result" where
  "nbr_ktimeout h s = session_shutdown h S_KEEPALIVE_TMR 0 0 (nbr_stop_ktimeout h s)"

definition nbr_itimeout :: "nat \<Rightarrow> ldpe \<Rightarrow> ldpe result" where
  "nbr_itimeout h s = nbr_fsm h NBR_EVT_CLOSE_SESSION s"

definition session_accept_nbr :: "nat \<Rightarrow> int \<Rightarrow> ldpe \<Rightarrow> ldpe result" where
  "session_accept_nbr h fd s =
     nbr_fsm h NBR_EVT_MATCH_ADJ (nbr_set h (\<lambda>n. n\<lparr>n_tcp := Some (tcp_new fd)\<rparr>) s)"

end
