(* ===== verification/Ldpe_Recv.thy ===== *)
theory Ldpe_Recv
  imports Ldpe_Session
begin

text \<open>
  What the protocol engine reads from a session: the decoders of \<open>labelmapping.c\<close>, the handlers of
  \<open>notification.c\<close>, \<open>init.c\<close>, \<open>keepalive.c\<close>, \<open>address.c\<close> and \<open>labelmapping.c\<close>, and \<open>session_read\<close> of
  \<open>packet.c\<close>, which cuts the stream into PDUs and messages.

  The buffer a handler is given is what is left of the PDU, which \<open>session_read\<close> copied into an allocation
  of its own: reading past the end of the list is reading past the end of that allocation.  A handler
  returns 0 or -1, as in C, with the state.  The loops whose end depends on what the peer sends are
  partial functions; a loop that never ends is the fault \<open>Hang\<close>.
\<close>

subsection \<open>Reading memory\<close>

text \<open>A load of a 16 or 32 bit word at an offset, in the byte order of the host.\<close>

definition ld8 :: "byte list \<Rightarrow> nat \<Rightarrow> u8 result" where
  "ld8 b i = (if i < length b then Inr (b ! i) else Inl Out_of_bounds_read)"

definition ld16 :: "byte list \<Rightarrow> nat \<Rightarrow> u16 result" where
  "ld16 b i = (if i + 2 \<le> length b then Inr (of_be16 (b ! (i + 1)) (b ! i)) else Inl Out_of_bounds_read)"

definition ld32 :: "byte list \<Rightarrow> nat \<Rightarrow> u32 result" where
  "ld32 b i =
     (if i + 4 \<le> length b then Inr (of_le32 (b ! i) (b ! (i + 1)) (b ! (i + 2)) (b ! (i + 3)))
      else Inl Out_of_bounds_read)"

text \<open>\<open>memcpy\<close> of some bytes at an offset.\<close>

definition ldn :: "byte list \<Rightarrow> nat \<Rightarrow> nat \<Rightarrow> byte list result" where
  "ldn b i n = (if i + n \<le> length b then Inr (take n (drop i b)) else Inl Out_of_bounds_read)"

text \<open>The type and the id of a message header, as they lie in memory.\<close>

record ldp_msg =
  lm_type :: u16
  lm_length :: u16
  lm_id :: u32

definition ld_msg :: "byte list \<Rightarrow> ldp_msg result" where
  "ld_msg b =
     and_then (ld16 b 0) (\<lambda>t. and_then (ld16 b 2) (\<lambda>l. and_then (ld32 b 4) (\<lambda>i.
       Inr \<lparr>lm_type = t, lm_length = l, lm_id = i\<rparr>)))"

text \<open>The value of a loop, if it ends.\<close>

definition of_loop :: "'a result option \<Rightarrow> 'a result" where
  "of_loop m = (case m of None \<Rightarrow> Inl Hang | Some r \<Rightarrow> r)"

text \<open>Ending a session, or complaining, and giving the message up.\<close>

definition give_up :: "nat \<Rightarrow> u32 \<Rightarrow> ldp_msg \<Rightarrow> ldpe \<Rightarrow> (int \<times> ldpe) result" where
  "give_up h status msg s =
     and_then (session_shutdown h status (lm_id msg) (lm_type msg) s) (\<lambda>s1. Inr (-1, s1))"

definition complain :: "nat \<Rightarrow> u32 \<Rightarrow> ldp_msg \<Rightarrow> ldpe \<Rightarrow> (int \<times> ldpe) result" where
  "complain h status msg s =
     and_then (send_notification_nbr h status (lm_id msg) (lm_type msg) s) (\<lambda>s1. Inr (-1, s1))"

definition with_map :: "map_tlv \<Rightarrow> int \<times> ldpe \<Rightarrow> (int \<times> map_tlv \<times> ldpe) result" where
  "with_map m r = Inr (fst r, m, snd r)"

subsection \<open>FEC elements\<close>

text \<open>
  The loop over the interface parameters of a pseudowire.  Every way out with an error ends the session
  with the same status, so the loop returns None there.
\<close>

partial_function (option) pw_params ::
  "byte list \<Rightarrow> nat \<Rightarrow> u8 \<Rightarrow> map_tlv \<Rightarrow> (nat \<times> map_tlv) option result option" where
  "pw_params buf off pw_len m =
     (if pw_len = 0 then Some (Inr (Some (off, m)))
      else if pw_len < 2 then Some (Inr None)
      else case ld8 buf off of Inl e \<Rightarrow> Some (Inl e) | Inr type \<Rightarrow>
           (case ld8 buf (off + 1) of Inl e \<Rightarrow> Some (Inl e) | Inr stlv_len \<Rightarrow>
             if pw_len < stlv_len then Some (Inr None)
             else if type = SUBTLV_IFMTU
             then (if stlv_len \<noteq> ucast FEC_SUBTLV_IFMTU_SIZE then Some (Inr None)
                   else case ld16 buf (off + 2) of Inl e \<Rightarrow> Some (Inl e) | Inr mtu \<Rightarrow>
                     pw_params buf (off + unat stlv_len) (pw_len - stlv_len)
                       (m\<lparr>m_ifmtu := ntohs mtu, m_flags := m_flags m OR F_MAP_PW_IFMTU\<rparr>))
             else pw_params buf (off + unat stlv_len) (pw_len - stlv_len) m))"

text \<open>The result is the number of bytes the element takes, or -1.\<close>

definition decode_prefix ::
  "nat \<Rightarrow> ldp_msg \<Rightarrow> byte list \<Rightarrow> nat \<Rightarrow> map_tlv \<Rightarrow> ldpe \<Rightarrow> (int \<times> map_tlv \<times> ldpe) result" where
  "decode_prefix h msg buf len m s =
     (if len < unat FEC_ELM_PREFIX_MIN_LEN then and_then (give_up h S_BAD_TLV_LEN msg s) (with_map m)
      else and_then (ld16 buf 1) (\<lambda>raw.
        let m1 = m\<lparr>m_prefix_af := ntohs raw\<rparr> in
        if m_prefix_af m1 \<noteq> AF_IPV4 \<and> m_prefix_af m1 \<noteq> AF_IPV6
        then and_then (complain h S_UNSUP_ADDR msg s) (with_map m1)
        else and_then (ld8 buf 3) (\<lambda>plen.
          let m2 = m1\<lparr>m_prefixlen := plen\<rparr>; n = PREFIX_SIZE plen in
          if len < 4 + n then and_then (give_up h S_BAD_TLV_LEN msg s) (with_map m2)
          else if 16 < n then Inl Buffer_overflow
          else and_then (ldn buf 4 n) (\<lambda>bytes.
            Inr (int (4 + n), m2\<lparr>m_prefix := of_s6_addr (bytes @ replicate (16 - n) 0)\<rparr>, s)))))"

definition decode_pwid ::
  "nat \<Rightarrow> ldp_msg \<Rightarrow> byte list \<Rightarrow> nat \<Rightarrow> map_tlv \<Rightarrow> ldpe \<Rightarrow> (int \<times> map_tlv \<times> ldpe) result" where
  "decode_pwid h msg buf len m s =
     (if len < unat FEC_PWID_ELM_MIN_LEN then and_then (give_up h S_BAD_TLV_LEN msg s) (with_map m)
      else and_then (ld16 buf 1) (\<lambda>raw.
        let type = ntohs raw;
            m1 = (if has_flag type CONTROL_WORD_FLAG
                  then m\<lparr>m_flags := m_flags m OR F_MAP_PW_CWORD, m_pw_type := type AND NOT CONTROL_WORD_FLAG\<rparr>
                  else m\<lparr>m_pw_type := type\<rparr>)
        in and_then (ld8 buf 3) (\<lambda>pw_len.
          if len \<noteq> unat FEC_PWID_ELM_MIN_LEN + unat pw_len
          then and_then (give_up h S_BAD_TLV_LEN msg s) (with_map m1)
          else and_then (ld32 buf 4) (\<lambda>gid.
            let m2 = m1\<lparr>m_group_id := ntohl gid\<rparr> in
            if pw_len = 0 then Inr (8, m2, s)
            else if pw_len < 4 then and_then (give_up h S_BAD_TLV_LEN msg s) (with_map m2)
            else and_then (ld32 buf 8) (\<lambda>pwid.
              let m3 = m2\<lparr>m_pwid := ntohl pwid, m_flags := m_flags m2 OR F_MAP_PW_ID\<rparr>
              in and_then (of_loop (pw_params buf 12 (pw_len - 4) m3)) (\<lambda>r.
                   case r of
                     None \<Rightarrow> and_then (give_up h S_BAD_TLV_LEN msg s) (with_map m3)
                   | Some (off, m4) \<Rightarrow> Inr (int off, m4, s)))))))"

definition tlv_decode_fec_elm ::
  "nat \<Rightarrow> ldp_msg \<Rightarrow> byte list \<Rightarrow> nat \<Rightarrow> map_tlv \<Rightarrow> ldpe \<Rightarrow> (int \<times> map_tlv \<times> ldpe) result" where
  "tlv_decode_fec_elm h msg buf len m s =
     and_then (ld8 buf 0) (\<lambda>type.
       let m1 = m\<lparr>m_type := type\<rparr> in
       if type = MAP_TYPE_WILDCARD
       then (if len = unat FEC_ELM_WCARD_LEN then Inr (1, m1, s)
             else and_then (give_up h S_BAD_TLV_VAL msg s) (with_map m1))
       else if type = MAP_TYPE_PREFIX then decode_prefix h msg buf len m1 s
       else if type = MAP_TYPE_PWID then decode_pwid h msg buf len m1 s
       else and_then (complain h S_UNKNOWN_FEC msg s) (with_map m1))"

text \<open>The label, when there is one; the number of bytes of the TLV, or -1.\<close>

definition label_ok :: "u32 \<Rightarrow> bool" where
  "label_ok l \<longleftrightarrow>
     \<not> (MPLS_LABEL_MAX < l \<or>
        (l \<le> MPLS_LABEL_RESERVED_MAX \<and> l \<noteq> MPLS_LABEL_IPV4NULL \<and> l \<noteq> MPLS_LABEL_IPV6NULL \<and>
         l \<noteq> MPLS_LABEL_IMPLNULL))"

definition tlv_decode_label ::
  "nat \<Rightarrow> ldp_msg \<Rightarrow> byte list \<Rightarrow> nat \<Rightarrow> ldpe \<Rightarrow> (int \<times> u32 \<times> ldpe) result" where
  "tlv_decode_label h msg buf len s =
     (if len < 8 then and_then (give_up h S_BAD_TLV_LEN msg s) (\<lambda>r. Inr (fst r, NO_LABEL, snd r))
      else and_then (ld16 buf 0) (\<lambda>type. and_then (ld16 buf 2) (\<lambda>tlen. and_then (ld32 buf 4) (\<lambda>lab.
        if \<not> has_flag (ntohs type) TLV_TYPE_GENERICLABEL
        then and_then (complain h S_MISS_MSG msg s) (\<lambda>r. Inr (fst r, NO_LABEL, snd r))
        else if htons type = TLV_TYPE_GENERICLABEL
        then (if ntohs tlen \<noteq> LABEL_TLV_LEN
              then and_then (give_up h S_BAD_TLV_LEN msg s) (\<lambda>r. Inr (fst r, NO_LABEL, snd r))
              else if label_ok (ntohl lab) then Inr (8, ntohl lab, s)
              else and_then (give_up h S_BAD_TLV_VAL msg s) (\<lambda>r. Inr (fst r, ntohl lab, snd r)))
        else and_then (give_up h S_BAD_TLV_VAL msg s) (\<lambda>r. Inr (fst r, NO_LABEL, snd r))))))"

subsection \<open>Label messages\<close>

text \<open>
  The loop over the FEC elements: the maps read so far and what is left of the buffer.  The flag tells
  whether the loop ended normally; where the code returns from inside the loop it is False.
\<close>

partial_function (option) label_fecs ::
  "nat \<Rightarrow> ldp_msg \<Rightarrow> u16 \<Rightarrow> byte list \<Rightarrow> nat \<Rightarrow> nat \<Rightarrow> map_tlv list \<Rightarrow> ldpe \<Rightarrow>
    (bool \<times> map_tlv list \<times> byte list \<times> nat \<times> ldpe) result option" where
  "label_fecs h msg type buf len feclen mh s =
     (case tlv_decode_fec_elm h msg buf feclen (map_zero\<lparr>m_msg_id := lm_id msg\<rparr>) s of
        Inl e \<Rightarrow> Some (Inl e)
      | Inr (tlen, m, s1) \<Rightarrow>
          if tlen = -1 then Some (Inr (False, mh, buf, len, s1))
          else if m_type m = MAP_TYPE_PWID \<and> \<not> has_flag (m_flags m) F_MAP_PW_ID \<and>
               type \<noteq> MSG_TYPE_LABELWITHDRAW \<and> type \<noteq> MSG_TYPE_LABELRELEASE
          then Some (and_then (complain h S_MISS_MSG msg s1) (\<lambda>r. Inr (False, mh, buf, len, snd r)))
          else if m_type m = MAP_TYPE_WILDCARD \<and>
               type \<in> {MSG_TYPE_LABELMAPPING, MSG_TYPE_LABELREQUEST, MSG_TYPE_LABELABORTREQ}
          then Some (and_then (give_up h S_UNKNOWN_FEC msg s1) (\<lambda>r. Inr (False, mh, buf, len, snd r)))
          else if type \<noteq> MSG_TYPE_LABELMAPPING \<and> tlen \<noteq> int feclen
          then Some (and_then (give_up h S_BAD_TLV_VAL msg s1) (\<lambda>r. Inr (False, mh, buf, len, snd r)))
          else let n = nat tlen; buf1 = drop n buf; len1 = len - n
               in if feclen - n > 0 then label_fecs h msg type buf1 len1 (feclen - n) (mh @ [m]) s1
                  else Some (Inr (True, mh @ [m], buf1, len1, s1)))"

text \<open>What the optional parameters of a label message set.\<close>

record label_opts =
  lo_label :: u32
  lo_reqid :: u32
  lo_pw_status :: u32
  lo_flags :: u8

text \<open>What one optional parameter comes to: it was taken, it is unknown, or the message is given up.\<close>

datatype 'a opt_tlv = Opt_ok 'a | Opt_unknown | Opt_fail

definition opt_fail :: "nat \<Rightarrow> u32 \<Rightarrow> ldp_msg \<Rightarrow> ldpe \<Rightarrow> ('o opt_tlv \<times> ldpe) result" where
  "opt_fail h status msg s = and_then (give_up h status msg s) (\<lambda>r. Inr (Opt_fail, snd r))"

definition label_opt ::
  "nat \<Rightarrow> ldp_msg \<Rightarrow> u16 \<Rightarrow> u16 \<Rightarrow> nat \<Rightarrow> byte list \<Rightarrow> label_opts \<Rightarrow> ldpe \<Rightarrow> (label_opts opt_tlv \<times> ldpe) result" where
  "label_opt h msg type tlv_type tlv_len buf lo s =
     (if tlv_type = TLV_TYPE_LABELREQUEST
      then (if type = MSG_TYPE_LABELMAPPING \<or> type = MSG_TYPE_LABELREQUEST
            then (if tlv_len \<noteq> unat REQID_TLV_LEN then opt_fail h S_BAD_TLV_LEN msg s
                  else and_then (ld32 buf 0) (\<lambda>x.
                    Inr (Opt_ok (lo\<lparr>lo_flags := lo_flags lo OR F_MAP_REQ_ID, lo_reqid := ntohl x\<rparr>), s)))
            else Inr (Opt_ok lo, s))
      else if tlv_type = TLV_TYPE_HOPCOUNT \<or> tlv_type = TLV_TYPE_PATHVECTOR then Inr (Opt_ok lo, s)
      else if tlv_type = TLV_TYPE_GENERICLABEL
      then (if type = MSG_TYPE_LABELWITHDRAW \<or> type = MSG_TYPE_LABELRELEASE
            then (if tlv_len \<noteq> unat LABEL_TLV_LEN then opt_fail h S_BAD_TLV_LEN msg s
                  else and_then (ld32 buf 0) (\<lambda>x. Inr (Opt_ok (lo\<lparr>lo_label := ntohl x\<rparr>), s)))
            else Inr (Opt_ok lo, s))
      else if tlv_type = TLV_TYPE_ATMLABEL \<or> tlv_type = TLV_TYPE_FRLABEL
      then (if type = MSG_TYPE_LABELWITHDRAW \<or> type = MSG_TYPE_LABELRELEASE then opt_fail h S_BAD_TLV_VAL msg s
            else Inr (Opt_ok lo, s))
      else if tlv_type = TLV_TYPE_STATUS
      then (if tlv_len \<noteq> unat STATUS_TLV_LEN then opt_fail h S_BAD_TLV_LEN msg s else Inr (Opt_ok lo, s))
      else if tlv_type = TLV_TYPE_PW_STATUS
      then (if type = MSG_TYPE_LABELMAPPING
            then (if tlv_len \<noteq> unat PW_STATUS_TLV_LEN then opt_fail h S_BAD_TLV_LEN msg s
                  else and_then (ld32 buf 0) (\<lambda>x.
                    Inr (Opt_ok (lo\<lparr>lo_flags := lo_flags lo OR F_MAP_PW_STATUS, lo_pw_status := ntohl x\<rparr>), s)))
            else Inr (Opt_ok lo, s))
      else Inr (Opt_unknown, s))"

text \<open>
  The loop over optional parameters, which three messages share: what the parameter does is \<open>opt\<close>.  An
  unknown parameter without the unknown flag is answered with a notification and skipped.
\<close>

function opt_params ::
  "(u16 \<Rightarrow> nat \<Rightarrow> byte list \<Rightarrow> 'o \<Rightarrow> ldpe \<Rightarrow> ('o opt_tlv \<times> ldpe) result) \<Rightarrow>
    nat \<Rightarrow> ldp_msg \<Rightarrow> byte list \<Rightarrow> nat \<Rightarrow> 'o \<Rightarrow> ldpe \<Rightarrow> (int \<times> 'o \<times> ldpe) result" where
  "opt_params opt h msg buf len lo s =
     (if len = 0 then Inr (0, lo, s)
      else if len < 4 then and_then (give_up h S_BAD_TLV_LEN msg s) (\<lambda>r. Inr (fst r, lo, snd r))
      else and_then (ld16 buf 0) (\<lambda>raw_type. and_then (ld16 buf 2) (\<lambda>raw_len.
        let tlv_len = unat (ntohs raw_len); tlv_type = ntohs raw_type; buf1 = drop 4 buf in
        if len < tlv_len + 4 then and_then (give_up h S_BAD_TLV_LEN msg s) (\<lambda>r. Inr (fst r, lo, snd r))
        else and_then (opt tlv_type tlv_len buf1 lo s) (\<lambda>(r, s1).
          case r of
            Opt_fail \<Rightarrow> Inr (-1, lo, s1)
          | Opt_ok o1 \<Rightarrow> opt_params opt h msg (drop tlv_len buf1) (len - (tlv_len + 4)) o1 s1
          | Opt_unknown \<Rightarrow>
              and_then (if has_flag tlv_type UNKNOWN_FLAG then Inr s1
                        else send_notification_nbr h S_UNKNOWN_TLV (lm_id msg) (lm_type msg) s1) (\<lambda>s2.
              opt_params opt h msg (drop tlv_len buf1) (len - (tlv_len + 4)) lo s2)))))"
  by pat_completeness auto
termination
  by (relation "measure (\<lambda>(opt, h, msg, buf, len, lo, s). len)") auto

declare opt_params.simps [simp del]

text \<open>The maps of the message go to the label decision engine one by one.\<close>

definition label_imsg :: "u16 \<Rightarrow> u32 \<Rightarrow> map_tlv \<Rightarrow> ldpe_imsg" where
  "label_imsg type pid m =
     (if type = MSG_TYPE_LABELMAPPING then IMSG_LABEL_MAPPING pid m
      else if type = MSG_TYPE_LABELREQUEST then IMSG_LABEL_REQUEST pid m
      else if type = MSG_TYPE_LABELWITHDRAW then IMSG_LABEL_WITHDRAW pid m
      else if type = MSG_TYPE_LABELRELEASE then IMSG_LABEL_RELEASE pid m
      else if type = MSG_TYPE_LABELABORTREQ then IMSG_LABEL_ABORT pid m
      else IMSG_OTHER)"

text \<open>What is out with one map: it is passed on, skipped, or the session ends.\<close>

datatype deliver = Deliver map_tlv | Skip | Refuse

definition label_check :: "label_opts \<Rightarrow> nbr \<Rightarrow> map_tlv \<Rightarrow> deliver result" where
  "label_check lo n m =
     (let m1 = m\<lparr>m_flags := m_flags m OR lo_flags lo\<rparr>;
          out = (\<lambda>m. Deliver (if has_flag (m_flags m) F_MAP_REQ_ID
                              then m\<lparr>m_label := lo_label lo, m_requestid := lo_reqid lo\<rparr>
                              else m\<lparr>m_label := lo_label lo\<rparr>))
      in if m_type m1 = MAP_TYPE_PREFIX
         then (if m_prefix_af m1 = AF_IPV4
               then (if lo_label lo = MPLS_LABEL_IPV6NULL then Inr Refuse
                     else if \<not> n_v4_enabled n then Inr Skip else Inr (out m1))
               else if m_prefix_af m1 = AF_IPV6
               then (if lo_label lo = MPLS_LABEL_IPV4NULL then Inr Refuse
                     else if \<not> n_v6_enabled n then Inr Skip else Inr (out m1))
               else Inl (Fatal ''recv_labelmessage: unknown af''))
         else if m_type m1 = MAP_TYPE_PWID
         then (if lo_label lo \<le> MPLS_LABEL_RESERVED_MAX then Inr Refuse
               else Inr (out (if has_flag (m_flags m1) F_MAP_PW_STATUS then m1\<lparr>m_pw_status := lo_pw_status lo\<rparr>
                               else m1)))
         else Inr (out m1))"

fun label_deliver ::
  "nat \<Rightarrow> ldp_msg \<Rightarrow> u16 \<Rightarrow> label_opts \<Rightarrow> map_tlv list \<Rightarrow> ldpe \<Rightarrow> (int \<times> ldpe) result" where
  "label_deliver h msg type lo [] s = Inr (0, s)"
| "label_deliver h msg type lo (m # mh) s =
     and_then (nbr_get h s) (\<lambda>n.
     and_then (label_check lo n m) (\<lambda>d.
       case d of
         Refuse \<Rightarrow> give_up h S_BAD_TLV_VAL msg s
       | Skip \<Rightarrow> label_deliver h msg type lo mh s
       | Deliver m1 \<Rightarrow>
           label_deliver h msg type lo mh (ldpe_imsg_compose_lde (label_imsg type (n_peerid n) m1) s)))"

definition recv_labelmessage :: "nat \<Rightarrow> byte list \<Rightarrow> nat \<Rightarrow> u16 \<Rightarrow> ldpe \<Rightarrow> (int \<times> ldpe) result" where
  "recv_labelmessage h buf0 len0 type s =
     and_then (ld_msg buf0) (\<lambda>msg.
       let buf = drop 8 buf0; len = len0 - unat LDP_MSG_SIZE in
       if len < 4 then give_up h S_BAD_TLV_LEN msg s
       else and_then (ld16 buf 0) (\<lambda>ft_type. and_then (ld16 buf 2) (\<lambda>ft_len.
         if ntohs ft_type \<noteq> TLV_TYPE_FEC then complain h S_MISS_MSG msg s
         else let feclen = unat (ntohs ft_len) in
         if len < feclen + 4 then give_up h S_BAD_TLV_LEN msg s
         else and_then (of_loop (label_fecs h msg type (drop 4 buf) (len - 4) feclen [] s))
           (\<lambda>(ok, mh, buf1, len1, s1).
             if \<not> ok then Inr (-1, s1)
             else and_then
               (if type = MSG_TYPE_LABELMAPPING
                then and_then (tlv_decode_label h msg buf1 len1 s1) (\<lambda>(lbllen, label, s2).
                  if lbllen = -1 then Inr (None, s2)
                  else Inr (Some (drop (nat lbllen) buf1, len1 - nat lbllen, label), s2))
                else Inr (Some (buf1, len1, NO_LABEL), s1))
               (\<lambda>(r, s2).
                 case r of
                   None \<Rightarrow> Inr (-1, s2)
                 | Some (buf2, len2, label) \<Rightarrow>
                     and_then (opt_params (label_opt h msg type) h msg buf2 len2
                       \<lparr>lo_label = label, lo_reqid = 0, lo_pw_status = 0, lo_flags = 0\<rparr> s2) (\<lambda>(ret, lo, s3).
                       if ret = -1 then Inr (-1, s3) else label_deliver h msg type lo mh s3))))))"

subsection \<open>Notifications\<close>

definition notif_opt ::
  "nat \<Rightarrow> ldp_msg \<Rightarrow> u16 \<Rightarrow> nat \<Rightarrow> byte list \<Rightarrow> notify_msg \<Rightarrow> ldpe \<Rightarrow> (notify_msg opt_tlv \<times> ldpe) result" where
  "notif_opt h msg tlv_type tlv_len buf nm s =
     (if tlv_type \<in> {TLV_TYPE_EXTSTATUS, TLV_TYPE_RETURNEDPDU, TLV_TYPE_RETURNEDMSG} then Inr (Opt_ok nm, s)
      else if tlv_type = TLV_TYPE_PW_STATUS
      then (if tlv_len \<noteq> 4 then opt_fail h S_BAD_TLV_LEN msg s
            else and_then (ld32 buf 0) (\<lambda>x.
              Inr (Opt_ok (nm\<lparr>nm_pw_status := ntohl x, nm_flags := nm_flags nm OR F_NOTIF_PW_STATUS\<rparr>), s)))
      else if tlv_type = TLV_TYPE_FEC
      then and_then (tlv_decode_fec_elm h msg buf tlv_len (nm_fec nm) s) (\<lambda>(tlen, m, s1).
             if tlen = -1 then Inr (Opt_fail, s1)
             else if tlen \<noteq> int tlv_len then opt_fail h S_BAD_TLV_VAL msg s1
             else Inr (Opt_ok (nm\<lparr>nm_fec := m, nm_flags := nm_flags nm OR F_NOTIF_FEC\<rparr>), s1))
      else Inr (Opt_unknown, s))"

definition recv_notification :: "nat \<Rightarrow> byte list \<Rightarrow> nat \<Rightarrow> ldpe \<Rightarrow> (int \<times> ldpe) result" where
  "recv_notification h buf0 len0 s =
     and_then (ld_msg buf0) (\<lambda>msg.
       let buf = drop 8 buf0; len = len0 - unat LDP_MSG_SIZE in
       if len < unat STATUS_SIZE then give_up h S_BAD_MSG_LEN msg s
       else and_then (ld16 buf 2) (\<lambda>st_len. and_then (ld32 buf 4) (\<lambda>st_code.
         if 10 < unat (ntohs st_len) \<or> len - 4 < unat (ntohs st_len) then give_up h S_BAD_TLV_LEN msg s
         else and_then (opt_params (notif_opt h msg) h msg (drop 14 buf) (len - 14)
           \<lparr>nm_status_code = ntohl st_code, nm_msg_id = 0, nm_msg_type = 0, nm_pw_status = 0,
             nm_fec = map_zero, nm_flags = 0\<rparr> s) (\<lambda>(ret, nm, s1).
           if ret = -1 then Inr (-1, s1)
           else if nm_status_code nm = S_PW_STATUS \<and> \<not> has_flag (nm_flags nm) (F_NOTIF_PW_STATUS OR F_NOTIF_FEC)
           then complain h S_MISS_MSG msg s1
           else if nm_status_code nm = S_PW_STATUS \<and> m_type (nm_fec nm) \<noteq> MAP_TYPE_PWID
           then complain h S_BAD_TLV_VAL msg s1
           else and_then (nbr_get h s1) (\<lambda>n.
             if has_flag st_code (htonl STATUS_FATAL)
             then and_then (nbr_fsm h NBR_EVT_CLOSE_SESSION
                      (if n_state n = NBR_STA_OPENSENT then nbr_start_idtimer h s1 else s1))
                    (\<lambda>s2. Inr (-1, s2))
             else Inr (0, if nm_status_code nm = S_PW_STATUS
                          then ldpe_imsg_compose_lde (IMSG_NOTIFICATION (n_peerid n) nm) s1 else s1))))))"

subsection \<open>Initialization, keepalive and address messages\<close>

definition init_opt ::
  "nat \<Rightarrow> ldp_msg \<Rightarrow> u16 \<Rightarrow> nat \<Rightarrow> byte list \<Rightarrow> unit \<Rightarrow> ldpe \<Rightarrow> (unit opt_tlv \<times> ldpe) result" where
  "init_opt h msg tlv_type tlv_len buf u s =
     (if tlv_type = TLV_TYPE_ATMSESSIONPAR \<or> tlv_type = TLV_TYPE_FRSESSION then opt_fail h S_BAD_TLV_VAL msg s
      else Inr (Opt_unknown, s))"

definition negotiated_pdu_len :: "u16 \<Rightarrow> u16" where
  "negotiated_pdu_len max_pdu_len = min (if max_pdu_len \<le> 255 then LDP_MAX_LEN else max_pdu_len) LDP_MAX_LEN"

definition recv_init :: "nat \<Rightarrow> byte list \<Rightarrow> nat \<Rightarrow> ldpe \<Rightarrow> (int \<times> ldpe) result" where
  "recv_init h buf0 len0 s =
     and_then (ld_msg buf0) (\<lambda>msg.
       let buf = drop 8 buf0; len = len0 - unat LDP_MSG_SIZE in
       if len < unat SESS_PRMS_SIZE then give_up h S_BAD_MSG_LEN msg s
       else and_then (ld16 buf 2) (\<lambda>sess_len. and_then (ld16 buf 4) (\<lambda>version. and_then (ld16 buf 6) (\<lambda>keepalive.
            and_then (ld16 buf 10) (\<lambda>max_pdu. and_then (ld32 buf 12) (\<lambda>lsr_id. and_then (ld16 buf 16) (\<lambda>lspace_id.
         if ntohs sess_len \<noteq> SESS_PRMS_LEN then give_up h S_BAD_TLV_LEN msg s
         else if ntohs version \<noteq> LDP_VERSION then give_up h S_BAD_PROTO_VER msg s
         else if ntohs keepalive < MIN_KEEPALIVE then give_up h S_KEEPALIVE_BAD msg s
         else if lsr_id \<noteq> ldp_rtr_id_get s \<or> ntohs lspace_id \<noteq> 0 then give_up h S_NO_HELLO msg s
         else and_then (opt_params (init_opt h msg) h msg (drop 18 buf) (len - 18) () s) (\<lambda>(ret, u, s1).
           if ret = -1 then Inr (-1, s1)
           else and_then (nbr_get h s1) (\<lambda>n.
             let s2 = nbr_set h (\<lambda>n. n\<lparr>n_keepalive := min (nbr_get_keepalive s1 (n_af n) (n_id n)) (ntohs keepalive),
                        n_max_pdu_len := negotiated_pdu_len (ntohs max_pdu)\<rparr>) s1
             in and_then (nbr_fsm h NBR_EVT_INIT_RCVD s2) (\<lambda>s3. Inr (0, s3)))))))))))"

definition recv_keepalive :: "nat \<Rightarrow> byte list \<Rightarrow> nat \<Rightarrow> ldpe \<Rightarrow> (int \<times> ldpe) result" where
  "recv_keepalive h buf len s =
     and_then (ld_msg buf) (\<lambda>msg.
       if len \<noteq> unat LDP_MSG_SIZE then give_up h S_BAD_MSG_LEN msg s
       else and_then (nbr_get h s) (\<lambda>n.
         if n_state n \<noteq> NBR_STA_OPER
         then and_then (nbr_fsm h NBR_EVT_KEEPALIVE_RCVD s) (\<lambda>s1. Inr (0, s1))
         else Inr (0, s)))"

text \<open>The loop over the addresses of a list.\<close>

function recv_addrs ::
  "nat \<Rightarrow> ldp_msg \<Rightarrow> af \<Rightarrow> (u32 \<Rightarrow> lde_addr \<Rightarrow> ldpe_imsg) \<Rightarrow> byte list \<Rightarrow> nat \<Rightarrow> ldpe \<Rightarrow> (int \<times> ldpe) result" where
  "recv_addrs h msg a imsg buf len s =
     (if len = 0 then Inr (0, s)
      else let n = (case a of AF_INET \<Rightarrow> 4 | AF_INET6 \<Rightarrow> 16) in
        if len < n then give_up h S_BAD_TLV_LEN msg s
        else and_then (ldn buf 0 n) (\<lambda>bytes. and_then (nbr_get h s) (\<lambda>nb.
          recv_addrs h msg a imsg (drop n buf) (len - n)
            (ldpe_imsg_compose_lde (imsg (n_peerid nb) (a, of_s6_addr (bytes @ replicate (16 - n) 0))) s))))"
  by pat_completeness auto
termination
  by (relation "measure (\<lambda>(h, msg, a, imsg, buf, len, s). len)") (auto split: af.splits)

declare recv_addrs.simps [simp del]

definition recv_address :: "nat \<Rightarrow> byte list \<Rightarrow> nat \<Rightarrow> ldpe \<Rightarrow> (int \<times> ldpe) result" where
  "recv_address h buf0 len0 s =
     and_then (ld_msg buf0) (\<lambda>msg.
       let buf = drop 8 buf0; len = len0 - unat LDP_MSG_SIZE in
       if len < 6 then give_up h S_BAD_MSG_LEN msg s
       else and_then (ld16 buf 0) (\<lambda>alt_type. and_then (ld16 buf 2) (\<lambda>alt_len. and_then (ld16 buf 4) (\<lambda>family.
         if unat (ntohs alt_len) \<noteq> len - 4 then give_up h S_BAD_TLV_LEN msg s
         else if ntohs alt_type \<noteq> TLV_TYPE_ADDRLIST then give_up h S_UNKNOWN_TLV msg s
         else and_then (nbr_get h s) (\<lambda>n.
           let imsg = (if ntohs (lm_type msg) = MSG_TYPE_ADDR then IMSG_ADDRESS_ADD else IMSG_ADDRESS_DEL) in
           if ntohs family = AF_IPV4
           then (if \<not> n_v4_enabled n then Inr (0, s) else recv_addrs h msg AF_INET imsg (drop 6 buf) (len - 6) s)
           else if ntohs family = AF_IPV6
           then (if \<not> n_v6_enabled n then Inr (0, s) else recv_addrs h msg AF_INET6 imsg (drop 6 buf) (len - 6) s)
           else complain h S_UNSUP_ADDR msg s)))))"

subsection \<open>Reading a session\<close>

text \<open>The messages a neighbour may send in a state, checked before the message is looked at.\<close>

definition msg_unexpected :: "u16 \<Rightarrow> u32 \<Rightarrow> bool" where
  "msg_unexpected type st \<longleftrightarrow>
     (if type = MSG_TYPE_INIT then st \<noteq> NBR_STA_INITIAL \<and> st \<noteq> NBR_STA_OPENSENT
      else if type = MSG_TYPE_KEEPALIVE then st = NBR_STA_INITIAL \<or> st = NBR_STA_OPENSENT
      else if type \<in> {MSG_TYPE_ADDR, MSG_TYPE_ADDRWITHDRAW, MSG_TYPE_LABELMAPPING, MSG_TYPE_LABELREQUEST,
           MSG_TYPE_LABELWITHDRAW, MSG_TYPE_LABELRELEASE, MSG_TYPE_LABELABORTREQ}
      then st \<noteq> NBR_STA_OPER
      else False)"

definition recv_msg :: "nat \<Rightarrow> u16 \<Rightarrow> ldp_msg \<Rightarrow> byte list \<Rightarrow> nat \<Rightarrow> ldpe \<Rightarrow> (int \<times> ldpe) result" where
  "recv_msg h type msg pdu msg_size s =
     (if type = MSG_TYPE_NOTIFICATION then recv_notification h pdu msg_size s
      else if type = MSG_TYPE_INIT then recv_init h pdu msg_size s
      else if type = MSG_TYPE_KEEPALIVE then recv_keepalive h pdu msg_size s
      else if type = MSG_TYPE_ADDR \<or> type = MSG_TYPE_ADDRWITHDRAW then recv_address h pdu msg_size s
      else if type \<in> {MSG_TYPE_LABELMAPPING, MSG_TYPE_LABELREQUEST, MSG_TYPE_LABELWITHDRAW,
           MSG_TYPE_LABELRELEASE, MSG_TYPE_LABELABORTREQ}
      then recv_labelmessage h pdu msg_size type s
      else and_then (if has_flag type UNKNOWN_FLAG then Inr s
                     else send_notification_nbr h S_UNKNOWN_MSG (lm_id msg) (lm_type msg) s) (\<lambda>s1. Inr (0, s1)))"

text \<open>
  The loop over the messages of one PDU.  The flag tells whether \<open>session_read\<close> goes on; the code keeps
  the bytes that are left twice, as \<open>len\<close> and as \<open>pdu_len\<close>.
\<close>

function session_msgs :: "nat \<Rightarrow> byte list \<Rightarrow> nat \<Rightarrow> nat \<Rightarrow> ldpe \<Rightarrow> (bool \<times> ldpe) result" where
  "session_msgs h pdu len pdu_len s =
     (if len < unat LDP_MSG_SIZE
      then (if len \<noteq> 0 then and_then (session_shutdown h S_BAD_PDU_LEN 0 0 s) (\<lambda>s1. Inr (False, s1))
            else Inr (True, s))
      else and_then (ld_msg pdu) (\<lambda>msg.
        let type = ntohs (lm_type msg); msg_len = unat (ntohs (lm_length msg)) in
        if msg_len < unat LDP_MSG_LEN \<or> pdu_len < msg_len + unat LDP_MSG_DEAD_LEN
        then and_then (session_shutdown h S_BAD_TLV_LEN (lm_id msg) (lm_type msg) s) (\<lambda>s1. Inr (False, s1))
        else let msg_size = msg_len + unat LDP_MSG_DEAD_LEN in
        and_then (nbr_get h s) (\<lambda>n.
          if msg_unexpected type (n_state n)
          then and_then (session_shutdown h S_SHUTDOWN (lm_id msg) (lm_type msg) s) (\<lambda>s1. Inr (False, s1))
          else and_then (recv_msg h type msg pdu msg_size s) (\<lambda>(ret, s1).
            if ret = -1 then Inr (False, s1)
            else session_msgs h (drop msg_size pdu) (len - msg_size) (pdu_len - msg_size) s1))))"
  by pat_completeness auto
termination
  by (relation "measure (\<lambda>(h, pdu, len, pdu_len, s). len)") auto

declare session_msgs.simps [simp del]

text \<open>\<open>session_get_pdu\<close>: the first PDU of the read buffer, when it is complete, and the rest.\<close>

definition session_get_pdu :: "byte list \<Rightarrow> (byte list \<times> byte list) option" where
  "session_get_pdu rbuf =
     (if length rbuf < unat LDP_HDR_SIZE then None
      else let dlen = unat (of_be16 (rbuf ! 2) (rbuf ! 3)) + unat LDP_HDR_DEAD_LEN
           in if length rbuf < dlen then None else Some (take dlen rbuf, drop dlen rbuf))"

definition session_pdu :: "nat \<Rightarrow> byte list \<Rightarrow> ldpe \<Rightarrow> (bool \<times> ldpe) result" where
  "session_pdu h pdu s =
     (let shut = (\<lambda>status. and_then (session_shutdown h status 0 0 s) (\<lambda>s1. Inr (False, s1))) in
      and_then (ld16 pdu 0) (\<lambda>version.
        if ntohs version \<noteq> LDP_VERSION then shut S_BAD_PROTO_VER
        else and_then (ld16 pdu 2) (\<lambda>raw_len. and_then (nbr_get h s) (\<lambda>n.
          let pdu_len = ntohs raw_len;
              max_pdu_len = (if n_state n = NBR_STA_OPER then n_max_pdu_len n else LDP_MAX_LEN)
          in if pdu_len < LDP_HDR_PDU_LEN + LDP_MSG_SIZE \<or> max_pdu_len < pdu_len then shut S_BAD_PDU_LEN
             else and_then (ld32 pdu 4) (\<lambda>lsr_id. and_then (ld16 pdu 8) (\<lambda>lspace_id.
               if lsr_id \<noteq> n_id n \<or> lspace_id \<noteq> 0 then shut S_BAD_LDP_ID
               else and_then (nbr_fsm h NBR_EVT_PDU_RCVD s) (\<lambda>s1.
                 session_msgs h (drop 10 pdu) (length pdu - 10) (unat (pdu_len - LDP_HDR_PDU_LEN)) s1)))))))"

text \<open>The loop over the PDUs; the read buffer is looked up through the neighbour each time.\<close>

partial_function (option) session_loop :: "nat \<Rightarrow> ldpe \<Rightarrow> ldpe result option" where
  "session_loop h s =
     (case nbr_tcp h s of
        Inl e \<Rightarrow> Some (Inl Use_after_free)
      | Inr t \<Rightarrow>
          (case session_get_pdu (t_rbuf t) of
             None \<Rightarrow> Some (Inr s)
           | Some (pdu, rest) \<Rightarrow>
               (case session_pdu h pdu (nbr_set h (\<lambda>n. n\<lparr>n_tcp := Some (t\<lparr>t_rbuf := rest\<rparr>)\<rparr>) s) of
                  Inl e \<Rightarrow> Some (Inl e)
                | Inr (go_on, s1) \<Rightarrow> if go_on then session_loop h s1 else Some (Inr s1))))"

text \<open>What \<open>read\<close> returned: an error that is not retried, nothing yet, or bytes (none at the end).\<close>

datatype read_result = Read_error | Read_again | Read_bytes "byte list"

definition session_read :: "nat \<Rightarrow> read_result \<Rightarrow> ldpe \<Rightarrow> ldpe result" where
  "session_read h r s =
     and_then (nbr_tcp h s) (\<lambda>t.
       case r of
         Read_error \<Rightarrow> nbr_fsm h NBR_EVT_CLOSE_SESSION s
       | Read_again \<Rightarrow> Inr s
       | Read_bytes bs \<Rightarrow>
           let got = take (IBUF_READ_SIZE - length (t_rbuf t)) bs in
           if got = [] then nbr_fsm h NBR_EVT_CLOSE_SESSION s
           else of_loop (session_loop h (nbr_set h (\<lambda>n. n\<lparr>n_tcp := Some (t\<lparr>t_rbuf := t_rbuf t @ got\<rparr>)\<rparr>) s)))"

subsection \<open>Sending label messages\<close>

text \<open>The size of a label message as the sender computes it.\<close>

definition label_msg_size :: "map_tlv \<Rightarrow> u16" where
  "label_msg_size m =
     LDP_MSG_SIZE + TLV_HDR_SIZE
     + (if m_type m = MAP_TYPE_WILDCARD then FEC_ELM_WCARD_LEN
        else if m_type m = MAP_TYPE_PREFIX then FEC_ELM_PREFIX_MIN_LEN + of_nat (PREFIX_SIZE (m_prefixlen m))
        else if m_type m = MAP_TYPE_PWID
        then FEC_PWID_ELM_MIN_LEN
           + (if has_flag (m_flags m) F_MAP_PW_ID then PW_STATUS_TLV_LEN else 0)
           + (if has_flag (m_flags m) F_MAP_PW_IFMTU then FEC_SUBTLV_IFMTU_SIZE else 0)
           + (if has_flag (m_flags m) F_MAP_PW_STATUS then PW_STATUS_TLV_SIZE else 0)
        else 0)
     + (if m_label m \<noteq> NO_LABEL then LABEL_TLV_SIZE else 0)
     + (if has_flag (m_flags m) F_MAP_REQ_ID then REQID_TLV_SIZE else 0)
     + (if has_flag (m_flags m) F_MAP_STATUS then STATUS_SIZE else 0)"

definition gen_label_msg :: "u16 \<Rightarrow> map_tlv \<Rightarrow> ibuf \<times> ldpe \<Rightarrow> (ibuf \<times> ldpe) result" where
  "gen_label_msg type m bs =
     (case gen_msg_hdr type (label_msg_size m) bs of (b, s) \<Rightarrow>
        and_then (gen_fec_tlv m b) (\<lambda>b1.
          let b2 = (if m_label m \<noteq> NO_LABEL then gen_label_tlv (m_label m) b1 else b1);
              b3 = (if has_flag (m_flags m) F_MAP_REQ_ID then gen_reqid_tlv (m_requestid m) b2 else b2);
              b4 = (if has_flag (m_flags m) F_MAP_PW_STATUS then gen_pw_status_tlv (m_pw_status m) b3 else b3);
              b5 = (if has_flag (m_flags m) F_MAP_STATUS
                    then gen_status_tlv (m_st_status_code m) (m_st_msg_id m) (m_st_msg_type m) b4 else b4)
          in Inr (b5, s)))"

text \<open>\<open>enqueue_pdu\<close> stores the real length into the header of the PDU.\<close>

definition enqueue_pdu :: "nat \<Rightarrow> ibuf \<Rightarrow> u16 \<Rightarrow> ldpe \<Rightarrow> ldpe result" where
  "enqueue_pdu h b sz s =
     and_then (nbr_tcp h s) (\<lambda>t.
       Inr (evbuf_enqueue (t_fd t) (take 2 (ib_data b) @ be16 sz @ drop 4 (ib_data b)) s))"

text \<open>
  The loop over the list of maps: the buffer being filled and its size (None when a new one has to be
  opened).  What is returned is the list that is left and whether the loop ended normally.
\<close>

partial_function (option) label_pdus ::
  "nat \<Rightarrow> u16 \<Rightarrow> u16 \<Rightarrow> (ibuf \<times> u16) option \<Rightarrow> map_tlv list \<Rightarrow> ldpe \<Rightarrow>
    (map_tlv list \<times> (ibuf \<times> u16) option \<times> ldpe) result option" where
  "label_pdus h type max_pdu_len pdu mh s =
     (case mh of
        [] \<Rightarrow> Some (Inr ([], pdu, s))
      | m # ms \<Rightarrow>
          (case (case pdu of
                   None \<Rightarrow> (gen_ldp_hdr 0 s (ibuf_open (unat max_pdu_len + unat LDP_HDR_DEAD_LEN)), LDP_HDR_PDU_LEN)
                 | Some p \<Rightarrow> p) of (b, sz) \<Rightarrow>
             if uint sz + uint (label_msg_size m) > uint max_pdu_len
             then (case enqueue_pdu h b sz s of
                     Inl e \<Rightarrow> Some (Inl e)
                   | Inr s1 \<Rightarrow> label_pdus h type max_pdu_len None mh s1)
             else (case gen_label_msg type m (b, s) of
                     Inl e \<Rightarrow> Some (Inl e)
                   | Inr (b1, s1) \<Rightarrow>
                       if ib_err b1 then Some (Inr (mh, None, s1))
                       else label_pdus h type max_pdu_len (Some (b1, sz + label_msg_size m)) ms s1)))"

text \<open>The list that is left of a neighbour's queue is given back to the caller, which keeps it.\<close>

definition send_labelmessage :: "nat \<Rightarrow> u16 \<Rightarrow> map_tlv list \<Rightarrow> ldpe \<Rightarrow> (map_tlv list \<times> ldpe) result" where
  "send_labelmessage h type mh s =
     (if mh = [] then Inr ([], s)
      else and_then (nbr_get h s) (\<lambda>n.
        and_then (of_loop (label_pdus h type (n_max_pdu_len n) None mh s)) (\<lambda>(left, pdu, s1).
          case pdu of
            None \<Rightarrow> Inr (left, s1)
          | Some (b, sz) \<Rightarrow>
              and_then (enqueue_pdu h b sz s1) (\<lambda>s2.
              and_then (nbr_fsm h NBR_EVT_PDU_SENT s2) (\<lambda>s3. Inr (left, s3))))))"

end
