(* ===== verification/Ldpe_Adj.thy ===== *)
theory Ldpe_Adj
  imports Ldpe_Recv
begin

text \<open>
  Discovery: hello messages (\<open>hello.c\<close>), adjacencies and targeted neighbours (\<open>adjacency.c\<close>), the
  creation and deletion of neighbours and the active side of a connection (\<open>neighbor.c\<close>), the hello
  socket and pending connections (\<open>packet.c\<close>) and the lookups of interfaces (\<open>interface.c\<close>).

  What the operating system answers to a connection attempt is an argument.  An interface address family is
  named by the interface and the family.
\<close>

subsection \<open>Interfaces and targeted neighbours\<close>

definition iface_af_get :: "iface \<Rightarrow> af \<Rightarrow> iface_af" where
  "iface_af_get x a = (case a of AF_INET \<Rightarrow> if_ipv4 x | AF_INET6 \<Rightarrow> if_ipv6 x)"

definition iface_set :: "nat \<Rightarrow> (iface \<Rightarrow> iface) \<Rightarrow> ldpe \<Rightarrow> ldpe" where
  "iface_set i g s = s\<lparr>e_ifaces := (e_ifaces s)(i := map_option g (e_ifaces s i))\<rparr>"

definition ia_set :: "nat \<Rightarrow> af \<Rightarrow> (iface_af \<Rightarrow> iface_af) \<Rightarrow> ldpe \<Rightarrow> ldpe" where
  "ia_set i a g =
     iface_set i (\<lambda>x. case a of AF_INET \<Rightarrow> x\<lparr>if_ipv4 := g (if_ipv4 x)\<rparr> | AF_INET6 \<Rightarrow> x\<lparr>if_ipv6 := g (if_ipv6 x)\<rparr>)"

text \<open>The index is passed as an \<open>unsigned short\<close>.\<close>

definition if_lookup :: "u16 \<Rightarrow> ldpe \<Rightarrow> nat option" where
  "if_lookup ifindex s =
     find (\<lambda>i. case e_ifaces s i of None \<Rightarrow> False | Some x \<Rightarrow> if_ifindex x = ucast ifindex) (c_iface_list (leconf s))"

definition if_get_hello_holdtime :: "ldpe \<Rightarrow> af \<Rightarrow> iface_af \<Rightarrow> u16" where
  "if_get_hello_holdtime s a ia =
     (if ia_hello_holdtime ia \<noteq> 0 then ia_hello_holdtime ia
      else if ac_lhello_holdtime (ldp_af_conf_get (leconf s) a) \<noteq> 0
      then ac_lhello_holdtime (ldp_af_conf_get (leconf s) a)
      else c_lhello_holdtime (leconf s))"

definition if_get_hello_interval :: "ldpe \<Rightarrow> af \<Rightarrow> iface_af \<Rightarrow> u16" where
  "if_get_hello_interval s a ia =
     (if ia_hello_interval ia \<noteq> 0 then ia_hello_interval ia
      else if ac_lhello_interval (ldp_af_conf_get (leconf s) a) \<noteq> 0
      then ac_lhello_interval (ldp_af_conf_get (leconf s) a)
      else c_lhello_interval (leconf s))"

definition tnbr_find :: "af \<Rightarrow> ldpd_addr \<Rightarrow> ldpe \<Rightarrow> nat option" where
  "tnbr_find a addr s =
     find (\<lambda>t. case e_tnbrs s t of None \<Rightarrow> False | Some x \<Rightarrow> a = tn_af x \<and> ldp_addrcmp a addr (tn_addr x) = 0)
       (c_tnbr_list (leconf s))"

definition tnbr_get_hello_holdtime :: "ldpe \<Rightarrow> tnbr \<Rightarrow> u16" where
  "tnbr_get_hello_holdtime s t =
     (if ac_thello_holdtime (ldp_af_conf_get (leconf s) (tn_af t)) \<noteq> 0
      then ac_thello_holdtime (ldp_af_conf_get (leconf s) (tn_af t))
      else c_thello_holdtime (leconf s))"

definition tnbr_get_hello_interval :: "ldpe \<Rightarrow> tnbr \<Rightarrow> u16" where
  "tnbr_get_hello_interval s t =
     (if ac_thello_interval (ldp_af_conf_get (leconf s) (tn_af t)) \<noteq> 0
      then ac_thello_interval (ldp_af_conf_get (leconf s) (tn_af t))
      else c_thello_interval (leconf s))"

subsection \<open>Sending hellos\<close>

abbreviation (input) F_HELLO_TARGETED :: u16 where "F_HELLO_TARGETED \<equiv> 0x8000"
abbreviation (input) F_HELLO_REQ_TARG :: u16 where "F_HELLO_REQ_TARG \<equiv> 0x4000"
abbreviation (input) F_HELLO_GTSM :: u16 where "F_HELLO_GTSM \<equiv> 0x2000"

definition mcast_addr :: "af \<Rightarrow> ldpd_addr" where
  "mcast_addr a =
     (case a of AF_INET \<Rightarrow> v4_addr (in_addr4 224 0 0 2)
      | AF_INET6 \<Rightarrow> \<lparr>a0 = of_le32 0xff 0x02 0 0, a1 = 0, a2 = 0, a3 = of_le32 0 0 0 2\<rparr>)"

text \<open>The packet: family, holdtime, flags, socket and destination are given.\<close>

definition hello_packet :: "af \<Rightarrow> u16 \<Rightarrow> u16 \<Rightarrow> int \<Rightarrow> ldpd_addr \<Rightarrow> ldpe \<Rightarrow> ldpe" where
  "hello_packet a holdtime flags fd dst s =
     (let sz = LDP_HDR_SIZE + LDP_MSG_SIZE + 8 + (case a of AF_INET \<Rightarrow> 8 | AF_INET6 \<Rightarrow> 20) + 8
             + (if ldp_is_dual_stack (leconf s) then 8 else 0);
          b = gen_ldp_hdr sz s (ibuf_open (unat sz))
      in case gen_msg_hdr MSG_TYPE_HELLO (sz - LDP_HDR_SIZE) (b, s) of (b1, s1) \<Rightarrow>
           let b2 = gen_hello_prms_tlv holdtime flags b1;
               b3 = (case a of
                       AF_INET \<Rightarrow> gen_opt4_hello_prms_tlv TLV_TYPE_IPV4TRANSADDR (a0 (ac_trans_addr (c_ipv4 (leconf s)))) b2
                     | AF_INET6 \<Rightarrow> gen_opt16_hello_prms_tlv TLV_TYPE_IPV6TRANSADDR (ac_trans_addr (c_ipv6 (leconf s))) b2);
               b4 = gen_opt4_hello_prms_tlv TLV_TYPE_CONFIG (htonl (g_conf_seqnum s)) b3;
               b5 = (if ldp_is_dual_stack (leconf s) then gen_ds_hello_prms_tlv s (ucast (c_trans_pref (leconf s))) b4
                     else b4)
           in if ib_err b5 then s1
              else s1\<lparr>e_hellos := e_hellos s1 @ [\<lparr>hp_fd = fd, hp_af = a, hp_dst = dst, hp_bytes = ib_data b5\<rparr>]\<rparr>)"

definition send_hello :: "hello_source \<Rightarrow> ldpe \<Rightarrow> ldpe result" where
  "send_hello src s =
     (case src of
        HELLO_LINK i a _ \<Rightarrow>
          and_then (iface_get i s) (\<lambda>x.
            Inr (hello_packet a (if_get_hello_holdtime s a (iface_af_get x a))
              (if a = AF_INET \<and> \<not> has_flag (ac_flags (c_ipv4 (leconf s))) F_LDPD_AF_NO_GTSM then F_HELLO_GTSM else 0)
              (ag_disc_socket (ldp_af_global_get s a)) (mcast_addr a) s))
      | HELLO_TARGETED t \<Rightarrow>
          and_then (tnbr_get t s) (\<lambda>x.
            Inr (hello_packet (tn_af x) (tnbr_get_hello_holdtime s x)
              (if has_flag (tn_flags x) F_TNBR_CONFIGURED \<or> tn_pw_count x \<noteq> 0
               then F_HELLO_TARGETED OR F_HELLO_REQ_TARG else F_HELLO_TARGETED)
              (ag_edisc_socket (ldp_af_global_get s (tn_af x))) (tn_addr x) s)))"

subsection \<open>Connecting\<close>

definition nbr_gtsm_enabled :: "ldpe \<Rightarrow> nbr \<Rightarrow> nbr_params option \<Rightarrow> bool" where
  "nbr_gtsm_enabled s n p =
     (case p of
        Some x \<Rightarrow> if has_flag (np_flags x) F_NBRP_GTSM then np_gtsm_enabled x
                  else \<not> has_flag (ac_flags (ldp_af_conf_get (leconf s) (n_af n))) F_LDPD_AF_NO_GTSM
                     \<and> \<not> (n_af n = AF_INET \<and> \<not> has_flag (n_flags n) F_NBR_GTSM_NEGOTIATED)
      | None \<Rightarrow> \<not> has_flag (ac_flags (ldp_af_conf_get (leconf s) (n_af n))) F_LDPD_AF_NO_GTSM
              \<and> \<not> (n_af n = AF_INET \<and> \<not> has_flag (n_flags n) F_NBR_GTSM_NEGOTIATED))"

text \<open>
  What the system calls of a connection attempt come to.  The descriptor is that of the new socket; the
  TTL options are set, and can fail, only when GTSM is enabled for the neighbour.
\<close>

datatype connect_result =
    Socket_fails
  | Bind_fails int
  | Ttl_fails int
  | Connect_fails int
  | Connect_in_progress int
  | Connect_done int

definition nbr_establish_connection :: "connect_result \<Rightarrow> nat \<Rightarrow> ldpe \<Rightarrow> ldpe result" where
  "nbr_establish_connection r h s =
     and_then (nbr_get h s) (\<lambda>n.
       let p = nbr_params_find (leconf s) (n_id n);
           with_fd = (\<lambda>fd. nbr_set h (\<lambda>n. n\<lparr>n_fd := fd\<rparr>) s);
           hellos = (\<lambda>fd. foreach (\<lambda>a s. and_then (adj_get a s) (\<lambda>x. send_hello (adj_source x) s)) (n_adj_list n)
                       (with_fd fd))
       in case r of
            Socket_fails \<Rightarrow> Inr (with_fd (-1))
          | Bind_fails fd \<Rightarrow> Inr (with_fd fd)
          | Ttl_fails fd \<Rightarrow> if nbr_gtsm_enabled s n p then Inr (with_fd fd) else hellos fd
          | Connect_fails fd \<Rightarrow> hellos fd
          | Connect_in_progress fd \<Rightarrow>
              and_then (hellos fd) (\<lambda>s1. Inr (nbr_set h (\<lambda>n. n\<lparr>n_ev_connect := True\<rparr>) s1))
          | Connect_done fd \<Rightarrow> and_then (hellos fd) (nbr_fsm h NBR_EVT_CONNECT_UP))"

text \<open>The socket became writable: the pending error of the connection, if any.\<close>

definition nbr_connect_cb :: "bool \<Rightarrow> nat \<Rightarrow> ldpe \<Rightarrow> ldpe result" where
  "nbr_connect_cb failed h s =
     (let s1 = nbr_set h (\<lambda>n. n\<lparr>n_ev_connect := False\<rparr>) s
      in if failed then Inr s1 else nbr_fsm h NBR_EVT_CONNECT_UP s1)"

definition nbr_idtimer :: "connect_result \<Rightarrow> nat \<Rightarrow> ldpe \<Rightarrow> ldpe result" where
  "nbr_idtimer r h s = nbr_establish_connection r h (nbr_stop_idtimer h s)"

subsection \<open>Neighbours\<close>

definition pending_conn_find :: "af \<Rightarrow> ldpd_addr \<Rightarrow> ldpe \<Rightarrow> pending_conn option" where
  "pending_conn_find a addr s = find (\<lambda>p. a = pc_af p \<and> ldp_addrcmp a addr (pc_addr p) = 0) (g_pending_conns s)"

definition pending_conn_del :: "pending_conn \<Rightarrow> ldpe \<Rightarrow> ldpe" where
  "pending_conn_del p s = s\<lparr>g_pending_conns := remove1 p (g_pending_conns s)\<rparr>"

text \<open>The adjacencies that were formed before the neighbour are linked to it.\<close>

definition nbr_adopt :: "nat \<Rightarrow> nat \<Rightarrow> ldpe \<Rightarrow> ldpe result" where
  "nbr_adopt h a s =
     and_then (adj_get a s) (\<lambda>x. and_then (nbr_get h s) (\<lambda>n.
       if adj_lsr_id x = n_id n
       then Inr (nbr_set h (\<lambda>n. n\<lparr>n_adj_list := a # n_adj_list n\<rparr>) (adj_set a (\<lambda>x. x\<lparr>adj_nbr := Some h\<rparr>) s))
       else Inr s))"

definition nbr_new :: "u32 \<Rightarrow> af \<Rightarrow> bool \<Rightarrow> ldpd_addr \<Rightarrow> u32 \<Rightarrow> ldpe \<Rightarrow> (nat \<times> ldpe) result" where
  "nbr_new lsr_id a ds_tlv addr scope_id s =
     (let h = e_next s;
          n = \<lparr>n_tcp = None, n_adj_list = [], n_ev_connect = False, n_keepalive_timer = None,
               n_keepalive_timeout = None, n_init_timeout = None, n_initdelay_timer = None,
               n_mapping_list = [], n_withdraw_list = [], n_request_list = [], n_release_list = [],
               n_abortreq_list = [], n_peerid = 0, n_af = a, n_ds_tlv = ds_tlv,
               n_v4_enabled = (a = AF_INET \<or> ds_tlv), n_v6_enabled = (a = AF_INET6 \<or> ds_tlv), n_id = lsr_id,
               n_laddr = ac_trans_addr (ldp_af_conf_get (leconf s) a), n_raddr = addr,
               n_raddr_scope = scope_id, n_fd = 0, n_state = NBR_STA_PRESENT, n_conf_seqnum = 0,
               n_idtimer_cnt = 0, n_keepalive = 0, n_max_pdu_len = 0, n_flags = 0\<rparr>;
          s0 = s\<lparr>e_nbrs := (e_nbrs s)(h := Some n), e_next := Suc h\<rparr>
      in and_then (foreach (nbr_adopt h) (e_adj_list s0) s0) (\<lambda>s1.
           case rb_insert nbr_id_compare (id_of s1) h (nbrs_by_id s1) of
             (Some x, t) \<Rightarrow> Inl (Fatal ''nbr_new: RB_INSERT(nbrs_by_id) failed'')
           | (None, t) \<Rightarrow>
               (case rb_insert nbr_addr_compare (addr_of s1) h (nbrs_by_addr s1) of
                  (Some x, u) \<Rightarrow> Inl (Fatal ''nbr_new: RB_INSERT(nbrs_by_addr) failed'')
                | (None, u) \<Rightarrow>
                    let s2 = s1\<lparr>nbrs_by_id := t, nbrs_by_addr := u\<rparr>
                    in case pending_conn_find a addr s2 of
                         None \<Rightarrow> Inr (h, s2)
                       | Some p \<Rightarrow>
                           and_then (session_accept_nbr h (pc_fd p) s2) (\<lambda>s3. Inr (h, pending_conn_del p s3)))))"

definition nbr_del :: "nat \<Rightarrow> ldpe \<Rightarrow> ldpe result" where
  "nbr_del h s =
     and_then (nbr_fsm h NBR_EVT_CLOSE_SESSION s) (\<lambda>s1.
     and_then (nbr_get h s1) (\<lambda>n.
       Inr (s1\<lparr>nbrs_by_pid := (if n_peerid n \<noteq> 0 then rb_remove (\<lambda>x. x = h) (nbrs_by_pid s1) else nbrs_by_pid s1),
              nbrs_by_id := rb_remove (\<lambda>x. x = h) (nbrs_by_id s1),
              nbrs_by_addr := rb_remove (\<lambda>x. x = h) (nbrs_by_addr s1),
              e_nbrs := (e_nbrs s1)(h := None)\<rparr>)))"

subsection \<open>Adjacencies\<close>

definition adj_get_af :: "nat \<Rightarrow> ldpe \<Rightarrow> af result" where
  "adj_get_af a s =
     and_then (adj_get a s) (\<lambda>x.
       case adj_source x of
         HELLO_LINK i f _ \<Rightarrow> and_then (iface_get i s) (\<lambda>_. Inr f)
       | HELLO_TARGETED t \<Rightarrow> and_then (tnbr_get t s) (\<lambda>y. Inr (tn_af y)))"

fun count_af :: "af \<Rightarrow> nat list \<Rightarrow> ldpe \<Rightarrow> nat result" where
  "count_af f [] s = Inr 0"
| "count_af f (a # as) s =
     and_then (adj_get_af a s) (\<lambda>g. and_then (count_af f as s) (\<lambda>k. Inr (if g = f then Suc k else k)))"

definition nbr_adj_count :: "nat \<Rightarrow> af \<Rightarrow> ldpe \<Rightarrow> nat result" where
  "nbr_adj_count h f s = and_then (nbr_get h s) (\<lambda>n. count_af f (n_adj_list n) s)"

definition adj_new :: "u32 \<Rightarrow> hello_source \<Rightarrow> ldpd_addr \<Rightarrow> ldpe \<Rightarrow> (nat \<times> ldpe) result" where
  "adj_new lsr_id source addr s =
     (let a = e_next s;
          x = \<lparr>adj_lsr_id = lsr_id, adj_nbr = None, adj_source = source, adj_inactivity_timer = None,
               adj_holdtime = 0, adj_trans_addr = addr\<rparr>;
          s1 = s\<lparr>e_adjs := (e_adjs s)(a := Some x), e_next := Suc a, e_adj_list := a # e_adj_list s\<rparr>
      in case source of
           HELLO_LINK i f _ \<Rightarrow>
             and_then (iface_get i s1) (\<lambda>_. Inr (a, ia_set i f (\<lambda>ia. ia\<lparr>ia_adj_list := a # ia_adj_list ia\<rparr>) s1))
         | HELLO_TARGETED t \<Rightarrow>
             and_then (tnbr_get t s1) (\<lambda>_. Inr (a, tnbr_set t (\<lambda>y. y\<lparr>tn_adj := Some a\<rparr>) s1)))"

definition adj_del_single :: "nat \<Rightarrow> ldpe \<Rightarrow> ldpe result" where
  "adj_del_single a s =
     and_then (adj_get_af a s) (\<lambda>_. and_then (adj_get a s) (\<lambda>x.
       let s1 = s\<lparr>e_adj_list := remove1 a (e_adj_list s)\<rparr>
       in and_then (case adj_nbr x of
                      None \<Rightarrow> Inr s1
                    | Some h \<Rightarrow> and_then (nbr_get h s1)
                        (\<lambda>_. Inr (nbr_set h (\<lambda>n. n\<lparr>n_adj_list := remove1 a (n_adj_list n)\<rparr>) s1))) (\<lambda>s2.
            let s3 = (case adj_source x of
                        HELLO_LINK i f _ \<Rightarrow> ia_set i f (\<lambda>ia. ia\<lparr>ia_adj_list := remove1 a (ia_adj_list ia)\<rparr>) s2
                      | HELLO_TARGETED t \<Rightarrow> tnbr_set t (\<lambda>y. y\<lparr>tn_adj := None\<rparr>) s2)
            in Inr (s3\<lparr>e_adjs := (e_adjs s3)(a := None)\<rparr>))))"

definition adj_del :: "nat \<Rightarrow> u32 \<Rightarrow> ldpe \<Rightarrow> ldpe result" where
  "adj_del a notif_status s =
     and_then (adj_get a s) (\<lambda>x.
     and_then (adj_del_single a s) (\<lambda>s1.
       case adj_nbr x of
         None \<Rightarrow> Inr s1
       | Some h \<Rightarrow>
           and_then (nbr_get h s1) (\<lambda>n.
           and_then (nbr_adj_count h (n_af n) s1) (\<lambda>k.
             if k = 0
             then and_then (foreach adj_del_single (n_adj_list n) s1) (\<lambda>s2.
                  and_then (session_shutdown h notif_status 0 0 s2) (nbr_del h))
             else Inr s1))))"

definition source_match :: "ldpe \<Rightarrow> hello_source \<Rightarrow> nat \<Rightarrow> bool" where
  "source_match s source a =
     (case e_adjs s a of
        None \<Rightarrow> False
      | Some x \<Rightarrow>
          (case (adj_source x, source) of
             (HELLO_LINK _ _ addr, HELLO_LINK _ f addr') \<Rightarrow> ldp_addrcmp f addr addr' = 0
           | (HELLO_TARGETED t, HELLO_TARGETED t') \<Rightarrow> t = t'
           | _ \<Rightarrow> False))"

definition adj_find :: "hello_source \<Rightarrow> ldpe \<Rightarrow> nat option" where
  "adj_find source s = find (source_match s source) (e_adj_list s)"

definition adj_start_itimer :: "nat \<Rightarrow> ldpe \<Rightarrow> ldpe" where
  "adj_start_itimer a = adj_set a (\<lambda>x. x\<lparr>adj_inactivity_timer := Some (uint (adj_holdtime x))\<rparr>)"

definition adj_stop_itimer :: "nat \<Rightarrow> ldpe \<Rightarrow> ldpe" where
  "adj_stop_itimer a = adj_set a (\<lambda>x. x\<lparr>adj_inactivity_timer := None\<rparr>)"

subsection \<open>Targeted neighbours\<close>

definition tnbr_new :: "af \<Rightarrow> ldpd_addr \<Rightarrow> ldpe \<Rightarrow> nat \<times> ldpe" where
  "tnbr_new a addr s =
     (e_next s, s\<lparr>e_next := Suc (e_next s),
        e_tnbrs := (e_tnbrs s)(e_next s := Some \<lparr>tn_hello_timer = None, tn_adj = None, tn_af = a,
          tn_addr = addr, tn_active = False, tn_pw_count = 0, tn_flags = 0\<rparr>)\<rparr>)"

definition conf_tnbrs :: "(nat list \<Rightarrow> nat list) \<Rightarrow> ldpe \<Rightarrow> ldpe" where
  "conf_tnbrs g s = s\<lparr>leconf := (leconf s)\<lparr>c_tnbr_list := g (c_tnbr_list (leconf s))\<rparr>\<rparr>"

definition tnbr_del :: "nat \<Rightarrow> ldpe \<Rightarrow> ldpe result" where
  "tnbr_del t s =
     and_then (tnbr_get t s) (\<lambda>y.
     and_then (case tn_adj y of None \<Rightarrow> Inr s | Some a \<Rightarrow> adj_del a S_SHUTDOWN s) (\<lambda>s1.
       Inr (conf_tnbrs (remove1 t) (s1\<lparr>e_tnbrs := (e_tnbrs s1)(t := None)\<rparr>))))"

text \<open>None when the targeted neighbour was deleted.\<close>

definition tnbr_check :: "nat \<Rightarrow> ldpe \<Rightarrow> (nat option \<times> ldpe) result" where
  "tnbr_check t s =
     and_then (tnbr_get t s) (\<lambda>y.
       if \<not> has_flag (tn_flags y) (F_TNBR_CONFIGURED OR F_TNBR_DYNAMIC) \<and> tn_pw_count y = 0
       then and_then (tnbr_del t s) (\<lambda>s1. Inr (None, s1))
       else Inr (Some t, s))"

definition tnbr_start_hello_timer :: "nat \<Rightarrow> ldpe \<Rightarrow> ldpe" where
  "tnbr_start_hello_timer t s =
     tnbr_set t (\<lambda>y. y\<lparr>tn_hello_timer := Some (uint (tnbr_get_hello_interval s y))\<rparr>) s"

definition tnbr_update :: "nat \<Rightarrow> ldpe \<Rightarrow> ldpe result" where
  "tnbr_update t s =
     and_then (tnbr_get t s) (\<lambda>y.
       let ok = (ag_edisc_socket (ldp_af_global_get s (tn_af y)) \<noteq> -1 \<and> ldp_rtr_id_get s \<noteq> 0) in
       if \<not> tn_active y
       then (if \<not> ok then Inr s
             else and_then (send_hello (HELLO_TARGETED t) (tnbr_set t (\<lambda>y. y\<lparr>tn_active := True\<rparr>) s)) (\<lambda>s1.
               Inr (tnbr_start_hello_timer t s1)))
       else if ok then Inr s
       else Inr (tnbr_set t (\<lambda>y. y\<lparr>tn_active := False, tn_hello_timer := None\<rparr>) s))"

definition tnbr_hello_timer :: "nat \<Rightarrow> ldpe \<Rightarrow> ldpe result" where
  "tnbr_hello_timer t s =
     and_then (send_hello (HELLO_TARGETED t) s) (\<lambda>s1. Inr (tnbr_start_hello_timer t s1))"

definition adj_itimer :: "nat \<Rightarrow> ldpe \<Rightarrow> ldpe result" where
  "adj_itimer a s =
     (let s0 = adj_stop_itimer a s in
      and_then (adj_get a s0) (\<lambda>x.
        case adj_source x of
          HELLO_LINK _ _ _ \<Rightarrow> adj_del a S_HOLDTIME_EXP s0
        | HELLO_TARGETED t \<Rightarrow>
            and_then (tnbr_get t s0) (\<lambda>y.
              if \<not> has_flag (tn_flags y) F_TNBR_CONFIGURED \<and> tn_pw_count y = 0 then tnbr_del t s0
              else adj_del a S_HOLDTIME_EXP (tnbr_set t (\<lambda>y. y\<lparr>tn_adj := None\<rparr>) s0))))"

end
