(* ===== verification/Ldpe_Hello.thy ===== *)
theory Ldpe_Hello
  imports Ldpe_Adj
begin

text \<open>
  Receiving hellos (\<open>hello.c\<close>, \<open>disc_recv_packet\<close> of \<open>packet.c\<close>), accepting connections and the messages of
  the label decision engine (\<open>ldpe_dispatch_lde\<close> of \<open>ldpe.c\<close>).
\<close>

subsection \<open>The parameters of a hello\<close>

text \<open>The holdtime and the flags of the mandatory TLV, which takes eight bytes.\<close>

definition tlv_decode_hello_prms :: "byte list \<Rightarrow> nat \<Rightarrow> (u16 \<times> u16) option result" where
  "tlv_decode_hello_prms buf len =
     (if len < 8 then Inr None
      else and_then (ld16 buf 0) (\<lambda>type. and_then (ld16 buf 2) (\<lambda>tlen. and_then (ld16 buf 4) (\<lambda>holdtime.
           and_then (ld16 buf 6) (\<lambda>flags.
        if type \<noteq> htons TLV_TYPE_COMMONHELLO then Inr None
        else if ntohs tlen \<noteq> 4 then Inr None
        else Inr (Some (ntohs holdtime, ntohs flags)))))))"

abbreviation (input) F_HELLO_TLV_RCVD_ADDR :: u8 where "F_HELLO_TLV_RCVD_ADDR \<equiv> 0x01"
abbreviation (input) F_HELLO_TLV_RCVD_CONF :: u8 where "F_HELLO_TLV_RCVD_CONF \<equiv> 0x02"
abbreviation (input) F_HELLO_TLV_RCVD_DS :: u8 where "F_HELLO_TLV_RCVD_DS \<equiv> 0x04"

record hello_opts =
  ho_rcvd :: u8
  ho_addr :: ldpd_addr
  ho_conf :: u32
  ho_pref :: u16

definition hello_opts_zero :: hello_opts where
  "hello_opts_zero = \<lparr>ho_rcvd = 0, ho_addr = addr_zero, ho_conf = 0, ho_pref = 0\<rparr>"

text \<open>One optional TLV; None where the hello is refused.\<close>

definition hello_opt :: "ldpd_conf \<Rightarrow> af \<Rightarrow> u16 \<Rightarrow> nat \<Rightarrow> byte list \<Rightarrow> hello_opts \<Rightarrow> hello_opts option result" where
  "hello_opt c a tlv_type tlv_len buf ho =
     (if tlv_type = TLV_TYPE_IPV4TRANSADDR
      then (if tlv_len \<noteq> 4 \<or> a \<noteq> AF_INET then Inr None
            else if has_flag (ho_rcvd ho) F_HELLO_TLV_RCVD_ADDR then Inr (Some ho)
            else and_then (ld32 buf 0) (\<lambda>x.
              Inr (Some (ho\<lparr>ho_addr := (ho_addr ho)\<lparr>a0 := x\<rparr>, ho_rcvd := ho_rcvd ho OR F_HELLO_TLV_RCVD_ADDR\<rparr>))))
      else if tlv_type = TLV_TYPE_IPV6TRANSADDR
      then (if tlv_len \<noteq> 16 \<or> a \<noteq> AF_INET6 then Inr None
            else if has_flag (ho_rcvd ho) F_HELLO_TLV_RCVD_ADDR then Inr (Some ho)
            else and_then (ldn buf 0 16) (\<lambda>x.
              Inr (Some (ho\<lparr>ho_addr := of_s6_addr x, ho_rcvd := ho_rcvd ho OR F_HELLO_TLV_RCVD_ADDR\<rparr>))))
      else if tlv_type = TLV_TYPE_CONFIG
      then (if tlv_len \<noteq> 4 then Inr None
            else and_then (ld32 buf 0) (\<lambda>x.
              Inr (Some (ho\<lparr>ho_conf := x, ho_rcvd := ho_rcvd ho OR F_HELLO_TLV_RCVD_CONF\<rparr>))))
      else if tlv_type = TLV_TYPE_DUALSTACK
      then (if tlv_len \<noteq> 4 then Inr None
            else if \<not> ldp_is_dual_stack c then Inr (Some ho)
            else and_then (if has_flag (c_flags c) F_LDPD_DS_CISCO_INTEROP
                           then and_then (ld16 buf 2) (\<lambda>x. Inr (ntohs x))
                           else and_then (ld16 buf 0) (\<lambda>x. Inr (drop_bit 12 (ntohs x)))) (\<lambda>pref.
              Inr (Some (ho\<lparr>ho_pref := pref, ho_rcvd := ho_rcvd ho OR F_HELLO_TLV_RCVD_DS\<rparr>))))
      else if has_flag tlv_type UNKNOWN_FLAG then Inr (Some ho)
      else Inr None)"

text \<open>The number of bytes read and what was found; None where the hello is refused.\<close>

function tlv_decode_opt_hello_prms ::
  "ldpd_conf \<Rightarrow> af \<Rightarrow> byte list \<Rightarrow> nat \<Rightarrow> nat \<Rightarrow> hello_opts \<Rightarrow> (nat \<times> hello_opts) option result" where
  "tlv_decode_opt_hello_prms c a buf len tot ho =
     (if len < 4 then Inr (Some (tot, ho))
      else and_then (ld16 buf 0) (\<lambda>raw_type. and_then (ld16 buf 2) (\<lambda>raw_len.
        let tlv_len = unat (ntohs raw_len); buf1 = drop 4 buf in
        if len < tlv_len + 4 then Inr None
        else and_then (hello_opt c a (ntohs raw_type) tlv_len buf1 ho) (\<lambda>r.
          case r of
            None \<Rightarrow> Inr None
          | Some ho1 \<Rightarrow>
              tlv_decode_opt_hello_prms c a (drop tlv_len buf1) (len - (4 + tlv_len)) (tot + 4 + tlv_len) ho1))))"
  by pat_completeness auto
termination
  by (relation "measure (\<lambda>(c, a, buf, len, tot, ho). len)") auto

declare tlv_decode_opt_hello_prms.simps [simp del]

subsection \<open>Receiving a hello\<close>

text \<open>
  The targeted neighbour a targeted hello belongs to.  A dynamic one is dropped when the peer no longer
  asks for hellos, and made when the peer asks and the configuration accepts it.
\<close>

definition hello_tnbr :: "af \<Rightarrow> ldpd_addr \<Rightarrow> u16 \<Rightarrow> ldpe \<Rightarrow> (nat option \<times> ldpe) result" where
  "hello_tnbr a src flags s =
     and_then
       (case tnbr_find a src s of
          None \<Rightarrow> Inr (None, s)
        | Some t \<Rightarrow>
            and_then (tnbr_get t s) (\<lambda>y.
              if has_flag (tn_flags y) F_TNBR_DYNAMIC \<and> \<not> has_flag flags F_HELLO_REQ_TARG
              then tnbr_check t (tnbr_set t (\<lambda>y. y\<lparr>tn_flags := tn_flags y AND NOT F_TNBR_DYNAMIC\<rparr>) s)
              else Inr (Some t, s)))
       (\<lambda>(r, s1).
         case r of
           Some t \<Rightarrow> Inr (Some t, s1)
         | None \<Rightarrow>
             if \<not> (has_flag flags F_HELLO_REQ_TARG \<and>
                  has_flag (ac_flags (ldp_af_conf_get (leconf s1) a)) F_LDPD_AF_THELLO_ACCEPT)
             then Inr (None, s1)
             else case tnbr_new a src s1 of (t, s2) \<Rightarrow>
               and_then (tnbr_update t (tnbr_set t (\<lambda>y. y\<lparr>tn_flags := tn_flags y OR F_TNBR_DYNAMIC\<rparr>) s2)) (\<lambda>s3.
                 Inr (Some t, conf_tnbrs (\<lambda>ts. t # ts) s3)))"

definition del_adj_opt :: "nat option \<Rightarrow> u32 \<Rightarrow> ldpe \<Rightarrow> ldpe result" where
  "del_adj_opt a status s = (case a of None \<Rightarrow> Inr s | Some x \<Rightarrow> adj_del x status s)"

text \<open>The adjacency of the hello, made and linked to the neighbour if there is none yet.\<close>

definition hello_adj ::
  "nat option \<Rightarrow> nat option \<Rightarrow> u32 \<Rightarrow> hello_source \<Rightarrow> ldpd_addr \<Rightarrow> ldpe \<Rightarrow> (nat \<times> ldpe) result" where
  "hello_adj adj nbr lsr_id source trans_addr s =
     (case adj of
        Some a \<Rightarrow> Inr (a, s)
      | None \<Rightarrow>
          and_then (adj_new lsr_id source trans_addr s) (\<lambda>(a, s1).
            case nbr of
              None \<Rightarrow> Inr (a, s1)
            | Some h \<Rightarrow>
                and_then (nbr_get h s1) (\<lambda>_.
                  Inr (a, nbr_set h (\<lambda>n. n\<lparr>n_adj_list := a # n_adj_list n\<rparr>)
                            (adj_set a (\<lambda>x. x\<lparr>adj_nbr := Some h\<rparr>) s1)))))"

text \<open>What a hello that was accepted changes in the neighbour and the adjacency.\<close>

definition hello_refresh :: "nat option \<Rightarrow> u16 \<Rightarrow> hello_opts \<Rightarrow> ldpe \<Rightarrow> ldpe result" where
  "hello_refresh nbr flags ho s =
     (case nbr of
        None \<Rightarrow> Inr s
      | Some h \<Rightarrow>
          and_then (nbr_get h s) (\<lambda>n.
            let s1 = nbr_set h (\<lambda>n. n\<lparr>n_flags := (if has_flag flags F_HELLO_GTSM
                       then n_flags n OR F_NBR_GTSM_NEGOTIATED else n_flags n AND NOT F_NBR_GTSM_NEGOTIATED)\<rparr>) s
            in if has_flag (ho_rcvd ho) F_HELLO_TLV_RCVD_CONF
               then Inr (nbr_set h (\<lambda>n. n\<lparr>n_conf_seqnum := ho_conf ho\<rparr>)
                      (if n_conf_seqnum n < ho_conf ho \<and> nbr_pending_idtimer n then nbr_stop_idtimer h s1 else s1))
               else Inr s1))"

definition hello_holdtime :: "hello_source \<Rightarrow> nat \<Rightarrow> u16 \<Rightarrow> ldpe \<Rightarrow> ldpe result" where
  "hello_holdtime source adj holdtime s =
     and_then
       (case source of
          HELLO_LINK i a _ \<Rightarrow>
            and_then (iface_get i s) (\<lambda>x.
              Inr (min (if_get_hello_holdtime s a (iface_af_get x a)) (if holdtime = 0 then LINK_DFLT_HOLDTIME else holdtime)))
        | HELLO_TARGETED t \<Rightarrow>
            and_then (tnbr_get t s) (\<lambda>y.
              Inr (min (tnbr_get_hello_holdtime s y) (if holdtime = 0 then TARGETED_DFLT_HOLDTIME else holdtime))))
       (\<lambda>hold. and_then (adj_get adj s) (\<lambda>_.
         let s1 = adj_set adj (\<lambda>x. x\<lparr>adj_holdtime := hold\<rparr>) s
         in Inr (if hold \<noteq> INFINITE_HOLDTIME then adj_start_itimer adj s1 else adj_stop_itimer adj s1)))"

definition hello_connect :: "connect_result \<Rightarrow> nat option \<Rightarrow> ldpe \<Rightarrow> ldpe result" where
  "hello_connect r nbr s =
     (case nbr of
        None \<Rightarrow> Inr s
      | Some h \<Rightarrow>
          and_then (nbr_get h s) (\<lambda>n.
            if n_state n = NBR_STA_PRESENT \<and> \<not> nbr_pending_idtimer n \<and> nbr_session_active_role n \<and>
               \<not> nbr_pending_connect n
            then nbr_establish_connection r h s else Inr s))"

abbreviation (input) DUAL_STACK_LDPOV4 :: u16 where "DUAL_STACK_LDPOV4 \<equiv> 4"
abbreviation (input) DUAL_STACK_LDPOV6 :: u16 where "DUAL_STACK_LDPOV6 \<equiv> 6"

text \<open>The part of \<open>recv_hello\<close> after the source of the hello is known.\<close>

definition hello_accept ::
  "connect_result \<Rightarrow> u32 \<Rightarrow> ldp_msg \<Rightarrow> af \<Rightarrow> hello_source \<Rightarrow> ldpd_addr \<Rightarrow> u32 \<Rightarrow> u16 \<Rightarrow> u16 \<Rightarrow> hello_opts \<Rightarrow>
    ldpe \<Rightarrow> ldpe result" where
  "hello_accept r lsr_id msg a source trans_addr scope_id holdtime flags ho s =
     (let adj = adj_find source s;
          nbr = nbr_find_ldpid lsr_id s;
          ds_tlv = has_flag (ho_rcvd ho) F_HELLO_TLV_RCVD_DS in
      if ds_tlv \<and> ho_pref ho \<noteq> c_trans_pref (leconf s)
      then and_then (case nbr of None \<Rightarrow> Inr s | Some h \<Rightarrow> session_shutdown h S_TRANS_MISMTCH (lm_id msg) (lm_type msg) s)
             (del_adj_opt adj S_SHUTDOWN)
      else and_then (case nbr of
                       None \<Rightarrow> Inr False
                     | Some h \<Rightarrow>
                         if ds_tlv then Inr False
                         else and_then (nbr_adj_count h (case a of AF_INET \<Rightarrow> AF_INET6 | AF_INET6 \<Rightarrow> AF_INET) s)
                                (\<lambda>k. Inr (k > 0))) (\<lambda>noncompliant.
        if noncompliant
        then (case nbr of None \<Rightarrow> Inr s | Some h \<Rightarrow> session_shutdown h S_DS_NONCMPLNCE (lm_id msg) (lm_type msg) s)
        else and_then (case nbr of
                         None \<Rightarrow> Inr (nbr_find_addr a trans_addr s \<noteq> None)
                       | Some h \<Rightarrow>
                           and_then (nbr_get h s) (\<lambda>n.
                             Inr (n_af n = a \<and> (ldp_addrcmp a (n_raddr n) trans_addr \<noteq> 0 \<or> n_raddr_scope n \<noteq> scope_id))))
          (\<lambda>conflict.
            if conflict then del_adj_opt adj S_SHUTDOWN s
            else and_then (hello_adj adj nbr lsr_id source trans_addr s) (\<lambda>(a1, s1).
                 and_then (if nbr = None \<and> (\<not> ds_tlv \<or> (ho_pref ho = DUAL_STACK_LDPOV4 \<and> a = AF_INET) \<or>
                              (ho_pref ho = DUAL_STACK_LDPOV6 \<and> a = AF_INET6))
                           then and_then (nbr_new lsr_id a ds_tlv trans_addr scope_id s1) (\<lambda>(h, s2). Inr (Some h, s2))
                           else Inr (nbr, s1)) (\<lambda>(nbr1, s2).
                 and_then (hello_refresh nbr1 flags ho s2) (\<lambda>s3.
                 and_then (hello_holdtime source a1 holdtime s3) (hello_connect r nbr1)))))))"

definition recv_hello ::
  "connect_result \<Rightarrow> u32 \<Rightarrow> ldp_msg \<Rightarrow> af \<Rightarrow> ldpd_addr \<Rightarrow> nat \<Rightarrow> bool \<Rightarrow> byte list \<Rightarrow> nat \<Rightarrow> ldpe \<Rightarrow> ldpe result" where
  "recv_hello r lsr_id msg a src iface multicast buf len s =
     and_then (tlv_decode_hello_prms buf len) (\<lambda>p.
       case p of
         None \<Rightarrow> Inr s
       | Some (holdtime, flags) \<Rightarrow>
           if (holdtime \<noteq> 0 \<and> holdtime < MIN_HOLDTIME) \<or> (multicast = has_flag flags F_HELLO_TARGETED) then Inr s
           else and_then (tlv_decode_opt_hello_prms (leconf s) a (drop 8 buf) (len - 8) 0 hello_opts_zero) (\<lambda>q.
             case q of
               None \<Rightarrow> Inr s
             | Some (tot, ho) \<Rightarrow>
                 let trans_addr = (if has_flag (ho_rcvd ho) F_HELLO_TLV_RCVD_ADDR then ho_addr ho else src);
                     embedded = (a = AF_INET6 \<and> in6_is_scope_embed trans_addr);
                     targeted = has_flag flags F_HELLO_TARGETED in
                 if tot \<noteq> len - 8 \<or> bad_addr a trans_addr \<or> (embedded \<and> targeted) then Inr s
                 else and_then (iface_get iface s) (\<lambda>x.
                   let scope_id = (if embedded then if_ifindex x else 0) in
                   if targeted
                   then (if a = AF_INET6 \<and> in6_is_scope_embed src then Inr s
                         else and_then (hello_tnbr a src flags s) (\<lambda>(t, s1).
                           case t of
                             None \<Rightarrow> Inr s1
                           | Some t \<Rightarrow> hello_accept r lsr_id msg a (HELLO_TARGETED t) trans_addr scope_id holdtime flags ho s1))
                   else hello_accept r lsr_id msg a (HELLO_LINK iface a src) trans_addr scope_id holdtime flags ho s)))"

subsection \<open>The hello socket\<close>

definition disc_find_iface :: "u32 \<Rightarrow> af \<Rightarrow> ldpd_addr \<Rightarrow> bool \<Rightarrow> ldpe \<Rightarrow> nat option result" where
  "disc_find_iface ifindex a src multicast s =
     (case if_lookup (ucast ifindex) s of
        None \<Rightarrow> Inr None
      | Some i \<Rightarrow>
          and_then (iface_get i s) (\<lambda>x.
            if \<not> multicast then Inr (if ia_enabled (iface_af_get x a) then Some i else None)
            else case a of
                   AF_INET6 \<Rightarrow> Inr (if in6_linklocal src then Some i else None)
                 | AF_INET \<Rightarrow>
                     and_then (foreach (\<lambda>f found.
                         if found \<or> ifa_af f \<noteq> AF_INET then Inr found
                         else if if_pointopoint x then Inr (a0 (ifa_dstbrd f) = a0 src)
                         else and_then (prefixlen2mask (ifa_prefixlen f)) (\<lambda>m.
                           Inr (a0 (ifa_addr f) AND m = a0 src AND m))) (if_addr_list x) False) (\<lambda>found.
                       Inr (if found then Some i else None))))"

text \<open>A datagram of the discovery socket: where it came from, and its bytes.\<close>

definition disc_recv_packet ::
  "connect_result \<Rightarrow> af \<Rightarrow> ldpd_addr \<Rightarrow> u32 \<Rightarrow> bool \<Rightarrow> byte list \<Rightarrow> ldpe \<Rightarrow> ldpe result" where
  "disc_recv_packet r a src ifindex multicast bytes s =
     (if bad_addr a src then Inr s
      else and_then (disc_find_iface ifindex a src multicast s) (\<lambda>i.
        case i of
          None \<Rightarrow> Inr s
        | Some iface \<Rightarrow>
            let len = unat (of_nat (length bytes) :: u16) in
            if len < 18 \<or> unat LDP_MAX_LEN < len then Inr s
            else and_then (ld16 bytes 0) (\<lambda>version. and_then (ld16 bytes 2) (\<lambda>raw_len.
                 and_then (ld32 bytes 4) (\<lambda>lsr_id. and_then (ld16 bytes 8) (\<lambda>lspace_id.
              let pdu_len = unat (ntohs raw_len) in
              if ntohs version \<noteq> LDP_VERSION \<or> ntohs lspace_id \<noteq> 0 \<or> pdu_len < 14 \<or> len - 4 < pdu_len then Inr s
              else and_then (ld_msg (drop 10 bytes)) (\<lambda>msg.
                let msg_len = unat (ntohs (lm_length msg)) in
                if msg_len < 4 \<or> pdu_len < msg_len + 4 then Inr s
                else if ntohs (lm_type msg) = MSG_TYPE_HELLO
                then recv_hello r lsr_id msg a src iface multicast (drop 18 bytes) (len - 18) s
                else Inr s)))))))"

subsection \<open>Accepting connections\<close>

definition pending_conn_new :: "int \<Rightarrow> af \<Rightarrow> ldpd_addr \<Rightarrow> ldpe \<Rightarrow> ldpe" where
  "pending_conn_new fd a addr s =
     s\<lparr>g_pending_conns := g_pending_conns s @ [\<lparr>pc_fd = fd, pc_af = a, pc_addr = addr\<rparr>]\<rparr>"

text \<open>A connection that was accepted: its descriptor and the address it comes from.\<close>

definition session_accept :: "int \<Rightarrow> af \<Rightarrow> ldpd_addr \<Rightarrow> ldpe \<Rightarrow> ldpe result" where
  "session_accept newfd a addr s =
     (case nbr_find_addr a addr s of
        None \<Rightarrow> Inr (if pending_conn_find a addr s \<noteq> None then s else pending_conn_new newfd a addr s)
      | Some h \<Rightarrow>
          and_then (nbr_get h s) (\<lambda>n.
            if nbr_session_active_role n \<or> n_state n \<noteq> NBR_STA_PRESENT then Inr s
            else session_accept_nbr h newfd s))"

text \<open>A connection without a neighbour is told so over a write buffer of its own.\<close>

definition pending_conn_timeout :: "pending_conn \<Rightarrow> ldpe \<Rightarrow> ldpe result" where
  "pending_conn_timeout p s =
     and_then (send_notification S_NO_HELLO (pc_fd p) 0 0 s) (\<lambda>s1.
       Inr (pending_conn_del p (s1\<lparr>e_detached := pc_fd p # e_detached s1\<rparr>)))"

subsection \<open>Messages of the label decision engine\<close>

definition with_oper :: "u32 \<Rightarrow> (nat \<Rightarrow> nbr \<Rightarrow> ldpe \<Rightarrow> ldpe result) \<Rightarrow> ldpe \<Rightarrow> ldpe result" where
  "with_oper pid f s =
     (case nbr_find_peerid pid s of
        None \<Rightarrow> Inr s
      | Some h \<Rightarrow> and_then (nbr_get h s) (\<lambda>n. if n_state n \<noteq> NBR_STA_OPER then Inr s else f h n s))"

fun ldpe_handle_lde :: "ldpe_msg \<Rightarrow> ldpe \<Rightarrow> ldpe result" where
  "ldpe_handle_lde (IMSG_MAPPING_ADD pid m) s =
     with_oper pid (\<lambda>h n s. Inr (nbr_set h (\<lambda>n. n\<lparr>n_mapping_list := n_mapping_list n @ [m]\<rparr>) s)) s"
| "ldpe_handle_lde (IMSG_RELEASE_ADD pid m) s =
     with_oper pid (\<lambda>h n s. Inr (nbr_set h (\<lambda>n. n\<lparr>n_release_list := n_release_list n @ [m]\<rparr>) s)) s"
| "ldpe_handle_lde (IMSG_WITHDRAW_ADD pid m) s =
     with_oper pid (\<lambda>h n s. Inr (nbr_set h (\<lambda>n. n\<lparr>n_withdraw_list := n_withdraw_list n @ [m]\<rparr>) s)) s"
| "ldpe_handle_lde (IMSG_MAPPING_ADD_END pid) s =
     with_oper pid (\<lambda>h n s. and_then (send_labelmessage h MSG_TYPE_LABELMAPPING (n_mapping_list n) s)
       (\<lambda>(left, s1). Inr (nbr_set h (\<lambda>n. n\<lparr>n_mapping_list := left\<rparr>) s1))) s"
| "ldpe_handle_lde (IMSG_RELEASE_ADD_END pid) s =
     with_oper pid (\<lambda>h n s. and_then (send_labelmessage h MSG_TYPE_LABELRELEASE (n_release_list n) s)
       (\<lambda>(left, s1). Inr (nbr_set h (\<lambda>n. n\<lparr>n_release_list := left\<rparr>) s1))) s"
| "ldpe_handle_lde (IMSG_WITHDRAW_ADD_END pid) s =
     with_oper pid (\<lambda>h n s. and_then (send_labelmessage h MSG_TYPE_LABELWITHDRAW (n_withdraw_list n) s)
       (\<lambda>(left, s1). Inr (nbr_set h (\<lambda>n. n\<lparr>n_withdraw_list := left\<rparr>) s1))) s"
| "ldpe_handle_lde (IMSG_NOTIFICATION_SEND pid nm) s =
     with_oper pid (\<lambda>h n s. and_then (nbr_tcp h s) (\<lambda>t. send_notification_full (t_fd t) nm s)) s"
| "ldpe_handle_lde _ s = Inr s"

end
