(* ===== verification/Ldpe_Inv.thy ===== *)
theory Ldpe_Inv
  imports Ldpe_Recv
begin

text \<open>
  The invariant of the sessions of the protocol engine, and that the state machine keeps it.

  A neighbour is in one of five states; it has a connection exactly when it is past \<open>PRESENT\<close>; the
  initialization timeout runs exactly while a session is being set up, and both keepalive timers run in
  every established session; the maximum PDU length of a session is between 256 and 4096 once it is
  negotiated; the peer ids of the neighbours are below the counter and different, and the tree of peer
  ids holds exactly the neighbours that ever had a session.  The messages sent to the label decision
  engine are what that engine expects: a peer id comes up only while it is down, labels and addresses
  are sent only for peer ids that are up, and the peer ids that are up are those of the neighbours in
  state \<open>OPER\<close>.

  Peer ids are compared by subtraction, so the invariant covers the first \<open>2^31\<close> sessions of a process.
\<close>

subsection \<open>The order of peer ids\<close>

interpretation pid_order: rb_ordered nbr_pid_compare "\<lambda>p. p" peerid_small
proof
  fix x y assume "peerid_small x" and "peerid_small y"
  from lde_nbr_order.cmp_neg[OF this] lde_nbr_order.cmp_pos[OF this]
  show "nbr_pid_compare x y < 0 \<longleftrightarrow> x < y" and "nbr_pid_compare x y > 0 \<longleftrightarrow> y < x"
    by (simp_all add: nbr_pid_compare_def lde_nbr_compare_def)
qed

subsection \<open>The invariant of a neighbour\<close>

definition nbr_core :: "nbr \<Rightarrow> bool" where
  "nbr_core n \<longleftrightarrow>
     n_state n \<in> {NBR_STA_PRESENT, NBR_STA_INITIAL, NBR_STA_OPENREC, NBR_STA_OPENSENT, NBR_STA_OPER} \<and>
     (n_tcp n = None \<longleftrightarrow> n_state n = NBR_STA_PRESENT) \<and>
     (n_state n \<in> {NBR_STA_OPENREC, NBR_STA_OPER} \<longrightarrow> 256 \<le> n_max_pdu_len n \<and> n_max_pdu_len n \<le> 4096) \<and>
     (n_state n = NBR_STA_OPER \<longrightarrow> n_peerid n \<noteq> 0) \<and>
     0 \<le> n_idtimer_cnt n \<and> n_idtimer_cnt n \<le> 3"

definition nbr_timers :: "nbr \<Rightarrow> bool" where
  "nbr_timers n \<longleftrightarrow>
     (n_init_timeout n = None \<longleftrightarrow> n_state n \<in> {NBR_STA_PRESENT, NBR_STA_OPER}) \<and>
     (n_state n = NBR_STA_OPER \<longrightarrow> n_keepalive_timer n \<noteq> None \<and> n_keepalive_timeout n \<noteq> None) \<and>
     (n_state n = NBR_STA_PRESENT \<longrightarrow> n_keepalive_timer n = None \<and> n_keepalive_timeout n = None)"

lemmas nbr_ok_defs = nbr_core_def nbr_timers_def

subsection \<open>What the label decision engine is told\<close>

text \<open>The peers that are up after a message, and the messages expected in between.\<close>

definition up_step :: "u32 set \<Rightarrow> ldpe_imsg \<Rightarrow> u32 set" where
  "up_step U m = (case m of IMSG_NEIGHBOR_UP p _ _ _ \<Rightarrow> insert p U | IMSG_NEIGHBOR_DOWN p \<Rightarrow> U - {p} | _ \<Rightarrow> U)"

definition msg_expected :: "u32 set \<Rightarrow> ldpe_imsg \<Rightarrow> bool" where
  "msg_expected U m =
     (case m of
        IMSG_NEIGHBOR_UP p _ _ _ \<Rightarrow> p \<notin> U \<and> peerid_small p
      | IMSG_LABEL_MAPPING_FULL p \<Rightarrow> p \<in> U
      | IMSG_LABEL_MAPPING p _ \<Rightarrow> p \<in> U
      | IMSG_LABEL_REQUEST p _ \<Rightarrow> p \<in> U
      | IMSG_LABEL_RELEASE p _ \<Rightarrow> p \<in> U
      | IMSG_LABEL_WITHDRAW p _ \<Rightarrow> p \<in> U
      | IMSG_LABEL_ABORT p _ \<Rightarrow> p \<in> U
      | IMSG_ADDRESS_ADD p _ \<Rightarrow> p \<in> U
      | IMSG_ADDRESS_DEL p _ \<Rightarrow> p \<in> U
      | _ \<Rightarrow> True)"

fun trace_from :: "u32 set \<Rightarrow> ldpe_imsg list \<Rightarrow> bool" where
  "trace_from U [] = True"
| "trace_from U (m # ms) = (msg_expected U m \<and> trace_from (up_step U m) ms)"

definition lde_up :: "ldpe_imsg list \<Rightarrow> u32 set" where
  "lde_up ms = foldl up_step {} ms"

lemma lde_up_simps [simp]: "lde_up [] = {}" "lde_up (ms @ [m]) = up_step (lde_up ms) m"
  by (simp_all add: lde_up_def)

lemma trace_from_append: "trace_from U (ms @ ns) \<longleftrightarrow> trace_from U ms \<and> trace_from (foldl up_step U ms) ns"
  by (induction ms arbitrary: U) auto

lemma trace_snoc [simp]: "trace_from {} (ms @ [m]) \<longleftrightarrow> trace_from {} ms \<and> msg_expected (lde_up ms) m"
  by (simp add: trace_from_append lde_up_def)

definition oper_pids :: "ldpe \<Rightarrow> u32 set" where
  "oper_pids s = {p. \<exists>h n. e_nbrs s h = Some n \<and> n_state n = NBR_STA_OPER \<and> n_peerid n = p}"

lemma ex_upd: "(\<exists>k x. (f(h := Some m)) k = Some x \<and> P x) \<longleftrightarrow> P m \<or> (\<exists>k x. k \<noteq> h \<and> f k = Some x \<and> P x)"
  by (auto split: if_splits)

lemma ex_split: "f h = Some n \<Longrightarrow> (\<exists>k x. f k = Some x \<and> P x) \<longleftrightarrow> P n \<or> (\<exists>k x. k \<noteq> h \<and> f k = Some x \<and> P x)"
  using ex_upd[of f h n P] by (simp add: fun_upd_idem)

lemma oper_pids_upd:
  assumes "e_nbrs t = (e_nbrs s)(h := Some m)"
  shows "p \<in> oper_pids t \<longleftrightarrow>
    (n_state m = NBR_STA_OPER \<and> n_peerid m = p) \<or>
    (\<exists>k x. k \<noteq> h \<and> e_nbrs s k = Some x \<and> n_state x = NBR_STA_OPER \<and> n_peerid x = p)"
  unfolding oper_pids_def mem_Collect_eq assms ex_upd by simp

lemma oper_pids_split:
  assumes "e_nbrs s h = Some n"
  shows "p \<in> oper_pids s \<longleftrightarrow>
    (n_state n = NBR_STA_OPER \<and> n_peerid n = p) \<or>
    (\<exists>k x. k \<noteq> h \<and> e_nbrs s k = Some x \<and> n_state x = NBR_STA_OPER \<and> n_peerid x = p)"
  unfolding oper_pids_def mem_Collect_eq ex_split[of "e_nbrs s", OF assms] by simp

definition lde_sync :: "ldpe \<Rightarrow> bool" where
  "lde_sync s \<longleftrightarrow> trace_from {} (e_to_lde s) \<and> lde_up (e_to_lde s) = oper_pids s"

subsection \<open>The invariant of the sessions\<close>

definition pids_ok :: "ldpe \<Rightarrow> bool" where
  "pids_ok s \<longleftrightarrow>
     (\<forall>h. h \<in> set (inorder (nbrs_by_pid s)) \<longleftrightarrow> (\<exists>n. e_nbrs s h = Some n \<and> n_peerid n \<noteq> 0)) \<and>
     pid_order.ordered (pid_of s) (nbrs_by_pid s) \<and>
     (\<forall>h n. e_nbrs s h = Some n \<longrightarrow> n_peerid n \<le> peercnt s) \<and>
     peercnt s < 2 ^ 31"

definition sess_inv :: "ldpe \<Rightarrow> bool" where
  "sess_inv s \<longleftrightarrow>
     (\<forall>h n. e_nbrs s h = Some n \<longrightarrow> nbr_core n \<and> nbr_timers n) \<and> pids_ok s \<and> lde_sync s"

text \<open>Room for one more session.\<close>

definition room :: "ldpe \<Rightarrow> bool" where
  "room s \<longleftrightarrow> peercnt s < 2 ^ 31 - 1"

lemma sess_nbr: "sess_inv s \<Longrightarrow> e_nbrs s h = Some n \<Longrightarrow> nbr_core n \<and> nbr_timers n"
  by (simp add: sess_inv_def)

text \<open>Two neighbours never have the same peer id, unless they never had a session.\<close>

lemma oper_pid_inj:
  assumes "pids_ok s" and "e_nbrs s h = Some n" and "e_nbrs s k = Some m" and "n_peerid n = n_peerid m" and "n_peerid n \<noteq> 0"
  shows "h = k"
proof -
  have "h \<in> set (inorder (nbrs_by_pid s))" and "k \<in> set (inorder (nbrs_by_pid s))"
    using assms by (auto simp: pids_ok_def)
  moreover have "pid_of s h = pid_of s k" using assms by (simp add: pid_of_def)
  moreover have "pid_order.ordered (pid_of s) (nbrs_by_pid s)" using assms(1) by (simp add: pids_ok_def)
  ultimately show ?thesis using pid_order.ordered_key_inj[of "pid_of s" "nbrs_by_pid s" h k] by blast
qed

subsection \<open>What operations on one neighbour change\<close>

text \<open>Everything but the neighbours, the tree of peer ids, the counters and the logs stays.\<close>

definition rest_same :: "ldpe \<Rightarrow> ldpe \<Rightarrow> bool" where
  "rest_same s t \<longleftrightarrow>
     t = s\<lparr>e_nbrs := e_nbrs t, nbrs_by_pid := nbrs_by_pid t, msgcnt := msgcnt t, peercnt := peercnt t,
           e_to_lde := e_to_lde t, e_net := e_net t\<rparr>"

lemma rest_same_iff:
  "rest_same s t \<longleftrightarrow>
     nbrs_by_id t = nbrs_by_id s \<and> nbrs_by_addr t = nbrs_by_addr s \<and> e_adjs t = e_adjs s \<and>
     e_adj_list t = e_adj_list s \<and> e_ifaces t = e_ifaces s \<and> e_tnbrs t = e_tnbrs s \<and> e_next t = e_next s \<and>
     leconf t = leconf s \<and> g_rtr_id t = g_rtr_id s \<and> g_ipv4 t = g_ipv4 s \<and> g_ipv6 t = g_ipv6 s \<and>
     g_conf_seqnum t = g_conf_seqnum s \<and> g_addr_list t = g_addr_list s \<and>
     g_pending_conns t = g_pending_conns s \<and> e_detached t = e_detached s \<and> e_hellos t = e_hellos s"
  by (cases s; cases t) (auto simp: rest_same_def)

lemma rest_same_refl [simp]: "rest_same s s"
  by (simp add: rest_same_iff)

lemma rest_same_trans: "rest_same s t \<Longrightarrow> rest_same t u \<Longrightarrow> rest_same s u"
  by (simp add: rest_same_iff)

lemma rest_same_nbr_set [simp]: "rest_same s (nbr_set h g s)"
  by (simp add: rest_same_iff)

text \<open>The fields of a neighbour that its session never changes.\<close>

definition same_static :: "nbr \<Rightarrow> nbr \<Rightarrow> bool" where
  "same_static n m \<longleftrightarrow>
     n_af m = n_af n \<and> n_id m = n_id n \<and> n_raddr m = n_raddr n \<and> n_raddr_scope m = n_raddr_scope n \<and>
     n_laddr m = n_laddr n \<and> n_adj_list m = n_adj_list n \<and> n_v4_enabled m = n_v4_enabled n \<and>
     n_v6_enabled m = n_v6_enabled n \<and> n_ds_tlv m = n_ds_tlv n \<and>
     n_mapping_list m = n_mapping_list n \<and> n_withdraw_list m = n_withdraw_list n \<and> n_release_list m = n_release_list n"

definition sess_frame :: "nat \<Rightarrow> ldpe \<Rightarrow> ldpe \<Rightarrow> bool" where
  "sess_frame h s t \<longleftrightarrow>
     rest_same s t \<and> (\<forall>k. k \<noteq> h \<longrightarrow> e_nbrs t k = e_nbrs s k) \<and> rel_option same_static (e_nbrs s h) (e_nbrs t h)"

lemma same_static_refl [simp]: "same_static n n"
  by (simp add: same_static_def)

lemma sess_frame_refl [simp]: "sess_frame h s s"
  by (cases "e_nbrs s h") (simp_all add: sess_frame_def)

lemma sess_frame_trans: "sess_frame h s t \<Longrightarrow> sess_frame h t u \<Longrightarrow> sess_frame h s u"
  unfolding sess_frame_def
  by (auto simp: option_rel_Some1 option_rel_Some2 rel_option_iff same_static_def split: option.splits
      intro: rest_same_trans)

lemma sess_frame_live: "sess_frame h s t \<Longrightarrow> e_nbrs s h = Some n \<Longrightarrow> \<exists>m. e_nbrs t h = Some m \<and> same_static n m"
  by (auto simp: sess_frame_def option_rel_Some1)

text \<open>Sending only appends to the log of the connections and takes message ids.\<close>

definition net_only :: "ldpe \<Rightarrow> ldpe \<Rightarrow> bool" where
  "net_only s t \<longleftrightarrow> t = s\<lparr>msgcnt := msgcnt t, e_net := e_net t\<rparr>"

lemma net_only_iff:
  "net_only s t \<longleftrightarrow>
     rest_same s t \<and> e_nbrs t = e_nbrs s \<and> nbrs_by_pid t = nbrs_by_pid s \<and> peercnt t = peercnt s \<and>
     e_to_lde t = e_to_lde s"
  by (cases s; cases t) (auto simp: rest_same_iff net_only_def)

lemma net_only_refl [simp]: "net_only s s"
  by (simp add: net_only_iff)

lemma net_only_trans: "net_only s t \<Longrightarrow> net_only t u \<Longrightarrow> net_only s u"
  by (auto simp: net_only_iff intro: rest_same_trans)

lemma net_only_frame: "net_only s t \<Longrightarrow> sess_frame h s t"
  by (cases "e_nbrs s h") (simp_all add: net_only_iff sess_frame_def)

lemma sess_inv_cong:
  assumes "e_nbrs t = e_nbrs s" and "nbrs_by_pid t = nbrs_by_pid s" and "peercnt t = peercnt s" and "e_to_lde t = e_to_lde s"
  shows "sess_inv t = sess_inv s"
proof -
  have "pid_of t = pid_of s" by (simp add: pid_of_def fun_eq_iff assms)
  then show ?thesis using assms by (simp add: sess_inv_def pids_ok_def lde_sync_def oper_pids_def)
qed

lemma net_only_inv: "net_only s t \<Longrightarrow> sess_inv t = sess_inv s"
  by (rule sess_inv_cong) (simp_all add: net_only_iff)

lemma pids_ok_same:
  assumes "pids_ok s" and "nbrs_by_pid t = nbrs_by_pid s" and "peercnt t = peercnt s"
    and e: "\<And>k. map_option n_peerid (e_nbrs t k) = map_option n_peerid (e_nbrs s k)"
  shows "pids_ok t"
proof -
  have *: "pid_of u k = (case map_option n_peerid (e_nbrs u k) of None \<Rightarrow> 0 | Some p \<Rightarrow> p)" for u k
    by (simp add: pid_of_def split: option.split)
  have "pid_of t = pid_of s" by (intro ext) (simp only: * e)
  moreover have "(\<exists>n. e_nbrs t k = Some n \<and> n_peerid n \<noteq> 0) \<longleftrightarrow> (\<exists>n. e_nbrs s k = Some n \<and> n_peerid n \<noteq> 0)" for k
    using e[of k] by (cases "e_nbrs t k"; cases "e_nbrs s k") auto
  moreover have "n_peerid n \<le> peercnt s" if "e_nbrs t k = Some n" for k n
    using e[of k] that assms(1) by (cases "e_nbrs s k") (auto simp: pids_ok_def)
  ultimately show ?thesis using assms(1-3) by (auto simp: pids_ok_def)
qed

text \<open>A change of one neighbour that keeps its peer id and whether it is operational.\<close>

lemma sess_inv_touch:
  assumes inv: "sess_inv s" and n: "e_nbrs s h = Some n"
    and t: "e_nbrs t = (e_nbrs s)(h := Some m)" "nbrs_by_pid t = nbrs_by_pid s" "peercnt t = peercnt s" "e_to_lde t = e_to_lde s"
    and m: "nbr_core m" "nbr_timers m" "n_peerid m = n_peerid n" "n_state m = NBR_STA_OPER \<longleftrightarrow> n_state n = NBR_STA_OPER"
  shows "sess_inv t"
proof -
  have "pids_ok t" by (rule pids_ok_same[of s]) (use inv n t m(3) in \<open>auto simp: sess_inv_def\<close>)
  moreover have "oper_pids t = oper_pids s" 
    by (rule set_eqI) (simp add: oper_pids_upd[OF t(1)] oper_pids_split[OF n] m(3,4))
  ultimately show ?thesis using inv t m(1,2) by (auto simp: sess_inv_def lde_sync_def)
qed

lemma nbr_set_touch:
  assumes "sess_inv s" and "e_nbrs s h = Some n" and "nbr_core (g n)" and "nbr_timers (g n)"
    and "n_peerid (g n) = n_peerid n" and "n_state (g n) = NBR_STA_OPER \<longleftrightarrow> n_state n = NBR_STA_OPER"
  shows "sess_inv (nbr_set h g s)"
  by (rule sess_inv_touch[OF assms(1,2) _ _ _ _ assms(3-6)]) (simp_all add: nbr_set_def assms(2))

lemma nbr_set_frame: "(\<And>n. e_nbrs s h = Some n \<Longrightarrow> same_static n (g n)) \<Longrightarrow> sess_frame h s (nbr_set h g s)"
  by (cases "e_nbrs s h") (simp_all add: sess_frame_def e_nbrs_set)

lemma nbr_set_set [ldpe_simps]: "nbr_set h f (nbr_set h g s) = nbr_set h (\<lambda>n. f (g n)) s"
  by (cases "e_nbrs s h") (simp_all add: nbr_set_def)

lemma nbr_set_id: "e_nbrs s h = Some n \<Longrightarrow> g n = n \<Longrightarrow> nbr_set h g s = s"
  by (cases s) (simp add: nbr_set_def fun_upd_idem)

subsection \<open>Sending\<close>

lemma nbr_get_live: "e_nbrs s h = Some n \<Longrightarrow> nbr_get h s = Inr n"
  by (simp add: nbr_get_def)

lemma nbr_tcp_live: "e_nbrs s h = Some n \<Longrightarrow> n_tcp n = Some t \<Longrightarrow> nbr_tcp h s = Inr t"
  by (simp add: nbr_tcp_def nbr_get_def)

lemma net_log [simp]: "net_only s (evbuf_enqueue fd b (s\<lparr>msgcnt := c\<rparr>))" "net_only s (s\<lparr>msgcnt := c\<rparr>)"
  by (simp_all add: net_only_def evbuf_enqueue_def)

lemma nbr_tcp_msgcnt [simp]: "nbr_tcp h (s\<lparr>msgcnt := c\<rparr>) = nbr_tcp h s"
  by (simp add: nbr_tcp_def nbr_get_def)

lemma send_init_ok:
  assumes "e_nbrs s h = Some n" and "n_tcp n = Some t"
  shows "ensures (send_init h s) (net_only s)"
  using nbr_tcp_live[OF assms] nbr_get_live[OF assms(1)] by (simp add: send_init_def gen_msg_hdr_def Let_def)

lemma send_keepalive_ok:
  assumes "e_nbrs s h = Some n" and "n_tcp n = Some t"
  shows "ensures (send_keepalive h s) (net_only s)"
  using nbr_tcp_live[OF assms] by (simp add: send_keepalive_def gen_msg_hdr_def Let_def)

lemma send_notification_ok: "ensures (send_notification status fd i type s) (net_only s)"
  by (simp add: send_notification_def send_notification_full_def gen_msg_hdr_def Let_def has_flag_def)

lemma address_pdu_ok:
  assumes "e_nbrs s h = Some n" and "n_tcp n = Some t"
  shows "ensures (address_pdu h a ifa w s) (\<lambda>r. net_only s (snd r))"
  using nbr_tcp_live[OF assms] by (simp add: address_pdu_def gen_msg_hdr_def Let_def)

subsection \<open>The state machine, event by event\<close>

lemma fsm_lookup [simp]:
  "nbr_fsm_lookup NBR_STA_PRESENT NBR_EVT_MATCH_ADJ = Some (NBR_ACT_NOTHING, NBR_STA_INITIAL)"
  "nbr_fsm_lookup NBR_STA_PRESENT NBR_EVT_CONNECT_UP = Some (NBR_ACT_CONNECT_SETUP, NBR_STA_INITIAL)"
  "nbr_fsm_lookup NBR_STA_INITIAL NBR_EVT_CONNECT_UP = None"
  "nbr_fsm_lookup NBR_STA_OPENREC NBR_EVT_CONNECT_UP = None"
  "nbr_fsm_lookup NBR_STA_OPENSENT NBR_EVT_CONNECT_UP = None"
  "nbr_fsm_lookup NBR_STA_OPER NBR_EVT_CONNECT_UP = None"
  "nbr_fsm_lookup NBR_STA_INITIAL NBR_EVT_INIT_SENT = Some (NBR_ACT_NOTHING, NBR_STA_OPENSENT)"
  "nbr_fsm_lookup NBR_STA_INITIAL NBR_EVT_INIT_RCVD = Some (NBR_ACT_PASSIVE_INIT, NBR_STA_OPENREC)"
  "nbr_fsm_lookup NBR_STA_OPENSENT NBR_EVT_INIT_RCVD = Some (NBR_ACT_KEEPALIVE_SEND, NBR_STA_OPENREC)"
  "nbr_fsm_lookup NBR_STA_OPENREC NBR_EVT_KEEPALIVE_RCVD = Some (NBR_ACT_SESSION_EST, NBR_STA_OPER)"
  "nbr_fsm_lookup NBR_STA_OPER NBR_EVT_PDU_RCVD = Some (NBR_ACT_RST_KTIMEOUT, 0)"
  "nbr_fsm_lookup NBR_STA_INITIAL NBR_EVT_PDU_RCVD = Some (NBR_ACT_NOTHING, 0)"
  "nbr_fsm_lookup NBR_STA_OPENREC NBR_EVT_PDU_RCVD = Some (NBR_ACT_NOTHING, 0)"
  "nbr_fsm_lookup NBR_STA_OPENSENT NBR_EVT_PDU_RCVD = Some (NBR_ACT_NOTHING, 0)"
  "nbr_fsm_lookup NBR_STA_OPER NBR_EVT_PDU_SENT = Some (NBR_ACT_RST_KTIMER, 0)"
  "nbr_fsm_lookup NBR_STA_INITIAL NBR_EVT_PDU_SENT = Some (NBR_ACT_NOTHING, 0)"
  "nbr_fsm_lookup NBR_STA_OPENREC NBR_EVT_PDU_SENT = Some (NBR_ACT_NOTHING, 0)"
  "nbr_fsm_lookup NBR_STA_OPENSENT NBR_EVT_PDU_SENT = Some (NBR_ACT_NOTHING, 0)"
  "nbr_fsm_lookup NBR_STA_PRESENT NBR_EVT_CLOSE_SESSION = Some (NBR_ACT_NOTHING, 0)"
  "nbr_fsm_lookup NBR_STA_INITIAL NBR_EVT_CLOSE_SESSION = Some (NBR_ACT_CLOSE_SESSION, NBR_STA_PRESENT)"
  "nbr_fsm_lookup NBR_STA_OPENREC NBR_EVT_CLOSE_SESSION = Some (NBR_ACT_CLOSE_SESSION, NBR_STA_PRESENT)"
  "nbr_fsm_lookup NBR_STA_OPENSENT NBR_EVT_CLOSE_SESSION = Some (NBR_ACT_CLOSE_SESSION, NBR_STA_PRESENT)"
  "nbr_fsm_lookup NBR_STA_OPER NBR_EVT_CLOSE_SESSION = Some (NBR_ACT_CLOSE_SESSION, NBR_STA_PRESENT)"
  by (simp_all add: nbr_fsm_lookup_def nbr_fsm_tbl_def has_flag_def NBR_STA_SESSION_def)

text \<open>The new state and the initialization timeout of a live neighbour.\<close>

definition entered :: "u32 \<Rightarrow> nbr \<Rightarrow> nbr" where
  "entered st n =
     (let m = (if st \<noteq> 0 then n\<lparr>n_state := st\<rparr> else n)
      in m\<lparr>n_init_timeout := (if n_state m = NBR_STA_OPER \<or> n_state m = NBR_STA_PRESENT then None else Some 15)\<rparr>)"

lemma enter_live: "e_nbrs s h = Some n \<Longrightarrow> nbr_fsm_enter h st s = nbr_set h (entered st) s"
  by (simp add: nbr_fsm_enter_def entered_def timer_defs Let_def nbr_set_def)

lemma nbr_core_states:
  assumes "nbr_core n"
  obtains "n_state n = NBR_STA_PRESENT" | "n_state n = NBR_STA_INITIAL" | "n_state n = NBR_STA_OPENREC"
    | "n_state n = NBR_STA_OPENSENT" | "n_state n = NBR_STA_OPER"
  using assms by (auto simp: nbr_core_def)

text \<open>A PDU was sent or received.\<close>

definition pdu_sent :: "nbr \<Rightarrow> nbr" where
  "pdu_sent n =
     (if n_state n = NBR_STA_OPER
      then n\<lparr>n_init_timeout := None, n_keepalive_timer := Some (uint (n_keepalive n) div 3)\<rparr>
      else n\<lparr>n_init_timeout := Some 15\<rparr>)"

definition pdu_rcvd :: "nbr \<Rightarrow> nbr" where
  "pdu_rcvd n =
     (if n_state n = NBR_STA_OPER
      then n\<lparr>n_init_timeout := None, n_keepalive_timeout := Some (uint (n_keepalive n))\<rparr>
      else n\<lparr>n_init_timeout := Some 15\<rparr>)"

lemma fsm_pdu:
  assumes "e_nbrs s h = Some n" and "nbr_core n" and "n_state n \<noteq> NBR_STA_PRESENT"
  shows "nbr_fsm h NBR_EVT_PDU_SENT s = Inr (nbr_set h pdu_sent s)"
    and "nbr_fsm h NBR_EVT_PDU_RCVD s = Inr (nbr_set h pdu_rcvd s)"
proof -
  have *: "nbr_set h f s = nbr_set h g s" if "f n = g n" for f g using assms(1) that by (simp add: nbr_set_def)
  from assms(2) show "nbr_fsm h NBR_EVT_PDU_SENT s = Inr (nbr_set h pdu_sent s)"
    by (rule nbr_core_states)
       (use assms in \<open>auto simp: nbr_fsm.simps nbr_get_def enter_live Let_def timer_defs ldpe_simps pdu_sent_def
          entered_def intro!: *\<close>)
  from assms(2) show "nbr_fsm h NBR_EVT_PDU_RCVD s = Inr (nbr_set h pdu_rcvd s)"
    by (rule nbr_core_states)
       (use assms in \<open>auto simp: nbr_fsm.simps nbr_get_def enter_live Let_def timer_defs ldpe_simps pdu_rcvd_def
          entered_def intro!: *\<close>)
qed

text \<open>The end of a session.\<close>

definition closed :: "nbr \<Rightarrow> nbr" where
  "closed n = n\<lparr>n_state := NBR_STA_PRESENT, n_tcp := None, n_keepalive_timer := None,
     n_keepalive_timeout := None, n_init_timeout := None\<rparr>"

lemma fsm_close:
  assumes "e_nbrs s h = Some n" and "nbr_core n" and "n_state n \<noteq> NBR_STA_PRESENT"
  shows "nbr_fsm h NBR_EVT_CLOSE_SESSION s =
     Inr (nbr_set h closed (ldpe_imsg_compose_lde (IMSG_NEIGHBOR_DOWN (n_peerid n)) s))"
proof -
  obtain t where t: "n_tcp n = Some t" using assms(2,3) by (auto simp: nbr_core_def)
  have "nbr_fsm_lookup (n_state n) NBR_EVT_CLOSE_SESSION = Some (NBR_ACT_CLOSE_SESSION, NBR_STA_PRESENT)"
    using assms(2,3) by (auto elim!: nbr_core_states)
  then show ?thesis using assms(1) t
    by (simp add: nbr_fsm.simps nbr_get_def enter_live Let_def session_close_def nbr_tcp_def
        ldpe_imsg_compose_lde_def timer_defs nbr_set_def entered_def closed_def Let_def)
qed

lemma fsm_close_present:
  assumes "e_nbrs s h = Some n" and "n_state n = NBR_STA_PRESENT"
  shows "nbr_fsm h NBR_EVT_CLOSE_SESSION s = Inr (nbr_set h (\<lambda>n. n\<lparr>n_init_timeout := None\<rparr>) s)"
  using assms by (simp add: nbr_fsm.simps nbr_get_def enter_live Let_def entered_def nbr_set_def)

end
