(* ===== verification/Ldpe_Fsm.thy ===== *)
theory Ldpe_Fsm
  imports Ldpe_Inv
begin

text \<open>
  The state machine keeps the invariant of the sessions: the end of a session, notifications, and the
  way from a connection to an established session.
\<close>

subsection \<open>The end of a session\<close>

lemma closed_ok: "nbr_core n \<Longrightarrow> nbr_core (closed n) \<and> nbr_timers (closed n)"
  by (simp add: nbr_ok_defs closed_def)

lemma closed_static: "same_static n (closed n)"
  by (simp add: same_static_def closed_def)

lemma closed_inv:
  assumes inv: "sess_inv s" and n: "e_nbrs s h = Some n" and m: "nbr_core m" "n_peerid m = n_peerid n"
    and t: "e_nbrs t = (e_nbrs s)(h := Some (closed m))" "nbrs_by_pid t = nbrs_by_pid s" "peercnt t = peercnt s"
      "e_to_lde t = e_to_lde s @ [IMSG_NEIGHBOR_DOWN (n_peerid n)]"
  shows "sess_inv t"
proof -
  have pid: "n_peerid (closed m) = n_peerid n" "n_state (closed m) = NBR_STA_PRESENT" by (simp_all add: closed_def m)
  have ok: "pids_ok s" using inv by (simp add: sess_inv_def)
  have "pid_of t = pid_of s" using n t(1) pid by (auto simp: pid_of_def fun_eq_iff)
  then have "pids_ok t" using ok n t(1-3) pid by (auto simp: pids_ok_def)
  moreover have "oper_pids t = oper_pids s - {n_peerid n}"
  proof (rule set_eqI)
    fix p
    have "n_peerid x \<noteq> n_peerid n" if "k \<noteq> h" "e_nbrs s k = Some x" "n_state x = NBR_STA_OPER" for k x
      using oper_pid_inj[OF ok that(2) n] sess_nbr[OF inv that(2)] that by (auto simp: nbr_core_def)
    then show "p \<in> oper_pids t \<longleftrightarrow> p \<in> oper_pids s - {n_peerid n}"
      using oper_pids_upd[OF t(1), of p] oper_pids_split[OF n, of p] pid(2) by auto
  qed
  ultimately show ?thesis
    using inv t closed_ok[OF m(1)] by (auto simp: sess_inv_def lde_sync_def up_step_def msg_expected_def)
qed

text \<open>What a notification to the peer leaves: the session as it is, with a timer set again.\<close>

lemma pdu_sent_simps [simp]:
  "n_state (pdu_sent n) = n_state n" "n_tcp (pdu_sent n) = n_tcp n" "n_peerid (pdu_sent n) = n_peerid n"
  "n_max_pdu_len (pdu_sent n) = n_max_pdu_len n" "n_idtimer_cnt (pdu_sent n) = n_idtimer_cnt n"
  "n_keepalive (pdu_sent n) = n_keepalive n" "same_static n (pdu_sent n)" "closed (pdu_sent n) = closed n"
  "n_keepalive_timeout (pdu_sent n) = n_keepalive_timeout n"
  by (simp_all add: pdu_sent_def closed_def same_static_def)

lemma pdu_rcvd_simps [simp]:
  "n_state (pdu_rcvd n) = n_state n" "n_tcp (pdu_rcvd n) = n_tcp n" "n_peerid (pdu_rcvd n) = n_peerid n"
  "n_max_pdu_len (pdu_rcvd n) = n_max_pdu_len n" "n_idtimer_cnt (pdu_rcvd n) = n_idtimer_cnt n"
  "n_keepalive (pdu_rcvd n) = n_keepalive n" "same_static n (pdu_rcvd n)"
  by (simp_all add: pdu_rcvd_def same_static_def)

lemma pdu_core [simp]: "nbr_core (pdu_sent n) = nbr_core n" "nbr_core (pdu_rcvd n) = nbr_core n"
  by (simp_all add: nbr_core_def)

lemma pdu_timers:
  assumes "nbr_timers n" and "n_state n \<noteq> NBR_STA_PRESENT"
  shows "nbr_timers (pdu_sent n)" and "nbr_timers (pdu_rcvd n)"
  using assms by (auto simp: nbr_timers_def pdu_sent_def pdu_rcvd_def)

lemma notification_nbr:
  assumes "e_nbrs s h = Some n" and "nbr_core n" and "n_state n \<noteq> NBR_STA_PRESENT"
  shows "ensures (send_notification_nbr h status i type s) (\<lambda>t. net_only (nbr_set h pdu_sent s) t)"
proof -
  obtain tc where tc: "n_tcp n = Some tc" using assms(2,3) by (auto simp: nbr_core_def)
  have "ensures (nbr_fsm h NBR_EVT_PDU_SENT u) (\<lambda>t. net_only (nbr_set h pdu_sent s) t)" if "net_only s u" for u
  proof -
    have u: "e_nbrs u h = Some n" using that assms(1) by (simp add: net_only_iff)
    show ?thesis using fsm_pdu(1)[OF u assms(2,3)] that by (simp add: net_only_iff rest_same_iff nbr_set_def)
  qed
  then show ?thesis unfolding send_notification_nbr_def nbr_tcp_live[OF assms(1) tc] and_then_simps
    by (rule ensures_and_then[OF send_notification_ok])
qed

text \<open>The end of a session, from any state of the machine.\<close>

definition ended :: "nat \<Rightarrow> nbr \<Rightarrow> ldpe \<Rightarrow> ldpe \<Rightarrow> bool" where
  "ended h n s t \<longleftrightarrow>
     rest_same s t \<and> e_nbrs t = (e_nbrs s)(h := Some (closed n)) \<and> nbrs_by_pid t = nbrs_by_pid s \<and>
     peercnt t = peercnt s \<and> e_to_lde t = e_to_lde s @ [IMSG_NEIGHBOR_DOWN (n_peerid n)]"

lemma fsm_close_ended:
  assumes "e_nbrs s h = Some n" and "nbr_core n" and "n_state n \<noteq> NBR_STA_PRESENT"
  shows "ensures (nbr_fsm h NBR_EVT_CLOSE_SESSION s) (ended h n s)"
  using fsm_close[OF assms] assms(1)
  by (simp add: ended_def rest_same_iff ldpe_imsg_compose_lde_def nbr_set_def)

lemma shutdown_ended:
  assumes "e_nbrs s h = Some n" and "nbr_core n" and "n_state n \<noteq> NBR_STA_PRESENT"
  shows "ensures (session_shutdown h status i type s) (ended h n s)"
proof -
  have st: "n_state n \<in> {NBR_STA_INITIAL, NBR_STA_OPENREC, NBR_STA_OPENSENT, NBR_STA_OPER}"
    using assms(2,3) by (auto simp: nbr_core_def)
  have "ensures (nbr_fsm h NBR_EVT_CLOSE_SESSION u) (ended h n s)" if u: "net_only (nbr_set h pdu_sent s) u" for u
  proof -
    have "e_nbrs u h = Some (pdu_sent n)" using u assms(1) by (simp add: net_only_iff nbr_set_def)
    from fsm_close_ended[OF this] assms(2,3) have "ensures (nbr_fsm h NBR_EVT_CLOSE_SESSION u) (ended h (pdu_sent n) u)"
      by simp
    then show ?thesis by (rule ensures_mono) (use u assms(1) in \<open>simp add: ended_def net_only_iff rest_same_iff nbr_set_def\<close>)
  qed
  then show ?thesis unfolding session_shutdown_def nbr_get_live[OF assms(1)] and_then_simps
    using assms(3) st by (simp add: ensures_and_then[OF notification_nbr[OF assms]])
qed

lemma ended_ok:
  assumes "sess_inv s" and "e_nbrs s h = Some n" and "ended h n s t"
  shows "sess_inv t" and "sess_frame h s t" and "peercnt t = peercnt s" and "\<exists>m. e_nbrs t h = Some m \<and> n_state m = NBR_STA_PRESENT"
proof -
  have c: "nbr_core n" using sess_nbr[OF assms(1,2)] by simp
  show "sess_inv t" by (rule closed_inv[OF assms(1,2) c refl]) (use assms(3) in \<open>simp_all add: ended_def\<close>)
  show "sess_frame h s t" using assms(2,3) closed_static by (auto simp: ended_def sess_frame_def)
  show "peercnt t = peercnt s" "\<exists>m. e_nbrs t h = Some m \<and> n_state m = NBR_STA_PRESENT"
    using assms(3) by (auto simp: ended_def closed_def)
qed

text \<open>What every operation on a session comes back to.\<close>

definition sess_ok :: "nat \<Rightarrow> ldpe \<Rightarrow> ldpe \<Rightarrow> bool" where
  "sess_ok h s t \<longleftrightarrow> sess_inv t \<and> sess_frame h s t"

lemma sess_ok_trans: "sess_ok h s t \<Longrightarrow> sess_ok h t u \<Longrightarrow> sess_ok h s u"
  using sess_frame_trans by (auto simp: sess_ok_def)

lemma sess_ok_refl: "sess_inv s \<Longrightarrow> sess_ok h s s"
  by (simp add: sess_ok_def)

lemma close_ok:
  assumes "sess_inv s" and "e_nbrs s h = Some n"
  shows "ensures (nbr_fsm h NBR_EVT_CLOSE_SESSION s)
    (\<lambda>t. sess_ok h s t \<and> peercnt t = peercnt s \<and> (\<exists>m. e_nbrs t h = Some m \<and> n_state m = NBR_STA_PRESENT))"
proof (cases "n_state n = NBR_STA_PRESENT")
  case True
  have "nbr_set h (\<lambda>n. n\<lparr>n_init_timeout := None\<rparr>) s = s"
    using sess_nbr[OF assms] True by (intro nbr_set_id[OF assms(2)]) (simp add: nbr_timers_def)
  then show ?thesis using fsm_close_present[OF assms(2) True] assms True by (simp add: sess_ok_refl)
next
  case False
  from sess_nbr[OF assms] have "nbr_core n" by simp
  from fsm_close_ended[OF assms(2) this False] show ?thesis
    by (rule ensures_mono) (simp add: ended_ok[OF assms] sess_ok_def)
qed

lemma shutdown_ok:
  assumes "sess_inv s" and "e_nbrs s h = Some n"
  shows "ensures (session_shutdown h status i type s)
    (\<lambda>t. sess_ok h s t \<and> peercnt t = peercnt s \<and> (\<exists>m. e_nbrs t h = Some m \<and> n_state m = NBR_STA_PRESENT))"
proof (cases "n_state n = NBR_STA_PRESENT")
  case True
  let ?g = "\<lambda>n :: nbr. n\<lparr>n_ev_connect := False\<rparr>"
  have "sess_inv (nbr_set h ?g s)"
    by (rule nbr_set_touch[OF assms]) (use sess_nbr[OF assms] in \<open>simp_all add: nbr_ok_defs\<close>)
  then have "sess_ok h s (nbr_set h ?g s)"
    by (auto simp: sess_ok_def same_static_def intro: nbr_set_frame)
  then show ?thesis using True assms
    by (simp add: session_shutdown_def nbr_get_live sess_ok_refl e_nbrs_set)
next
  case False
  from sess_nbr[OF assms] have "nbr_core n" by simp
  from shutdown_ended[OF assms(2) this False] show ?thesis
    by (rule ensures_mono) (simp add: ended_ok[OF assms] sess_ok_def)
qed

text \<open>A notification keeps the session.\<close>

definition same_session :: "nat \<Rightarrow> ldpe \<Rightarrow> ldpe \<Rightarrow> bool" where
  "same_session h s t \<longleftrightarrow>
     sess_ok h s t \<and> peercnt t = peercnt s \<and>
     (\<exists>n m. e_nbrs s h = Some n \<and> e_nbrs t h = Some m \<and> n_state m = n_state n \<and> n_tcp m = n_tcp n \<and>
        n_peerid m = n_peerid n)"

lemma same_session_trans: "same_session h s t \<Longrightarrow> same_session h t u \<Longrightarrow> same_session h s u"
  using sess_ok_trans by (fastforce simp: same_session_def)

lemma same_session_refl: "sess_inv s \<Longrightarrow> e_nbrs s h = Some n \<Longrightarrow> same_session h s s"
  by (simp add: same_session_def sess_ok_refl)

lemma pdu_same_session:
  assumes "sess_inv s" and "e_nbrs s h = Some n" and "n_state n \<noteq> NBR_STA_PRESENT"
    and "g = pdu_sent \<or> g = pdu_rcvd" and "net_only (nbr_set h g s) t"
  shows "same_session h s t"
proof -
  have n: "nbr_core n" "nbr_timers n" using sess_nbr[OF assms(1,2)] by simp_all
  have "sess_inv (nbr_set h g s)"
    by (rule nbr_set_touch[OF assms(1,2)]) (use n assms(3,4) pdu_timers[OF n(2)] in auto)
  then have "sess_inv t" using net_only_inv[OF assms(5)] by simp
  moreover have "sess_frame h s t"
    by (rule sess_frame_trans[OF nbr_set_frame net_only_frame[OF assms(5)]]) (use assms(4) in auto)
  ultimately show ?thesis using assms(2,4,5) by (auto simp: same_session_def sess_ok_def net_only_iff nbr_set_def)
qed

lemma notification_ok:
  assumes "sess_inv s" and "e_nbrs s h = Some n" and "n_state n \<noteq> NBR_STA_PRESENT"
  shows "ensures (send_notification_nbr h status i type s) (same_session h s)"
proof -
  have "nbr_core n" using sess_nbr[OF assms(1,2)] by simp
  from notification_nbr[OF assms(2) this assms(3)] show ?thesis
    by (rule ensures_mono) (rule pdu_same_session[OF assms], simp_all)
qed

lemma pdu_rcvd_ok:
  assumes "sess_inv s" and "e_nbrs s h = Some n" and "n_state n \<noteq> NBR_STA_PRESENT"
  shows "ensures (nbr_fsm h NBR_EVT_PDU_RCVD s) (same_session h s)"
proof -
  have "nbr_core n" using sess_nbr[OF assms(1,2)] by simp
  then show ?thesis using fsm_pdu(2)[OF assms(2) _ assms(3)] pdu_same_session[OF assms, of pdu_rcvd] by simp
qed

subsection \<open>A new peer id\<close>

text \<open>Removing a pointer from a tree.\<close>

lemma inorder_remove_ptr: "inorder (rb_remove (\<lambda>x. x = h) t) = remove1 h (inorder t)"
proof (cases "h \<in> set (inorder t)")
  case True
  then obtain ys zs where "inorder t = ys @ h # zs" "h \<notin> set ys" by (metis split_list_first)
  then show ?thesis using inorder_remove[of t ys h zs "\<lambda>x. x = h"] by (auto simp: remove1_append)
next
  case False
  then show ?thesis by (subst rb_remove_absent) (auto simp: remove1_idem)
qed

lemma pid_ordered_remove:
  assumes "pid_order.ordered key t"
  shows "pid_order.ordered key (rb_remove (\<lambda>x. x = h) t)" and "set (inorder (rb_remove (\<lambda>x. x = h) t)) = set (inorder t) - {h}"
proof -
  have d: "distinct (inorder t)" using pid_order.ordered_distinct[OF assms] by (auto simp: distinct_map)
  show "set (inorder (rb_remove (\<lambda>x. x = h) t)) = set (inorder t) - {h}"
    using d by (simp add: inorder_remove_ptr)
  show "pid_order.ordered key (rb_remove (\<lambda>x. x = h) t)"
    using assms d by (auto simp: pid_order.ordered_def inorder_remove_ptr distinct_remove1_removeAll removeAll_filter_not_eq
        sorted_wrt_map sorted_wrt_filter)
qed

lemma pid_ordered_cong:
  "pid_order.ordered key t \<Longrightarrow> (\<And>x. x \<in> set (inorder t) \<Longrightarrow> key' x = key x) \<Longrightarrow> pid_order.ordered key' t"
  unfolding pid_order.ordered_def by (simp cong: map_cong)

lemma next_peerid_fresh: "nbr_find_peerid (c + 1) s = None \<Longrightarrow> next_peerid s c = Some (c + 1)"
  by (subst next_peerid.simps) simp

lemma room_next:
  assumes "room s"
  shows "peercnt s < peercnt s + 1" and "peerid_small (peercnt s + 1)" and "peercnt s + 1 < 2 ^ 31" and "peercnt s + 1 \<noteq> 0"
proof -
  have "unat (peercnt s) < 2 ^ 31 - 1" using assms by (simp add: room_def word_less_nat_alt)
  then have u: "unat (peercnt s + 1) = unat (peercnt s) + 1" by (simp add: unat_word_ariths)
  with \<open>unat (peercnt s) < 2 ^ 31 - 1\<close> show "peercnt s < peercnt s + 1" "peerid_small (peercnt s + 1)"
    "peercnt s + 1 < 2 ^ 31" "peercnt s + 1 \<noteq> 0"
    by (simp_all add: word_less_nat_alt peerid_small_def) (auto simp: word_less_nat_alt dest: arg_cong[where f = unat])
qed

lemma update_peerid_ok:
  assumes ok: "pids_ok s" and r: "room s" and n: "e_nbrs s h = Some n"
  shows "ensures (nbr_update_peerid h s) (\<lambda>t. pids_ok t \<and> rest_same s t \<and> e_to_lde t = e_to_lde s \<and>
    peercnt t = peercnt s + 1 \<and> e_nbrs t = (e_nbrs s)(h := Some (n\<lparr>n_peerid := peercnt s + 1\<rparr>)))"
proof -
  let ?c = "peercnt s + 1"
  define T where "T = (if n_peerid n \<noteq> 0 then rb_remove (\<lambda>x. x = h) (nbrs_by_pid s) else nbrs_by_pid s)"
  define s1 where "s1 = s\<lparr>nbrs_by_pid := T\<rparr>"
  define s2 where "s2 = nbr_set h (\<lambda>n. n\<lparr>n_peerid := ?c\<rparr>) (s1\<lparr>peercnt := ?c\<rparr>)"
  have o: "pid_order.ordered (pid_of s) (nbrs_by_pid s)" using ok by (simp add: pids_ok_def)
  have T: "set (inorder T) = {k. k \<noteq> h \<and> (\<exists>x. e_nbrs s k = Some x \<and> n_peerid x \<noteq> 0)}" "pid_order.ordered (pid_of s) T"
    using pid_ordered_remove[OF o, of h] ok n o by (auto simp: T_def pids_ok_def)
  have key: "pid_of s1 = pid_of s" "k \<noteq> h \<Longrightarrow> pid_of s2 k = pid_of s k" "pid_of s2 h = ?c" for k
    using n by (simp_all add: fun_eq_iff pid_of_def s1_def s2_def nbr_set_def)
  have le: "pid_of s k < ?c" for k
  proof (cases "e_nbrs s k")
    case (Some x)
    then have "n_peerid x \<le> peercnt s" using ok by (auto simp: pids_ok_def)
    then show ?thesis using Some room_next(1)[OF r] by (simp add: pid_of_def)
  qed (use room_next(4)[OF r] in \<open>simp add: pid_of_def word_gt_0\<close>)
  have "nbr_find_peerid ?c s1 = None"
    unfolding nbr_find_peerid_def key(1) using T(2) le pid_order.find_None_iff[OF T(2) room_next(2)[OF r]]
    by (auto simp: s1_def less_le)
  then have next_pid: "next_peerid s1 (peercnt s1) = Some ?c" using next_peerid_fresh[of "peercnt s" s1] by (simp add: s1_def)
  have T2: "pid_order.ordered (pid_of s2) T" by (rule pid_ordered_cong[OF T(2)]) (use key(2) T(1) in auto)
  have "rb_find nbr_pid_compare (pid_of s2) (pid_of s2 h) T = None"
    using pid_order.find_None_iff[OF T2, of ?c] room_next(2)[OF r] key le T(1) by (auto simp: less_le)
  moreover have D: "peerid_small (pid_of s2 h)" using room_next(2)[OF r] key(3) by simp
  ultimately obtain t' ys zs where
    t': "rb_insert nbr_pid_compare (pid_of s2) h T = (None, t')" "inorder T = ys @ zs" "inorder t' = ys @ h # zs"
    using pid_order.insert_absent[OF T2 D] by metis
  have "pid_order.ordered (pid_of s2) t'" using pid_order.insert_ordered[OF T2, of h] room_next(2)[OF r] key(3) t'(1) by simp
  moreover have "pid_of (s2\<lparr>nbrs_by_pid := t'\<rparr>) = pid_of s2" by (simp add: pid_of_def fun_eq_iff)
  moreover have e2: "e_nbrs s2 = (e_nbrs s)(h := Some (n\<lparr>n_peerid := ?c\<rparr>))" "peercnt s2 = ?c"
    using n by (simp_all add: s2_def s1_def nbr_set_def)
  moreover have "n_peerid x \<le> ?c" if "e_nbrs s k = Some x" for k x
    using le[of k] that by (simp add: pid_of_def)
  moreover have "set (inorder t') = insert h (set (inorder T))" using t'(2,3) by auto
  ultimately have "pids_ok (s2\<lparr>nbrs_by_pid := t'\<rparr>)"
    using T(1) room_next(3,4)[OF r] by (auto simp: pids_ok_def)
  moreover have "nbr_update_peerid h s = Inr (s2\<lparr>nbrs_by_pid := t'\<rparr>)"
  proof -
    have "(if n_peerid n \<noteq> 0 then s\<lparr>nbrs_by_pid := rb_remove (\<lambda>x. x = h) (nbrs_by_pid s)\<rparr> else s) = s1"
      by (simp add: s1_def T_def)
    moreover have "nbrs_by_pid s2 = T" by (simp add: s2_def s1_def)
    ultimately show ?thesis
      unfolding nbr_update_peerid_def nbr_get_live[OF n] and_then_simps Let_def using next_pid t'(1)
      by (simp add: s2_def[symmetric])
  qed
  moreover have "rest_same s s2" "e_to_lde s2 = e_to_lde s" by (simp_all add: s2_def s1_def rest_same_iff)
  ultimately show ?thesis using e2 by (simp add: rest_same_iff)
qed

subsection \<open>Setting a session up\<close>

text \<open>Sending the addresses to an established session whose keepalive timer is fresh.\<close>

lemma send_address_net:
  assumes "e_nbrs s h = Some n" and "nbr_core n" and "n_state n = NBR_STA_OPER" and "pdu_sent n = n"
  shows "ensures (send_address h a ifa w s) (net_only s)"
proof -
  obtain t where t: "n_tcp n = Some t" using assms(2,3) by (auto simp: nbr_core_def)
  have "ensures (nbr_fsm h NBR_EVT_PDU_SENT u) (net_only s)" if "net_only s u" for u
  proof -
    have u: "e_nbrs u h = Some n" using that assms(1) by (simp add: net_only_iff)
    show ?thesis using fsm_pdu(1)[OF u assms(2)] assms(3) nbr_set_id[of u h n pdu_sent] u assms(4) that by simp
  qed
  then show ?thesis unfolding send_address.simps[of h]
    by (intro ensures_and_then[OF address_pdu_ok[OF assms(1) t]]) (auto split: prod.splits)
qed

lemma send_address_ok:
  assumes "sess_inv s" and "e_nbrs s h = Some n" and "n_state n = NBR_STA_OPER"
  shows "ensures (send_address h a ifa w s) (same_session h s)"
proof -
  have c: "nbr_core n" using sess_nbr[OF assms(1,2)] by simp
  then obtain t where t: "n_tcp n = Some t" using assms(3) by (auto simp: nbr_core_def)
  have st: "n_state n \<noteq> NBR_STA_PRESENT" using assms(3) by simp
  have "ensures (nbr_fsm h NBR_EVT_PDU_SENT u) (same_session h s)" if "net_only s u" for u
  proof -
    have u: "e_nbrs u h = Some n" using that assms(2) by (simp add: net_only_iff)
    have "net_only (nbr_set h pdu_sent s) (nbr_set h pdu_sent u)"
      using that by (simp add: net_only_iff rest_same_iff nbr_set_def)
    from pdu_same_session[OF assms(1,2) st _ this] show ?thesis using fsm_pdu(1)[OF u c st] by simp
  qed
  moreover have "same_session h s u" if "net_only s u" for u
    using that assms net_only_inv[OF that] net_only_frame[OF that] by (auto simp: same_session_def sess_ok_def net_only_iff)
  ultimately show ?thesis unfolding send_address.simps[of h]
    by (intro ensures_and_then[OF address_pdu_ok[OF assms(2) t]]) (auto split: prod.splits)
qed

text \<open>The neighbour once its session is established, with the peer id it got.\<close>

definition established :: "u32 \<Rightarrow> nbr \<Rightarrow> nbr" where
  "established pid n =
     n\<lparr>n_state := NBR_STA_OPER, n_init_timeout := None, n_idtimer_cnt := 0, n_peerid := pid,
       n_keepalive_timer := Some (uint (n_keepalive n) div 3), n_keepalive_timeout := Some (uint (n_keepalive n))\<rparr>"

lemma established_ok:
  assumes "nbr_core n" and "n_state n = NBR_STA_OPENREC" and "pid \<noteq> 0"
  shows "nbr_core (established pid n)" and "nbr_timers (established pid n)" and "pdu_sent (established pid n) = established pid n"
    and "same_static n (established pid n)" and "n_tcp (established pid n) = n_tcp n" and "n_state (established pid n) = NBR_STA_OPER"
    and "n_peerid (established pid n) = pid"
  using assms by (simp_all add: established_def nbr_ok_defs pdu_sent_def same_static_def)

lemma fsm_established:
  assumes inv: "sess_inv s" and n: "e_nbrs s h = Some n" "n_state n = NBR_STA_OPENREC" and r: "room s"
  shows "ensures (nbr_fsm h NBR_EVT_KEEPALIVE_RCVD s) (\<lambda>t.
    pids_ok t \<and> rest_same s t \<and> peercnt t = peercnt s + 1 \<and>
    e_nbrs t = (e_nbrs s)(h := Some (established (peercnt s + 1) n)) \<and>
    e_to_lde t = e_to_lde s @ [IMSG_NEIGHBOR_UP (peercnt s + 1) (n_id n) (n_v4_enabled n) (n_v6_enabled n),
      IMSG_LABEL_MAPPING_FULL (peercnt s + 1)])"
    (is "ensures _ ?P")
proof -
  let ?p = "peercnt s + 1"
  let ?m = "established ?p n"
  let ?up = "IMSG_NEIGHBOR_UP ?p (n_id n) (n_v4_enabled n) (n_v6_enabled n)"
  define u where "u = nbr_set h (\<lambda>n. n\<lparr>n_idtimer_cnt := 0\<rparr>) (nbr_set h (entered NBR_STA_OPER) s)"
  have c: "nbr_core n" using sess_nbr[OF inv n(1)] by simp
  note m = established_ok[OF c n(2) room_next(4)[OF r]]
  have u: "e_nbrs u h = Some (n\<lparr>n_state := NBR_STA_OPER, n_init_timeout := None, n_idtimer_cnt := 0\<rparr>)" "peercnt u = peercnt s"
    "rest_same s u" "e_to_lde u = e_to_lde s" "\<And>k. k \<noteq> h \<Longrightarrow> e_nbrs u k = e_nbrs s k" "nbrs_by_pid u = nbrs_by_pid s"
    using n(1) by (simp_all add: u_def nbr_set_def entered_def rest_same_iff)
  have "pids_ok u"
    by (rule pids_ok_same[of s]) (use inv u n(1) in \<open>auto simp: sess_inv_def u_def nbr_set_def entered_def\<close>)
  moreover have "room u" using r u(2) by (simp add: room_def)
  ultimately have up: "ensures (nbr_update_peerid h u) (\<lambda>t. pids_ok t \<and> rest_same s t \<and> e_to_lde t = e_to_lde s \<and>
      peercnt t = ?p \<and> e_nbrs t = (e_nbrs s)(h := Some (n\<lparr>n_state := NBR_STA_OPER, n_init_timeout := None,
        n_idtimer_cnt := 0, n_peerid := ?p\<rparr>)))"
    using update_peerid_ok[of u h, OF _ _ u(1)] u by (auto elim!: ensures_mono intro: rest_same_trans simp: fun_eq_iff)
  have fin: "ensures (and_then (if n_v4_enabled n then send_address h AF_INET None False v else Inr v) (\<lambda>s4.
       and_then (if n_v6_enabled n then send_address h AF_INET6 None False s4 else Inr s4) (\<lambda>s5.
       nbr_send_labelmappings h s5))) ?P"
    if v: "pids_ok v" "rest_same s v" "peercnt v = ?p" "e_nbrs v = (e_nbrs s)(h := Some ?m)" "e_to_lde v = e_to_lde s @ [?up]" for v
  proof -
    have addr: "ensures (if b then send_address h a None False w else Inr w) (net_only v)" if "net_only v w" for a b w
    proof -
      have "e_nbrs w h = Some ?m" using that v(4) by (simp add: net_only_iff)
      from ensures_mono[OF send_address_net[OF this m(1,6,3)] net_only_trans[OF that]] show ?thesis using that by simp
    qed
    have "ensures (nbr_send_labelmappings h w) ?P" if "net_only v w" for w
      using that v pids_ok_same[of v w] m by (auto simp: nbr_send_labelmappings_def nbr_get_def ldpe_imsg_compose_lde_def
          net_only_iff rest_same_iff intro: pids_ok_same)
    then show ?thesis by (intro ensures_and_then[OF addr[OF net_only_refl]] ensures_and_then[OF addr])
  qed
  have "ensures (nbr_act_session_operational h (nbr_set h (entered NBR_STA_OPER) s)) (\<lambda>t.
      pids_ok t \<and> rest_same s t \<and> peercnt t = ?p \<and> e_to_lde t = e_to_lde s @ [?up] \<and>
      e_nbrs t = (e_nbrs s)(h := Some (n\<lparr>n_state := NBR_STA_OPER, n_init_timeout := None,
        n_idtimer_cnt := 0, n_peerid := ?p\<rparr>)))"
    unfolding nbr_act_session_operational_def u_def[symmetric]
    by (rule ensures_and_then[OF up]) (auto simp: nbr_get_def ldpe_imsg_compose_lde_def rest_same_iff intro: pids_ok_same)
  then have "ensures (and_then (nbr_act_session_operational h (nbr_set h (entered NBR_STA_OPER) s)) (\<lambda>s2.
      let s3 = nbr_start_ktimeout h (nbr_start_ktimer h s2)
      in and_then (if n_v4_enabled n then send_address h AF_INET None False s3 else Inr s3) (\<lambda>s4.
         and_then (if n_v6_enabled n then send_address h AF_INET6 None False s4 else Inr s4) (\<lambda>s5.
         nbr_send_labelmappings h s5)))) ?P"
    apply (rule ensures_and_then)
    unfolding Let_def
    apply (rule fin)
    apply (auto simp: timer_defs nbr_set_def rest_same_iff established_def intro: pids_ok_same)
    done
  then show ?thesis using n by (simp add: nbr_fsm.simps nbr_get_live enter_live Let_def)
qed

lemma keepalive_rcvd_ok:
  assumes inv: "sess_inv s" and n: "e_nbrs s h = Some n" "n_state n = NBR_STA_OPENREC" and r: "room s"
  shows "ensures (nbr_fsm h NBR_EVT_KEEPALIVE_RCVD s) (\<lambda>t. sess_ok h s t \<and>
    (\<exists>m. e_nbrs t h = Some m \<and> n_state m = NBR_STA_OPER \<and> n_tcp m = n_tcp n))"
proof (rule ensures_mono[OF fsm_established[OF assms]], elim conjE)
  fix t
  let ?p = "peercnt s + 1"
  let ?m = "established ?p n"
  assume t: "pids_ok t" "rest_same s t" "e_nbrs t = (e_nbrs s)(h := Some ?m)"
    "e_to_lde t = e_to_lde s @ [IMSG_NEIGHBOR_UP ?p (n_id n) (n_v4_enabled n) (n_v6_enabled n), IMSG_LABEL_MAPPING_FULL ?p]"
  have c: "nbr_core n" using sess_nbr[OF inv n(1)] by simp
  note m = established_ok[OF c n(2) room_next(4)[OF r]]
  have sync: "trace_from {} (e_to_lde s)" "lde_up (e_to_lde s) = oper_pids s" using inv by (simp_all add: sess_inv_def lde_sync_def)
  have "?p \<notin> oper_pids s"
    using inv room_next(1)[OF r] by (fastforce simp: oper_pids_def sess_inv_def pids_ok_def)
  moreover have "oper_pids t = insert ?p (oper_pids s)"
    by (rule set_eqI, unfold insert_iff oper_pids_upd[OF t(3)] oper_pids_split[OF n(1)]) (use n(2) m(6,7) in auto)
  ultimately have "lde_sync t"
    using sync room_next(2)[OF r] trace_snoc[of "e_to_lde s @ [IMSG_NEIGHBOR_UP ?p (n_id n) (n_v4_enabled n) (n_v6_enabled n)]"]
      lde_up_simps(2)[of "e_to_lde s @ [IMSG_NEIGHBOR_UP ?p (n_id n) (n_v4_enabled n) (n_v6_enabled n)]"]
    by (simp add: lde_sync_def t(4) msg_expected_def up_step_def)
  then have "sess_inv t" using inv t m(1,2) by (auto simp: sess_inv_def)
  moreover have "sess_frame h s t" using t n(1) m(4) by (auto simp: sess_frame_def)
  ultimately show "sess_ok h s t \<and> (\<exists>m. e_nbrs t h = Some m \<and> n_state m = NBR_STA_OPER \<and> n_tcp m = n_tcp n)"
    using t(3) m(5,6) by (simp add: sess_ok_def)
qed

text \<open>A change of one neighbour followed by sending.\<close>

lemma set_net_ok:
  assumes "sess_inv s" and "e_nbrs s h = Some n" and "net_only (nbr_set h g s) t"
    and "nbr_core (g n)" and "nbr_timers (g n)" and "n_peerid (g n) = n_peerid n" and "same_static n (g n)"
    and "n_state (g n) = NBR_STA_OPER \<longleftrightarrow> n_state n = NBR_STA_OPER"
  shows "sess_ok h s t" and "e_nbrs t h = Some (g n)" and "peercnt t = peercnt s"
proof -
  have "sess_inv (nbr_set h g s)" by (rule nbr_set_touch) (use assms in auto)
  then show "sess_ok h s t" using net_only_inv[OF assms(3)] sess_frame_trans[OF nbr_set_frame net_only_frame[OF assms(3)]] assms(2,7)
    by (auto simp: sess_ok_def)
  show "e_nbrs t h = Some (g n)" "peercnt t = peercnt s" using assms(2,3) by (simp_all add: net_only_iff nbr_set_def)
qed

lemma init_rcvd_ok:
  assumes inv: "sess_inv s" and n: "e_nbrs s h = Some n" "n_state n = NBR_STA_INITIAL \<or> n_state n = NBR_STA_OPENSENT"
    and len: "256 \<le> n_max_pdu_len n" "n_max_pdu_len n \<le> 4096"
  shows "ensures (nbr_fsm h NBR_EVT_INIT_RCVD s) (\<lambda>t. sess_ok h s t \<and> peercnt t = peercnt s \<and>
    (\<exists>m. e_nbrs t h = Some m \<and> n_state m = NBR_STA_OPENREC \<and> n_tcp m = n_tcp n))"
proof -
  have c: "nbr_core n" "nbr_timers n" using sess_nbr[OF inv n(1)] by simp_all
  then obtain tc where tc: "n_tcp n = Some tc" using n(2) by (auto simp: nbr_core_def)
  define g :: "nbr \<Rightarrow> nbr" where "g = (\<lambda>n. if n_state n = NBR_STA_INITIAL then n\<lparr>n_state := NBR_STA_OPENREC, n_init_timeout := Some 15\<rparr>
    else n\<lparr>n_state := NBR_STA_OPENREC, n_init_timeout := Some 15, n_keepalive_timeout := Some (uint (n_keepalive n))\<rparr>)"
  have e: "e_nbrs (nbr_set h g s) h = Some (g n)" "n_tcp (g n) = Some tc" using n tc by (simp_all add: g_def nbr_set_def)
  have "ensures (nbr_fsm h NBR_EVT_INIT_RCVD s) (net_only (nbr_set h g s))"
  proof (cases "n_state n = NBR_STA_INITIAL")
    case True
    have "nbr_set h (entered NBR_STA_OPENREC) s = nbr_set h g s" using n(1) True by (simp add: nbr_set_def g_def entered_def)
    moreover have "ensures (send_keepalive h u) (net_only (nbr_set h g s))" if "net_only (nbr_set h g s) u" for u
    proof -
      have "e_nbrs u h = Some (g n)" using that e(1) by (simp add: net_only_iff)
      from ensures_mono[OF send_keepalive_ok[OF this e(2)] net_only_trans[OF that]] show ?thesis .
    qed
    ultimately show ?thesis using n(1) True
      by (auto simp: nbr_fsm.simps nbr_get_live enter_live Let_def intro: ensures_and_then[OF send_init_ok[OF e]])
  next
    case False
    then have "nbr_start_ktimeout h (nbr_set h (entered NBR_STA_OPENREC) s) = nbr_set h g s"
      using n by (simp add: nbr_set_def g_def entered_def timer_defs)
    then show ?thesis using n False send_keepalive_ok[OF e]
      by (simp add: nbr_fsm.simps nbr_get_live enter_live Let_def)
  qed
  moreover have "nbr_core (g n)" "nbr_timers (g n)" "n_peerid (g n) = n_peerid n" "same_static n (g n)"
    "n_state (g n) = NBR_STA_OPENREC" "n_state n \<noteq> NBR_STA_OPER"
    using c n(2) len by (auto simp: g_def nbr_ok_defs same_static_def)
  ultimately show ?thesis
    by (elim ensures_mono) (use set_net_ok[OF inv n(1)] e(2) tc in auto)
qed

lemma accept_ok:
  assumes inv: "sess_inv s" and n: "e_nbrs s h = Some n" "n_state n = NBR_STA_PRESENT"
  shows "ensures (session_accept_nbr h fd s) (\<lambda>t. sess_ok h s t \<and> peercnt t = peercnt s)"
proof -
  have c: "nbr_core n" "nbr_timers n" using sess_nbr[OF inv n(1)] by simp_all
  define g :: "nbr \<Rightarrow> nbr" where "g = (\<lambda>n. n\<lparr>n_tcp := Some (tcp_new fd), n_state := NBR_STA_INITIAL, n_init_timeout := Some 15\<rparr>)"
  have "session_accept_nbr h fd s = Inr (nbr_set h g s)"
    using n by (simp add: session_accept_nbr_def nbr_fsm.simps nbr_get_def nbr_set_def enter_live Let_def entered_def g_def)
  moreover have "nbr_core (g n)" "nbr_timers (g n)" "n_peerid (g n) = n_peerid n" "same_static n (g n)" "n_state (g n) \<noteq> NBR_STA_OPER"
    using c n(2) by (auto simp: g_def nbr_ok_defs same_static_def)
  ultimately show ?thesis using set_net_ok[OF inv n(1) net_only_refl, of g] n(2) by simp
qed

lemma connect_up_ok:
  assumes inv: "sess_inv s" and n: "e_nbrs s h = Some n"
  shows "ensures (nbr_fsm h NBR_EVT_CONNECT_UP s) (\<lambda>t. sess_ok h s t \<and> peercnt t = peercnt s)"
proof (cases "n_state n = NBR_STA_PRESENT")
  case True
  have c: "nbr_core n" "nbr_timers n" using sess_nbr[OF inv n(1)] by simp_all
  define f :: "nbr \<Rightarrow> nbr" where "f = (\<lambda>n. n\<lparr>n_state := NBR_STA_INITIAL, n_init_timeout := Some 15, n_tcp := Some (tcp_new (n_fd n))\<rparr>)"
  define g :: "nbr \<Rightarrow> nbr" where "g = (\<lambda>n. (f n)\<lparr>n_state := NBR_STA_OPENSENT, n_init_timeout := Some 15\<rparr>)"
  have e: "e_nbrs (nbr_set h f s) h = Some (f n)" "n_tcp (f n) = Some (tcp_new (n_fd n))" using n by (simp_all add: f_def nbr_set_def)
  have "nbr_set h (\<lambda>n. n\<lparr>n_tcp := Some (tcp_new (n_fd n))\<rparr>) (nbr_set h (entered NBR_STA_INITIAL) s) = nbr_set h f s"
    using n by (simp add: nbr_set_def f_def entered_def)
  moreover have "ensures (nbr_fsm h NBR_EVT_INIT_SENT u) (net_only (nbr_set h g s))" if "net_only (nbr_set h f s) u" for u
  proof -
    have "e_nbrs u h = Some (f n)" using that e(1) by (simp add: net_only_iff)
    then show ?thesis using that n
      by (simp add: nbr_fsm.simps[of h NBR_EVT_INIT_SENT] nbr_get_live enter_live Let_def f_def g_def net_only_iff
          rest_same_iff nbr_set_def entered_def)
  qed
  ultimately have "ensures (nbr_fsm h NBR_EVT_CONNECT_UP s) (net_only (nbr_set h g s))"
    using n True
    by (auto simp: nbr_fsm.simps[of h NBR_EVT_CONNECT_UP] nbr_get_live enter_live Let_def intro: ensures_and_then[OF send_init_ok[OF e]])
  moreover have "nbr_core (g n)" "nbr_timers (g n)" "n_peerid (g n) = n_peerid n" "same_static n (g n)" "n_state (g n) \<noteq> NBR_STA_OPER"
    using c True by (auto simp: f_def g_def nbr_ok_defs same_static_def)
  ultimately show ?thesis
    by (elim ensures_mono) (use set_net_ok[OF inv n] True in auto)
next
  case False
  from sess_nbr[OF inv n] have "nbr_core n" by simp
  then have "nbr_fsm_lookup (n_state n) NBR_EVT_CONNECT_UP = None" using False by (auto elim!: nbr_core_states)
  then show ?thesis using n inv by (simp add: nbr_fsm.simps nbr_get_live sess_ok_refl)
qed

subsection \<open>Timers\<close>

lemma ktimer_ok:
  assumes inv: "sess_inv s" and n: "e_nbrs s h = Some n" and armed: "n_keepalive_timer n \<noteq> None"
  shows "ensures (nbr_ktimer h s) (\<lambda>t. sess_ok h s t \<and> peercnt t = peercnt s)"
proof -
  have c: "nbr_core n" "nbr_timers n" using sess_nbr[OF inv n(1)] by simp_all
  then have "n_state n \<noteq> NBR_STA_PRESENT" using armed by (auto simp: nbr_timers_def)
  then obtain tc where tc: "n_tcp n = Some tc" using c by (auto simp: nbr_core_def)
  define g :: "nbr \<Rightarrow> nbr" where "g = (\<lambda>n. n\<lparr>n_keepalive_timer := Some (uint (n_keepalive n) div 3)\<rparr>)"
  have e: "e_nbrs (nbr_stop_ktimer h s) h = Some (n\<lparr>n_keepalive_timer := None\<rparr>)" using n by (simp add: timer_defs nbr_set_def)
  have "net_only (nbr_set h g s) (nbr_start_ktimer h u)" if "net_only (nbr_stop_ktimer h s) u" for u
    using that n by (simp add: timer_defs net_only_iff rest_same_iff nbr_set_def g_def)
  then have "ensures (nbr_ktimer h s) (net_only (nbr_set h g s))"
    unfolding nbr_ktimer_def by (intro ensures_and_then[OF send_keepalive_ok[OF e]]) (simp_all add: tc)
  moreover have "nbr_core (g n)" "nbr_timers (g n)" "n_peerid (g n) = n_peerid n" "same_static n (g n)" "n_state (g n) = n_state n"
    using c armed by (auto simp: g_def nbr_ok_defs same_static_def)
  ultimately show ?thesis by (elim ensures_mono) (use set_net_ok[OF inv n] in auto)
qed

text \<open>The keepalive timeout has already stopped the timer when it ends the session.\<close>

lemma ktimeout_ended:
  assumes inv: "sess_inv s" and n: "e_nbrs s h = Some n" and armed: "n_keepalive_timeout n \<noteq> None"
  shows "ensures (nbr_ktimeout h s) (ended h n s)"
proof -
  let ?m = "n\<lparr>n_keepalive_timeout := None\<rparr>"
  have c: "nbr_core n" "nbr_timers n" using sess_nbr[OF inv n(1)] by simp_all
  have st: "n_state n \<noteq> NBR_STA_PRESENT" using c armed by (auto simp: nbr_timers_def)
  have m: "e_nbrs (nbr_stop_ktimeout h s) h = Some ?m" "nbr_core ?m" "n_state ?m \<noteq> NBR_STA_PRESENT" "closed ?m = closed n"
    using n c st by (simp_all add: timer_defs nbr_set_def nbr_core_def closed_def)
  have "ended h n s t" if "ended h ?m (nbr_stop_ktimeout h s) t" for t
    using that n m(4) by (simp add: ended_def timer_defs rest_same_iff nbr_set_def)
  then show ?thesis unfolding nbr_ktimeout_def using ensures_mono[OF shutdown_ended[OF m(1-3)]] by simp
qed

subsection \<open>Lookup by peer id\<close>

lemma find_peerid:
  assumes "pids_ok s" and "e_nbrs s h = Some n" and "n_peerid n \<noteq> 0"
  shows "nbr_find_peerid (n_peerid n) s = Some h"
proof -
  have o: "pid_order.ordered (pid_of s) (nbrs_by_pid s)" and h: "h \<in> set (inorder (nbrs_by_pid s))"
    and le: "n_peerid n \<le> peercnt s" "peercnt s < 2 ^ 31" using assms by (auto simp: pids_ok_def)
  have small: "peerid_small (n_peerid n)" using le by (simp add: peerid_small_def order_le_less_trans)
  have "pid_of s h = n_peerid n" using assms(2) by (simp add: pid_of_def)
  then show ?thesis unfolding nbr_find_peerid_def using pid_order.find_Some_iff[OF o small] h by simp
qed

lemma find_peerid_none:
  assumes "pids_ok s" and "\<And>k m. e_nbrs s k = Some m \<Longrightarrow> n_peerid m \<noteq> p" and "peerid_small p"
  shows "nbr_find_peerid p s = None"
proof -
  have o: "pid_order.ordered (pid_of s) (nbrs_by_pid s)" using assms(1) by (simp add: pids_ok_def)
  have "pid_of s k \<noteq> p" if "k \<in> set (inorder (nbrs_by_pid s))" for k
    using that assms(1) assms(2)[of k] by (auto simp: pids_ok_def pid_of_def)
  then show ?thesis unfolding nbr_find_peerid_def using pid_order.find_None_iff[OF o assms(3)] by auto
qed

end
