(* ===== verification/Ldpe_Safe.thy ===== *)
theory Ldpe_Safe
  imports Ldpe_Fsm
begin

text \<open>
  Whatever a peer sends, reading its session keeps the invariant of the sessions.  The only faults are
  those of the decoder of FEC elements; every other handler, and every loop around them, ends without one.
\<close>

subsection \<open>Computations whose faults are known\<close>

definition within :: "fault set \<Rightarrow> 'a result \<Rightarrow> ('a \<Rightarrow> bool) \<Rightarrow> bool" where
  "within E m P \<longleftrightarrow> (case m of Inl e \<Rightarrow> e \<in> E | Inr x \<Rightarrow> P x)"

lemma within_simps [simp]: "within E (Inl e) P \<longleftrightarrow> e \<in> E" "within E (Inr x) P \<longleftrightarrow> P x"
  by (simp_all add: within_def)

lemma within_and_then: "within E m Q \<Longrightarrow> (\<And>x. Q x \<Longrightarrow> within E (f x) P) \<Longrightarrow> within E (and_then m f) P"
  by (cases m) simp_all

lemma ensures_then_within: "ensures m Q \<Longrightarrow> (\<And>x. Q x \<Longrightarrow> within E (f x) P) \<Longrightarrow> within E (and_then m f) P"
  by (cases m) simp_all

lemma ensures_within: "ensures m Q \<Longrightarrow> (\<And>x. Q x \<Longrightarrow> P x) \<Longrightarrow> within E m P"
  by (cases m) simp_all

lemma within_mono: "within E m Q \<Longrightarrow> (\<And>x. Q x \<Longrightarrow> P x) \<Longrightarrow> within E m P"
  by (cases m) simp_all

lemma if_within: "(c \<Longrightarrow> within E a P) \<Longrightarrow> (\<not> c \<Longrightarrow> within E b P) \<Longrightarrow> within E (if c then a else b) P"
  by simp

text \<open>The faults a FEC element of the peer can provoke.\<close>

definition wire_faults :: "fault set" where
  "wire_faults = {Out_of_bounds_read, Buffer_overflow, Hang}"

subsection \<open>A session that is being read\<close>

definition live :: "nat \<Rightarrow> ldpe \<Rightarrow> bool" where
  "live h s \<longleftrightarrow> sess_inv s \<and> (\<exists>n. e_nbrs s h = Some n \<and> n_state n \<noteq> NBR_STA_PRESENT)"

definition oper :: "nat \<Rightarrow> ldpe \<Rightarrow> bool" where
  "oper h s \<longleftrightarrow> sess_inv s \<and> (\<exists>n. e_nbrs s h = Some n \<and> n_state n = NBR_STA_OPER)"

lemma oper_live: "oper h s \<Longrightarrow> live h s"
  by (auto simp: oper_def live_def)

lemma same_session_live:
  assumes "same_session h s t"
  shows "live h s \<Longrightarrow> live h t" and "oper h s \<Longrightarrow> oper h t" and "sess_ok h s t" and "peercnt t = peercnt s"
  using assms by (auto simp: same_session_def live_def oper_def sess_ok_def)

lemma live_refl: "live h s \<Longrightarrow> same_session h s s"
  by (auto simp: live_def intro: same_session_refl)

text \<open>
  What a handler comes back with: an invariant state, and the same session unless the message is given
  up (-1).
\<close>

definition answered :: "nat \<Rightarrow> ldpe \<Rightarrow> int \<Rightarrow> ldpe \<Rightarrow> bool" where
  "answered h s r t \<longleftrightarrow> sess_ok h s t \<and> (r \<noteq> -1 \<longrightarrow> same_session h s t)"

lemma answered_trans: "same_session h s t \<Longrightarrow> answered h t r u \<Longrightarrow> answered h s r u"
  unfolding answered_def by (blast intro: same_session_trans sess_ok_trans same_session_live(3))

lemma same_session_answered: "same_session h s t \<Longrightarrow> answered h s r t"
  by (simp add: answered_def same_session_def)

lemma sess_ok_answered: "sess_ok h s t \<Longrightarrow> answered h s (-1) t"
  by (simp add: answered_def)

lemma shutdown_live: "live h s \<Longrightarrow> ensures (session_shutdown h status i type s) (sess_ok h s)"
  by (auto simp: live_def intro: ensures_mono[OF shutdown_ok])

lemma give_up_ok: "live h s \<Longrightarrow> ensures (give_up h status msg s) (\<lambda>r. fst r = -1 \<and> sess_ok h s (snd r))"
  unfolding give_up_def by (rule ensures_and_then[OF shutdown_live]) simp_all

lemma notification_live: "live h s \<Longrightarrow> ensures (send_notification_nbr h status i type s) (same_session h s)"
  by (auto simp: live_def intro: notification_ok)

lemma complain_ok: "live h s \<Longrightarrow> ensures (complain h status msg s) (\<lambda>r. fst r = -1 \<and> sess_ok h s (snd r))"
  unfolding complain_def by (rule ensures_and_then[OF notification_live]) (simp_all add: same_session_def)

lemma opt_fail_ok: "live h s \<Longrightarrow> ensures (opt_fail h status msg s) (\<lambda>r. fst r = Opt_fail \<and> sess_ok h s (snd r))"
  unfolding opt_fail_def by (rule ensures_and_then[OF give_up_ok]) simp_all

lemma live_get: "live h s \<Longrightarrow> ensures (nbr_get h s) (\<lambda>n. e_nbrs s h = Some n \<and> n_state n \<noteq> NBR_STA_PRESENT)"
  by (auto simp: live_def nbr_get_def)

text \<open>A message to the label decision engine about a session that is up.\<close>

lemma compose_ok:
  assumes "live h s" and "e_nbrs s h = Some n"
    and "\<And>U. (n_state n = NBR_STA_OPER \<longrightarrow> n_peerid n \<in> U) \<Longrightarrow> msg_expected U m" and "\<And>U. up_step U m = U"
  shows "same_session h s (ldpe_imsg_compose_lde m s)"
proof -
  let ?t = "ldpe_imsg_compose_lde m s"
  have t: "e_nbrs ?t = e_nbrs s" "nbrs_by_pid ?t = nbrs_by_pid s" "peercnt ?t = peercnt s" "rest_same s ?t"
    "e_to_lde ?t = e_to_lde s @ [m]" by (simp_all add: ldpe_imsg_compose_lde_def rest_same_iff)
  have "n_state n = NBR_STA_OPER \<longrightarrow> n_peerid n \<in> oper_pids s" using assms(2) by (auto simp: oper_pids_def)
  then have "lde_sync ?t" using assms(1,3,4) t(1,5) by (simp add: live_def sess_inv_def lde_sync_def oper_pids_def)
  moreover have "pid_of ?t = pid_of s" by (simp add: pid_of_def fun_eq_iff t(1))
  ultimately have "sess_inv ?t" using assms(1) t by (simp add: live_def sess_inv_def pids_ok_def)
  then show ?thesis using t assms(2) by (auto simp: same_session_def sess_ok_def sess_frame_def rel_option_iff split: option.split)
qed

subsection \<open>Loads\<close>

lemma ld_ok:
  "i < length b \<Longrightarrow> ld8 b i = Inr (b ! i)"
  "i + 2 \<le> length b \<Longrightarrow> \<exists>x. ld16 b i = Inr x"
  "i + 4 \<le> length b \<Longrightarrow> \<exists>x. ld32 b i = Inr x"
  "i + k \<le> length b \<Longrightarrow> ldn b i k = Inr (take k (drop i b))"
  by (simp_all add: ld8_def ld16_def ld32_def ldn_def)

lemma ld16_then: "i + 2 \<le> length b \<Longrightarrow> (\<And>x. ld16 b i = Inr x \<Longrightarrow> within E (f x) P) \<Longrightarrow> within E (and_then (ld16 b i) f) P"
  using ld_ok(2)[of i b] by auto

lemma ld32_then: "i + 4 \<le> length b \<Longrightarrow> (\<And>x. ld32 b i = Inr x \<Longrightarrow> within E (f x) P) \<Longrightarrow> within E (and_then (ld32 b i) f) P"
  using ld_ok(3)[of i b] by auto

lemma ld8_then: "i < length b \<Longrightarrow> (\<And>x. ld8 b i = Inr x \<Longrightarrow> within E (f x) P) \<Longrightarrow> within E (and_then (ld8 b i) f) P"
  using ld_ok(1)[of i b] by auto

lemma ld_msg_then: "8 \<le> length b \<Longrightarrow> (\<And>x. within E (f x) P) \<Longrightarrow> within E (and_then (ld_msg b) f) P"
  unfolding ld_msg_def using ld_ok(2)[of 0 b] ld_ok(2)[of 2 b] ld_ok(3)[of 4 b] by auto

subsection \<open>FEC elements\<close>

text \<open>The interface parameters: the loop stays inside the element, but it may never end.\<close>

definition pw_inside :: "byte list \<Rightarrow> nat \<Rightarrow> u8 \<Rightarrow> map_tlv \<Rightarrow> (nat \<times> map_tlv) option result \<Rightarrow> bool" where
  "pw_inside buf off len m r \<longleftrightarrow> off + unat len \<le> length buf \<longrightarrow>
     (\<exists>x. r = Inr x \<and> (\<forall>off' m'. x = Some (off', m') \<longrightarrow>
        off \<le> off' \<and> off' \<le> off + unat len \<and> m_type m' = m_type m))"

lemma pw_inside_step:
  assumes "pw_inside buf (off + unat l) (len - l) m r" and "l \<le> len" and "m_type m' = m_type m"
  shows "pw_inside buf off len m' r"
proof -
  have "unat (len - l) = unat len - unat l" "unat l \<le> unat len" using assms(2) by (simp_all add: unat_sub word_le_nat_alt)
  then have "off + unat l + unat (len - l) = off + unat len" by simp
  then show ?thesis using assms(1,3) unfolding pw_inside_def by (metis add_leD1)
qed

lemma pw_params_ok: "pw_params buf off len m = Some r \<Longrightarrow> pw_inside buf off len m r"
proof (rule pw_params.raw_induct[where P = pw_inside])
  fix f buf off m r and len :: u8
  assume IH: "\<And>buf off len m r. f buf off len m = Some r \<Longrightarrow> pw_inside buf off len m r"
    and r: "(if len = 0 then Some (Inr (Some (off, m)))
      else if len < 2 then Some (Inr None)
      else case ld8 buf off of Inl e \<Rightarrow> Some (Inl e) | Inr type \<Rightarrow>
           (case ld8 buf (off + 1) of Inl e \<Rightarrow> Some (Inl e) | Inr stlv_len \<Rightarrow>
             if len < stlv_len then Some (Inr None)
             else if type = SUBTLV_IFMTU
             then (if stlv_len \<noteq> ucast FEC_SUBTLV_IFMTU_SIZE then Some (Inr None)
                   else case ld16 buf (off + 2) of Inl e \<Rightarrow> Some (Inl e) | Inr mtu \<Rightarrow>
                     f buf (off + unat stlv_len) (len - stlv_len)
                       (m\<lparr>m_ifmtu := ntohs mtu, m_flags := m_flags m OR F_MAP_PW_IFMTU\<rparr>))
             else f buf (off + unat stlv_len) (len - stlv_len) m)) = Some r"
  show "pw_inside buf off len m r"
  proof (cases "off + unat len \<le> length buf \<and> 2 \<le> unat len")
    case True
    then have l: "\<not> len < 2" "len \<noteq> 0" by (auto simp: word_less_nat_alt)
    define l where "l = buf ! (off + 1)"
    have ld: "ld8 buf off = Inr (buf ! off)" "ld8 buf (off + 1) = Inr l" using True by (simp_all add: ld8_def l_def)
    note r1 = r[unfolded if_not_P[OF l(1)] if_not_P[OF l(2)] ld sum.case]
    consider "len < l \<or> (buf ! off = SUBTLV_IFMTU \<and> l \<noteq> 4)" | "l \<le> len" "buf ! off = SUBTLV_IFMTU" "l = 4"
      | "l \<le> len" "buf ! off \<noteq> SUBTLV_IFMTU" by fastforce
    then show ?thesis
    proof cases
      case 1
      then have "r = Inr None" using r1 by (auto split: if_splits)
      then show ?thesis by (simp add: pw_inside_def)
    next
      case 2
      then obtain x where "ld16 buf (off + 2) = Inr x" using True by (auto simp: ld16_def word_le_nat_alt)
      with r1[unfolded if_not_P[OF leD[OF 2(1)]] if_P[OF 2(2)]] 2 have "f buf (off + unat l) (len - l) (m\<lparr>m_ifmtu := ntohs x, m_flags := m_flags m OR F_MAP_PW_IFMTU\<rparr>) = Some r"
        by (simp del: add_2_eq_Suc')
      from pw_inside_step[OF IH[OF this] 2(1)] show ?thesis by simp
    next
      case 3
      from r1[unfolded if_not_P[OF leD[OF 3(1)]] if_not_P[OF 3(2)]] have "f buf (off + unat l) (len - l) m = Some r" .
      from pw_inside_step[OF IH[OF this] 3(1)] show ?thesis by simp
    qed
  next
    case False
    then show ?thesis using r by (auto simp: pw_inside_def word_less_nat_alt split: if_splits)
  qed
qed

text \<open>An element that is taken leaves the state alone and is inside the TLV; the family of a prefix is known.\<close>

definition fec_af_ok :: "map_tlv \<Rightarrow> bool" where
  "fec_af_ok m \<longleftrightarrow> m_type m = MAP_TYPE_PREFIX \<longrightarrow> m_prefix_af m = AF_IPV4 \<or> m_prefix_af m = AF_IPV6"

definition decoded :: "nat \<Rightarrow> nat \<Rightarrow> ldpe \<Rightarrow> int \<times> map_tlv \<times> ldpe \<Rightarrow> bool" where
  "decoded h len s =
     (\<lambda>(r, m, t). sess_ok h s t \<and> (r \<noteq> -1 \<longrightarrow> t = s \<and> 1 \<le> r \<and> nat r \<le> len \<and> fec_af_ok m))"

lemma decoded_fail:
  assumes "live h s"
  shows "within E (and_then (give_up h status msg s) (with_map m)) (decoded h len s)"
    and "within E (and_then (complain h status msg s) (with_map m)) (decoded h len s)"
  by (rule ensures_then_within[OF give_up_ok[OF assms]], simp add: with_map_def decoded_def)
     (rule ensures_then_within[OF complain_ok[OF assms]], simp add: with_map_def decoded_def)

lemma decoded_ok:
  "live h s \<Longrightarrow> 1 \<le> r \<Longrightarrow> nat r \<le> len \<Longrightarrow> fec_af_ok m \<Longrightarrow> decoded h len s (r, m, s)"
  by (auto simp: decoded_def live_def sess_ok_refl)

lemma decode_prefix_ok:
  assumes "live h s" and "len \<le> length buf"
  shows "within wire_faults (decode_prefix h msg buf len m s) (decoded h len s)"
proof (cases "len < 4")
  case False
  then show ?thesis unfolding decode_prefix_def Let_def
    using assms by (auto simp: decoded_fail wire_faults_def ldn_def fec_af_ok_def nat_le_iff
        intro!: ld16_then ld8_then decoded_ok)
qed (simp add: decode_prefix_def decoded_fail assms)

lemma decode_pwid_ok:
  assumes "live h s" and "len \<le> length buf" and "m_type m = MAP_TYPE_PWID"
  shows "within wire_faults (decode_pwid h msg buf len m s) (decoded h len s)"
proof (cases "len < 8")
  case False
  have params: "within wire_faults (and_then (of_loop (pw_params buf 12 (l - 4) m3))
      (case_option (and_then (give_up h S_BAD_TLV_LEN msg s) (with_map m3)) (\<lambda>(off, m4). Inr (int off, m4, s))))
      (decoded h (8 + unat l) s)"
    if "8 + unat l \<le> length buf" "\<not> l < 4" "m_type m3 = MAP_TYPE_PWID" for m3 and l :: u8
  proof (cases "pw_params buf 12 (l - 4) m3")
    case (Some r)
    have "unat (l - 4) = unat l - 4" "4 \<le> unat l" using that(2) by (simp_all add: unat_sub word_le_nat_alt not_less)
    then show ?thesis using pw_params_ok[OF Some] that assms
      by (auto simp: Some of_loop_def pw_inside_def decoded_fail fec_af_ok_def intro!: decoded_ok split: option.split)
  qed (simp add: of_loop_def wire_faults_def)
  have four: "12 \<le> length buf" if "8 + unat l \<le> length buf" "\<not> l < 4" for l :: u8
    using that by (simp add: word_less_nat_alt)
  show ?thesis unfolding decode_pwid_def Let_def
    using False assms four by (auto simp: decoded_fail fec_af_ok_def intro!: ld16_then ld8_then ld32_then decoded_ok params)
qed (simp add: decode_pwid_def decoded_fail assms)

lemma decode_elm_ok:
  assumes "live h s" and "len \<le> length buf"
  shows "within wire_faults (tlv_decode_fec_elm h msg buf len m s) (decoded h len s)"
proof (cases buf)
  case Nil
  then show ?thesis by (simp add: tlv_decode_fec_elm_def ld8_def wire_faults_def)
next
  case (Cons b bs)
  then show ?thesis unfolding tlv_decode_fec_elm_def Let_def using assms
    by (auto simp: decoded_fail decode_prefix_ok decode_pwid_ok fec_af_ok_def intro!: ld8_then decoded_ok)
qed

text \<open>The loop over the elements of a FEC TLV ends.\<close>

definition fecs_read :: "nat \<Rightarrow> nat \<Rightarrow> ldpe \<Rightarrow> bool \<times> map_tlv list \<times> byte list \<times> nat \<times> ldpe \<Rightarrow> bool" where
  "fecs_read h len s =
     (\<lambda>(ok, mh, buf, len', t). sess_ok h s t \<and> (ok \<longrightarrow> t = s \<and> list_all fec_af_ok mh \<and> len' \<le> length buf \<and> len' \<le> len))"

lemma label_fecs_ok:
  assumes "live h s" and "len \<le> length buf" and "feclen \<le> len" and "list_all fec_af_ok mh"
  shows "\<exists>r. label_fecs h msg type buf len feclen mh s = Some r \<and> within wire_faults r (fecs_read h len s)"
  using assms
proof (induction feclen arbitrary: buf len mh rule: less_induct)
  case (less feclen)
  note d = decode_elm_ok[OF less.prems(1), of feclen buf msg "map_zero\<lparr>m_msg_id := lm_id msg\<rparr>"]
  have fail: "within wire_faults (and_then (give_up h st msg s) (\<lambda>r. Inr (False, mh, buf, len, snd r))) (fecs_read h len s)"
    "within wire_faults (and_then (complain h st msg s) (\<lambda>r. Inr (False, mh, buf, len, snd r))) (fecs_read h len s)" for st
    by (rule ensures_then_within[OF give_up_ok[OF less.prems(1)]], simp add: fecs_read_def)
       (rule ensures_then_within[OF complain_ok[OF less.prems(1)]], simp add: fecs_read_def)
  show ?case
  proof (cases "tlv_decode_fec_elm h msg buf feclen (map_zero\<lparr>m_msg_id := lm_id msg\<rparr>) s")
    case (Inl e)
    then show ?thesis using d less.prems by (subst label_fecs.simps) simp
  next
    case (Inr x)
    obtain tlen m s1 where x: "x = (tlen, m, s1)" by (cases x)
    have dec: "decoded h feclen s (tlen, m, s1)" using d less.prems by (simp add: Inr x)
    show ?thesis
    proof (cases "tlen = -1")
      case True
      then show ?thesis using dec by (subst label_fecs.simps) (simp add: Inr x fecs_read_def decoded_def)
    next
      case False
      then have dec': "s1 = s" "1 \<le> tlen" "nat tlen \<le> feclen" "fec_af_ok m" using dec by (simp_all add: decoded_def)
      obtain r where IH: "label_fecs h msg type (drop (nat tlen) buf) (len - nat tlen) (feclen - nat tlen) (mh @ [m]) s = Some r"
          "within wire_faults r (fecs_read h (len - nat tlen) s)"
        using less.IH[of "feclen - nat tlen" "len - nat tlen" "drop (nat tlen) buf" "mh @ [m]"] less.prems dec'
        by (auto simp: diff_le_mono)
      have IH2: "within wire_faults r (fecs_read h len s)" by (rule within_mono[OF IH(2)]) (auto simp: fecs_read_def)
      have fin: "fecs_read h len s (True, mh @ [m], drop (nat tlen) buf, len - nat tlen, s)"
        using less.prems dec' by (auto simp: fecs_read_def live_def sess_ok_refl)
      show ?thesis using False fail fin IH(1) IH2
        by (subst label_fecs.simps) (auto simp: Inr x Let_def dec'(1))
    qed
  qed
qed

lemma decode_label_ok:
  assumes "live h s" and "len \<le> length buf"
  shows "ensures (tlv_decode_label h msg buf len s)
    (\<lambda>(r, l, t). sess_ok h s t \<and> (r \<noteq> -1 \<longrightarrow> t = s \<and> r = 8 \<and> 8 \<le> len \<and> label_ok l))"
proof -
  have fail: "ensures (and_then (give_up h st msg s) (\<lambda>r. Inr (fst r, l, snd r))) (\<lambda>(r, l, t). sess_ok h s t \<and> (r \<noteq> -1 \<longrightarrow> t = s \<and> r = 8 \<and> 8 \<le> len \<and> label_ok l))"
    "ensures (and_then (complain h st msg s) (\<lambda>r. Inr (fst r, l, snd r))) (\<lambda>(r, l, t). sess_ok h s t \<and> (r \<noteq> -1 \<longrightarrow> t = s \<and> r = 8 \<and> 8 \<le> len \<and> label_ok l))" for st l
    by (rule ensures_and_then[OF give_up_ok[OF assms(1)]], simp)
       (rule ensures_and_then[OF complain_ok[OF assms(1)]], simp)
  show ?thesis
  proof (cases "len < 8")
    case False
    then obtain a b c where "ld16 buf 0 = Inr a" "ld16 buf 2 = Inr b" "ld32 buf 4 = Inr c"
      using assms(2) ld_ok(2)[of 0 buf] ld_ok(2)[of 2 buf] ld_ok(3)[of 4 buf] by auto
    then show ?thesis using fail False assms(1)
      by (simp add: tlv_decode_label_def live_def sess_ok_refl)
  qed (use fail in \<open>simp add: tlv_decode_label_def\<close>)
qed

subsection \<open>Optional parameters\<close>

definition opt_read :: "nat \<Rightarrow> ldpe \<Rightarrow> 'o opt_tlv \<times> ldpe \<Rightarrow> bool" where
  "opt_read h s = (\<lambda>(r, t). sess_ok h s t \<and> (r \<noteq> Opt_fail \<longrightarrow> t = s))"

lemma opt_fail_read: "live h s \<Longrightarrow> within E (opt_fail h status msg s) (opt_read h s)"
  by (rule ensures_within[OF opt_fail_ok]) (auto simp: opt_read_def)

lemma opt_read_gave_up: "sess_ok h s t \<Longrightarrow> opt_read h s (Opt_fail, t)"
  by (simp add: opt_read_def)

lemma opt_read_ok: "live h s \<Longrightarrow> opt_read h s (r, s)"
  by (simp add: opt_read_def live_def sess_ok_refl)

lemma opt_params_ok:
  assumes opt: "\<And>ty l buf lo s. live h s \<Longrightarrow> l \<le> length buf \<Longrightarrow> within E (opt ty l buf lo s) (opt_read h s)"
  shows "live h s \<Longrightarrow> len \<le> length buf \<Longrightarrow> within E (opt_params opt h msg buf len lo s) (\<lambda>(r, lo, t). answered h s r t)"
proof (induction len arbitrary: buf lo s rule: less_induct)
  case (less len)
  have fail: "within E (and_then (give_up h st msg s) (\<lambda>r. Inr (fst r, lo, snd r))) (\<lambda>(r, lo, t). answered h s r t)" for st
    by (rule ensures_then_within[OF give_up_ok[OF less.prems(1)]]) (simp add: answered_def)
  have IH: "within E (opt_params opt h msg (drop n (drop 4 buf)) (len - (n + 4)) lo t) (\<lambda>(r, lo, t). answered h s r t)"
    if "\<not> len < n + 4" "same_session h s t" for n lo t
    by (rule within_mono, rule less.IH)
       (use less.prems that in \<open>auto intro: same_session_live(1)[OF that(2)] answered_trans[OF that(2)]\<close>)
  have cont: "within E (and_then (opt ty n (drop 4 buf) lo s) (\<lambda>(r, s1).
      case r of
        Opt_fail \<Rightarrow> Inr (-1, lo, s1)
      | Opt_ok o1 \<Rightarrow> opt_params opt h msg (drop n (drop 4 buf)) (len - (n + 4)) o1 s1
      | Opt_unknown \<Rightarrow>
          and_then (if has_flag ty UNKNOWN_FLAG then Inr s1
                    else send_notification_nbr h S_UNKNOWN_TLV (lm_id msg) (lm_type msg) s1) (\<lambda>s2.
          opt_params opt h msg (drop n (drop 4 buf)) (len - (n + 4)) lo s2))) (\<lambda>(r, lo, t). answered h s r t)"
    if n: "\<not> len < n + 4" for n and ty :: u16
  proof (rule within_and_then[OF opt[OF less.prems(1)]])
    show "n \<le> length (drop 4 buf)" using n less.prems by simp
    have "within E (and_then (send_notification_nbr h S_UNKNOWN_TLV (lm_id msg) (lm_type msg) s) (\<lambda>s2.
          opt_params opt h msg (drop n (drop 4 buf)) (len - (n + 4)) lo s2)) (\<lambda>(r, lo, t). answered h s r t)"
      by (rule ensures_then_within[OF notification_live[OF less.prems(1)] IH[OF n]])
    then show "within E (case x of (r, s1) \<Rightarrow>
      case r of
        Opt_fail \<Rightarrow> Inr (-1, lo, s1)
      | Opt_ok o1 \<Rightarrow> opt_params opt h msg (drop n (drop 4 buf)) (len - (n + 4)) o1 s1
      | Opt_unknown \<Rightarrow>
          and_then (if has_flag ty UNKNOWN_FLAG then Inr s1
                    else send_notification_nbr h S_UNKNOWN_TLV (lm_id msg) (lm_type msg) s1) (\<lambda>s2.
          opt_params opt h msg (drop n (drop 4 buf)) (len - (n + 4)) lo s2)) (\<lambda>(r, lo, t). answered h s r t)"
      if "opt_read h s x" for x
      using that IH[OF n live_refl[OF less.prems(1)]]
      by (cases x; cases "fst x") (simp_all add: opt_read_def answered_def)
  qed
  show ?case
  proof (cases "len < 4")
    case True
    then show ?thesis using fail less.prems live_refl by (subst opt_params.simps) (simp add: same_session_answered)
  next
    case False
    then show ?thesis using less.prems fail cont
      by (subst opt_params.simps) (auto simp: Let_def intro!: ld16_then)
  qed
qed

lemma label_opt_ok: "live h s \<Longrightarrow> l \<le> length buf \<Longrightarrow> within E (label_opt h msg type ty l buf lo s) (opt_read h s)"
  unfolding label_opt_def by (auto simp: opt_read_ok opt_fail_read intro!: ld32_then)

lemma notif_opt_ok:
  assumes "live h s" and "l \<le> length buf"
  shows "within wire_faults (notif_opt h msg ty l buf nm s) (opt_read h s)"
proof -
  have "within wire_faults (and_then (tlv_decode_fec_elm h msg buf l (nm_fec nm) s) (\<lambda>(tlen, m, s1).
             if tlen = -1 then Inr (Opt_fail, s1)
             else if tlen \<noteq> int l then opt_fail h S_BAD_TLV_VAL msg s1
             else Inr (Opt_ok (nm\<lparr>nm_fec := m, nm_flags := nm_flags nm OR F_NOTIF_FEC\<rparr>), s1))) (opt_read h s)"
    by (rule within_and_then[OF decode_elm_ok[OF assms]])
       (use assms(1) in \<open>auto simp: decoded_def opt_read_ok opt_fail_read opt_read_gave_up split: prod.split\<close>)
  then show ?thesis unfolding notif_opt_def using assms by (auto simp: opt_read_ok opt_fail_read intro!: ld32_then)
qed

lemma init_opt_ok: "live h s \<Longrightarrow> within E (init_opt h msg ty l buf u s) (opt_read h s)"
  unfolding init_opt_def by (auto simp: opt_read_ok opt_fail_read)

subsection \<open>Label messages\<close>

lemma give_up_answered: "live h s \<Longrightarrow> within E (give_up h status msg s) (\<lambda>(r, t). answered h s r t)"
  by (rule ensures_within[OF give_up_ok]) (auto simp: answered_def)

lemma complain_answered: "live h s \<Longrightarrow> within E (complain h status msg s) (\<lambda>(r, t). answered h s r t)"
  by (rule ensures_within[OF complain_ok]) (auto simp: answered_def)

lemma label_check_ok: "fec_af_ok m \<Longrightarrow> \<exists>d. label_check lo n m = Inr d"
  by (auto simp: label_check_def fec_af_ok_def Let_def)

lemma label_deliver_ok:
  assumes "oper h s" and "list_all fec_af_ok mh"
  shows "within E (label_deliver h msg type lo mh s) (\<lambda>(r, t). answered h s r t)"
  using assms
proof (induction mh arbitrary: s)
  case Nil
  then show ?case by (simp add: same_session_answered live_refl oper_live)
next
  case (Cons m mh)
  obtain n where n: "e_nbrs s h = Some n" "n_state n = NBR_STA_OPER" using Cons.prems(1) by (auto simp: oper_def)
  obtain d where d: "label_check lo n m = Inr d" using label_check_ok[of m lo n] Cons.prems(2) by auto
  note live = oper_live[OF Cons.prems(1)]
  have "same_session h s (ldpe_imsg_compose_lde (label_imsg type (n_peerid n) m1) s)" for m1
    by (rule compose_ok[OF live n(1)]) (use n(2) in \<open>auto simp: label_imsg_def msg_expected_def up_step_def\<close>)
  then have "within E (label_deliver h msg type lo mh (ldpe_imsg_compose_lde (label_imsg type (n_peerid n) m1) s)) (\<lambda>(r, t). answered h s r t)" for m1
    by (intro within_mono[OF Cons.IH]) (use Cons.prems in \<open>auto intro: answered_trans same_session_live(2)\<close>)
  then show ?case using n d Cons.IH[OF Cons.prems(1)] Cons.prems(2) give_up_answered[OF live]
    by (cases d) (simp_all add: nbr_get_live)
qed

text \<open>Where the label of a mapping is read.\<close>

lemma label_part_ok:
  assumes "live h s" and "len \<le> length buf"
  shows "ensures (if type = MSG_TYPE_LABELMAPPING
      then and_then (tlv_decode_label h msg buf len s) (\<lambda>(lbllen, label, s2).
        if lbllen = -1 then Inr (None, s2) else Inr (Some (drop (nat lbllen) buf, len - nat lbllen, label), s2))
      else Inr (Some (buf, len, NO_LABEL), s))
    (\<lambda>(r, t). sess_ok h s t \<and> (\<forall>b l lab. r = Some (b, l, lab) \<longrightarrow> t = s \<and> l \<le> length b))"
proof -
  have "ensures (and_then (tlv_decode_label h msg buf len s) (\<lambda>(lbllen, label, s2).
        if lbllen = -1 then Inr (None, s2) else Inr (Some (drop (nat lbllen) buf, len - nat lbllen, label), s2)))
    (\<lambda>(r, t). sess_ok h s t \<and> (\<forall>b l lab. r = Some (b, l, lab) \<longrightarrow> t = s \<and> l \<le> length b))"
    by (rule ensures_and_then[OF decode_label_ok[OF assms]]) (use assms(2) in auto)
  then show ?thesis using assms by (simp add: live_def sess_ok_refl)
qed

lemma recv_labelmessage_ok:
  assumes op: "oper h s" and "8 \<le> len0" and "len0 \<le> length buf0"
  shows "within wire_faults (recv_labelmessage h buf0 len0 type s) (\<lambda>(r, t). answered h s r t)"
proof -
  note live = oper_live[OF op]
  have gone: "answered h s (-1) t" if "sess_ok h s t" for t using that by (simp add: answered_def)
  have opts: "within wire_faults (and_then (opt_params (label_opt h msg type) h msg b l lo s)
      (\<lambda>(ret, lo, s3). if ret = -1 then Inr (-1, s3) else label_deliver h msg type lo mh s3)) (\<lambda>(r, t). answered h s r t)"
    if "l \<le> length b" "list_all fec_af_ok mh" for msg b l lo mh
  proof (rule within_and_then[OF opt_params_ok[OF label_opt_ok live that(1)]])
    fix x :: "int \<times> label_opts \<times> ldpe" assume x: "case x of (r, lo, t) \<Rightarrow> answered h s r t"
    obtain r lo t where [simp]: "x = (r, lo, t)" by (cases x)
    show "within wire_faults (case x of (ret, lo, s3) \<Rightarrow> if ret = -1 then Inr (-1, s3) else label_deliver h msg type lo mh s3) (\<lambda>(r, t). answered h s r t)"
    proof (cases "r = -1")
      case False
      then have ss: "same_session h s t" using x by (simp add: answered_def)
      have "within wire_faults (label_deliver h msg type lo mh t) (\<lambda>(r, t). answered h s r t)"
        by (rule within_mono[OF label_deliver_ok[OF same_session_live(2)[OF ss op] that(2)]]) (auto intro: answered_trans[OF ss])
      then show ?thesis using False by simp
    qed (use x in \<open>simp add: answered_def\<close>)
  qed
  have rest: "within wire_faults (and_then
      (if type = MSG_TYPE_LABELMAPPING
       then and_then (tlv_decode_label h msg b l s) (\<lambda>(lbllen, label, s2).
         if lbllen = -1 then Inr (None, s2) else Inr (Some (drop (nat lbllen) b, l - nat lbllen, label), s2))
       else Inr (Some (b, l, NO_LABEL), s))
      (\<lambda>(r, s2). case r of None \<Rightarrow> Inr (-1, s2)
         | Some (buf2, len2, label) \<Rightarrow>
             and_then (opt_params (label_opt h msg type) h msg buf2 len2
               \<lparr>lo_label = label, lo_reqid = 0, lo_pw_status = 0, lo_flags = 0\<rparr> s2) (\<lambda>(ret, lo, s3).
               if ret = -1 then Inr (-1, s3) else label_deliver h msg type lo mh s3))) (\<lambda>(r, t). answered h s r t)"
    if "l \<le> length b" "list_all fec_af_ok mh" for msg b l mh
    by (rule ensures_then_within[OF label_part_ok[OF live that(1)]])
       (use opts that(2) gone in \<open>auto split: option.split prod.split\<close>)
  have fecs: "within wire_faults (and_then (of_loop (label_fecs h msg type b l fl [] s)) (\<lambda>(ok, mh, b, l, s1).
      if \<not> ok then Inr (-1, s1) else K mh b l s1)) (\<lambda>(r, t). answered h s r t)"
    if "l \<le> length b" "fl \<le> l"
      "\<And>mh b l. l \<le> length b \<Longrightarrow> list_all fec_af_ok mh \<Longrightarrow> within wire_faults (K mh b l s) (\<lambda>(r, t). answered h s r t)" for msg b l fl K
  proof -
    note K = that(3)
    from label_fecs_ok[OF live that(1,2), of "[]" msg type]
    obtain r where "label_fecs h msg type b l fl [] s = Some r" "within wire_faults r (fecs_read h l s)" by auto
    then show ?thesis by (cases r) (auto simp: of_loop_def fecs_read_def gone K)
  qed
  show ?thesis unfolding recv_labelmessage_def Let_def
    by (intro ld_msg_then if_within ld16_then give_up_answered complain_answered live fecs rest) (use assms(2,3) in auto)
qed

subsection \<open>Notifications\<close>

lemma idtimer_ok:
  assumes "sess_inv s" and "e_nbrs s h = Some n"
  shows "sess_ok h s (nbr_start_idtimer h s)" and "\<exists>m. e_nbrs (nbr_start_idtimer h s) h = Some m"
proof -
  let ?g = "\<lambda>n :: nbr. n\<lparr>n_idtimer_cnt := snd (idtimer_backoff (n_idtimer_cnt n)),
       n_initdelay_timer := Some (fst (idtimer_backoff (n_idtimer_cnt n)))\<rparr>"
  have "nbr_core (?g n)" "nbr_timers (?g n)" using sess_nbr[OF assms] by (auto simp: nbr_ok_defs idtimer_backoff_def)
  then show "sess_ok h s (nbr_start_idtimer h s)" unfolding nbr_start_idtimer_def
    by (intro set_net_ok(1)[OF assms net_only_refl]) (simp_all add: same_static_def)
  show "\<exists>m. e_nbrs (nbr_start_idtimer h s) h = Some m" using assms(2) by (simp add: nbr_start_idtimer_def nbr_set_def)
qed

lemma recv_notification_ok:
  assumes live: "live h s" and "8 \<le> len0" and "len0 \<le> length buf0"
  shows "within wire_faults (recv_notification h buf0 len0 s) (\<lambda>(r, t). answered h s r t)"
proof -
  have tail: "within wire_faults (and_then (nbr_get h t) (\<lambda>n.
       if F then and_then (nbr_fsm h NBR_EVT_CLOSE_SESSION
                (if n_state n = NBR_STA_OPENSENT then nbr_start_idtimer h t else t)) (\<lambda>s2. Inr (-1, s2))
       else Inr (0, if P then ldpe_imsg_compose_lde (IMSG_NOTIFICATION (n_peerid n) nm) t else t))) (\<lambda>(r, u). answered h s r u)"
    if ss: "same_session h s t" for t F P nm
  proof -
    note live' = same_session_live(1)[OF ss live]
    then obtain n where n: "e_nbrs t h = Some n" "sess_inv t" by (auto simp: live_def)
    have close: "ensures (nbr_fsm h NBR_EVT_CLOSE_SESSION u) (sess_ok h t)" if "sess_ok h t u" "\<exists>m. e_nbrs u h = Some m" for u
      using that close_ok[of u h] by (auto simp: sess_ok_def[of h t u] elim!: ensures_mono intro: sess_ok_trans[OF that(1)])
    have "within wire_faults (and_then (nbr_fsm h NBR_EVT_CLOSE_SESSION u) (\<lambda>s2. Inr (-1, s2))) (\<lambda>(r, u). answered h s r u)"
      if "sess_ok h t u" "\<exists>m. e_nbrs u h = Some m" for u
      by (rule ensures_then_within[OF close[OF that]])
         (simp add: answered_trans[OF ss] sess_ok_answered)
    moreover have "same_session h t (ldpe_imsg_compose_lde (IMSG_NOTIFICATION (n_peerid n) nm) t)"
      by (rule compose_ok[OF live' n(1)]) (simp_all add: msg_expected_def up_step_def)
    ultimately show ?thesis using n idtimer_ok[OF n(2,1)] ss
      by (auto simp: nbr_get_live sess_ok_refl intro: same_session_answered answered_trans[OF ss])
  qed
  have compl: "within wire_faults (complain h st msg t) (\<lambda>(r, u). answered h s r u)" if "same_session h s t" for st msg t
    by (rule within_mono[OF complain_answered[OF same_session_live(1)[OF that live]]]) (auto intro: answered_trans[OF that])
  have opts: "within wire_faults (and_then (opt_params (notif_opt h msg) h msg b l lo s) (\<lambda>(ret, nm, s1).
      if ret = -1 then Inr (-1, s1) else K nm s1)) (\<lambda>(r, t). answered h s r t)"
    if "l \<le> length b" "\<And>nm t. same_session h s t \<Longrightarrow> within wire_faults (K nm t) (\<lambda>(r, t). answered h s r t)" for msg b l lo K
    by (rule within_and_then[OF opt_params_ok[OF notif_opt_ok live that(1)]]) (use that(2) in \<open>auto simp: answered_def\<close>)
  show ?thesis unfolding recv_notification_def Let_def
    by (intro ld_msg_then if_within ld16_then ld32_then give_up_answered compl opts tail live) (use assms(2,3) in auto)
qed

subsection \<open>Messages that change the state of the session\<close>

text \<open>
  A session that can go on: either it is established, or there is room for one more peer id.  A handler
  that does not give up leaves such a session, with its connection.
\<close>

definition ready :: "nat \<Rightarrow> ldpe \<Rightarrow> bool" where
  "ready h s \<longleftrightarrow> sess_inv s \<and> (\<exists>n. e_nbrs s h = Some n \<and> n_state n \<noteq> NBR_STA_PRESENT \<and> (n_state n = NBR_STA_OPER \<or> room s))"

definition handled :: "nat \<Rightarrow> ldpe \<Rightarrow> int \<Rightarrow> ldpe \<Rightarrow> bool" where
  "handled h s r t \<longleftrightarrow>
     sess_ok h s t \<and> (r \<noteq> -1 \<longrightarrow> ready h t \<and> map_option n_tcp (e_nbrs t h) = map_option n_tcp (e_nbrs s h))"

lemma ready_live: "ready h s \<Longrightarrow> live h s"
  by (auto simp: ready_def live_def)

lemma same_session_ready: "same_session h s t \<Longrightarrow> ready h s \<Longrightarrow> ready h t"
  by (auto simp: same_session_def ready_def sess_ok_def room_def)

lemma same_session_tcp: "same_session h s t \<Longrightarrow> map_option n_tcp (e_nbrs t h) = map_option n_tcp (e_nbrs s h)"
  by (auto simp: same_session_def)

lemma answered_handled: "ready h s \<Longrightarrow> answered h s r t \<Longrightarrow> handled h s r t"
  by (auto simp: answered_def handled_def intro: same_session_ready dest: same_session_tcp)

lemma handled_trans: "same_session h s t \<Longrightarrow> handled h t r u \<Longrightarrow> handled h s r u"
  by (auto simp: handled_def dest: same_session_tcp intro: sess_ok_trans same_session_live(3))

lemma give_up_handled: "ready h s \<Longrightarrow> within E (give_up h status msg s) (\<lambda>(r, t). handled h s r t)"
  by (rule ensures_within[OF give_up_ok[OF ready_live]]) (auto simp: handled_def)

lemma negotiated_pdu_len_bounds: "256 \<le> negotiated_pdu_len x \<and> negotiated_pdu_len x \<le> 4096"
  by (auto simp: negotiated_pdu_len_def min_def not_le word_le_nat_alt word_less_nat_alt)

lemma recv_init_ok:
  assumes r: "ready h s" and n: "e_nbrs s h = Some n" "n_state n = NBR_STA_INITIAL \<or> n_state n = NBR_STA_OPENSENT"
    and "8 \<le> len0" and "len0 \<le> length buf0"
  shows "within E (recv_init h buf0 len0 s) (\<lambda>(r, t). handled h s r t)"
proof -
  have fsm: "within E (and_then (nbr_get h t) (\<lambda>n. and_then (nbr_fsm h NBR_EVT_INIT_RCVD
        (nbr_set h (\<lambda>n. n\<lparr>n_keepalive := ka n, n_max_pdu_len := negotiated_pdu_len x\<rparr>) t)) (\<lambda>s3. Inr (0, s3))))
      (\<lambda>(r, t). handled h s r t)" if ss: "same_session h s t" for t x ka
  proof -
    let ?g = "\<lambda>n. n\<lparr>n_keepalive := ka n, n_max_pdu_len := negotiated_pdu_len x\<rparr>"
    obtain m where m: "e_nbrs t h = Some m" "n_state m = n_state n" "n_tcp m = n_tcp n" "sess_inv t" "room t"
      using ss n r by (auto simp: same_session_def sess_ok_def ready_def room_def)
    have "nbr_core (?g m)" "nbr_timers (?g m)" using sess_nbr[OF m(4,1)] negotiated_pdu_len_bounds by (simp_all add: nbr_ok_defs)
    note g = set_net_ok[where g = ?g, OF m(4,1) net_only_refl this]
    have g1: "sess_ok h t (nbr_set h ?g t)" "e_nbrs (nbr_set h ?g t) h = Some (?g m)" "peercnt (nbr_set h ?g t) = peercnt t"
      using g by (simp_all add: same_static_def)
    have inv: "sess_inv (nbr_set h ?g t)" using g1(1) by (simp add: sess_ok_def)
    have "handled h s 0 u" if "sess_ok h (nbr_set h ?g t) u" "peercnt u = peercnt (nbr_set h ?g t)"
      "\<exists>k. e_nbrs u h = Some k \<and> n_state k = NBR_STA_OPENREC \<and> n_tcp k = n_tcp (?g m)" for u
      using sess_ok_trans[OF same_session_live(3)[OF ss] sess_ok_trans[OF g1(1) that(1)]] that(2,3) g1(3) m n(1)
      by (auto simp: handled_def ready_def sess_ok_def room_def)
    then show ?thesis using init_rcvd_ok[OF inv g1(2)] n(2) m(1,2) negotiated_pdu_len_bounds
      by (auto simp: nbr_get_live intro!: ensures_then_within)
  qed
  have opts: "within E (and_then (opt_params (init_opt h msg) h msg b l lo s) (\<lambda>(ret, u, s1).
      if ret = -1 then Inr (-1, s1) else K u s1)) (\<lambda>(r, t). handled h s r t)"
    if "l \<le> length b" "\<And>u t. same_session h s t \<Longrightarrow> within E (K u t) (\<lambda>(r, t). handled h s r t)" for msg b l lo K
    by (rule within_and_then[OF opt_params_ok[OF init_opt_ok ready_live[OF r] that(1)]])
       (use that(2) in \<open>auto simp: answered_def handled_def\<close>)
  show ?thesis unfolding recv_init_def Let_def
    by (intro ld_msg_then if_within ld16_then ld32_then give_up_handled r opts fsm) (use assms(4,5) in auto)
qed

lemma recv_keepalive_ok:
  assumes r: "ready h s" and n: "e_nbrs s h = Some n" "n_state n \<noteq> NBR_STA_INITIAL" "n_state n \<noteq> NBR_STA_OPENSENT"
    and "8 \<le> length buf0"
  shows "within E (recv_keepalive h buf0 len0 s) (\<lambda>(r, t). handled h s r t)"
proof -
  have inv: "sess_inv s" and st: "n_state n = NBR_STA_OPER \<or> n_state n = NBR_STA_OPENREC \<and> room s"
    using r n sess_nbr[of s h n] by (auto simp: ready_def nbr_core_def)
  have "within E (and_then (nbr_fsm h NBR_EVT_KEEPALIVE_RCVD s) (\<lambda>s1. Inr (0, s1))) (\<lambda>(r, t). handled h s r t)"
    if "n_state n = NBR_STA_OPENREC" "room s"
    by (rule ensures_then_within[OF keepalive_rcvd_ok[OF inv n(1) that]])
       (use n(1) in \<open>auto simp: handled_def ready_def sess_ok_def\<close>)
  moreover have "handled h s 0 s" using r by (simp add: handled_def ready_def sess_ok_refl)
  ultimately show ?thesis unfolding recv_keepalive_def nbr_get_live[OF n(1)] and_then_simps
    by (intro ld_msg_then if_within give_up_handled r) (use st assms(5) in auto)
qed

subsection \<open>Addresses\<close>

lemma recv_addrs_ok:
  assumes imsg: "imsg = IMSG_ADDRESS_ADD \<or> imsg = IMSG_ADDRESS_DEL"
  shows "oper h s \<Longrightarrow> len \<le> length buf \<Longrightarrow> within E (recv_addrs h msg a imsg buf len s) (\<lambda>(r, t). answered h s r t)"
proof (induction len arbitrary: buf s rule: less_induct)
  case (less len)
  define k :: nat where "k = (case a of AF_INET \<Rightarrow> 4 | AF_INET6 \<Rightarrow> 16)"
  have k: "0 < k" by (simp add: k_def split: af.split)
  obtain n where n: "e_nbrs s h = Some n" "n_state n = NBR_STA_OPER" using less.prems(1) by (auto simp: oper_def)
  note live = oper_live[OF less.prems(1)]
  have ss: "same_session h s (ldpe_imsg_compose_lde (imsg (n_peerid n) ad) s)" for ad
    by (rule compose_ok[OF live n(1)]) (use n(2) imsg in \<open>auto simp: msg_expected_def up_step_def\<close>)
  have IH: "within E (recv_addrs h msg a imsg (drop k buf) (len - k) (ldpe_imsg_compose_lde (imsg (n_peerid n) ad) s))
      (\<lambda>(r, t). answered h s r t)" if "k \<le> len" for ad
    by (intro within_mono[OF less.IH])
       (use k that less.prems same_session_live(2)[OF ss] in \<open>auto intro: answered_trans[OF ss]\<close>)
  show ?case
    by (subst recv_addrs.simps)
       (use less.prems n live in \<open>auto simp: k_def[symmetric] ldn_def nbr_get_live give_up_answered IH not_less same_session_answered live_refl\<close>)
qed

lemma recv_address_ok:
  assumes op: "oper h s" and "8 \<le> len0" and "len0 \<le> length buf0"
  shows "within E (recv_address h buf0 len0 s) (\<lambda>(r, t). answered h s r t)"
proof -
  obtain n where n: "e_nbrs s h = Some n" using op by (auto simp: oper_def)
  note live = oper_live[OF op]
  have "within E (Inr (0, s)) (\<lambda>(r, t). answered h s r t)" by (simp add: same_session_answered live_refl live)
  then show ?thesis unfolding recv_address_def Let_def nbr_get_live[OF n] and_then_simps
    by (intro ld_msg_then if_within ld16_then give_up_answered complain_answered live recv_addrs_ok op) (use assms(2,3) in auto)
qed

subsection \<open>Reading a session\<close>

lemma recv_msg_ok:
  assumes r: "ready h s" and n: "e_nbrs s h = Some n" "\<not> msg_unexpected type (n_state n)"
    and len: "8 \<le> sz" "sz \<le> length pdu"
  shows "within wire_faults (recv_msg h type msg pdu sz s) (\<lambda>(r, t). handled h s r t)"
proof -
  have op: "oper h s" if "n_state n = NBR_STA_OPER" using that r n(1) by (auto simp: oper_def ready_def)
  have ans: "within wire_faults m (\<lambda>(r, t). handled h s r t)" if "within wire_faults m (\<lambda>(r, t). answered h s r t)" for m
    by (rule within_mono[OF that]) (auto intro: answered_handled[OF r])
  have unknown: "within wire_faults (and_then (if c then Inr s else send_notification_nbr h st i ty s) (\<lambda>s1. Inr (0, s1)))
      (\<lambda>(r, t). handled h s r t)" for c st i ty
  proof (rule ensures_then_within)
    show "ensures (if c then Inr s else send_notification_nbr h st i ty s) (same_session h s)"
      using notification_live[OF ready_live[OF r]] live_refl[OF ready_live[OF r]] by simp
  qed (auto intro: answered_handled[OF r] same_session_answered)
  show ?thesis unfolding recv_msg_def
    by (intro if_within unknown recv_init_ok[OF r n(1)] recv_keepalive_ok[OF r n(1)] ans recv_notification_ok
          recv_address_ok recv_labelmessage_ok ready_live r op)
       (use n(2) len in \<open>auto simp: msg_unexpected_def split: if_splits\<close>)
qed

text \<open>The result of a loop: whether \<open>session_read\<close> goes on, with the connection as it was.\<close>

lemma session_msgs_ok:
  "ready h s \<Longrightarrow> len \<le> length pdu \<Longrightarrow>
     within wire_faults (session_msgs h pdu len len s) (\<lambda>(go, t). handled h s (if go then 0 else -1) t)"
proof (induction len arbitrary: pdu s rule: less_induct)
  case (less len)
  note r = less.prems(1)
  obtain n where n: "e_nbrs s h = Some n" using r by (auto simp: ready_def)
  have shut: "within wire_faults (and_then (session_shutdown h st i ty s) (\<lambda>s1. Inr (False, s1)))
      (\<lambda>(go, t). handled h s (if go then 0 else -1) t)" for st i ty
    by (rule ensures_then_within[OF shutdown_live[OF ready_live[OF r]]]) (simp add: handled_def)
  have fin: "within wire_faults (Inr (True, s)) (\<lambda>(go, t). handled h s (if go then 0 else -1) t)"
    using r by (simp add: handled_def ready_def sess_ok_refl)
  have step: "within wire_faults (and_then (recv_msg h type msg pdu k s) (\<lambda>(ret, s1).
        if ret = -1 then Inr (False, s1) else session_msgs h (drop k pdu) (len - k) (len - k) s1))
      (\<lambda>(go, t). handled h s (if go then 0 else -1) t)"
    if "\<not> msg_unexpected type (n_state n)" "8 \<le> k" "k \<le> len" for type msg k
  proof (rule within_and_then[OF recv_msg_ok[OF r n that(1,2)]])
    show "k \<le> length pdu" using that less.prems by simp
    fix x :: "int \<times> ldpe" assume x: "case x of (r, t) \<Rightarrow> handled h s r t"
    obtain ret t where [simp]: "x = (ret, t)" by (cases x)
    show "within wire_faults (case x of (ret, s1) \<Rightarrow>
        if ret = -1 then Inr (False, s1) else session_msgs h (drop k pdu) (len - k) (len - k) s1)
      (\<lambda>(go, t). handled h s (if go then 0 else -1) t)"
    proof (cases "ret = -1")
      case False
      then have t: "ready h t" "sess_ok h s t" "map_option n_tcp (e_nbrs t h) = map_option n_tcp (e_nbrs s h)"
        using x by (simp_all add: handled_def)
      have "within wire_faults (session_msgs h (drop k pdu) (len - k) (len - k) t) (\<lambda>(go, u). handled h t (if go then 0 else -1) u)"
        by (rule less.IH) (use that less.prems t in auto)
      then have "within wire_faults (session_msgs h (drop k pdu) (len - k) (len - k) t) (\<lambda>(go, u). handled h s (if go then 0 else -1) u)"
        by (rule within_mono) (use t in \<open>auto simp: handled_def intro: sess_ok_trans[OF t(2)]\<close>)
      then show ?thesis using False by simp
    qed (use x in \<open>simp add: handled_def\<close>)
  qed
  show ?case
    by (subst session_msgs.simps, unfold Let_def nbr_get_live[OF n] and_then_simps)
       (intro if_within shut fin ld_msg_then step, use less.prems in auto)
qed

lemma session_pdu_ok:
  assumes r: "ready h s" and len: "length pdu = unat (of_be16 (pdu ! 2) (pdu ! 3)) + 4"
  shows "within wire_faults (session_pdu h pdu s) (\<lambda>(go, t). handled h s (if go then 0 else -1) t)"
proof -
  obtain n where n: "e_nbrs s h = Some n" "sess_inv s" "n_state n \<noteq> NBR_STA_PRESENT" using r by (auto simp: ready_def)
  have shut: "within wire_faults (and_then (session_shutdown h st i ty s) (\<lambda>s1. Inr (False, s1)))
      (\<lambda>(go, t). handled h s (if go then 0 else -1) t)" for st i ty
    by (rule ensures_then_within[OF shutdown_live[OF ready_live[OF r]]]) (simp add: handled_def)
  have raw: "ld16 pdu 2 = Inr (of_be16 (pdu ! 3) (pdu ! 2))" using len by (simp add: ld16_def)
  have sw: "unat (ntohs (of_be16 (pdu ! 3) (pdu ! 2))) + 4 = length pdu" using len by (simp add: ntohs_def)
  have long: "14 \<le> unat k" if "\<not> k < 14" for k :: u16
    using that by (simp add: word_less_nat_alt)
  have msgs: "within wire_faults (and_then (nbr_fsm h NBR_EVT_PDU_RCVD s) (\<lambda>s1.
        session_msgs h (drop 10 pdu) (length pdu - 10) (unat (k - LDP_HDR_PDU_LEN)) s1))
      (\<lambda>(go, t). handled h s (if go then 0 else -1) t)" if "unat k + 4 = length pdu" "\<not> k < LDP_HDR_PDU_LEN + LDP_MSG_SIZE" for k :: u16
  proof (rule ensures_then_within[OF pdu_rcvd_ok[OF n(2,1,3)]])
    fix t assume t: "same_session h s t"
    have "unat (k - LDP_HDR_PDU_LEN) = length pdu - 10"
      using that by (simp add: unat_sub word_le_nat_alt word_less_nat_alt)
    then show "within wire_faults (session_msgs h (drop 10 pdu) (length pdu - 10) (unat (k - LDP_HDR_PDU_LEN)) t)
      (\<lambda>(go, t). handled h s (if go then 0 else -1) t)"
      using within_mono[OF session_msgs_ok[OF same_session_ready[OF t r], of "length pdu - 10" "drop 10 pdu"]] handled_trans[OF t] by auto
  qed
  show ?thesis unfolding session_pdu_def Let_def raw nbr_get_live[OF n(1)] and_then_simps
    by (intro ld16_then if_within shut ld32_then msgs sw) (use len sw in \<open>auto dest!: long\<close>)
qed

text \<open>The loop over the PDUs ends, because each takes at least four bytes from the read buffer.\<close>

lemma session_get_pdu_ok:
  assumes "session_get_pdu b = Some (pdu, rest)"
  shows "length pdu = unat (of_be16 (pdu ! 2) (pdu ! 3)) + 4" and "length rest < length b"
proof -
  have "10 \<le> length b" "unat (of_be16 (b ! 2) (b ! 3)) + 4 \<le> length b"
    "pdu = take (unat (of_be16 (b ! 2) (b ! 3)) + 4) b" "rest = drop (unat (of_be16 (b ! 2) (b ! 3)) + 4) b"
    using assms by (simp_all add: session_get_pdu_def Let_def split: if_splits)
  then show "length pdu = unat (of_be16 (pdu ! 2) (pdu ! 3)) + 4" "length rest < length b" by simp_all
qed

lemma rbuf_ready:
  assumes r: "ready h s" and n: "e_nbrs s h = Some n"
  shows "ready h (nbr_set h (\<lambda>n. n\<lparr>n_tcp := Some t\<rparr>) s)" and "sess_ok h s (nbr_set h (\<lambda>n. n\<lparr>n_tcp := Some t\<rparr>) s)"
    and "e_nbrs (nbr_set h (\<lambda>n. n\<lparr>n_tcp := Some t\<rparr>) s) h = Some (n\<lparr>n_tcp := Some t\<rparr>)"
proof -
  let ?g = "\<lambda>n. n\<lparr>n_tcp := Some t\<rparr>"
  have inv: "sess_inv s" "n_state n \<noteq> NBR_STA_PRESENT" "n_state n = NBR_STA_OPER \<or> room s" using r n by (auto simp: ready_def)
  then have "nbr_core (?g n)" "nbr_timers (?g n)" using sess_nbr[OF inv(1) n] by (simp_all add: nbr_ok_defs)
  from set_net_ok[where g = ?g, OF inv(1) n net_only_refl this]
  show "sess_ok h s (nbr_set h ?g s)" "e_nbrs (nbr_set h ?g s) h = Some (?g n)" "ready h (nbr_set h ?g s)"
    using inv(2,3) by (simp_all add: same_static_def ready_def sess_ok_def room_def)
qed

lemma session_loop_ok:
  assumes "ready h s" and "e_nbrs s h = Some n" and "n_tcp n = Some t"
  shows "\<exists>r. session_loop h s = Some r \<and> within wire_faults r (sess_ok h s)"
  using assms
proof (induction "length (t_rbuf t)" arbitrary: s n t rule: less_induct)
  case less
  note r = less.prems(1) and n = less.prems(2,3)
  show ?case
  proof (cases "session_get_pdu (t_rbuf t)")
    case None
    then show ?thesis using r n by (subst session_loop.simps) (simp add: nbr_tcp_live ready_def sess_ok_refl)
  next
    case (Some x)
    obtain pdu rest where x: "x = (pdu, rest)" by (cases x)
    note pdu = session_get_pdu_ok[OF Some[unfolded x]]
    let ?s = "nbr_set h (\<lambda>n. n\<lparr>n_tcp := Some (t\<lparr>t_rbuf := rest\<rparr>)\<rparr>) s"
    note s1 = rbuf_ready[OF r n(1), of "t\<lparr>t_rbuf := rest\<rparr>"]
    note p = session_pdu_ok[OF s1(1) pdu(1)]
    show ?thesis
    proof (cases "session_pdu h pdu ?s")
      case (Inl e)
      then show ?thesis using p n by (subst session_loop.simps) (simp add: nbr_tcp_live Some x)
    next
      case (Inr y)
      obtain go u where y: "y = (go, u)" by (cases y)
      have hd: "handled h ?s (if go then 0 else -1) u" using p by (simp add: Inr y)
      have ok: "sess_ok h s u" using hd sess_ok_trans[OF s1(2)] by (simp add: handled_def)
      show ?thesis
      proof (cases go)
        case True
        then obtain m where m: "e_nbrs u h = Some m" "n_tcp m = Some (t\<lparr>t_rbuf := rest\<rparr>)" "ready h u"
          using hd s1(3) by (auto simp: handled_def)
        have "length (t_rbuf (t\<lparr>t_rbuf := rest\<rparr>)) < length (t_rbuf t)" using pdu(2) by simp
        from less.hyps[OF this m(3,1,2)] obtain r' where r': "session_loop h u = Some r'" "within wire_faults r' (sess_ok h u)" by auto
        have "within wire_faults r' (sess_ok h s)" by (rule within_mono[OF r'(2)]) (rule sess_ok_trans[OF ok])
        then show ?thesis using n r'(1) True by (subst session_loop.simps) (simp add: nbr_tcp_live Some x Inr y)
      next
        case False
        then show ?thesis using n ok by (subst session_loop.simps) (simp add: nbr_tcp_live Some x Inr y)
      qed
    qed
  qed
qed

lemma session_read_ok:
  assumes r: "ready h s"
  shows "within wire_faults (session_read h rd s) (sess_ok h s)"
proof -
  obtain n where n: "e_nbrs s h = Some n" "sess_inv s" "n_state n \<noteq> NBR_STA_PRESENT" using r by (auto simp: ready_def)
  then obtain t where t: "n_tcp n = Some t" using sess_nbr[OF n(2,1)] by (auto simp: nbr_core_def)
  have close: "within wire_faults (nbr_fsm h NBR_EVT_CLOSE_SESSION s) (sess_ok h s)"
    by (rule ensures_within[OF close_ok[OF n(2,1)]]) simp
  have loop: "within wire_faults (of_loop (session_loop h (nbr_set h (\<lambda>n. n\<lparr>n_tcp := Some u\<rparr>) s))) (sess_ok h s)" for u
  proof -
    note s1 = rbuf_ready[OF r n(1), of u]
    have tc: "n_tcp (n\<lparr>n_tcp := Some u\<rparr>) = Some u" by simp
    from session_loop_ok[OF s1(1,3) tc] obtain q where
      "session_loop h (nbr_set h (\<lambda>n. n\<lparr>n_tcp := Some u\<rparr>) s) = Some q"
      "within wire_faults q (sess_ok h (nbr_set h (\<lambda>n. n\<lparr>n_tcp := Some u\<rparr>) s))" by auto
    then show ?thesis using sess_ok_trans[OF s1(2)] by (auto simp: of_loop_def elim: within_mono)
  qed
  show ?thesis unfolding session_read_def nbr_tcp_live[OF n(1) t] and_then_simps Let_def
    using close loop n(2) by (cases rd) (simp_all add: sess_ok_refl)
qed

end
