(* ===== verification/Ldpe_Codec.thy ===== *)
theory Ldpe_Codec
  imports Ldpe_Safe
begin

text \<open>
  Label messages on the wire: the sender's generators write exactly the bytes their size was computed for,
  the loop that packs messages into PDUs ends and keeps to the negotiated PDU length, and what the
  receiver's decoders read from these bytes is the map that was sent.
\<close>

subsection \<open>Filling a buffer\<close>

definition ext :: "byte list \<Rightarrow> ibuf \<Rightarrow> ibuf" where
  "ext d b = b\<lparr>ib_data := ib_data b @ d\<rparr>"

definition fits :: "nat \<Rightarrow> ibuf \<Rightarrow> bool" where
  "fits k b \<longleftrightarrow> length (ib_data b) + k \<le> ib_max b"

lemma ext_simps [simp]:
  "ext e (ext d b) = ext (d @ e) b" "ib_data (ext d b) = ib_data b @ d" "ib_max (ext d b) = ib_max b"
  "ib_err (ext d b) = ib_err b" "fits k (ext d b) \<longleftrightarrow> fits (length d + k) b"
  by (simp_all add: ext_def fits_def add.assoc)

lemma ibuf_add_fits: "fits (length d) b \<Longrightarrow> ibuf_add d b = ext d b"
  by (simp add: ibuf_add_def fits_def ext_def)

lemma fits_less: "fits k b \<Longrightarrow> j \<le> k \<Longrightarrow> fits j b"
  by (simp add: fits_def)

lemma ext_Nil [simp]: "ext [] b = b"
  by (simp add: ext_def)

lemma opt_add_fits:
  "fits (length (if c then d else [])) b \<Longrightarrow> (if c then ibuf_add d b else b) = ext (if c then d else []) b"
  by (cases c) (simp_all add: ibuf_add_fits)

lemma length_le16 [simp]: "length (le16 w) = 2"
  by (simp add: le16_def)

subsection \<open>The bytes of a label message\<close>

text \<open>The maps the label decision engine sends: the three types, with the length of a real prefix.\<close>

definition wire_ok :: "map_tlv \<Rightarrow> bool" where
  "wire_ok m \<longleftrightarrow>
     m_type m \<in> {MAP_TYPE_WILDCARD, MAP_TYPE_PREFIX, MAP_TYPE_PWID} \<and>
     (m_type m = MAP_TYPE_PREFIX \<longrightarrow> m_prefixlen m \<le> 128) \<and>
     (has_flag (m_flags m) F_MAP_PW_STATUS \<longrightarrow> m_type m = MAP_TYPE_PWID)"

definition pw_elem_len :: "map_tlv \<Rightarrow> nat" where
  "pw_elem_len m = (if has_flag (m_flags m) F_MAP_PW_ID then 4 else 0) + (if has_flag (m_flags m) F_MAP_PW_IFMTU then 4 else 0)"

definition fec_elem :: "map_tlv \<Rightarrow> byte list" where
  "fec_elem m =
     (if m_type m = MAP_TYPE_WILDCARD then [m_type m]
      else if m_type m = MAP_TYPE_PREFIX
      then [m_type m] @ be16 (m_prefix_af m) @ [m_prefixlen m] @ prefix_bytes m
      else [m_type m]
         @ be16 (if has_flag (m_flags m) F_MAP_PW_CWORD then m_pw_type m OR CONTROL_WORD_FLAG else m_pw_type m)
         @ [of_nat (pw_elem_len m)] @ be32 (m_group_id m)
         @ (if has_flag (m_flags m) F_MAP_PW_ID then be32 (m_pwid m) else [])
         @ (if has_flag (m_flags m) F_MAP_PW_IFMTU then [SUBTLV_IFMTU, 4] @ be16 (m_ifmtu m) else []))"

definition label_tlvs :: "map_tlv \<Rightarrow> byte list" where
  "label_tlvs m =
     (if m_label m \<noteq> NO_LABEL then be16 TLV_TYPE_GENERICLABEL @ be16 LABEL_TLV_LEN @ be32 (m_label m) else [])
     @ (if has_flag (m_flags m) F_MAP_REQ_ID then be16 TLV_TYPE_LABELREQUEST @ be16 REQID_TLV_LEN @ be32 (m_requestid m) else [])
     @ (if has_flag (m_flags m) F_MAP_PW_STATUS then be16 TLV_TYPE_PW_STATUS @ be16 PW_STATUS_TLV_LEN @ be32 (m_pw_status m) else [])
     @ (if has_flag (m_flags m) F_MAP_STATUS
        then be16 TLV_TYPE_STATUS @ be16 STATUS_TLV_LEN @ be32 (m_st_status_code m) @ le32 (m_st_msg_id m) @ le16 (m_st_msg_type m)
        else [])"

definition fec_tlv :: "map_tlv \<Rightarrow> byte list" where
  "fec_tlv m = be16 TLV_TYPE_FEC @ be16 (of_nat (length (fec_elem m))) @ fec_elem m"

definition label_bytes :: "u16 \<Rightarrow> map_tlv \<Rightarrow> u32 \<Rightarrow> byte list" where
  "label_bytes type m i =
     be16 type @ be16 (label_msg_size m - LDP_MSG_DEAD_LEN) @ be32 i @ fec_tlv m @ label_tlvs m"

lemma prefix_size_le: "x \<le> 128 \<Longrightarrow> PREFIX_SIZE x \<le> 16"
  by (simp add: PREFIX_SIZE_def word_le_nat_alt)

lemma length_prefix_bytes: "length (prefix_bytes m) = min 16 (PREFIX_SIZE (m_prefixlen m))"
  by (simp add: prefix_bytes_def)

lemma length_fec_elem:
  assumes "wire_ok m"
  shows "length (fec_elem m) =
    (if m_type m = MAP_TYPE_WILDCARD then 1
     else if m_type m = MAP_TYPE_PREFIX then 4 + PREFIX_SIZE (m_prefixlen m) else 8 + pw_elem_len m)"
  using assms prefix_size_le[of "m_prefixlen m"]
  by (auto simp: fec_elem_def wire_ok_def pw_elem_len_def length_prefix_bytes)

lemma gen_fec_tlv_ok:
  assumes ok: "wire_ok m" and f: "fits (length (fec_tlv m)) b"
  shows "gen_fec_tlv m b = Inr (ext (fec_tlv m) b)"
proof -
  note add = ibuf_add_fits fits_less[OF f]
  consider "m_type m = MAP_TYPE_WILDCARD" | "m_type m = MAP_TYPE_PREFIX" | "m_type m = MAP_TYPE_PWID"
    using ok by (auto simp: wire_ok_def)
  then show ?thesis
  proof cases
    case 1
    then show ?thesis by (simp add: gen_fec_tlv_def add fec_tlv_def fec_elem_def)
  next
    case 2
    then have len: "PREFIX_SIZE (m_prefixlen m) \<le> 16" using ok prefix_size_le by (simp add: wire_ok_def)
    then have "fec_tlv m = be16 TLV_TYPE_FEC @ be16 (of_nat (4 + PREFIX_SIZE (m_prefixlen m))) @ fec_elem m"
      using length_fec_elem[OF ok] 2 by (simp add: fec_tlv_def)
    then show ?thesis using 2 len
      by (cases "PREFIX_SIZE (m_prefixlen m) = 0")
         (simp_all add: gen_fec_tlv_def add fec_elem_def Let_def length_prefix_bytes prefix_bytes_def[of m])
  next
    case 3
    then show ?thesis
      by (cases "has_flag (m_flags m) F_MAP_PW_ID"; cases "has_flag (m_flags m) F_MAP_PW_IFMTU")
         (simp_all add: gen_fec_tlv_def add fec_tlv_def fec_elem_def Let_def pw_elem_len_def)
  qed
qed

lemma unat_label_msg_size:
  assumes "wire_ok m"
  shows "unat (label_msg_size m) = length (label_bytes type m i)"
proof -
  define k where "k = length (fec_elem m)"
  have k: "k \<le> 20" using length_fec_elem[OF assms] assms prefix_size_le[of "m_prefixlen m"]
    by (auto simp: k_def pw_elem_len_def wire_ok_def)
  have "label_msg_size m = 12 + of_nat (k + length (label_tlvs m))"
    using assms length_fec_elem[OF assms] k_def[symmetric]
    by (auto simp: label_msg_size_def wire_ok_def pw_elem_len_def label_tlvs_def)
  moreover have "length (label_tlvs m) \<le> 38" by (simp add: label_tlvs_def)
  ultimately show ?thesis using k by (simp add: label_bytes_def fec_tlv_def k_def unat_word_ariths unat_of_nat)
qed

lemma gen_tlvs_ok:
  assumes f: "fits (length (label_tlvs m)) b1"
  shows "(let b2 = (if m_label m \<noteq> NO_LABEL then gen_label_tlv (m_label m) b1 else b1);
              b3 = (if has_flag (m_flags m) F_MAP_REQ_ID then gen_reqid_tlv (m_requestid m) b2 else b2);
              b4 = (if has_flag (m_flags m) F_MAP_PW_STATUS then gen_pw_status_tlv (m_pw_status m) b3 else b3);
              b5 = (if has_flag (m_flags m) F_MAP_STATUS
                    then gen_status_tlv (m_st_status_code m) (m_st_msg_id m) (m_st_msg_type m) b4 else b4)
          in Inr (b5, s)) = Inr (ext (label_tlvs m) b1, s)"
  unfolding Let_def gen_label_tlv_def gen_reqid_tlv_def gen_pw_status_tlv_def gen_status_tlv_def label_tlvs_def
  using fits_less[OF f] by (simp add: opt_add_fits label_tlvs_def split del: if_split)

lemma gen_label_msg_ok:
  assumes ok: "wire_ok m" and f: "fits (unat (label_msg_size m)) b"
  shows "gen_label_msg type m (b, s) = Inr (ext (label_bytes type m (msgcnt s + 1)) b, s\<lparr>msgcnt := msgcnt s + 1\<rparr>)"
proof -
  have f': "fits (length (label_bytes type m (msgcnt s + 1))) b" using f unat_label_msg_size[OF ok] by simp
  define h where "h = be16 type @ be16 (label_msg_size m - LDP_MSG_DEAD_LEN) @ be32 (msgcnt s + 1)"
  have b: "label_bytes type m (msgcnt s + 1) = h @ fec_tlv m @ label_tlvs m" by (simp add: label_bytes_def h_def)
  have "ibuf_add h b = ext h b" "gen_fec_tlv m (ext h b) = Inr (ext (h @ fec_tlv m) b)"
    using gen_fec_tlv_ok[OF ok, of "ext h b"] fits_less[OF f'] by (simp_all add: b ibuf_add_fits)
  moreover have "ext (label_bytes type m (msgcnt s + 1)) b = ext (label_tlvs m) (ext (h @ fec_tlv m) b)" by (simp add: b)
  moreover have "fits (length (label_tlvs m)) (ext (h @ fec_tlv m) b)" using f' by (simp add: b add.assoc)
  ultimately show ?thesis
    by (simp only: gen_label_msg_def gen_msg_hdr_def prod.case h_def[symmetric] and_then_simps gen_tlvs_ok)
qed

subsection \<open>Packing messages into PDUs\<close>

text \<open>A PDU with a given body, as \<open>enqueue_pdu\<close> sends it.\<close>

definition pdu_of :: "ldpe \<Rightarrow> byte list \<Rightarrow> byte list" where
  "pdu_of s body = be16 LDP_VERSION @ be16 (of_nat (6 + length body)) @ le32 (ldp_rtr_id_get s) @ be16 0 @ body"

text \<open>The messages of a list of maps, one after the other, with consecutive message ids.\<close>

fun label_stream :: "u16 \<Rightarrow> u32 \<Rightarrow> map_tlv list \<Rightarrow> byte list" where
  "label_stream type i [] = []"
| "label_stream type i (m # ms) = label_bytes type m (i + 1) @ label_stream type (i + 1) ms"

text \<open>The bodies of the PDUs when the list of maps is cut into segments.\<close>

fun label_bodies :: "u16 \<Rightarrow> u32 \<Rightarrow> map_tlv list list \<Rightarrow> byte list list" where
  "label_bodies type i [] = []"
| "label_bodies type i (seg # segs) = label_stream type i seg # label_bodies type (i + of_nat (length seg)) segs"

lemma label_stream_append: "label_stream type i (a @ b) = label_stream type i a @ label_stream type (i + of_nat (length a)) b"
  by (induction a arbitrary: i) (simp_all add: add.assoc)

lemma label_bodies_snoc:
  "label_bodies type i (segs @ [seg]) = label_bodies type i segs @ [label_stream type (i + of_nat (length (concat segs))) seg]"
  by (induction segs arbitrary: i) (simp_all add: add.assoc)

definition open_pdu :: "ldpe \<Rightarrow> u16 \<Rightarrow> ibuf \<times> u16 \<Rightarrow> byte list \<Rightarrow> bool" where
  "open_pdu s mx p body \<longleftrightarrow>
     ib_max (fst p) = unat mx + 4 \<and> \<not> ib_err (fst p) \<and>
     ib_data (fst p) = be16 LDP_VERSION @ be16 (0 - LDP_HDR_DEAD_LEN) @ le32 (ldp_rtr_id_get s) @ be16 0 @ body \<and>
     unat (snd p) = 6 + length body \<and> 6 + length body \<le> unat mx"

definition fresh_pdu :: "u16 \<Rightarrow> ldpe \<Rightarrow> ibuf \<times> u16" where
  "fresh_pdu mx s = (gen_ldp_hdr 0 s (ibuf_open (unat mx + unat LDP_HDR_DEAD_LEN)), LDP_HDR_PDU_LEN)"

lemma label_size_small: "wire_ok m \<Longrightarrow> unat (label_msg_size m) \<le> 70"
proof -
  assume ok: "wire_ok m"
  have "length (fec_elem m) \<le> 20" using length_fec_elem[OF ok] ok prefix_size_le[of "m_prefixlen m"]
    by (auto simp: pw_elem_len_def wire_ok_def)
  moreover have "length (label_tlvs m) \<le> 38" by (simp add: label_tlvs_def)
  ultimately show ?thesis using unat_label_msg_size[OF ok, of 0 0] by (simp add: label_bytes_def fec_tlv_def)
qed

lemma fresh_open: "256 \<le> mx \<Longrightarrow> open_pdu s mx (fresh_pdu mx s) []"
  by (simp add: open_pdu_def fresh_pdu_def gen_ldp_hdr_def ibuf_add_def ibuf_open_def word_le_nat_alt)

lemma open_pdu_cong: "ldp_rtr_id_get t = ldp_rtr_id_get s \<Longrightarrow> open_pdu t mx p body = open_pdu s mx p body"
  by (simp add: open_pdu_def)

lemma sum_exceeds: "uint (c :: u16) < uint (a :: u16) + uint (b :: u16) \<longleftrightarrow> unat c < unat a + unat b"
  by (simp only: uint_nat of_nat_add[symmetric] of_nat_less_iff)

text \<open>One step of the loop when the message still fits, and when it does not.\<close>

lemma label_pdus_none: "label_pdus h type mx None (m # ms) s = label_pdus h type mx (Some (fresh_pdu mx s)) (m # ms) s"
  by (subst (1 2) label_pdus.simps) (simp add: fresh_pdu_def)

lemma label_pdus_add:
  assumes o: "open_pdu s mx p body" and ok: "wire_ok m" and fit: "6 + length body + unat (label_msg_size m) \<le> unat mx"
  obtains q where "label_pdus h type mx (Some p) (m # ms) s = label_pdus h type mx (Some q) ms (s\<lparr>msgcnt := msgcnt s + 1\<rparr>)"
    and "open_pdu s mx q (body @ label_bytes type m (msgcnt s + 1))"
proof -
  obtain b sz where p: "p = (b, sz)" by (cases p)
  have sz: "unat sz = 6 + length body" using o by (simp add: open_pdu_def p)
  have "fits (unat (label_msg_size m)) b" using o fit by (simp add: open_pdu_def p fits_def)
  note gen = gen_label_msg_ok[OF ok this, of type s]
  let ?q = "(ext (label_bytes type m (msgcnt s + 1)) b, sz + label_msg_size m)"
  have le: "\<not> uint mx < uint sz + uint (label_msg_size m)" using fit sz by (simp add: sum_exceeds)
  have "unat mx < 2 ^ 16" using unsigned_less[of mx] by simp
  then have "unat (sz + label_msg_size m) = unat sz + unat (label_msg_size m)" using fit sz by (simp add: unat_word_ariths)
  then have "open_pdu s mx ?q (body @ label_bytes type m (msgcnt s + 1))"
    using o fit unat_label_msg_size[OF ok, of type "msgcnt s + 1"] by (simp add: open_pdu_def p)
  moreover have "label_pdus h type mx (Some p) (m # ms) s = label_pdus h type mx (Some ?q) ms (s\<lparr>msgcnt := msgcnt s + 1\<rparr>)"
    using le gen o by (subst label_pdus.simps) (simp add: p open_pdu_def)
  ultimately show ?thesis using that by blast
qed

lemma enqueue_open:
  assumes o: "open_pdu s mx p body" and t: "nbr_tcp h s = Inr tc"
  shows "enqueue_pdu h (fst p) (snd p) s = Inr (evbuf_enqueue (t_fd tc) (pdu_of s body) s)"
proof -
  have "snd p = of_nat (unat (snd p))" by simp
  then have "snd p = of_nat (6 + length body)" using o by (simp only: open_pdu_def)
  then show ?thesis using o t by (simp add: enqueue_pdu_def open_pdu_def pdu_of_def be16_def)
qed

lemma label_pdus_flush:
  assumes o: "open_pdu s mx p body" and t: "nbr_tcp h s = Inr tc" and full: "unat mx < 6 + length body + unat (label_msg_size m)"
  shows "label_pdus h type mx (Some p) (m # ms) s =
    label_pdus h type mx (Some (fresh_pdu mx (evbuf_enqueue (t_fd tc) (pdu_of s body) s))) (m # ms)
      (evbuf_enqueue (t_fd tc) (pdu_of s body) s)"
proof -
  obtain b sz where p: "p = (b, sz)" by (cases p)
  have "uint mx < uint sz + uint (label_msg_size m)" using full o by (simp add: sum_exceeds open_pdu_def p)
  then show ?thesis using enqueue_open[OF o t]
    by (subst label_pdus.simps) (simp add: p label_pdus_none)
qed

text \<open>The state after sending some PDUs and taking some message ids.\<close>

definition sent :: "int \<Rightarrow> nat \<Rightarrow> byte list list \<Rightarrow> ldpe \<Rightarrow> ldpe" where
  "sent fd k bodies s = s\<lparr>msgcnt := msgcnt s + of_nat k, e_net := e_net s @ map (\<lambda>x. (fd, pdu_of s x)) bodies\<rparr>"

lemma sent_simps [simp]:
  "msgcnt (sent fd k bs s) = msgcnt s + of_nat k" "e_nbrs (sent fd k bs s) = e_nbrs s"
  "ldp_rtr_id_get (sent fd k bs s) = ldp_rtr_id_get s" "nbr_tcp h (sent fd k bs s) = nbr_tcp h s"
  "e_net (sent fd k bs s) = e_net s @ map (\<lambda>x. (fd, pdu_of s x)) bs" "net_only s (sent fd k bs s)" "peercnt (sent fd k bs s) = peercnt s" "pdu_of (sent fd k bs s) = pdu_of s"
  by (simp_all add: sent_def ldp_rtr_id_get_def nbr_tcp_def nbr_get_def net_only_def pdu_of_def fun_eq_iff)

lemma sent_more [simp]: "sent fd j bs (sent fd k cs s) = sent fd (k + j) (cs @ bs) s"
  by (simp add: sent_def pdu_of_def ldp_rtr_id_get_def)

lemma sent_one: "s\<lparr>msgcnt := msgcnt s + 1\<rparr> = sent fd 1 [] s" "evbuf_enqueue fd (pdu_of s body) s = sent fd 0 [body] s"
  "sent fd 0 [] s = s"
  by (simp_all add: sent_def evbuf_enqueue_def)

lemma label_pdus_ok:
  assumes mx: "256 \<le> mx" and "list_all wire_ok ms" and "open_pdu s mx p (label_stream type i seg)"
    and "msgcnt s = i + of_nat (length seg)" and "nbr_tcp h s = Inr tc"
  shows "\<exists>segs q last. label_pdus h type mx (Some p) ms s =
      Some (Inr ([], Some q, sent (t_fd tc) (length ms) (label_bodies type i segs) s)) \<and>
    open_pdu s mx q (label_stream type (i + of_nat (length (concat segs))) last) \<and> concat segs @ last = seg @ ms \<and>
    [] \<notin> set segs \<and> (seg @ ms \<noteq> [] \<longrightarrow> last \<noteq> []) \<and> (\<forall>x \<in> set (label_bodies type i segs). 6 + length x \<le> unat mx)"
  using assms(2-5)
proof (induction ms arbitrary: s p i seg)
  case Nil
  then show ?case by (subst label_pdus.simps) (auto simp: sent_one intro!: exI[of _ "[]"] exI[of _ p] exI[of _ seg])
next
  case (Cons m ms)
  note o = Cons.prems(2) and cnt = Cons.prems(3) and t = Cons.prems(4)
  have m: "wire_ok m" "list_all wire_ok ms" using Cons.prems(1) by simp_all
  have go: "\<exists>segs q last. label_pdus h type mx (Some p') (m # ms) u =
        Some (Inr ([], Some q, sent (t_fd tc) (length (m # ms)) (label_bodies type i' segs) u)) \<and>
      open_pdu u mx q (label_stream type (i' + of_nat (length (concat segs))) last) \<and> concat segs @ last = seg' @ m # ms \<and>
      [] \<notin> set segs \<and> last \<noteq> [] \<and> (\<forall>x \<in> set (label_bodies type i' segs). 6 + length x \<le> unat mx)"
    if o': "open_pdu u mx p' (label_stream type i' seg')" and cnt': "msgcnt u = i' + of_nat (length seg')" and t': "nbr_tcp h u = Inr tc"
      and fit: "6 + length (label_stream type i' seg') + unat (label_msg_size m) \<le> unat mx" for u p' i' seg'
  proof -
    let ?v = "sent (t_fd tc) 1 [] u"
    have str: "label_stream type i' (seg' @ [m]) = label_stream type i' seg' @ label_bytes type m (msgcnt u + 1)"
      by (simp add: label_stream_append cnt')
    obtain q where q: "label_pdus h type mx (Some p') (m # ms) u = label_pdus h type mx (Some q) ms ?v"
      "open_pdu ?v mx q (label_stream type i' (seg' @ [m]))"
      using label_pdus_add[OF o' m(1) fit, of h type ms] open_pdu_cong[of ?v u mx]
      unfolding str sent_one(1)[of u "t_fd tc"] by auto
    have v: "msgcnt ?v = i' + of_nat (length (seg' @ [m]))" "nbr_tcp h ?v = Inr tc" using t' cnt' by simp_all
    from Cons.IH[OF m(2) q(2) v] q(1) show ?thesis by (auto simp: open_pdu_def)
  qed
  show ?case
  proof (cases "6 + length (label_stream type i seg) + unat (label_msg_size m) \<le> unat mx")
    case True
    from go[OF o cnt t this] show ?thesis by simp
  next
    case False
    have small: "6 + unat (label_msg_size m) \<le> unat mx" using label_size_small[OF m(1)] mx by (simp add: word_le_nat_alt)
    then have ne: "seg \<noteq> []" using False by auto
    let ?u = "sent (t_fd tc) 0 [label_stream type i seg] s"
    have eq: "label_pdus h type mx (Some p) (m # ms) s = label_pdus h type mx (Some (fresh_pdu mx ?u)) (m # ms) ?u"
      using label_pdus_flush[OF o t] False by (simp add: sent_one(2))
    have "open_pdu ?u mx (fresh_pdu mx ?u) (label_stream type (msgcnt ?u) [])" using fresh_open[OF mx] by simp
    moreover have "msgcnt ?u = msgcnt ?u + of_nat (length ([] :: map_tlv list))" "nbr_tcp h ?u = Inr tc" using t by simp_all
    moreover have "6 + length (label_stream type (msgcnt ?u) []) + unat (label_msg_size m) \<le> unat mx"
      using small by simp
    ultimately obtain segs q last where
      "label_pdus h type mx (Some p) (m # ms) s = Some (Inr ([], Some q,
         sent (t_fd tc) (length (m # ms)) (label_stream type i seg # label_bodies type (msgcnt s) segs) s))"
      "open_pdu s mx q (label_stream type (msgcnt s + of_nat (length (concat segs))) last)" "concat segs @ last = m # ms"
      "[] \<notin> set segs" "last \<noteq> []" "\<forall>x \<in> set (label_bodies type (msgcnt s) segs). 6 + length x \<le> unat mx"
      using go[of ?u "fresh_pdu mx ?u" "msgcnt ?u" "[]"] unfolding eq by (auto simp: open_pdu_def)
    then show ?thesis using o cnt ne by (intro exI[of _ "seg # segs"] exI[of _ q] exI[of _ last]) (simp add: open_pdu_def add.assoc)
  qed
qed

lemma send_labelmessage_packs:
  assumes inv: "sess_inv s" and n: "e_nbrs s h = Some n" "n_state n = NBR_STA_OPER" "n_tcp n = Some tc"
    and ok: "list_all wire_ok mh"
  shows "\<exists>segs t. send_labelmessage h type mh s = Inr ([], t) \<and> same_session h s t \<and>
    e_net t = e_net s @ map (\<lambda>x. (t_fd tc, pdu_of s x)) (label_bodies type (msgcnt s) segs) \<and>
    concat segs = mh \<and> [] \<notin> set segs \<and> (\<forall>x \<in> set (label_bodies type (msgcnt s) segs). 6 + length x \<le> unat (n_max_pdu_len n))"
proof (cases mh)
  case Nil
  then show ?thesis using same_session_refl[OF inv n(1)] by (auto simp: send_labelmessage_def intro!: exI[of _ "[]"])
next
  case (Cons m ms)
  have c: "nbr_core n" "256 \<le> n_max_pdu_len n" using sess_nbr[OF inv n(1)] n(2) by (auto simp: nbr_core_def)
  have t: "nbr_tcp h s = Inr tc" using n by (simp add: nbr_tcp_live)
  have "open_pdu s (n_max_pdu_len n) (fresh_pdu (n_max_pdu_len n) s) (label_stream type (msgcnt s) [])"
    using fresh_open[OF c(2)] by simp
  from label_pdus_ok[OF c(2) ok this _ t] obtain segs q last where
    p: "label_pdus h type (n_max_pdu_len n) None mh s =
        Some (Inr ([], Some q, sent (t_fd tc) (length mh) (label_bodies type (msgcnt s) segs) s))"
    "open_pdu s (n_max_pdu_len n) q (label_stream type (msgcnt s + of_nat (length (concat segs))) last)" "concat segs @ last = mh"
    "[] \<notin> set segs" "last \<noteq> []" "\<forall>x \<in> set (label_bodies type (msgcnt s) segs). 6 + length x \<le> unat (n_max_pdu_len n)"
    by (auto simp: Cons label_pdus_none)
  let ?v = "sent (t_fd tc) (length mh) (label_bodies type (msgcnt s) segs) s"
  let ?u = "sent (t_fd tc) (length mh) (label_bodies type (msgcnt s) (segs @ [last])) s"
  have o: "open_pdu ?v (n_max_pdu_len n) q (label_stream type (msgcnt s + of_nat (length (concat segs))) last)"
    using p(2) by (simp add: open_pdu_def)
  have "enqueue_pdu h (fst q) (snd q) ?v = Inr ?u"
    using enqueue_open[OF o, of h tc] t sent_one(2)[of "t_fd tc" ?v] by (simp add: label_bodies_snoc)
  moreover have "nbr_fsm h NBR_EVT_PDU_SENT ?u = Inr (nbr_set h pdu_sent ?u)"
    by (rule fsm_pdu(1)) (use n c in auto)
  ultimately have "send_labelmessage h type mh s = Inr ([], nbr_set h pdu_sent ?u)"
    using p(1) Cons n(1) by (cases q) (simp add: send_labelmessage_def nbr_get_live of_loop_def)
  moreover have "same_session h s (nbr_set h pdu_sent ?u)"
  proof (rule same_session_trans)
    show "same_session h s ?u" using net_only_inv[of s ?u] net_only_frame[of s ?u h] inv n(1)
      by (simp add: same_session_def sess_ok_def)
    then have "sess_inv ?u" by (simp add: same_session_def sess_ok_def)
    then show "same_session h ?u (nbr_set h pdu_sent ?u)"
      by (rule pdu_same_session) (use n in auto)
  qed
  ultimately show ?thesis using p(2-6)
    by (intro exI[of _ "segs @ [last]"] exI[of _ "nbr_set h pdu_sent ?u"])
       (auto simp: open_pdu_def nbr_set_def label_bodies_snoc)
qed

subsection \<open>Reading what was written\<close>

lemma ld_wire [simp]:
  "ld16 (be16 w @ bs) 0 = Inr (ntohs w)" "ld32 (be32 v @ bs) 0 = Inr (ntohl v)"
  "ld8 (x # bs) 0 = Inr x"
  by (simp_all add: ld16_def ld32_def ld8_def be16_def be32_def le32_def ntohs_def ntohl_def of_be32_def)

lemma ld_skip:
  "length a = k \<Longrightarrow> ld16 (a @ bs) (k + i) = ld16 bs i" "length a = k \<Longrightarrow> ld32 (a @ bs) (k + i) = ld32 bs i"
  "length a = k \<Longrightarrow> ld8 (a @ bs) (k + i) = ld8 bs i" "length a = k \<Longrightarrow> ldn (a @ bs) (k + i) j = ldn bs i j"
  by (auto simp: ld16_def ld32_def ld8_def ldn_def nth_append)

text \<open>A prefix whose bits past the length are zero, byte by byte, and a pseudowire with its id.\<close>

definition canonical :: "map_tlv \<Rightarrow> bool" where
  "canonical m \<longleftrightarrow>
     wire_ok m \<and>
     (m_type m = MAP_TYPE_PREFIX \<longrightarrow>
        m_prefix_af m \<in> {AF_IPV4, AF_IPV6} \<and>
        drop (PREFIX_SIZE (m_prefixlen m)) (s6_addr (m_prefix m)) = replicate (16 - PREFIX_SIZE (m_prefixlen m)) 0) \<and>
     (m_type m = MAP_TYPE_PWID \<longrightarrow>
        \<not> has_flag (m_pw_type m) CONTROL_WORD_FLAG \<and>
        (has_flag (m_flags m) F_MAP_PW_IFMTU \<longrightarrow> has_flag (m_flags m) F_MAP_PW_ID))"

text \<open>The fields of a map an element carries, set in another map.\<close>

definition fec_read :: "map_tlv \<Rightarrow> map_tlv \<Rightarrow> map_tlv" where
  "fec_read m m0 =
     (if m_type m = MAP_TYPE_WILDCARD then m0\<lparr>m_type := m_type m\<rparr>
      else if m_type m = MAP_TYPE_PREFIX
      then m0\<lparr>m_type := m_type m, m_prefix_af := m_prefix_af m, m_prefixlen := m_prefixlen m, m_prefix := m_prefix m\<rparr>
      else (let m1 = (if has_flag (m_flags m) F_MAP_PW_CWORD
                      then m0\<lparr>m_type := m_type m, m_flags := m_flags m0 OR F_MAP_PW_CWORD, m_pw_type := m_pw_type m\<rparr>
                      else m0\<lparr>m_type := m_type m, m_pw_type := m_pw_type m\<rparr>);
                m2 = m1\<lparr>m_group_id := m_group_id m\<rparr>;
                m3 = (if has_flag (m_flags m) F_MAP_PW_ID then m2\<lparr>m_pwid := m_pwid m, m_flags := m_flags m2 OR F_MAP_PW_ID\<rparr> else m2)
            in if has_flag (m_flags m) F_MAP_PW_IFMTU
               then m3\<lparr>m_ifmtu := m_ifmtu m, m_flags := m_flags m3 OR F_MAP_PW_IFMTU\<rparr> else m3))"

lemma prefix_roundtrip:
  assumes "canonical m" and "m_type m = MAP_TYPE_PREFIX"
  shows "tlv_decode_fec_elm h msg (fec_elem m @ rest) (length (fec_elem m)) m0 s =
    Inr (int (length (fec_elem m)), fec_read m m0, s)"
proof -
  define k where "k = PREFIX_SIZE (m_prefixlen m)"
  have k: "k \<le> 16" "length (prefix_bytes m) = k" using assms prefix_size_le[of "m_prefixlen m"]
    by (auto simp: canonical_def wire_ok_def k_def length_prefix_bytes)
  have "prefix_bytes m @ replicate (16 - k) 0 = s6_addr (m_prefix m)"
    using assms append_take_drop_id[of k "s6_addr (m_prefix m)"] by (simp add: canonical_def prefix_bytes_def k_def)
  then have p: "of_s6_addr (prefix_bytes m @ replicate (16 - k) 0) = m_prefix m" by simp
  have e: "fec_elem m = m_type m # be16 (m_prefix_af m) @ m_prefixlen m # prefix_bytes m" using assms(2) by (simp add: fec_elem_def)
  have "ld8 (fec_elem m @ rest) 0 = Inr (m_type m)" by (simp add: e)
  moreover have "ld16 (fec_elem m @ rest) 1 = Inr (ntohs (m_prefix_af m))"
    using ld_skip(1)[of "[m_type m]" 1 "be16 (m_prefix_af m) @ m_prefixlen m # prefix_bytes m @ rest" 0] by (simp add: e)
  moreover have "ld8 (fec_elem m @ rest) 3 = Inr (m_prefixlen m)"
    using ld_skip(3)[of "m_type m # be16 (m_prefix_af m)" 3 "m_prefixlen m # prefix_bytes m @ rest" 0] by (simp add: e)
  moreover have "ldn (fec_elem m @ rest) 4 k = Inr (prefix_bytes m)"
    using ld_skip(4)[of "m_type m # be16 (m_prefix_af m) @ [m_prefixlen m]" 4 "prefix_bytes m @ rest" 0 k] k by (simp add: e ldn_def)
  moreover have "m_prefix_af m = AF_IPV4 \<or> m_prefix_af m = AF_IPV6" "length (fec_elem m) = 4 + k"
    using assms k by (auto simp: canonical_def e)
  ultimately show ?thesis using assms(2) k p
    by (auto simp: tlv_decode_fec_elm_def decode_prefix_def Let_def k_def[symmetric] fec_read_def)
qed

lemma flag_set: "f \<noteq> 0 \<Longrightarrow> has_flag (t OR f) (f :: u16)"
  by (simp add: has_flag_def word_ao_absorbs)

lemma flag_cleared:
  assumes "\<not> has_flag t (f :: u16)"
  shows "(t OR f) AND NOT f = t"
proof (rule bit_word_eqI)
  fix n assume "n < LENGTH(16)"
  moreover have "\<not> bit (t AND f) n" using assms by (simp add: has_flag_def)
  ultimately show "bit ((t OR f) AND NOT f) n = bit t n" by (auto simp: bit_simps)
qed

lemma pw_params_end [simp]: "pw_params buf off 0 m = Some (Inr (Some (off, m)))"
  by (subst pw_params.simps) simp

lemma pw_params_mtu:
  assumes "length a = off"
  shows "pw_params (a @ [SUBTLV_IFMTU, 4] @ be16 mtu @ rest) off 4 m =
    Some (Inr (Some (off + 4, m\<lparr>m_ifmtu := mtu, m_flags := m_flags m OR F_MAP_PW_IFMTU\<rparr>)))"
proof -
  let ?b = "a @ [SUBTLV_IFMTU, 4] @ be16 mtu @ rest"
  have "ld8 ?b off = Inr 1" "ld8 ?b (off + 1) = Inr 4" "ld16 ?b (off + 2) = Inr (ntohs mtu)"
    using ld_skip(3)[OF assms, of "[SUBTLV_IFMTU, 4] @ be16 mtu @ rest" 0] ld_skip(3)[OF assms, of "[SUBTLV_IFMTU, 4] @ be16 mtu @ rest" 1]
      ld_skip(1)[OF assms, of "[SUBTLV_IFMTU, 4] @ be16 mtu @ rest" 2] ld_skip(1)[of "[SUBTLV_IFMTU, 4]" 2 "be16 mtu @ rest" 0]
    by (simp_all add: ld8_def)
  then show ?thesis by (subst pw_params.simps) simp
qed

lemma pwid_roundtrip:
  assumes "canonical m" and "m_type m = MAP_TYPE_PWID"
  shows "tlv_decode_fec_elm h msg (fec_elem m @ rest) (length (fec_elem m)) m0 s =
    Inr (int (length (fec_elem m)), fec_read m m0, s)"
proof -
  define t where "t = (if has_flag (m_flags m) F_MAP_PW_CWORD then m_pw_type m OR CONTROL_WORD_FLAG else m_pw_type m)"
  define l where "l = (of_nat (pw_elem_len m) :: u8)"
  define tl where "tl = (if has_flag (m_flags m) F_MAP_PW_ID then be32 (m_pwid m) else [])
    @ (if has_flag (m_flags m) F_MAP_PW_IFMTU then [SUBTLV_IFMTU, 4] @ be16 (m_ifmtu m) else [])"
  have e: "fec_elem m = m_type m # be16 t @ l # be32 (m_group_id m) @ tl" using assms(2) by (simp add: fec_elem_def t_def l_def tl_def)
  have b: "ld8 (fec_elem m @ rest) 0 = Inr (m_type m)" "ld16 (fec_elem m @ rest) 1 = Inr (ntohs t)"
    "ld8 (fec_elem m @ rest) 3 = Inr l" "ld32 (fec_elem m @ rest) 4 = Inr (ntohl (m_group_id m))"
    using ld_skip(1)[of "[m_type m]" 1 "be16 t @ l # be32 (m_group_id m) @ tl @ rest" 0]
      ld_skip(3)[of "m_type m # be16 t" 3 "l # be32 (m_group_id m) @ tl @ rest" 0]
      ld_skip(2)[of "m_type m # be16 t @ [l]" 4 "be32 (m_group_id m) @ tl @ rest" 0] by (simp_all add: e)
  have len: "length (fec_elem m) = 8 + pw_elem_len m" "unat l = pw_elem_len m" "pw_elem_len m = length tl"
    by (auto simp: e l_def tl_def pw_elem_len_def unat_of_nat)
  have pwid: "ld32 (fec_elem m @ rest) 8 = Inr (ntohl (m_pwid m))" if "has_flag (m_flags m) F_MAP_PW_ID"
    using ld_skip(2)[of "m_type m # be16 t @ l # be32 (m_group_id m)" 8 "be32 (m_pwid m) @
      (if has_flag (m_flags m) F_MAP_PW_IFMTU then [SUBTLV_IFMTU, 4] @ be16 (m_ifmtu m) else []) @ rest" 0] that by (simp add: e tl_def)
  have cw: "has_flag (m_pw_type m OR 32768) 32768" "(m_pw_type m OR 32768) AND - 32769 = m_pw_type m" "\<not> has_flag (m_pw_type m) 32768"
    using assms flag_set[of "32768" "m_pw_type m"] flag_cleared[of "m_pw_type m" 32768] by (simp_all add: canonical_def)
  consider "\<not> has_flag (m_flags m) F_MAP_PW_ID" "\<not> has_flag (m_flags m) F_MAP_PW_IFMTU"
    | "has_flag (m_flags m) F_MAP_PW_ID" "\<not> has_flag (m_flags m) F_MAP_PW_IFMTU"
    | "has_flag (m_flags m) F_MAP_PW_ID" "has_flag (m_flags m) F_MAP_PW_IFMTU"
    using assms by (auto simp: canonical_def)
  then show ?thesis
  proof cases
    case 1
    then have "l = 0" using len(2,3) by (simp add: tl_def unat_eq_0)
    then show ?thesis using 1 b len cw assms(2) by (auto simp: tlv_decode_fec_elm_def decode_pwid_def Let_def fec_read_def t_def)
  next
    case 2
    then have "l = 4" "tl = be32 (m_pwid m)" using len(2,3) by (auto simp: tl_def l_def pw_elem_len_def)
    then show ?thesis using 2 b pwid len cw assms(2)
      by (auto simp: tlv_decode_fec_elm_def decode_pwid_def Let_def fec_read_def t_def of_loop_def)
  next
    case 3
    then have l: "l = 8" "tl = be32 (m_pwid m) @ [SUBTLV_IFMTU, 4] @ be16 (m_ifmtu m)" using len(2,3)
      by (auto simp: tl_def l_def pw_elem_len_def)
    have "pw_params (fec_elem m @ rest) 12 4 x =
        Some (Inr (Some (16, x\<lparr>m_ifmtu := m_ifmtu m, m_flags := m_flags x OR F_MAP_PW_IFMTU\<rparr>)))" for x
      using pw_params_mtu[of "m_type m # be16 t @ l # be32 (m_group_id m) @ be32 (m_pwid m)" 12 "m_ifmtu m" rest x] by (simp add: e l(2))
    then show ?thesis using 3 l b pwid len cw assms(2)
      by (auto simp: tlv_decode_fec_elm_def decode_pwid_def Let_def fec_read_def t_def of_loop_def)
  qed
qed

lemma fec_roundtrip:
  assumes "canonical m"
  shows "tlv_decode_fec_elm h msg (fec_elem m @ rest) (length (fec_elem m)) m0 s =
    Inr (int (length (fec_elem m)), fec_read m m0, s)"
proof -
  consider "m_type m = MAP_TYPE_WILDCARD" | "m_type m = MAP_TYPE_PREFIX" | "m_type m = MAP_TYPE_PWID"
    using assms by (auto simp: canonical_def wire_ok_def)
  then show ?thesis
    by cases (simp add: tlv_decode_fec_elm_def fec_elem_def fec_read_def, simp_all add: prefix_roundtrip pwid_roundtrip assms)
qed

text \<open>The optional parameters of a label mapping.\<close>

definition reqid_tlv :: "map_tlv \<Rightarrow> byte list" where
  "reqid_tlv m = (if has_flag (m_flags m) F_MAP_REQ_ID then be16 TLV_TYPE_LABELREQUEST @ be16 REQID_TLV_LEN @ be32 (m_requestid m) else [])"

definition pw_status_tlv :: "map_tlv \<Rightarrow> byte list" where
  "pw_status_tlv m = (if has_flag (m_flags m) F_MAP_PW_STATUS then be16 TLV_TYPE_PW_STATUS @ be16 PW_STATUS_TLV_LEN @ be32 (m_pw_status m) else [])"

definition status_tlv :: "map_tlv \<Rightarrow> byte list" where
  "status_tlv m = (if has_flag (m_flags m) F_MAP_STATUS
     then be16 TLV_TYPE_STATUS @ be16 STATUS_TLV_LEN @ be32 (m_st_status_code m) @ le32 (m_st_msg_id m) @ le16 (m_st_msg_type m)
     else [])"

definition with_opts :: "map_tlv \<Rightarrow> label_opts \<Rightarrow> label_opts" where
  "with_opts m lo =
     (let lo1 = (if has_flag (m_flags m) F_MAP_REQ_ID then lo\<lparr>lo_flags := lo_flags lo OR F_MAP_REQ_ID, lo_reqid := m_requestid m\<rparr> else lo)
      in if has_flag (m_flags m) F_MAP_PW_STATUS
         then lo1\<lparr>lo_flags := lo_flags lo1 OR F_MAP_PW_STATUS, lo_pw_status := m_pw_status m\<rparr> else lo1)"

lemma opt_params_step:
  assumes "opt ty (length v) (v @ rest) lo s = Inr (Opt_ok lo1, s)" and "length v < 2 ^ 16"
  shows "opt_params opt h msg (be16 ty @ be16 (of_nat (length v)) @ v @ rest) (4 + length v + n) lo s =
    opt_params opt h msg rest n lo1 s"
proof -
  let ?b = "be16 ty @ be16 (of_nat (length v)) @ v @ rest"
  have "ld16 ?b 2 = Inr (ntohs (of_nat (length v)))" using ld_skip(1)[of "be16 ty" 2 "be16 (of_nat (length v)) @ v @ rest" 0] by simp
  moreover have "drop 4 ?b = v @ rest" by (simp add: be16_def)
  moreover have "unat (of_nat (length v) :: u16) = length v" using assms(2) by (simp add: unat_of_nat)
  ultimately show ?thesis using assms(1) by (subst opt_params.simps) (simp add: Let_def)
qed

lemma opt_params_nil [simp]: "opt_params opt h msg buf 0 lo s = Inr (0, lo, s)"
  by (subst opt_params.simps) simp

lemma label_opts_roundtrip:
  fixes m :: map_tlv
  defines "b \<equiv> reqid_tlv m @ pw_status_tlv m @ status_tlv m"
  shows "opt_params (label_opt h msg MSG_TYPE_LABELMAPPING) h msg (b @ x) (length b) lo s = Inr (0, with_opts m lo, s)"
proof -
  let ?op = "opt_params (label_opt h msg MSG_TYPE_LABELMAPPING) h msg"
  have st: "?op (status_tlv m @ x) (length (status_tlv m)) lo s = Inr (0, lo, s)" for lo
    using opt_params_step[of "label_opt h msg MSG_TYPE_LABELMAPPING" TLV_TYPE_STATUS
        "be32 (m_st_status_code m) @ le32 (m_st_msg_id m) @ le16 (m_st_msg_type m)" x lo s lo h msg 0]
    by (simp add: status_tlv_def label_opt_def)
  have pw: "?op (pw_status_tlv m @ status_tlv m @ x) (length (pw_status_tlv m) + length (status_tlv m)) lo s =
      Inr (0, if has_flag (m_flags m) F_MAP_PW_STATUS then lo\<lparr>lo_flags := lo_flags lo OR F_MAP_PW_STATUS, lo_pw_status := m_pw_status m\<rparr> else lo, s)" for lo
    using opt_params_step[of "label_opt h msg MSG_TYPE_LABELMAPPING" TLV_TYPE_PW_STATUS "be32 (m_pw_status m)" "status_tlv m @ x" lo s
        "lo\<lparr>lo_flags := lo_flags lo OR F_MAP_PW_STATUS, lo_pw_status := m_pw_status m\<rparr>" h msg "length (status_tlv m)"]
    by (simp add: pw_status_tlv_def label_opt_def st)
  show ?thesis
    using opt_params_step[of "label_opt h msg MSG_TYPE_LABELMAPPING" TLV_TYPE_LABELREQUEST "be32 (m_requestid m)"
        "pw_status_tlv m @ status_tlv m @ x" lo s "lo\<lparr>lo_flags := lo_flags lo OR F_MAP_REQ_ID, lo_reqid := m_requestid m\<rparr>" h msg
        "length (pw_status_tlv m) + length (status_tlv m)"]
    by (auto simp: b_def reqid_tlv_def label_opt_def pw with_opts_def Let_def)
qed

text \<open>What the receiver hands on for a mapping with a given message id.\<close>

definition received :: "map_tlv \<Rightarrow> u32 \<Rightarrow> map_tlv" where
  "received m i =
     (let m1 = fec_read m (map_zero\<lparr>m_msg_id := ntohl i\<rparr>);
          m2 = m1\<lparr>m_flags := m_flags m1 OR ((if has_flag (m_flags m) F_MAP_REQ_ID then F_MAP_REQ_ID else 0)
            OR (if has_flag (m_flags m) F_MAP_PW_STATUS then F_MAP_PW_STATUS else 0))\<rparr>;
          m3 = (if has_flag (m_flags m) F_MAP_PW_STATUS then m2\<lparr>m_pw_status := m_pw_status m\<rparr> else m2)
      in if has_flag (m_flags m) F_MAP_REQ_ID then m3\<lparr>m_label := m_label m, m_requestid := m_requestid m\<rparr>
         else m3\<lparr>m_label := m_label m\<rparr>)"

text \<open>The flags of a map as the decoder builds them.\<close>

lemma fec_read_flags:
  "m_flags (fec_read m (map_zero\<lparr>m_msg_id := j\<rparr>)) =
     (if m_type m \<in> {MAP_TYPE_WILDCARD, MAP_TYPE_PREFIX} then 0
      else ((if has_flag (m_flags m) F_MAP_PW_CWORD then F_MAP_PW_CWORD else 0) OR (if has_flag (m_flags m) F_MAP_PW_ID then F_MAP_PW_ID else 0))
        OR (if has_flag (m_flags m) F_MAP_PW_IFMTU then F_MAP_PW_IFMTU else 0))"
  by (simp add: fec_read_def Let_def map_zero_def)

lemma fec_read_simps:
  "m_type (fec_read m m0) = m_type m"
  "m_type m = MAP_TYPE_PREFIX \<Longrightarrow> m_prefix_af (fec_read m m0) = m_prefix_af m"
  by (simp_all add: fec_read_def Let_def)

lemma has_flag_or: "has_flag (a OR b) f \<longleftrightarrow> has_flag a f \<or> has_flag b f"
  by (simp add: has_flag_def bit.conj_disj_distrib2 or_eq_0_iff)

lemma has_flag_if: "has_flag (if c then g else 0) f \<longleftrightarrow> c \<and> has_flag g f" "\<not> has_flag 0 f"
  by (simp_all add: has_flag_def)

lemmas flag_of = has_flag_or has_flag_if has_flag_def[of "numeral _" "numeral _"] has_flag_def[of 1 "numeral _"]
  has_flag_def[of "numeral _" 1] has_flag_def[of 1 1]

definition mapping_ok :: "nbr \<Rightarrow> map_tlv \<Rightarrow> bool" where
  "mapping_ok n m \<longleftrightarrow>
     canonical m \<and> m_label m \<noteq> NO_LABEL \<and> label_ok (m_label m) \<and>
     (m_type m = MAP_TYPE_PREFIX \<and>
        (m_prefix_af m = AF_IPV4 \<and> n_v4_enabled n \<and> m_label m \<noteq> MPLS_LABEL_IPV6NULL \<or>
         m_prefix_af m = AF_IPV6 \<and> n_v6_enabled n \<and> m_label m \<noteq> MPLS_LABEL_IPV4NULL) \<or>
      m_type m = MAP_TYPE_PWID \<and> has_flag (m_flags m) F_MAP_PW_ID \<and> MPLS_LABEL_RESERVED_MAX < m_label m)"

lemma label_check_roundtrip:
  assumes "mapping_ok n m"
  shows "label_check (with_opts m \<lparr>lo_label = m_label m, lo_reqid = 0, lo_pw_status = 0, lo_flags = 0\<rparr>) n
    (fec_read m (map_zero\<lparr>m_msg_id := ntohl i\<rparr>)) = Inr (Deliver (received m i))"
proof (cases "m_type m = MAP_TYPE_PREFIX")
  case True
  then show ?thesis using assms
    by (auto simp: mapping_ok_def canonical_def wire_ok_def label_check_def Let_def fec_read_simps fec_read_flags with_opts_def received_def
        has_flag_def)
next
  case False
  then have t: "m_type m = MAP_TYPE_PWID" "\<not> m_label m \<le> MPLS_LABEL_RESERVED_MAX" using assms by (auto simp: mapping_ok_def)
  then show ?thesis
    by (simp add: label_check_def Let_def fec_read_simps with_opts_def received_def fec_read_flags flag_of)
qed

lemma label_fecs_roundtrip:
  assumes "canonical m" and "m_type m \<noteq> MAP_TYPE_WILDCARD" and "m_type m = MAP_TYPE_PWID \<longrightarrow> has_flag (m_flags m) F_MAP_PW_ID"
  shows "label_fecs h msg MSG_TYPE_LABELMAPPING (fec_elem m @ rest) (length (fec_elem m) + n) (length (fec_elem m)) [] s =
    Some (Inr (True, [fec_read m (map_zero\<lparr>m_msg_id := lm_id msg\<rparr>)], rest, n, s))"
proof -
  have "has_flag (m_flags (fec_read m (map_zero\<lparr>m_msg_id := lm_id msg\<rparr>))) F_MAP_PW_ID" if "m_type m = MAP_TYPE_PWID"
    using that assms(3) by (simp add: fec_read_flags flag_of)
  then show ?thesis using assms(2)
    by (subst label_fecs.simps) (auto simp: fec_roundtrip[OF assms(1)] fec_read_simps Let_def)
qed

lemma label_msg_header:
  "ld_msg (label_bytes type m i @ x) = Inr \<lparr>lm_type = ntohs type, lm_length = ntohs (label_msg_size m - LDP_MSG_DEAD_LEN), lm_id = ntohl i\<rparr>"
  using ld_skip(1)[of "be16 type" 2 "be16 (label_msg_size m - LDP_MSG_DEAD_LEN) @ be32 i @ fec_tlv m @ label_tlvs m @ x" 0]
    ld_skip(2)[of "be16 type @ be16 (label_msg_size m - LDP_MSG_DEAD_LEN)" 4 "be32 i @ fec_tlv m @ label_tlvs m @ x" 0]
  by (simp add: ld_msg_def label_bytes_def)

lemma label_mapping_read:
  assumes n: "e_nbrs s h = Some n" and ok: "mapping_ok n m"
  shows "recv_labelmessage h (label_bytes MSG_TYPE_LABELMAPPING m i @ x) (unat (label_msg_size m)) MSG_TYPE_LABELMAPPING s =
    Inr (0, ldpe_imsg_compose_lde (IMSG_LABEL_MAPPING (n_peerid n) (received m i)) s)"
proof -
  have can: "canonical m" and w: "wire_ok m" and lab: "m_label m \<noteq> NO_LABEL" "label_ok (m_label m)"
    using ok by (auto simp: mapping_ok_def canonical_def)
  define tl where "tl = reqid_tlv m @ pw_status_tlv m @ status_tlv m"
  have tlvs: "label_tlvs m = be16 TLV_TYPE_GENERICLABEL @ be16 LABEL_TLV_LEN @ be32 (m_label m) @ tl"
    using lab by (simp add: label_tlvs_def tl_def reqid_tlv_def pw_status_tlv_def status_tlv_def)
  define msg where "msg = \<lparr>lm_type = ntohs MSG_TYPE_LABELMAPPING, lm_length = ntohs (label_msg_size m - LDP_MSG_DEAD_LEN), lm_id = ntohl i\<rparr>"
  have hdr: "ld_msg (label_bytes MSG_TYPE_LABELMAPPING m i @ x) = Inr msg" by (simp add: label_msg_header msg_def)
  have d8: "drop 8 (label_bytes MSG_TYPE_LABELMAPPING m i @ x) = fec_tlv m @ label_tlvs m @ x" by (simp add: label_bytes_def)
  define k where "k = length (fec_elem m)"
  have "k \<le> 20" using length_fec_elem[OF w] w prefix_size_le[of "m_prefixlen m"] by (auto simp: k_def pw_elem_len_def wire_ok_def)
  then have k: "unat (of_nat k :: u16) = k" by (simp add: unat_of_nat)
  have f: "ld16 (fec_tlv m @ label_tlvs m @ x) 0 = Inr (ntohs TLV_TYPE_FEC)" "ld16 (fec_tlv m @ label_tlvs m @ x) 2 = Inr (ntohs (of_nat k))"
    "drop 4 (fec_tlv m @ label_tlvs m @ x) = fec_elem m @ label_tlvs m @ x"
    using ld_skip(1)[of "be16 TLV_TYPE_FEC" 2 "be16 (of_nat k) @ fec_elem m @ label_tlvs m @ x" 0] by (simp_all add: fec_tlv_def k_def)
  have len: "unat (label_msg_size m) - 8 = 4 + (k + length (label_tlvs m))"
    using unat_label_msg_size[OF w, of MSG_TYPE_LABELMAPPING i] by (simp add: label_bytes_def fec_tlv_def k_def)
  have fecs: "label_fecs h msg MSG_TYPE_LABELMAPPING (fec_elem m @ label_tlvs m @ x) (k + length (label_tlvs m)) k [] s =
      Some (Inr (True, [fec_read m (map_zero\<lparr>m_msg_id := ntohl i\<rparr>)], label_tlvs m @ x, length (label_tlvs m), s))"
    using label_fecs_roundtrip[OF can, of h msg "label_tlvs m @ x" "length (label_tlvs m)" s] ok by (auto simp: k_def msg_def mapping_ok_def)
  have label: "tlv_decode_label h msg (label_tlvs m @ x) (length (label_tlvs m)) s = Inr (8, m_label m, s)"
    using ld_skip(1)[of "be16 TLV_TYPE_GENERICLABEL" 2 "be16 LABEL_TLV_LEN @ be32 (m_label m) @ tl @ x" 0]
      ld_skip(2)[of "be16 TLV_TYPE_GENERICLABEL @ be16 LABEL_TLV_LEN" 4 "be32 (m_label m) @ tl @ x" 0] lab
    by (simp add: tlv_decode_label_def tlvs flag_of)
  have opts: "opt_params (label_opt h msg MSG_TYPE_LABELMAPPING) h msg (tl @ x) (length tl) lo s = Inr (0, with_opts m lo, s)" for lo
    unfolding tl_def using label_opts_roundtrip[of h msg m x lo s] by simp
  have rest: "drop 8 (label_tlvs m @ x) = tl @ x" "length (label_tlvs m) - 8 = length tl" by (simp_all add: tlvs)
  show ?thesis
    using len hdr d8 f k fecs label opts rest n label_check_roundtrip[OF ok, of i]
    by (simp add: recv_labelmessage_def Let_def of_loop_def nbr_get_live label_imsg_def del: drop_append)
qed

subsection \<open>Exactly when the decoder of FEC elements fails\<close>

text \<open>
  The sub-TLVs of a pseudowire are walked by their length byte.  A length of zero that is not in an
  interface MTU sub-TLV is not refused, and the walk stays where it is for ever.
\<close>

function pw_stuck :: "byte list \<Rightarrow> nat \<Rightarrow> u8 \<Rightarrow> bool" where
  "pw_stuck buf off l =
     (if l < 2 \<or> l < buf ! (off + 1) then False
      else if buf ! (off + 1) = 0 then buf ! off \<noteq> SUBTLV_IFMTU
      else if buf ! off = SUBTLV_IFMTU \<and> buf ! (off + 1) \<noteq> 4 then False
      else pw_stuck buf (off + unat (buf ! (off + 1))) (l - buf ! (off + 1)))"
  by pat_completeness auto
termination
proof (relation "measure (\<lambda>(buf, off, l). unat l)", goal_cases)
  case (2 buf off l)
  then have "unat (buf ! (off + 1)) \<le> unat l" "0 < unat (buf ! (off + 1))" by (auto simp: word_less_nat_alt unat_gt_0)
  then show ?case by (simp add: unat_sub word_le_nat_alt)
qed simp

declare pw_stuck.simps [simp del]

lemma pw_stuck_hangs: "pw_params buf off l m = Some r \<Longrightarrow> off + unat l \<le> length buf \<longrightarrow> \<not> pw_stuck buf off l"
proof (rule pw_params.raw_induct[where P = "\<lambda>buf off l m r. off + unat l \<le> length buf \<longrightarrow> \<not> pw_stuck buf off l"], intro impI)
  fix f buf off m r and len :: u8
  assume IH: "\<And>buf off len m r. f buf off len m = Some r \<Longrightarrow> off + unat len \<le> length buf \<longrightarrow> \<not> pw_stuck buf off len"
    and bound: "off + unat len \<le> length buf"
    and r: "(if len = 0 then Some (Inr (Some (off, m)))
      else if len < 2 then Some (Inr None)
      else case ld8 buf off of Inl e \<Rightarrow> Some (Inl e) | Inr type \<Rightarrow>
           (case ld8 buf (off + 1) of Inl e \<Rightarrow> Some (Inl e) | Inr stlv_len \<Rightarrow>
             if len < stlv_len then Some (Inr None)
             else if type = SUBTLV_IFMTU
             then (if stlv_len \<noteq> ucast FEC_SUBTLV_IFMTU_SIZE then Some (Inr None)
                   else case ld16 buf (off + 2) of Inl e \<Rightarrow> Some (Inl e) | Inr mtu \<Rightarrow>
                     f buf (off + unat stlv_len) (len - stlv_len)
                       (m\<lparr>m_ifmtu := ntohs mtu, m_flags := m_flags m OR F_MAP_PW_IFMTU\<rparr>))
             else f buf (off + unat stlv_len) (len - stlv_len) m)) = Some r"
  show "\<not> pw_stuck buf off len"
  proof (cases "2 \<le> unat len")
    case True
    then have l: "\<not> len < 2" "len \<noteq> 0" by (auto simp: word_less_nat_alt)
    define k where "k = buf ! (off + 1)"
    have ld: "ld8 buf off = Inr (buf ! off)" "ld8 buf (off + 1) = Inr k" using True bound by (simp_all add: ld8_def k_def)
    note r1 = r[unfolded if_not_P[OF l(1)] if_not_P[OF l(2)] ld sum.case]
    have in_bound: "off + unat k + unat (len - k) \<le> length buf" if "k \<le> len"
      using that bound by (simp add: unat_sub word_le_nat_alt)
    have mtu: "\<exists>x. ld16 buf (off + 2) = Inr x" if "4 \<le> len" using that bound by (auto simp: ld16_def word_le_nat_alt)
    have "\<not> pw_stuck buf (off + unat k) (len - k)" if "k \<le> len" "buf ! off \<noteq> SUBTLV_IFMTU"
      using r1[unfolded if_not_P[OF leD[OF that(1)]] if_not_P[OF that(2)]] IH in_bound[OF that(1)] by blast
    moreover have "\<not> pw_stuck buf (off + unat k) (len - k)" if "k \<le> len" "buf ! off = SUBTLV_IFMTU" "k = 4"
      using r1[unfolded if_not_P[OF leD[OF that(1)]] if_P[OF that(2)]] mtu that IH in_bound[OF that(1)]
      by (fastforce split: if_splits sum.splits)
    moreover have "k \<le> len \<and> (k = 0 \<and> buf ! off \<noteq> SUBTLV_IFMTU \<or>
        k \<noteq> 0 \<and> (buf ! off \<noteq> SUBTLV_IFMTU \<or> k = 4) \<and> pw_stuck buf (off + unat k) (len - k))" if "pw_stuck buf off len"
      using that[unfolded pw_stuck.simps[of buf off len] k_def[symmetric]] by (auto split: if_splits)
    ultimately show ?thesis by force
  next
    case False
    then show ?thesis by (subst pw_stuck.simps) (simp add: word_less_nat_alt)
  qed
qed

lemma pw_not_stuck_ends:
  "off + unat l \<le> length buf \<Longrightarrow> \<not> pw_stuck buf off l \<Longrightarrow> \<exists>r. pw_params buf off l m = Some r"
proof (induction buf off l arbitrary: m rule: pw_stuck.induct)
  case prem: (1 buf off l)
  define k where "k = buf ! (off + 1)"
  show ?case
  proof (cases "l < 2")
    case True
    then show ?thesis by (cases "l = 0"; subst pw_params.simps) simp_all
  next
    case l2: False
    then have l0: "l \<noteq> 0" "2 \<le> unat l" by (auto simp: word_less_nat_alt)
    have ld: "ld8 buf off = Inr (buf ! off)" "ld8 buf (off + 1) = Inr k" "k = 4 \<Longrightarrow> k \<le> l \<Longrightarrow> \<exists>x. ld16 buf (off + 2) = Inr x"
      using l0 prem.prems by (simp_all add: ld8_def ld16_def k_def word_le_nat_alt)
    note step = pw_params.simps[of buf off l, unfolded if_not_P[OF l2] if_not_P[OF l0(1)] ld sum.case]
    consider "l < k" | "k \<le> l" "buf ! off = SUBTLV_IFMTU" "k \<noteq> 4" | "k \<le> l" "\<not> (buf ! off = SUBTLV_IFMTU \<and> k \<noteq> 4)" by fastforce
    then show ?thesis
    proof cases
      case 1
      then show ?thesis unfolding step by simp
    next
      case 2
      then show ?thesis unfolding step if_not_P[OF leD[OF 2(1)]] by simp
    next
      case 3
      have c: "\<not> (l < 2 \<or> l < k)" using l2 3(1) by simp
      have eq: "pw_stuck buf off l = (if k = 0 then buf ! off \<noteq> SUBTLV_IFMTU else pw_stuck buf (off + unat k) (l - k))"
        by (subst pw_stuck.simps) (simp only: k_def[symmetric] if_not_P[OF c(1)] if_not_P[OF 3(2)])
      have ns: "k \<noteq> 0" "\<not> pw_stuck buf (off + unat k) (l - k)"
        using prem.prems(2) 3(2) unfolding eq by (cases "k = 0", simp, simp)+
      have in_bound: "off + unat k + unat (l - k) \<le> length buf"
        using prem.prems(1) 3(1) by (simp add: unat_sub word_le_nat_alt)
      have IH: "\<exists>r. pw_params buf (off + unat k) (l - k) m = Some r" for m
        by (rule prem.IH[folded k_def, OF c ns(1) 3(2) in_bound ns(2)])
      show ?thesis
      proof (cases "buf ! off = SUBTLV_IFMTU")
        case True
        then obtain x where x: "k = 4" "ld16 buf (off + 2) = Inr x" using 3 ld(3) by auto
        have "ucast (4 :: u16) = (4 :: u8)" by simp
        then show ?thesis unfolding step if_not_P[OF leD[OF 3(1)]] if_P[OF True] x(2) sum.case using IH x(1) by simp
      next
        case False
        show ?thesis unfolding step if_not_P[OF leD[OF 3(1)]] if_not_P[OF False] by (rule IH)
      qed
    qed
  qed
qed

lemma fail_no_fault:
  assumes "live h s"
  shows "and_then (give_up h status msg s) (with_map m) \<noteq> Inl e" and "and_then (complain h status msg s) (with_map m) \<noteq> Inl e"
  using decoded_fail(1)[OF assms, of "{}" status msg m 0] decoded_fail(2)[OF assms, of "{}" status msg m 0] by auto

lemma decode_prefix_faults:
  assumes "live h s" and "len \<le> length buf"
  shows "decode_prefix h msg buf len m s = Inl e \<longleftrightarrow>
    e = Buffer_overflow \<and> of_be16 (buf ! 1) (buf ! 2) \<in> {AF_IPV4, AF_IPV6} \<and> 128 < buf ! 3 \<and> 4 + PREFIX_SIZE (buf ! 3) \<le> len"
proof (cases "len < 4")
  case False
  have big: "16 < PREFIX_SIZE x \<longleftrightarrow> 128 < x" for x by (auto simp: PREFIX_SIZE_def word_less_nat_alt)
  have "ld16 buf 1 = Inr (of_be16 (buf ! 2) (buf ! 1))" "ld8 buf 3 = Inr (buf ! 3)" "ntohs (of_be16 (buf ! 2) (buf ! 1)) = of_be16 (buf ! 1) (buf ! 2)"
    using False assms(2) by (simp_all add: ld16_def ld8_def ntohs_def numeral_2_eq_2)
  then show ?thesis using False assms fail_no_fault[OF assms(1)]
    by (auto simp: decode_prefix_def Let_def ldn_def big)
qed (use fail_no_fault[OF assms(1)] in \<open>auto simp: decode_prefix_def\<close>)

lemma decode_pwid_faults:
  assumes "live h s" and "len \<le> length buf"
  shows "decode_pwid h msg buf len m s = Inl e \<longleftrightarrow>
    e = Hang \<and> 12 \<le> len \<and> len = 8 + unat (buf ! 3) \<and> pw_stuck buf 12 (buf ! 3 - 4)"
proof (cases "len < 8")
  case False
  have ld: "\<exists>x. ld16 buf 1 = Inr x" "ld8 buf 3 = Inr (buf ! 3)" "\<exists>x. ld32 buf 4 = Inr x"
    using False assms(2) by (simp_all add: ld16_def ld8_def ld32_def)
  have params: "and_then (of_loop (pw_params buf 12 (buf ! 3 - 4) m3)) (\<lambda>r. case r of
        None \<Rightarrow> and_then (give_up h S_BAD_TLV_LEN msg s) (with_map m3) | Some (off, m4) \<Rightarrow> Inr (int off, m4, s)) = Inl e \<longleftrightarrow>
      e = Hang \<and> pw_stuck buf 12 (buf ! 3 - 4)" if "len = 8 + unat (buf ! 3)" "\<not> buf ! 3 < 4" for m3
  proof -
    have b: "12 + unat (buf ! 3 - 4) \<le> length buf" using that assms(2) by (simp add: unat_sub word_le_nat_alt word_less_nat_alt)
    show ?thesis
    proof (cases "pw_params buf 12 (buf ! 3 - 4) m3")
      case None
      then show ?thesis using pw_not_stuck_ends[OF b, of m3] by (auto simp: of_loop_def)
    next
      case (Some r)
      then obtain x where x: "r = Inr x" using pw_params_ok[OF Some] b by (auto simp: pw_inside_def)
      show ?thesis using Some x pw_stuck_hangs[OF Some] b fail_no_fault(1)[OF assms(1)]
        by (auto simp: of_loop_def split: option.split)
    qed
  qed
  have pwid: "\<exists>x. ld32 buf 8 = Inr x" if "len = 8 + unat (buf ! 3)" "\<not> buf ! 3 < 4"
    using that assms(2) by (simp add: ld32_def word_less_nat_alt)
  have small: "\<not> 12 \<le> 8 + unat (buf ! 3)" if "buf ! 3 < 4" using that by (simp add: word_less_nat_alt)
  show ?thesis
  proof (cases "len = 8 + unat (buf ! 3) \<and> \<not> buf ! 3 < 4")
    case True
    then have nz: "buf ! 3 \<noteq> 0" "12 \<le> 8 + unat (buf ! 3)" by (auto simp: word_less_nat_alt)
    show ?thesis using ld pwid params False True nz by (auto simp: decode_pwid_def Let_def)
  next
    case f: False
    obtain x y where "ld16 buf 1 = Inr x" "ld32 buf 4 = Inr y" using ld by auto
    then show ?thesis using f ld(2) small False fail_no_fault[OF assms(1)]
      by (cases "len = 8 + unat (buf ! 3)"; cases "buf ! 3 = 0") (simp_all add: decode_pwid_def Let_def split del: if_split)
  qed
qed (use fail_no_fault[OF assms(1)] in \<open>auto simp: decode_pwid_def\<close>)

end
