(* ===== verification/Ldpe_Disc.thy ===== *)
theory Ldpe_Disc
  imports Ldpe_Hello Ldpe_Codec
begin

text \<open>
  The invariant of discovery: adjacencies, neighbours, targeted neighbours and interfaces point to each
  other consistently, so no operation follows a pointer to something that was freed.

  An adjacency belongs to the neighbour with its router id whenever there is one, and that neighbour lists
  it; the adjacency of a targeted neighbour names it back; every neighbour is in the trees by router id and
  by transport address.  The tree by router id compares by the sign of a difference, so the invariant is
  about networks whose router ids are below 128.0.0.0 (\<open>Ldpe_Correct\<close> shows what goes wrong otherwise).
\<close>

subsection \<open>The order of router ids\<close>

definition id_small :: "u32 \<Rightarrow> bool" where
  "id_small i \<longleftrightarrow> peerid_small (ntohl i)"

interpretation id_order: rb_ordered nbr_id_compare ntohl id_small
proof
  fix x y assume "id_small x" and "id_small y"
  then have "peerid_small (ntohl x)" "peerid_small (ntohl y)" by (simp_all add: id_small_def)
  from pid_order.cmp_neg[OF this] pid_order.cmp_pos[OF this]
  show "nbr_id_compare x y < 0 \<longleftrightarrow> ntohl x < ntohl y" and "nbr_id_compare x y > 0 \<longleftrightarrow> ntohl y < ntohl x"
    by (simp_all add: nbr_id_compare_def nbr_pid_compare_def)
qed

subsection \<open>The invariant\<close>

text \<open>Where the hello of an adjacency comes from is still there.\<close>

definition source_ok :: "ldpe \<Rightarrow> nat \<Rightarrow> hello_source \<Rightarrow> bool" where
  "source_ok s a src \<longleftrightarrow>
     (case src of
        HELLO_LINK i _ _ \<Rightarrow> e_ifaces s i \<noteq> None
      | HELLO_TARGETED t \<Rightarrow> map_option tn_adj (e_tnbrs s t) = Some (Some a))"

text \<open>Adjacencies: listed once, with a source, and linked with the neighbour of their router id.\<close>

definition adjs_ok :: "ldpe \<Rightarrow> bool" where
  "adjs_ok s \<longleftrightarrow>
     distinct (e_adj_list s) \<and> set (e_adj_list s) = dom (e_adjs s) \<and>
     (\<forall>a x. e_adjs s a = Some x \<longrightarrow> source_ok s a (adj_source x)) \<and>
     (\<forall>t y a. e_tnbrs s t = Some y \<longrightarrow> tn_adj y = Some a \<longrightarrow> map_option adj_source (e_adjs s a) = Some (HELLO_TARGETED t))"

definition nbr_links_ok :: "ldpe \<Rightarrow> bool" where
  "nbr_links_ok s \<longleftrightarrow>
     (\<forall>a x h. e_adjs s a = Some x \<longrightarrow> adj_nbr x = Some h \<longleftrightarrow> map_option n_id (e_nbrs s h) = Some (adj_lsr_id x)) \<and>
     (\<forall>h n. e_nbrs s h = Some n \<longrightarrow> distinct (n_adj_list n) \<and>
        set (n_adj_list n) = {a. map_option adj_nbr (e_adjs s a) = Some (Some h)})"

text \<open>The trees of neighbours.\<close>

definition trees_ok :: "ldpe \<Rightarrow> bool" where
  "trees_ok s \<longleftrightarrow>
     id_order.ordered (id_of s) (nbrs_by_id s) \<and> set (inorder (nbrs_by_id s)) = dom (e_nbrs s) \<and>
     distinct (inorder (nbrs_by_addr s)) \<and> set (inorder (nbrs_by_addr s)) = dom (e_nbrs s)"

text \<open>The configuration: lists of interfaces and targeted neighbours that exist, netmasks, memory not yet handed out.\<close>

definition iface_ok :: "iface \<Rightarrow> bool" where
  "iface_ok x \<longleftrightarrow> list_all (\<lambda>f. ifa_af f = AF_INET \<longrightarrow> ifa_prefixlen f \<le> 32) (if_addr_list x)"

definition conf_ok :: "ldpe \<Rightarrow> bool" where
  "conf_ok s \<longleftrightarrow>
     set (c_iface_list (leconf s)) \<subseteq> dom (e_ifaces s) \<and> (\<forall>i x. e_ifaces s i = Some x \<longrightarrow> iface_ok x) \<and>
     distinct (c_tnbr_list (leconf s)) \<and> set (c_tnbr_list (leconf s)) \<subseteq> dom (e_tnbrs s)"

definition fresh_ok :: "ldpe \<Rightarrow> bool" where
  "fresh_ok s \<longleftrightarrow> (\<forall>k \<ge> e_next s. e_nbrs s k = None \<and> e_adjs s k = None \<and> e_tnbrs s k = None)"

text \<open>The label messages queued for a neighbour can be written.\<close>

definition queues_ok :: "ldpe \<Rightarrow> bool" where
  "queues_ok s \<longleftrightarrow>
     (\<forall>h n. e_nbrs s h = Some n \<longrightarrow> list_all wire_ok (n_mapping_list n) \<and> list_all wire_ok (n_withdraw_list n) \<and>
        list_all wire_ok (n_release_list n))"

text \<open>The list of an interface has the adjacencies formed by hellos that came in over it.\<close>

definition ia_adjs :: "ldpe \<Rightarrow> nat \<Rightarrow> af \<Rightarrow> nat list option" where
  "ia_adjs s i f = map_option (\<lambda>x. ia_adj_list (iface_af_get x f)) (e_ifaces s i)"

definition faces_ok :: "ldpe \<Rightarrow> bool" where
  "faces_ok s \<longleftrightarrow>
     (\<forall>i f as. ia_adjs s i f = Some as \<longrightarrow>
        distinct as \<and> (\<forall>a. a \<in> set as \<longleftrightarrow> (\<exists>w. map_option adj_source (e_adjs s a) = Some (HELLO_LINK i f w))))"

lemma faces_ok_cong:
  assumes "faces_ok s" and "\<And>a. map_option adj_source (e_adjs t a) = map_option adj_source (e_adjs s a)"
    and "\<And>i f. ia_adjs t i f = ia_adjs s i f"
  shows "faces_ok t"
  using assms(1) by (simp add: faces_ok_def assms(2,3))

lemma faces_ok_frame: "faces_ok s \<Longrightarrow> e_adjs t = e_adjs s \<Longrightarrow> e_ifaces t = e_ifaces s \<Longrightarrow> faces_ok t"
  by (erule faces_ok_cong) (simp_all add: ia_adjs_def)

definition disc_inv :: "ldpe \<Rightarrow> bool" where
  "disc_inv s \<longleftrightarrow> adjs_ok s \<and> nbr_links_ok s \<and> trees_ok s \<and> conf_ok s \<and> fresh_ok s \<and> queues_ok s \<and> faces_ok s"

definition engine_inv :: "ldpe \<Rightarrow> bool" where
  "engine_inv s \<longleftrightarrow> sess_inv s \<and> disc_inv s"

lemmas disc_defs = disc_inv_def adjs_ok_def nbr_links_ok_def trees_ok_def conf_ok_def fresh_ok_def queues_ok_def

subsection \<open>Operations on a session\<close>

text \<open>What discovery sees of a neighbour.\<close>

definition face :: "nbr \<Rightarrow> u32 \<times> af \<times> ldpd_addr \<times> nat list \<times> map_tlv list \<times> map_tlv list \<times> map_tlv list" where
  "face n = (n_id n, n_af n, n_raddr n, n_adj_list n, n_mapping_list n, n_withdraw_list n, n_release_list n)"

definition disc_view :: "ldpe \<Rightarrow> _" where
  "disc_view s = (nbrs_by_id s, nbrs_by_addr s, e_adjs s, e_adj_list s, e_ifaces s, e_tnbrs s, e_next s, leconf s)"

definition same_disc :: "ldpe \<Rightarrow> ldpe \<Rightarrow> bool" where
  "same_disc s t \<longleftrightarrow> disc_view t = disc_view s \<and> (\<forall>h. map_option face (e_nbrs t h) = map_option face (e_nbrs s h))"

lemma same_disc_refl [simp]: "same_disc s s"
  by (simp add: same_disc_def)

lemma same_disc_trans: "same_disc s t \<Longrightarrow> same_disc t u \<Longrightarrow> same_disc s u"
  by (simp add: same_disc_def)

lemma face_map:
  assumes "map_option face x = map_option face y" and "\<And>n. f n = g (face n)"
  shows "map_option f x = map_option f y"
  using assms by (cases x; cases y) auto


lemma same_disc_nbr:
  assumes "same_disc s t" and "e_nbrs t h = Some n"
  obtains m where "e_nbrs s h = Some m" and "face m = face n"
proof -
  have "map_option face (e_nbrs t h) = map_option face (e_nbrs s h)" using assms(1) by (simp add: same_disc_def)
  then show thesis using assms(2) that by (cases "e_nbrs s h") simp_all
qed

lemma same_disc_inv:
  assumes d: "same_disc s t" and inv: "disc_inv s"
  shows "disc_inv t"
proof -
  have v: "nbrs_by_id t = nbrs_by_id s" "nbrs_by_addr t = nbrs_by_addr s" "e_adjs t = e_adjs s" "e_adj_list t = e_adj_list s"
    "e_ifaces t = e_ifaces s" "e_tnbrs t = e_tnbrs s" "e_next t = e_next s" "leconf t = leconf s"
    using d by (simp_all add: same_disc_def disc_view_def)
  have f: "map_option face (e_nbrs t h) = map_option face (e_nbrs s h)" for h using d by (simp add: same_disc_def)
  have ids: "map_option n_id (e_nbrs t h) = map_option n_id (e_nbrs s h)" for h
    by (rule face_map[OF f, of _ fst]) (simp add: face_def)
  have dom: "dom (e_nbrs t) = dom (e_nbrs s)" using f by (metis (mono_tags, lifting) dom_map_option_comp map_option_is_None domIff subsetI subset_antisym)
  have "id_of u h = (case map_option n_id (e_nbrs u h) of None \<Rightarrow> 0 | Some i \<Rightarrow> i)" for u h
    by (simp add: id_of_def split: option.split)
  then have key: "id_of t = id_of s" by (intro ext) (simp only: ids)
  have "source_ok t = source_ok s" by (intro ext) (simp add: source_ok_def v split: hello_source.split)
  then have "adjs_ok t" using inv v by (simp add: disc_inv_def adjs_ok_def)
  moreover have "nbr_links_ok t" unfolding nbr_links_ok_def ids v
  proof (intro conjI allI impI)
    fix h n assume "e_nbrs t h = Some n"
    then obtain m where m: "e_nbrs s h = Some m" "face m = face n" by (rule same_disc_nbr[OF d])
    then have "n_adj_list n = n_adj_list m" by (simp add: face_def)
    then show "distinct (n_adj_list n)" "set (n_adj_list n) = {a. map_option adj_nbr (e_adjs s a) = Some (Some h)}"
      using inv m(1) unfolding disc_inv_def nbr_links_ok_def by auto
  qed (use inv in \<open>simp add: disc_inv_def nbr_links_ok_def\<close>)
  moreover have "trees_ok t" using inv v key dom by (simp add: disc_inv_def trees_ok_def)
  moreover have "conf_ok t" using inv v by (simp add: disc_inv_def conf_ok_def)
  moreover have "fresh_ok t" using inv v f by (simp add: disc_inv_def fresh_ok_def) (metis map_option_is_None)
  moreover have "queues_ok t" unfolding queues_ok_def
  proof (intro allI impI)
    fix h n assume "e_nbrs t h = Some n"
    then obtain m where m: "e_nbrs s h = Some m" "face m = face n" by (rule same_disc_nbr[OF d])
    then have "n_mapping_list n = n_mapping_list m \<and> n_withdraw_list n = n_withdraw_list m \<and> n_release_list n = n_release_list m"
      by (simp add: face_def)
    then show "list_all wire_ok (n_mapping_list n) \<and> list_all wire_ok (n_withdraw_list n) \<and> list_all wire_ok (n_release_list n)"
      using inv m(1) by (simp add: disc_inv_def queues_ok_def)
  qed
  moreover have "faces_ok t" by (rule faces_ok_cong[of s]) (use inv v in \<open>simp_all add: disc_inv_def ia_adjs_def\<close>)
  ultimately show ?thesis by (simp add: disc_inv_def)
qed

lemma sess_frame_disc:
  assumes "sess_frame h s t"
  shows "same_disc s t"
proof -
  have "map_option face (e_nbrs t k) = map_option face (e_nbrs s k)" for k
  proof (cases "k = h")
    case True
    have "rel_option same_static (e_nbrs s h) (e_nbrs t h)" using assms by (simp add: sess_frame_def)
    then show ?thesis using True by (cases "e_nbrs s h"; cases "e_nbrs t h") (auto simp: same_static_def face_def)
  qed (use assms in \<open>simp add: sess_frame_def\<close>)
  then show ?thesis using assms by (simp add: same_disc_def disc_view_def sess_frame_def rest_same_iff)
qed

lemma sess_ok_engine: "engine_inv s \<Longrightarrow> sess_ok h s t \<Longrightarrow> engine_inv t"
  using same_disc_inv[OF sess_frame_disc] by (auto simp: engine_inv_def sess_ok_def)

text \<open>A change of one neighbour that discovery and the session do not see.\<close>

lemma nbr_set_engine:
  assumes "engine_inv s" and "\<And>n. e_nbrs s h = Some n \<Longrightarrow> face (g n) = face n"
    and "\<And>n. e_nbrs s h = Some n \<Longrightarrow> nbr_core (g n) \<and> nbr_timers (g n) \<and> n_peerid (g n) = n_peerid n \<and>
      (n_state (g n) = NBR_STA_OPER \<longleftrightarrow> n_state n = NBR_STA_OPER)"
  shows "engine_inv (nbr_set h g s)"
proof (cases "e_nbrs s h")
  case None
  then have "nbr_set h g s = s" by (cases s) (auto simp: nbr_set_def)
  then show ?thesis using assms(1) by simp
next
  case (Some n)
  have "same_disc s (nbr_set h g s)" using assms(2)[OF Some] Some by (auto simp: same_disc_def disc_view_def e_nbrs_set)
  moreover have "sess_inv (nbr_set h g s)" using assms(1) assms(3)[OF Some] by (intro nbr_set_touch[OF _ Some]) (auto simp: engine_inv_def)
  ultimately show ?thesis using assms(1) same_disc_inv by (auto simp: engine_inv_def)
qed

text \<open>A change outside the invariant: counters, logs, pending connections.\<close>

lemma engine_inv_cong:
  assumes "engine_inv s" and "disc_view t = disc_view s" and "e_nbrs t = e_nbrs s" and "nbrs_by_pid t = nbrs_by_pid s"
    and "peercnt t = peercnt s" and "e_to_lde t = e_to_lde s"
  shows "engine_inv t"
  using assms sess_inv_cong[of t s] same_disc_inv[of s t] by (simp add: engine_inv_def same_disc_def)

lemma net_only_engine: "engine_inv s \<Longrightarrow> net_only s t \<Longrightarrow> engine_inv t"
  by (rule engine_inv_cong) (auto simp: net_only_iff rest_same_iff disc_view_def)


subsection \<open>Deleting an adjacency\<close>

lemma adj_get_live: "e_adjs s a = Some x \<Longrightarrow> adj_get a s = Inr x"
  by (simp add: adj_get_def)

lemma disc_adj:
  assumes "disc_inv s" and "e_adjs s a = Some x"
  shows "a \<in> set (e_adj_list s)" and "source_ok s a (adj_source x)"
    and "adj_nbr x = Some h \<longleftrightarrow> map_option n_id (e_nbrs s h) = Some (adj_lsr_id x)"
  using assms by (auto simp: disc_defs)

lemma disc_tnbr:
  assumes "disc_inv s" and "e_tnbrs s k = Some y" and "tn_adj y = Some a"
  shows "map_option adj_source (e_adjs s a) = Some (HELLO_TARGETED k)"
  using assms unfolding disc_inv_def adjs_ok_def by blast

lemma disc_nbr_adjs:
  assumes "disc_inv s" and "e_nbrs s h = Some n"
  shows "distinct (n_adj_list n)" and "a \<in> set (n_adj_list n) \<longleftrightarrow> (\<exists>x. e_adjs s a = Some x \<and> adj_nbr x = Some h)"
  using assms unfolding disc_inv_def nbr_links_ok_def by auto

text \<open>Interfaces keep their addresses; only their lists of adjacencies change.\<close>

definition ifaces_same :: "ldpe \<Rightarrow> ldpe \<Rightarrow> bool" where
  "ifaces_same s t \<longleftrightarrow> (\<forall>i. map_option if_addr_list (e_ifaces t i) = map_option if_addr_list (e_ifaces s i))"

lemma ifaces_same_refl [simp]: "ifaces_same s s"
  by (simp add: ifaces_same_def)

lemma ifaces_same_trans: "ifaces_same s t \<Longrightarrow> ifaces_same t u \<Longrightarrow> ifaces_same s u"
  by (simp add: ifaces_same_def)

lemma ifaces_same_dom: "ifaces_same s t \<Longrightarrow> e_ifaces t i = None \<longleftrightarrow> e_ifaces s i = None"
  unfolding ifaces_same_def by (metis map_option_is_None)

lemma ifaces_same_iface_ok:
  assumes "ifaces_same s t" and "\<And>i x. e_ifaces s i = Some x \<Longrightarrow> iface_ok x" and "e_ifaces t i = Some x"
  shows "iface_ok x"
proof -
  have "map_option if_addr_list (e_ifaces s i) = Some (if_addr_list x)"
    using assms(1)[unfolded ifaces_same_def, rule_format, of i] assms(3) by simp
  then obtain y where "e_ifaces s i = Some y" "if_addr_list y = if_addr_list x" by auto
  then show ?thesis using assms(2)[of i y] by (simp add: iface_ok_def)
qed

lemma ia_set_fields [simp]:
  "e_nbrs (ia_set i f g s) = e_nbrs s" "nbrs_by_id (ia_set i f g s) = nbrs_by_id s"
  "nbrs_by_addr (ia_set i f g s) = nbrs_by_addr s" "nbrs_by_pid (ia_set i f g s) = nbrs_by_pid s"
  "e_adjs (ia_set i f g s) = e_adjs s" "e_adj_list (ia_set i f g s) = e_adj_list s"
  "e_tnbrs (ia_set i f g s) = e_tnbrs s" "e_next (ia_set i f g s) = e_next s" "leconf (ia_set i f g s) = leconf s"
  "peercnt (ia_set i f g s) = peercnt s" "e_to_lde (ia_set i f g s) = e_to_lde s"
  by (simp_all add: ia_set_def iface_set_def)

lemma ia_set_same: "ifaces_same s (ia_set i f g s)"
  by (cases "e_ifaces s i") (auto simp: ifaces_same_def ia_set_def iface_set_def split: af.split)

lemma ia_adjs_set:
  assumes "\<And>ia. ia_adj_list (g ia) = r (ia_adj_list ia)"
  shows "ia_adjs (ia_set i f g s) j h = (if j = i \<and> h = f then map_option r (ia_adjs s i f) else ia_adjs s j h)"
  by (cases "e_ifaces s i") (auto simp: ia_adjs_def ia_set_def iface_set_def iface_af_get_def assms split: af.split)

lemma ia_adjs_cong: "e_ifaces t = e_ifaces s \<Longrightarrow> ia_adjs t i f = ia_adjs s i f"
  by (simp add: ia_adjs_def)

lemma tnbr_set_fields [simp]:
  "e_nbrs (tnbr_set t g s) = e_nbrs s" "nbrs_by_id (tnbr_set t g s) = nbrs_by_id s"
  "nbrs_by_addr (tnbr_set t g s) = nbrs_by_addr s" "nbrs_by_pid (tnbr_set t g s) = nbrs_by_pid s"
  "e_adjs (tnbr_set t g s) = e_adjs s" "e_adj_list (tnbr_set t g s) = e_adj_list s"
  "e_ifaces (tnbr_set t g s) = e_ifaces s" "e_next (tnbr_set t g s) = e_next s" "leconf (tnbr_set t g s) = leconf s"
  "peercnt (tnbr_set t g s) = peercnt s" "e_to_lde (tnbr_set t g s) = e_to_lde s"
  by (simp_all add: tnbr_set_def)

lemma adj_set_fields [simp]:
  "e_nbrs (adj_set a g s) = e_nbrs s" "nbrs_by_id (adj_set a g s) = nbrs_by_id s"
  "nbrs_by_addr (adj_set a g s) = nbrs_by_addr s" "nbrs_by_pid (adj_set a g s) = nbrs_by_pid s"
  "e_tnbrs (adj_set a g s) = e_tnbrs s" "e_adj_list (adj_set a g s) = e_adj_list s"
  "e_ifaces (adj_set a g s) = e_ifaces s" "e_next (adj_set a g s) = e_next s" "leconf (adj_set a g s) = leconf s"
  "peercnt (adj_set a g s) = peercnt s" "e_to_lde (adj_set a g s) = e_to_lde s"
  by (simp_all add: adj_set_def)

definition unlist :: "nat \<Rightarrow> nbr \<Rightarrow> nbr" where
  "unlist a n = n\<lparr>n_adj_list := remove1 a (n_adj_list n)\<rparr>"

text \<open>The state without one adjacency.\<close>

definition adj_gone :: "nat \<Rightarrow> adj \<Rightarrow> ldpe \<Rightarrow> ldpe \<Rightarrow> bool" where
  "adj_gone a x s t \<longleftrightarrow>
     e_adjs t = (e_adjs s)(a := None) \<and> e_adj_list t = remove1 a (e_adj_list s) \<and>
     (\<forall>h. e_nbrs t h = (if adj_nbr x = Some h then map_option (unlist a) (e_nbrs s h) else e_nbrs s h)) \<and>
     (\<forall>k. e_tnbrs t k = (if adj_source x = HELLO_TARGETED k then map_option (tn_adj_update (\<lambda>_. None)) (e_tnbrs s k)
                         else e_tnbrs s k)) \<and>
     (\<forall>i f. ia_adjs t i f = (if \<exists>w. adj_source x = HELLO_LINK i f w then map_option (remove1 a) (ia_adjs s i f) else ia_adjs s i f)) \<and>
     ifaces_same s t \<and> nbrs_by_id t = nbrs_by_id s \<and> nbrs_by_addr t = nbrs_by_addr s \<and> nbrs_by_pid t = nbrs_by_pid s \<and>
     e_next t = e_next s \<and> leconf t = leconf s \<and> peercnt t = peercnt s \<and> e_to_lde t = e_to_lde s"

lemma adj_get_af_live:
  assumes "e_adjs s a = Some x" and "source_ok s a (adj_source x)"
  shows "\<exists>f. adj_get_af a s = Inr f"
  using assms by (auto simp: adj_get_af_def adj_get_def source_ok_def iface_get_def tnbr_get_def split: hello_source.splits)

lemma adj_del_single_gone:
  assumes inv: "disc_inv s" and x: "e_adjs s a = Some x"
  shows "ensures (adj_del_single a s) (adj_gone a x s)"
proof -
  obtain f where f: "adj_get_af a s = Inr f" using adj_get_af_live[OF x] disc_adj(2)[OF inv x] by blast
  let ?s1 = "s\<lparr>e_adj_list := remove1 a (e_adj_list s)\<rparr>"
  let ?s2 = "case adj_nbr x of None \<Rightarrow> ?s1 | Some h \<Rightarrow> nbr_set h (unlist a) ?s1"
  let ?s3 = "case adj_source x of
      HELLO_LINK i f _ \<Rightarrow> ia_set i f (\<lambda>ia. ia\<lparr>ia_adj_list := remove1 a (ia_adj_list ia)\<rparr>) ?s2
    | HELLO_TARGETED t \<Rightarrow> tnbr_set t (\<lambda>y. y\<lparr>tn_adj := None\<rparr>) ?s2"
  have "\<exists>n. e_nbrs s h = Some n" if "adj_nbr x = Some h" for h using disc_adj(3)[OF inv x, of h] that by auto
  then have "adj_del_single a s = Inr (?s3\<lparr>e_adjs := (e_adjs ?s3)(a := None)\<rparr>)"
    unfolding adj_del_single_def f adj_get_live[OF x] and_then_simps Let_def unlist_def
    by (cases "adj_nbr x") (auto simp: nbr_get_def split: option.splits)
  moreover have "adj_gone a x s (?s3\<lparr>e_adjs := (e_adjs ?s3)(a := None)\<rparr>)"
  proof -
    have "ia_adjs ?s2 i f = ia_adjs s i f" for i f by (cases "adj_nbr x") (simp_all add: ia_adjs_def)
    then have "ia_adjs ?s3 i f = (if \<exists>w. adj_source x = HELLO_LINK i f w then map_option (remove1 a) (ia_adjs s i f) else ia_adjs s i f)" for i f
      by (cases "adj_source x") (auto simp: ia_adjs_set[where r = "remove1 a"] ia_adjs_cong[of "tnbr_set _ _ ?s2" ?s2])
    moreover have "ia_adjs (?s3\<lparr>e_adjs := (e_adjs ?s3)(a := None)\<rparr>) i f = ia_adjs ?s3 i f" for i f by (simp add: ia_adjs_def)
    ultimately show ?thesis using ia_set_same[of ?s2] unfolding adj_gone_def
      by (cases "adj_nbr x"; cases "adj_source x") (auto simp: e_nbrs_set tnbr_set_def ifaces_same_def)
  qed
  ultimately show ?thesis by simp
qed


lemma unlist_simps [simp]:
  "n_id (unlist a n) = n_id n" "n_af (unlist a n) = n_af n" "n_raddr (unlist a n) = n_raddr n"
  "n_adj_list (unlist a n) = remove1 a (n_adj_list n)" "nbr_core (unlist a n) = nbr_core n" "nbr_timers (unlist a n) = nbr_timers n"
  "n_peerid (unlist a n) = n_peerid n" "n_state (unlist a n) = n_state n" "n_mapping_list (unlist a n) = n_mapping_list n"
  "n_withdraw_list (unlist a n) = n_withdraw_list n" "n_release_list (unlist a n) = n_release_list n"
  by (simp_all add: unlist_def nbr_ok_defs)

lemma gone_sess:
  assumes "sess_inv s" and "adj_gone a x s t"
  shows "sess_inv t"
proof (cases "adj_nbr x")
  case None
  then have "e_nbrs t = e_nbrs s" using assms(2) by (simp add: adj_gone_def fun_eq_iff)
  then show ?thesis using sess_inv_cong[of t s] assms by (simp add: adj_gone_def)
next
  case (Some h)
  show ?thesis
  proof (cases "e_nbrs s h")
    case None
    then have "e_nbrs t = e_nbrs s" using assms(2) Some by (simp add: adj_gone_def fun_eq_iff)
    then show ?thesis using sess_inv_cong[of t s] assms by (simp add: adj_gone_def)
  next
    case n: (Some n)
    have "e_nbrs t = (e_nbrs s)(h := Some (unlist a n))" using assms(2) Some n by (auto simp: adj_gone_def fun_eq_iff)
    then show ?thesis by (rule sess_inv_touch[OF assms(1) n])
      (use assms(2) sess_nbr[OF assms(1) n] in \<open>auto simp: adj_gone_def\<close>)
  qed
qed

lemma gone_disc:
  assumes inv: "disc_inv s" and x: "e_adjs s a = Some x" and g: "adj_gone a x s t"
  shows "disc_inv t"
proof -
  have v: "e_adjs t = (e_adjs s)(a := None)" "e_adj_list t = remove1 a (e_adj_list s)" "ifaces_same s t"
    "nbrs_by_id t = nbrs_by_id s" "nbrs_by_addr t = nbrs_by_addr s" "e_next t = e_next s" "leconf t = leconf s"
    and n: "\<And>h. e_nbrs t h = (if adj_nbr x = Some h then map_option (unlist a) (e_nbrs s h) else e_nbrs s h)"
    and y: "\<And>k. e_tnbrs t k = (if adj_source x = HELLO_TARGETED k then map_option (tn_adj_update (\<lambda>_. None)) (e_tnbrs s k)
                         else e_tnbrs s k)"
    using g by (simp_all add: adj_gone_def)
  have ids: "map_option n_id (e_nbrs t h) = map_option n_id (e_nbrs s h)" for h by (cases "e_nbrs s h") (auto simp: n)
  have dom: "dom (e_nbrs t) = dom (e_nbrs s)" by (auto simp: n split: if_splits)
  have key: "id_of t = id_of s" by (intro ext) (auto simp: id_of_def n split: option.split)
  have src: "source_ok t b (adj_source z)" if "b \<noteq> a" "e_adjs s b = Some z" for b z
  proof -
    have b: "source_ok s b (adj_source z)" using disc_adj(2)[OF inv that(2)] .
    show ?thesis
    proof (cases "adj_source z")
      case (HELLO_TARGETED k)
      then have "map_option tn_adj (e_tnbrs s k) = Some (Some b)" using b by (simp add: source_ok_def)
      moreover have "adj_source x \<noteq> HELLO_TARGETED k"
        using that(1) disc_adj(2)[OF inv x] calculation by (auto simp: source_ok_def)
      ultimately show ?thesis using HELLO_TARGETED by (simp add: source_ok_def y)
    qed (use b ifaces_same_dom[OF v(3)] in \<open>auto simp: source_ok_def\<close>)
  qed
  have tn: "map_option adj_source (e_adjs t b) = Some (HELLO_TARGETED k)" if "e_tnbrs t k = Some z" "tn_adj z = Some b" for k z b
  proof -
    have k: "e_tnbrs s k = Some z" "adj_source x \<noteq> HELLO_TARGETED k" using that by (auto simp: y split: if_splits)
    then have "map_option adj_source (e_adjs s b) = Some (HELLO_TARGETED k)" using inv that(2) by (auto simp: disc_defs)
    then show ?thesis using v(1) k(2) x by auto
  qed
  have "adjs_ok t" unfolding adjs_ok_def using inv src tn by (auto simp: disc_inv_def adjs_ok_def v(1,2))
  moreover have "nbr_links_ok t" unfolding nbr_links_ok_def ids
  proof (intro conjI allI impI)
    fix h m assume "e_nbrs t h = Some m"
    then obtain m0 where m0: "e_nbrs s h = Some m0" "m = (if adj_nbr x = Some h then unlist a m0 else m0)"
      by (auto simp: n split: if_splits)
    note d = disc_nbr_adjs[OF inv m0(1)]
    show "distinct (n_adj_list m)" using d(1) m0(2) by simp
    show "set (n_adj_list m) = {b. map_option adj_nbr (e_adjs t b) = Some (Some h)}"
      using d m0(2) x by (auto simp: v(1))
  qed (use inv v(1) in \<open>auto simp: disc_inv_def nbr_links_ok_def split: if_splits\<close>)
  moreover have "trees_ok t" using inv v key dom by (simp add: disc_inv_def trees_ok_def)
  moreover have "conf_ok t"
    using inv ifaces_same_dom[OF v(3)] ifaces_same_iface_ok[OF v(3)] by (auto simp: disc_inv_def conf_ok_def v(7) y dom_def subset_iff)
  moreover have "fresh_ok t" using inv by (auto simp: disc_inv_def fresh_ok_def v(1,6) n y)
  moreover have "queues_ok t" using inv by (auto simp: disc_inv_def queues_ok_def n split: if_splits)
  moreover have "faces_ok t" unfolding faces_ok_def
  proof (intro allI impI)
    fix i f as assume as: "ia_adjs t i f = Some as"
    have fo: "faces_ok s" and c: "ia_adjs t i f = (if \<exists>w. adj_source x = HELLO_LINK i f w then map_option (remove1 a) (ia_adjs s i f) else ia_adjs s i f)"
      using inv g by (simp_all add: disc_inv_def adj_gone_def)
    have "ia_adjs s i f \<noteq> None" using as c by (metis map_option_is_None option.distinct(1))
    then obtain as0 where as0: "ia_adjs s i f = Some as0" by auto
    then have o: "distinct as0" "b \<in> set as0 \<longleftrightarrow> (\<exists>w. map_option adj_source (e_adjs s b) = Some (HELLO_LINK i f w))" for b
      using fo unfolding faces_ok_def by blast+
    show "distinct as \<and> (\<forall>b. b \<in> set as \<longleftrightarrow> (\<exists>w. map_option adj_source (e_adjs t b) = Some (HELLO_LINK i f w)))"
      using as as0 c o x by (auto simp: v(1) split: if_splits)
  qed
  ultimately show ?thesis by (simp add: disc_inv_def)
qed

lemma gone_engine: "engine_inv s \<Longrightarrow> e_adjs s a = Some x \<Longrightarrow> adj_gone a x s t \<Longrightarrow> engine_inv t"
  using gone_sess gone_disc by (auto simp: engine_inv_def)


text \<open>What deleting adjacencies and neighbours leaves: fewer of them, and the same interfaces and targeted neighbours.\<close>

definition shrunk :: "ldpe \<Rightarrow> ldpe \<Rightarrow> bool" where
  "shrunk s t \<longleftrightarrow>
     e_adjs t \<subseteq>\<^sub>m e_adjs s \<and> dom (e_nbrs t) \<subseteq> dom (e_nbrs s) \<and> ifaces_same s t \<and>
     (\<forall>k. map_option (tn_adj_update (\<lambda>_. None)) (e_tnbrs t k) = map_option (tn_adj_update (\<lambda>_. None)) (e_tnbrs s k)) \<and>
     e_next t = e_next s \<and> leconf t = leconf s \<and> peercnt t = peercnt s"

lemma shrunk_refl [simp]: "shrunk s s"
  by (simp add: shrunk_def)

lemma shrunk_trans: "shrunk s t \<Longrightarrow> shrunk t u \<Longrightarrow> shrunk s u"
  unfolding shrunk_def by (elim conjE, intro conjI) (auto intro: map_le_trans ifaces_same_trans dest: subsetD)

lemma gone_shrunk:
  assumes g: "adj_gone a x s t"
  shows "shrunk s t"
proof -
  have n: "e_nbrs t h = (if adj_nbr x = Some h then map_option (unlist a) (e_nbrs s h) else e_nbrs s h)"
    and y: "e_tnbrs t k = (if adj_source x = HELLO_TARGETED k then map_option (tn_adj_update (\<lambda>_. None)) (e_tnbrs s k)
              else e_tnbrs s k)" for h k using g by (simp_all add: adj_gone_def)
  have "dom (e_nbrs t) = dom (e_nbrs s)" by (auto simp: n split: if_splits)
  moreover have "map_option (tn_adj_update (\<lambda>_. None)) (e_tnbrs t k) = map_option (tn_adj_update (\<lambda>_. None)) (e_tnbrs s k)" for k
    by (simp add: y option.map_comp comp_def)
  ultimately show ?thesis using g by (simp add: shrunk_def adj_gone_def map_le_def)
qed

lemma sess_frame_shrunk: "sess_frame h s t \<Longrightarrow> peercnt t = peercnt s \<Longrightarrow> shrunk s t"
  by (auto simp: sess_frame_def shrunk_def rest_same_iff ifaces_same_def rel_option_iff dom_def split: option.splits)
    (metis not_None_eq option.rel_distinct(1))

text \<open>All adjacencies of a neighbour.\<close>

lemma del_all_adjs:
  assumes "engine_inv s" and "e_nbrs s h = Some n" and "n_adj_list n = as"
  shows "ensures (foreach adj_del_single as s) (\<lambda>t. engine_inv t \<and> shrunk s t \<and> e_to_lde t = e_to_lde s \<and>
     e_nbrs t = (e_nbrs s)(h := Some (n\<lparr>n_adj_list := []\<rparr>)))"
  using assms
proof (induction as arbitrary: s n)
  case Nil
  then have "n\<lparr>n_adj_list := []\<rparr> = n" by (cases n) simp
  then show ?case using Nil by (simp add: fun_upd_idem)
next
  case (Cons a as)
  have d: "disc_inv s" using Cons.prems by (simp add: engine_inv_def)
  obtain x where x: "e_adjs s a = Some x" "adj_nbr x = Some h"
    using disc_nbr_adjs(2)[OF d Cons.prems(2), of a] Cons.prems(3) by auto
  have step: "ensures (foreach adj_del_single as t) (\<lambda>t. engine_inv t \<and> shrunk s t \<and> e_to_lde t = e_to_lde s \<and>
      e_nbrs t = (e_nbrs s)(h := Some (n\<lparr>n_adj_list := []\<rparr>)))" if g: "adj_gone a x s t" for t
  proof -
    have h: "e_nbrs t h = Some (unlist a n)" "n_adj_list (unlist a n) = as"
      using g x(2) Cons.prems(2,3) by (simp_all add: adj_gone_def)
    have "e_nbrs t = (e_nbrs s)(h := Some (unlist a n))" using g x(2) Cons.prems(2) by (auto simp: adj_gone_def fun_eq_iff)
    then show ?thesis
      using Cons.IH[OF gone_engine[OF Cons.prems(1) x(1) g] h] shrunk_trans[OF gone_shrunk[OF g]] g
      by (auto simp: adj_gone_def unlist_def elim!: ensures_mono)
  qed
  show ?case unfolding foreach.simps by (rule ensures_and_then[OF adj_del_single_gone[OF d x(1)] step])
qed

subsection \<open>Deleting a neighbour\<close>

lemma idle_removed_sess:
  assumes inv: "sess_inv s" and n: "e_nbrs s h = Some n" "n_state n = NBR_STA_PRESENT"
    and t: "e_nbrs t = (e_nbrs s)(h := None)" "peercnt t = peercnt s" "e_to_lde t = e_to_lde s"
      "nbrs_by_pid t = (if n_peerid n \<noteq> 0 then rb_remove (\<lambda>x. x = h) (nbrs_by_pid s) else nbrs_by_pid s)"
  shows "sess_inv t"
proof -
  have p: "pids_ok s" using inv by (simp add: sess_inv_def)
  then have o: "pid_order.ordered (pid_of s) (nbrs_by_pid s)" by (simp add: pids_ok_def)
  have T: "set (inorder (nbrs_by_pid t)) = {k. k \<noteq> h \<and> (\<exists>x. e_nbrs s k = Some x \<and> n_peerid x \<noteq> 0)}"
    "pid_order.ordered (pid_of s) (nbrs_by_pid t)"
    using pid_ordered_remove[OF o, of h] p n o t(4) by (auto simp: pids_ok_def)
  have "pid_order.ordered (pid_of t) (nbrs_by_pid t)"
    by (rule pid_ordered_cong[OF T(2)]) (use T(1) t(1) in \<open>auto simp: pid_of_def\<close>)
  then have "pids_ok t" using p T(1) t by (auto simp: pids_ok_def)
  moreover have "(\<exists>m. e_nbrs t k = Some m \<and> n_state m = NBR_STA_OPER \<and> n_peerid m = q) \<longleftrightarrow>
      (\<exists>m. e_nbrs s k = Some m \<and> n_state m = NBR_STA_OPER \<and> n_peerid m = q)" for k q using n t(1) by auto
  then have "oper_pids t = oper_pids s" by (simp add: oper_pids_def)
  ultimately show ?thesis using inv t by (auto simp: sess_inv_def lde_sync_def)
qed

lemma idle_removed_disc:
  assumes inv: "disc_inv s" and n: "e_nbrs s h = Some n" "n_adj_list n = []"
    and t: "e_nbrs t = (e_nbrs s)(h := None)" "nbrs_by_id t = rb_remove (\<lambda>x. x = h) (nbrs_by_id s)"
      "nbrs_by_addr t = rb_remove (\<lambda>x. x = h) (nbrs_by_addr s)" "e_adjs t = e_adjs s" "e_adj_list t = e_adj_list s"
      "e_ifaces t = e_ifaces s" "e_tnbrs t = e_tnbrs s" "e_next t = e_next s" "leconf t = leconf s"
  shows "disc_inv t"
proof -
  have "source_ok t = source_ok s" by (intro ext) (simp add: source_ok_def t split: hello_source.split)
  then have "adjs_ok t" using inv t by (simp add: disc_inv_def adjs_ok_def)
  moreover have "nbr_links_ok t" unfolding nbr_links_ok_def
  proof (intro conjI allI impI)
    fix a x k assume x: "e_adjs t a = Some x"
    have "adj_nbr x \<noteq> Some h" using disc_nbr_adjs(2)[OF inv n(1), of a] n(2) x t(4) by auto
    then show "adj_nbr x = Some k \<longleftrightarrow> map_option n_id (e_nbrs t k) = Some (adj_lsr_id x)"
      using disc_adj(3)[OF inv, of a x] x t(1,4) by auto
  next
    fix k m assume "e_nbrs t k = Some m"
    then show "distinct (n_adj_list m)" "set (n_adj_list m) = {a. map_option adj_nbr (e_adjs t a) = Some (Some k)}"
      using inv t(1,4) unfolding disc_inv_def nbr_links_ok_def by (auto split: if_splits)
  qed
  moreover have "trees_ok t"
  proof -
    have o: "id_order.ordered (id_of s) (nbrs_by_id s)" "set (inorder (nbrs_by_id s)) = dom (e_nbrs s)"
      "distinct (inorder (nbrs_by_addr s))" "set (inorder (nbrs_by_addr s)) = dom (e_nbrs s)"
      using inv by (simp_all add: disc_inv_def trees_ok_def)
    have d: "distinct (inorder (nbrs_by_id s))" using id_order.ordered_distinct[OF o(1)] by (auto simp: distinct_map)
    have "id_order.ordered (id_of s) (nbrs_by_id t)"
      using o(1) d by (auto simp: t(2) id_order.ordered_def inorder_remove_ptr distinct_remove1_removeAll removeAll_filter_not_eq
          sorted_wrt_map sorted_wrt_filter)
    moreover have "id_of t k = id_of s k" if "k \<in> set (inorder (nbrs_by_id t))" for k
      using that d t(1) by (auto simp: t(2) inorder_remove_ptr id_of_def)
    ultimately have "id_order.ordered (id_of t) (nbrs_by_id t)" unfolding id_order.ordered_def by (simp cong: map_cong)
    then show ?thesis using o d t(1) by (auto simp: trees_ok_def t(2,3) inorder_remove_ptr)
  qed
  moreover have "conf_ok t" "fresh_ok t" "queues_ok t" using inv t by (auto simp: disc_defs)
  moreover have "faces_ok t" by (rule faces_ok_frame[of s]) (use inv t in \<open>simp_all add: disc_inv_def\<close>)
  ultimately show ?thesis by (simp add: disc_inv_def)
qed


text \<open>\<open>nbr_del\<close> after the session was closed.\<close>

definition nbr_removed :: "nat \<Rightarrow> nbr \<Rightarrow> ldpe \<Rightarrow> ldpe" where
  "nbr_removed h n s =
     s\<lparr>nbrs_by_pid := (if n_peerid n \<noteq> 0 then rb_remove (\<lambda>x. x = h) (nbrs_by_pid s) else nbrs_by_pid s),
       nbrs_by_id := rb_remove (\<lambda>x. x = h) (nbrs_by_id s), nbrs_by_addr := rb_remove (\<lambda>x. x = h) (nbrs_by_addr s),
       e_nbrs := (e_nbrs s)(h := None)\<rparr>"

lemma removed_ok:
  assumes "engine_inv s" and "e_nbrs s h = Some n" and "n_adj_list n = []" and "n_state n = NBR_STA_PRESENT"
  shows "engine_inv (nbr_removed h n s)" and "shrunk s (nbr_removed h n s)"
proof -
  have "disc_inv (nbr_removed h n s)"
    by (rule idle_removed_disc[OF _ assms(2,3)]) (use assms(1) in \<open>simp_all add: engine_inv_def nbr_removed_def\<close>)
  moreover have "sess_inv (nbr_removed h n s)"
    by (rule idle_removed_sess[OF _ assms(2,4)]) (use assms(1) in \<open>simp_all add: engine_inv_def nbr_removed_def\<close>)
  ultimately show "engine_inv (nbr_removed h n s)" by (simp add: engine_inv_def)
  show "shrunk s (nbr_removed h n s)" by (auto simp: shrunk_def ifaces_same_def nbr_removed_def)
qed

lemma del_nbr_ok:
  assumes inv: "engine_inv s" and n: "e_nbrs s h = Some n" "n_adj_list n = []"
  shows "ensures (nbr_del h s) (\<lambda>t. engine_inv t \<and> shrunk s t \<and> e_nbrs t h = None \<and> e_adjs t = e_adjs s)"
proof -
  have i: "sess_inv s" using inv by (simp add: engine_inv_def)
  have "ensures (and_then (nbr_get h u) (\<lambda>n. Inr (nbr_removed h n u)))
      (\<lambda>t. engine_inv t \<and> shrunk s t \<and> e_nbrs t h = None \<and> e_adjs t = e_adjs s)"
    if u: "sess_ok h s u \<and> peercnt u = peercnt s \<and> (\<exists>m. e_nbrs u h = Some m \<and> n_state m = NBR_STA_PRESENT)" for u
  proof -
    obtain m where m: "e_nbrs u h = Some m" "n_state m = NBR_STA_PRESENT" using u by blast
    have f: "sess_frame h s u" using u by (simp add: sess_ok_def)
    have "n_adj_list m = []" using sess_frame_live[OF f n(1)] m(1) n(2) by (auto simp: same_static_def)
    note r = removed_ok[OF sess_ok_engine[OF inv conjunct1[OF u]] m(1) this m(2)]
    have "shrunk s (nbr_removed h m u)" using shrunk_trans[OF sess_frame_shrunk[OF f] r(2)] u by simp
    moreover have "e_adjs u = e_adjs s" using f by (simp add: sess_frame_def rest_same_iff)
    ultimately show ?thesis unfolding nbr_get_live[OF m(1)] and_then_simps ensures_simps
      using r(1) u by (simp add: nbr_removed_def)
  qed
  then show ?thesis unfolding nbr_del_def nbr_removed_def by (rule ensures_and_then[OF close_ok[OF i n(1)]])
qed

text \<open>The adjacencies of a neighbour over one address family.\<close>

lemma count_af_live:
  assumes "\<And>b. b \<in> set as \<Longrightarrow> \<exists>g. adj_get_af b s = Inr g"
  shows "\<exists>k. count_af f as s = Inr k \<and> (k = 0 \<longleftrightarrow> (\<forall>b \<in> set as. adj_get_af b s \<noteq> Inr f))"
  using assms
proof (induction as)
  case (Cons a as)
  then obtain k where k: "count_af f as s = Inr k" "k = 0 \<longleftrightarrow> (\<forall>b \<in> set as. adj_get_af b s \<noteq> Inr f)" by auto
  obtain g where "adj_get_af a s = Inr g" using Cons.prems[of a] by auto
  then show ?case using k by simp
qed simp

lemma shrunk_get_af:
  assumes "shrunk s t" and "e_adjs t b = Some z"
  shows "adj_get_af b t = adj_get_af b s"
proof -
  have b: "e_adjs s b = Some z" using assms by (auto simp: shrunk_def map_le_def dom_def)
  have i: "e_ifaces t i = None \<longleftrightarrow> e_ifaces s i = None" for i using ifaces_same_dom assms(1) by (auto simp: shrunk_def)
  have k: "map_option tn_af (e_tnbrs t k) = map_option tn_af (e_tnbrs s k)" for k
    using assms(1)[unfolded shrunk_def, THEN conjunct2, THEN conjunct2, THEN conjunct2, THEN conjunct1, rule_format, of k]
    by (cases "e_tnbrs t k"; cases "e_tnbrs s k") (auto dest: arg_cong[where f = tn_af])
  show ?thesis
  proof (cases "adj_source z")
    case (HELLO_LINK i f addr)
    then show ?thesis using i[of i] b assms(2) by (auto simp: adj_get_af_def adj_get_def iface_get_def split: option.split)
  next
    case (HELLO_TARGETED k)
    then show ?thesis using k[of k] b assms(2)
      by (cases "e_tnbrs t k"; cases "e_tnbrs s k") (auto simp: adj_get_af_def adj_get_def tnbr_get_def)
  qed
qed

lemma nbr_adj_count_live:
  assumes inv: "disc_inv s" and n: "e_nbrs s h = Some n"
  shows "\<exists>k. nbr_adj_count h f s = Inr k \<and> (k = 0 \<longleftrightarrow> (\<forall>b \<in> set (n_adj_list n). adj_get_af b s \<noteq> Inr f))"
proof -
  have "\<exists>g. adj_get_af b s = Inr g" if "b \<in> set (n_adj_list n)" for b
    using disc_nbr_adjs(2)[OF inv n, of b] that adj_get_af_live[of s b] disc_adj(2)[OF inv] by blast
  then show ?thesis unfolding nbr_adj_count_def nbr_get_live[OF n] and_then_simps by (rule count_af_live)
qed

text \<open>
  Deleting an adjacency deletes its neighbour with everything that belongs to it, unless the neighbour has
  another adjacency over the address family of its session.
\<close>

lemma adj_del_ok:
  assumes inv: "engine_inv s" and x: "e_adjs s a = Some x"
  shows "ensures (adj_del a status s) (\<lambda>t. engine_inv t \<and> shrunk s t \<and> e_adjs t a = None \<and>
    (\<forall>h n. adj_nbr x = Some h \<longrightarrow> e_nbrs s h = Some n \<longrightarrow>
       e_nbrs t h = (if \<exists>b \<in> set (n_adj_list n). b \<noteq> a \<and> adj_get_af b s = Inr (n_af n) then Some (unlist a n) else None)))"
    (is "ensures _ ?P")
proof -
  have d: "disc_inv s" using inv by (simp add: engine_inv_def)
  have rest: "ensures (case adj_nbr x of None \<Rightarrow> Inr u
       | Some h \<Rightarrow> and_then (nbr_get h u) (\<lambda>n. and_then (nbr_adj_count h (n_af n) u) (\<lambda>k.
             if k = 0
             then and_then (foreach adj_del_single (n_adj_list n) u) (\<lambda>s2.
                  and_then (session_shutdown h status 0 0 s2) (nbr_del h))
             else Inr u))) ?P" if g: "adj_gone a x s u" for u
  proof (cases "adj_nbr x")
    case None
    then show ?thesis using gone_engine[OF inv x g] gone_shrunk[OF g] g by (simp add: adj_gone_def)
  next
    case (Some h)
    obtain n where n: "e_nbrs s h = Some n" using disc_adj(3)[OF d x, of h] Some by auto
    let ?m = "unlist a n"
    have u: "engine_inv u" "disc_inv u" "shrunk s u" "e_nbrs u h = Some ?m" "e_adjs u a = None"
      using gone_engine[OF inv x g] gone_shrunk[OF g] g n Some by (simp_all add: adj_gone_def engine_inv_def)
    have af: "adj_get_af b u = Inr f \<longleftrightarrow> adj_get_af b s = Inr f" if b: "b \<noteq> a" "b \<in> set (n_adj_list n)" for b f
    proof -
      obtain z where "e_adjs s b = Some z" using disc_nbr_adjs(2)[OF d n, of b] b(2) by blast
      then have "e_adjs u b = Some z" using g b(1) by (simp add: adj_gone_def)
      from shrunk_get_af[OF u(3) this] show ?thesis by simp
    qed
    obtain k where k: "nbr_adj_count h (n_af ?m) u = Inr k"
      "k = 0 \<longleftrightarrow> (\<forall>b \<in> set (n_adj_list ?m). adj_get_af b u \<noteq> Inr (n_af n))"
      using nbr_adj_count_live[OF u(2,4), of "n_af n"] by auto
    have other: "k = 0 \<longleftrightarrow> \<not> (\<exists>b \<in> set (n_adj_list n). b \<noteq> a \<and> adj_get_af b s = Inr (n_af n))"
      using k(2) af disc_nbr_adjs(1)[OF d n] by auto
    have del: "ensures (and_then (foreach adj_del_single (n_adj_list ?m) u) (\<lambda>s2. and_then (session_shutdown h status 0 0 s2) (nbr_del h)))
        (\<lambda>t. engine_inv t \<and> shrunk s t \<and> e_adjs t a = None \<and> e_nbrs t h = None)"
    proof (rule ensures_and_then[OF del_all_adjs[OF u(1,4) refl]], elim conjE)
      fix v assume v: "engine_inv v" "shrunk u v" "e_nbrs v = (e_nbrs u)(h := Some (?m\<lparr>n_adj_list := []\<rparr>))"
      then have i: "sess_inv v" "e_nbrs v h = Some (?m\<lparr>n_adj_list := []\<rparr>)" by (simp_all add: engine_inv_def)
      show "ensures (and_then (session_shutdown h status 0 0 v) (nbr_del h)) (\<lambda>t. engine_inv t \<and> shrunk s t \<and> e_adjs t a = None \<and> e_nbrs t h = None)"
      proof (rule ensures_and_then[OF shutdown_ok[OF i]], elim conjE exE)
        fix w m assume w: "sess_ok h v w" "peercnt w = peercnt v" "e_nbrs w h = Some m"
        have f: "sess_frame h v w" using w(1) by (simp add: sess_ok_def)
        have "n_adj_list m = []" using sess_frame_live[OF f i(2)] w(3) by (auto simp: same_static_def)
        from del_nbr_ok[OF sess_ok_engine[OF v(1) w(1)] w(3) this]
        show "ensures (nbr_del h w) (\<lambda>t. engine_inv t \<and> shrunk s t \<and> e_adjs t a = None \<and> e_nbrs t h = None)"
        proof (rule ensures_mono, elim conjE)
          fix t assume t: "engine_inv t" "shrunk w t" "e_nbrs t h = None" "e_adjs t = e_adjs w"
          have s: "shrunk s w" using shrunk_trans[OF u(3) shrunk_trans[OF v(2) sess_frame_shrunk[OF f w(2)]]] .
          have "e_adjs w = e_adjs v" using f by (simp add: sess_frame_def rest_same_iff)
          moreover have "e_adjs v a = None" using v(2) u(5) by (auto simp: shrunk_def map_le_def dom_def) 
          ultimately show "engine_inv t \<and> shrunk s t \<and> e_adjs t a = None \<and> e_nbrs t h = None"
            using t shrunk_trans[OF s t(2)] by simp
        qed
      qed
    qed
    show ?thesis using Some n u k(1) other ensures_mono[OF del] by (auto simp: nbr_get_live)
  qed
  show ?thesis unfolding adj_del_def adj_get_live[OF x] and_then_simps
    by (rule ensures_and_then[OF adj_del_single_gone[OF d x] rest])
qed


subsection \<open>Targeted neighbours\<close>

text \<open>Steps that change nothing the invariant is about.\<close>

definition quiet :: "ldpe \<Rightarrow> ldpe \<Rightarrow> bool" where
  "quiet s t \<longleftrightarrow>
     disc_view t = disc_view s \<and> e_nbrs t = e_nbrs s \<and> nbrs_by_pid t = nbrs_by_pid s \<and> peercnt t = peercnt s \<and>
     e_to_lde t = e_to_lde s"

lemma quiet_refl [simp]: "quiet s s"
  by (simp add: quiet_def)

lemma quiet_trans: "quiet s t \<Longrightarrow> quiet t u \<Longrightarrow> quiet s u"
  by (simp add: quiet_def)

lemma quiet_engine: "engine_inv s \<Longrightarrow> quiet s t \<Longrightarrow> engine_inv t"
  by (rule engine_inv_cong) (simp_all add: quiet_def)

lemma quiet_tnbrs: "quiet s t \<Longrightarrow> e_tnbrs t = e_tnbrs s \<and> e_ifaces t = e_ifaces s \<and> e_adjs t = e_adjs s \<and> leconf t = leconf s"
  by (simp add: quiet_def disc_view_def)

lemma hello_packet_quiet: "quiet s (hello_packet a holdtime flags fd dst s)"
  by (auto simp: hello_packet_def Let_def gen_msg_hdr_def quiet_def disc_view_def)

definition source_live :: "ldpe \<Rightarrow> hello_source \<Rightarrow> bool" where
  "source_live s src \<longleftrightarrow> (case src of HELLO_LINK i _ _ \<Rightarrow> e_ifaces s i \<noteq> None | HELLO_TARGETED t \<Rightarrow> e_tnbrs s t \<noteq> None)"

lemma source_ok_live: "source_ok s a src \<Longrightarrow> source_live s src"
  by (auto simp: source_ok_def source_live_def split: hello_source.splits)

lemma send_hello_quiet:
  assumes "source_live s src"
  shows "ensures (send_hello src s) (quiet s)"
  using assms by (auto simp: send_hello_def source_live_def iface_get_def tnbr_get_def hello_packet_quiet split: hello_source.splits)

lemma tnbr_set_engine:
  assumes inv: "engine_inv s" and g: "\<And>y. tn_adj (g y) = tn_adj y"
  shows "engine_inv (tnbr_set k g s)"
proof -
  let ?t = "tnbr_set k g s"
  have y: "e_tnbrs ?t j = (if j = k then map_option g (e_tnbrs s k) else e_tnbrs s j)" for j by (simp add: tnbr_set_def)
  have a: "map_option tn_adj (e_tnbrs ?t j) = map_option tn_adj (e_tnbrs s j)" for j by (cases "e_tnbrs s j") (auto simp: y g)
  have "source_ok ?t = source_ok s" by (intro ext) (simp add: source_ok_def a split: hello_source.split)
  moreover have "map_option adj_source (e_adjs s b) = Some (HELLO_TARGETED j)" if z: "e_tnbrs ?t j = Some z" "tn_adj z = Some b" for j z b
  proof -
    obtain z0 where "e_tnbrs s j = Some z0" "tn_adj z0 = Some b" using z g by (auto simp: y split: if_splits)
    then show ?thesis using disc_tnbr inv by (auto simp: engine_inv_def)
  qed
  ultimately have "adjs_ok ?t" using inv by (auto simp: engine_inv_def disc_inv_def adjs_ok_def)
  moreover have "conf_ok ?t" "fresh_ok ?t" using inv by (auto simp: engine_inv_def disc_defs y dom_def)
  moreover have "nbr_links_ok ?t" "trees_ok ?t" "queues_ok ?t" using inv by (auto simp: engine_inv_def disc_defs id_of_def[abs_def])
  moreover have "faces_ok ?t" by (rule faces_ok_frame[of s]) (use inv in \<open>simp_all add: engine_inv_def disc_inv_def\<close>)
  moreover have "sess_inv ?t = sess_inv s" by (rule sess_inv_cong) simp_all
  ultimately show ?thesis using inv by (simp add: engine_inv_def disc_inv_def)
qed

lemma tnbr_removed_engine:
  assumes inv: "engine_inv s" and none: "\<And>a x. e_adjs s a = Some x \<Longrightarrow> adj_source x \<noteq> HELLO_TARGETED k"
  shows "engine_inv (conf_tnbrs (remove1 k) (s\<lparr>e_tnbrs := (e_tnbrs s)(k := None)\<rparr>))" (is "engine_inv ?t")
proof -
  have f: "e_tnbrs ?t = (e_tnbrs s)(k := None)" "e_adjs ?t = e_adjs s" "e_adj_list ?t = e_adj_list s" "e_nbrs ?t = e_nbrs s"
    "e_ifaces ?t = e_ifaces s" "nbrs_by_id ?t = nbrs_by_id s" "nbrs_by_addr ?t = nbrs_by_addr s" "e_next ?t = e_next s"
    "c_iface_list (leconf ?t) = c_iface_list (leconf s)" "c_tnbr_list (leconf ?t) = remove1 k (c_tnbr_list (leconf s))"
    by (simp_all add: conf_tnbrs_def)
  have "source_ok ?t a (adj_source x)" if "e_adjs s a = Some x" for a x
  proof -
    have "source_ok s a (adj_source x)" using inv that by (simp add: engine_inv_def disc_adj)
    then show ?thesis using none[OF that] by (cases "adj_source x") (auto simp: source_ok_def f)
  qed
  then have "adjs_ok ?t" using inv unfolding engine_inv_def disc_inv_def adjs_ok_def f by auto
  moreover have "conf_ok ?t" using inv unfolding engine_inv_def disc_inv_def conf_ok_def f by auto
  moreover have "fresh_ok ?t" using inv unfolding engine_inv_def disc_inv_def fresh_ok_def f by auto
  moreover have "nbr_links_ok ?t" using inv unfolding engine_inv_def disc_inv_def nbr_links_ok_def f by blast
  moreover have "trees_ok ?t"
    using inv unfolding engine_inv_def disc_inv_def trees_ok_def f by (simp add: id_of_def[abs_def] f)
  moreover have "queues_ok ?t" using inv unfolding engine_inv_def disc_inv_def queues_ok_def f by blast
  moreover have "faces_ok ?t" by (rule faces_ok_frame[of s]) (use inv f in \<open>simp_all add: engine_inv_def disc_inv_def\<close>)
  moreover have "sess_inv ?t = sess_inv s" by (rule sess_inv_cong) (simp_all add: conf_tnbrs_def)
  ultimately show ?thesis using inv by (simp add: engine_inv_def disc_inv_def)
qed

text \<open>What the operations of discovery leave alone.\<close>

definition kept :: "ldpe \<Rightarrow> ldpe \<Rightarrow> bool" where
  "kept s t \<longleftrightarrow> engine_inv t \<and> ifaces_same s t \<and> peercnt t = peercnt s"

lemma kept_trans: "kept s t \<Longrightarrow> kept t u \<Longrightarrow> kept s u"
  by (auto simp: kept_def intro: ifaces_same_trans)

lemma kept_refl: "engine_inv s \<Longrightarrow> kept s s"
  by (simp add: kept_def)

lemma shrunk_kept: "engine_inv t \<Longrightarrow> shrunk s t \<Longrightarrow> kept s t"
  by (simp add: kept_def shrunk_def)

lemma quiet_kept: "engine_inv s \<Longrightarrow> quiet s t \<Longrightarrow> kept s t"
  using quiet_engine[of s t] quiet_tnbrs[of s t] by (simp add: kept_def ifaces_same_def quiet_def)

lemma tnbr_set_kept: "engine_inv s \<Longrightarrow> (\<And>y. tn_adj (g y) = tn_adj y) \<Longrightarrow> kept s (tnbr_set k g s)"
  by (simp add: kept_def tnbr_set_engine ifaces_same_def)

lemma tnbr_del_ok:
  assumes inv: "engine_inv s" and y: "e_tnbrs s k = Some y"
  shows "ensures (tnbr_del k s) (\<lambda>t. kept s t \<and> e_tnbrs t k = None \<and> (\<forall>a. tn_adj y = Some a \<longrightarrow> e_adjs t a = None))"
proof -
  have d: "disc_inv s" using inv by (simp add: engine_inv_def)
  have src: "tn_adj y = Some a" if "e_adjs s a = Some x" "adj_source x = HELLO_TARGETED k" for a x
    using disc_adj(2)[OF d that(1)] that(2) y by (simp add: source_ok_def)
  have fin: "kept s (conf_tnbrs (remove1 k) (u\<lparr>e_tnbrs := (e_tnbrs u)(k := None)\<rparr>)) \<and>
      e_tnbrs (conf_tnbrs (remove1 k) (u\<lparr>e_tnbrs := (e_tnbrs u)(k := None)\<rparr>)) k = None \<and>
      (\<forall>a. tn_adj y = Some a \<longrightarrow> e_adjs (conf_tnbrs (remove1 k) (u\<lparr>e_tnbrs := (e_tnbrs u)(k := None)\<rparr>)) a = None)"
    if u: "engine_inv u" "shrunk s u" "\<And>a. tn_adj y = Some a \<Longrightarrow> e_adjs u a = None" for u
  proof -
    have "adj_source x \<noteq> HELLO_TARGETED k" if "e_adjs u a = Some x" for a x
    proof -
      have "e_adjs s a = Some x" using that u(2) by (auto simp: shrunk_def map_le_def dom_def)
      then show ?thesis using src[of a x] u(3)[of a] that by auto
    qed
    from tnbr_removed_engine[OF u(1) this] show ?thesis using u(2,3) by (simp add: kept_def shrunk_def ifaces_same_def conf_tnbrs_def)
  qed
  have "ensures (case tn_adj y of None \<Rightarrow> Inr s | Some a \<Rightarrow> adj_del a S_SHUTDOWN s)
      (\<lambda>u. engine_inv u \<and> shrunk s u \<and> (\<forall>a. tn_adj y = Some a \<longrightarrow> e_adjs u a = None))"
  proof (cases "tn_adj y")
    case (Some a)
    then obtain x where x: "e_adjs s a = Some x" using disc_tnbr[OF d y] by auto
    show ?thesis using adj_del_ok[OF inv x, of S_SHUTDOWN] Some by (auto elim!: ensures_mono)
  qed (simp add: inv)
  then show ?thesis unfolding tnbr_del_def tnbr_get_def y option.case and_then_simps
    by (rule ensures_and_then) (simp add: fin, simp add: conf_tnbrs_def)
qed


lemma tnbr_check_ok:
  assumes "engine_inv s" and "e_tnbrs s k = Some y"
  shows "ensures (tnbr_check k s) (\<lambda>(r, t). kept s t \<and> (\<forall>j. r = Some j \<longrightarrow> e_tnbrs t j \<noteq> None))"
  unfolding tnbr_check_def tnbr_get_def assms(2) option.case and_then_simps
  using assms kept_refl[OF assms(1)] by (auto intro!: ensures_and_then[OF tnbr_del_ok[OF assms]])

lemma tnbr_new_ok:
  assumes inv: "engine_inv s" and n: "tnbr_new a addr s = (k, t)"
  shows "kept s t" and "\<exists>y. e_tnbrs t k = Some y" and "k \<notin> set (c_tnbr_list (leconf t))"
proof -
  let ?y = "\<lparr>tn_hello_timer = None, tn_adj = None, tn_af = a, tn_addr = addr, tn_active = False, tn_pw_count = 0, tn_flags = 0\<rparr>"
  have k: "k = e_next s" and t: "t = s\<lparr>e_next := Suc k, e_tnbrs := (e_tnbrs s)(k := Some ?y)\<rparr>"
    using n by (auto simp: tnbr_new_def)
  have i: "disc_inv s" using inv by (simp add: engine_inv_def)
  have fr: "e_tnbrs s k = None" using i k by (simp add: disc_inv_def fresh_ok_def)
  have "source_ok t b src" if "source_ok s b src" for b src
    using that fr by (cases src) (auto simp: source_ok_def t)
  then have "adjs_ok t" using i disc_tnbr[OF i] by (auto simp: t disc_inv_def adjs_ok_def)
  moreover have "conf_ok t" using i fr by (auto simp: t disc_inv_def conf_ok_def)
  moreover have "fresh_ok t" using i k by (auto simp: t disc_inv_def fresh_ok_def)
  moreover have "nbr_links_ok t" "trees_ok t" "queues_ok t"
    using i by (simp_all add: t disc_inv_def nbr_links_ok_def trees_ok_def queues_ok_def id_of_def[abs_def])
  moreover have "faces_ok t" by (rule faces_ok_frame[of s]) (use i t in \<open>simp_all add: disc_inv_def\<close>)
  moreover have "sess_inv t = sess_inv s" by (rule sess_inv_cong) (simp_all add: t)
  ultimately have "engine_inv t" using inv by (simp add: engine_inv_def disc_inv_def)
  then show "kept s t" by (simp add: kept_def t ifaces_same_def)
  show "\<exists>y. e_tnbrs t k = Some y" by (simp add: t)
  show "k \<notin> set (c_tnbr_list (leconf t))" using i fr by (auto simp: t disc_inv_def conf_ok_def)
qed

lemma tnbr_update_ok:
  assumes inv: "engine_inv s" and y: "e_tnbrs s k = Some y"
  shows "ensures (tnbr_update k s) (\<lambda>t. kept s t \<and> dom (e_tnbrs t) = dom (e_tnbrs s) \<and> leconf t = leconf s)"
proof -
  have set: "kept s (tnbr_set k g s)" "dom (e_tnbrs (tnbr_set k g s)) = dom (e_tnbrs s)" if "\<And>y. tn_adj (g y) = tn_adj y" for g
    by (rule tnbr_set_kept[OF inv that]) (use y in \<open>auto simp: tnbr_set_def\<close>)
  let ?u = "tnbr_set k (\<lambda>y. y\<lparr>tn_active := True\<rparr>) s"
  have u: "kept s ?u" "source_live ?u (HELLO_TARGETED k)" using set[of "\<lambda>y. y\<lparr>tn_active := True\<rparr>"] y by (auto simp: source_live_def)
  have "ensures (and_then (send_hello (HELLO_TARGETED k) ?u) (\<lambda>s1. Inr (tnbr_start_hello_timer k s1)))
      (\<lambda>t. kept s t \<and> dom (e_tnbrs t) = dom (e_tnbrs s) \<and> leconf t = leconf s)"
  proof (rule ensures_and_then[OF send_hello_quiet[OF u(2)]])
    fix v assume v: "quiet ?u v"
    have e: "engine_inv v" "kept ?u v" using quiet_kept[OF _ v] u(1) by (auto simp: kept_def)
    have "kept v (tnbr_start_hello_timer k v)" unfolding tnbr_start_hello_timer_def by (rule tnbr_set_kept[OF e(1)]) simp
    then have "kept s (tnbr_start_hello_timer k v)" using kept_trans[OF u(1) kept_trans[OF e(2)]] by simp
    then show "ensures (Inr (tnbr_start_hello_timer k v)) (\<lambda>t. kept s t \<and> dom (e_tnbrs t) = dom (e_tnbrs s) \<and> leconf t = leconf s)"
      using quiet_tnbrs[OF v] y by (auto simp: tnbr_start_hello_timer_def tnbr_set_def)
  qed
  then show ?thesis using set[of "\<lambda>y. y\<lparr>tn_active := False, tn_hello_timer := None\<rparr>"] kept_refl[OF inv] y
    by (simp add: tnbr_update_def tnbr_get_def Let_def)
qed

lemma tnbr_listed_engine:
  assumes "engine_inv s" and "e_tnbrs s k \<noteq> None" and "k \<notin> set (c_tnbr_list (leconf s))"
  shows "kept s (conf_tnbrs (\<lambda>ts. k # ts) s)"
proof -
  let ?t = "conf_tnbrs (\<lambda>ts. k # ts) s"
  have f: "e_tnbrs ?t = e_tnbrs s" "e_adjs ?t = e_adjs s" "e_adj_list ?t = e_adj_list s" "e_nbrs ?t = e_nbrs s"
    "e_ifaces ?t = e_ifaces s" "nbrs_by_id ?t = nbrs_by_id s" "nbrs_by_addr ?t = nbrs_by_addr s" "e_next ?t = e_next s"
    "c_iface_list (leconf ?t) = c_iface_list (leconf s)" "c_tnbr_list (leconf ?t) = k # c_tnbr_list (leconf s)" "peercnt ?t = peercnt s"
    by (simp_all add: conf_tnbrs_def)
  have "source_ok ?t = source_ok s" by (intro ext) (simp add: source_ok_def f split: hello_source.split)
  moreover have "id_of ?t = id_of s" by (simp add: id_of_def fun_eq_iff f)
  moreover have "faces_ok ?t" by (rule faces_ok_frame[of s]) (use assms(1) f in \<open>simp_all add: engine_inv_def disc_inv_def\<close>)
  ultimately have "disc_inv ?t" using assms by (simp add: engine_inv_def disc_defs f domIff)
  moreover have "sess_inv ?t = sess_inv s" by (rule sess_inv_cong) (simp_all add: conf_tnbrs_def)
  ultimately show ?thesis using assms(1) by (simp add: kept_def engine_inv_def ifaces_same_def f)
qed

lemma hello_tnbr_ok:
  assumes inv: "engine_inv s"
  shows "ensures (hello_tnbr a src flags s) (\<lambda>(r, t). kept s t \<and> (\<forall>k. r = Some k \<longrightarrow> e_tnbrs t k \<noteq> None))"
proof -
  have old: "ensures (case tnbr_find a src s of None \<Rightarrow> Inr (None, s)
        | Some t \<Rightarrow> and_then (tnbr_get t s) (\<lambda>y.
              if has_flag (tn_flags y) F_TNBR_DYNAMIC \<and> \<not> has_flag flags F_HELLO_REQ_TARG
              then tnbr_check t (tnbr_set t (\<lambda>y. y\<lparr>tn_flags := tn_flags y AND NOT F_TNBR_DYNAMIC\<rparr>) s)
              else Inr (Some t, s))) (\<lambda>(r, t). kept s t \<and> (\<forall>k. r = Some k \<longrightarrow> e_tnbrs t k \<noteq> None))"
  proof (cases "tnbr_find a src s")
    case (Some k)
    then obtain y where y: "e_tnbrs s k = Some y"
      by (auto simp: tnbr_find_def dest!: find_Some_in split: option.splits)
    let ?u = "tnbr_set k (\<lambda>y. y\<lparr>tn_flags := tn_flags y AND NOT F_TNBR_DYNAMIC\<rparr>) s"
    have u: "kept s ?u" by (rule tnbr_set_kept[OF inv]) simp
    have "ensures (tnbr_check k ?u) (\<lambda>(r, t). kept ?u t \<and> (\<forall>j. r = Some j \<longrightarrow> e_tnbrs t j \<noteq> None))"
      by (rule tnbr_check_ok[OF _ ]) (use u y in \<open>simp_all add: kept_def tnbr_set_def\<close>)
    then have "ensures (tnbr_check k ?u) (\<lambda>(r, t). kept s t \<and> (\<forall>k. r = Some k \<longrightarrow> e_tnbrs t k \<noteq> None))"
      by (rule ensures_mono) (use kept_trans[OF u] in auto)
    then show ?thesis using Some y kept_refl[OF inv] by (simp add: tnbr_get_def)
  qed (simp add: kept_refl inv)
  have new: "ensures (if \<not> (has_flag flags F_HELLO_REQ_TARG \<and> has_flag (ac_flags (ldp_af_conf_get (leconf u) a)) F_LDPD_AF_THELLO_ACCEPT)
         then Inr (None, u)
         else case tnbr_new a src u of (t, s2) \<Rightarrow>
           and_then (tnbr_update t (tnbr_set t (\<lambda>y. y\<lparr>tn_flags := tn_flags y OR F_TNBR_DYNAMIC\<rparr>) s2)) (\<lambda>s3.
             Inr (Some t, conf_tnbrs (\<lambda>ts. t # ts) s3)))
        (\<lambda>(r, t). kept s t \<and> (\<forall>k. r = Some k \<longrightarrow> e_tnbrs t k \<noteq> None))" if u: "kept s u" for u
  proof -
    obtain k v where n: "tnbr_new a src u = (k, v)" by (cases "tnbr_new a src u") auto
    note v = tnbr_new_ok[OF _ n]
    let ?w = "tnbr_set k (\<lambda>y. y\<lparr>tn_flags := tn_flags y OR F_TNBR_DYNAMIC\<rparr>) v"
    have e: "engine_inv u" using u by (simp add: kept_def)
    have w: "kept v ?w" by (rule tnbr_set_kept) (use v(1)[OF e] in \<open>simp_all add: kept_def\<close>)
    obtain y where y: "e_tnbrs ?w k = Some y" using v(2)[OF e] by (auto simp: tnbr_set_def)
    have "ensures (and_then (tnbr_update k ?w) (\<lambda>s3. Inr (Some k, conf_tnbrs (\<lambda>ts. k # ts) s3)))
        (\<lambda>(r, t). kept s t \<and> (\<forall>k. r = Some k \<longrightarrow> e_tnbrs t k \<noteq> None))"
    proof (rule ensures_and_then[OF tnbr_update_ok[OF _ y]])
      fix x assume "kept ?w x \<and> dom (e_tnbrs x) = dom (e_tnbrs ?w) \<and> leconf x = leconf ?w"
      then have x: "kept ?w x \<and> e_tnbrs x k \<noteq> None \<and> leconf x = leconf ?w" using y by auto
      have "kept x (conf_tnbrs (\<lambda>ts. k # ts) x)"
        by (rule tnbr_listed_engine) (use x v(3)[OF e] in \<open>auto simp: kept_def\<close>)
      moreover have "kept s x" using kept_trans[OF u kept_trans[OF v(1)[OF e] kept_trans[OF w]]] x by blast
      ultimately have "kept s (conf_tnbrs (\<lambda>ts. k # ts) x)" using kept_trans by blast
      then show "ensures (Inr (Some k, conf_tnbrs (\<lambda>ts. k # ts) x)) (\<lambda>(r, t). kept s t \<and> (\<forall>k. r = Some k \<longrightarrow> e_tnbrs t k \<noteq> None))"
        using x by (simp add: conf_tnbrs_def)
    qed (use w in \<open>simp add: kept_def\<close>)
    then show ?thesis using u n by auto
  qed
  show ?thesis unfolding hello_tnbr_def
    apply (rule ensures_and_then[OF old])
    unfolding split_paired_all
    subgoal for r u using new[of u] by (cases r) auto
    done
qed


subsection \<open>The timer of an adjacency\<close>

lemma adj_set_engine:
  assumes inv: "engine_inv s" and g: "\<And>x. adj_source (g x) = adj_source x" "\<And>x. adj_nbr (g x) = adj_nbr x" "\<And>x. adj_lsr_id (g x) = adj_lsr_id x"
  shows "engine_inv (adj_set a g s)"
proof -
  let ?t = "adj_set a g s"
  have i: "disc_inv s" using inv by (simp add: engine_inv_def)
  have x: "e_adjs ?t b = (if b = a then map_option g (e_adjs s a) else e_adjs s b)" for b by (simp add: adj_set_def)
  have m: "map_option adj_source (e_adjs ?t b) = map_option adj_source (e_adjs s b)"
    "map_option adj_nbr (e_adjs ?t b) = map_option adj_nbr (e_adjs s b)" for b by (cases "e_adjs s b"; auto simp: x g)+
  have src: "source_ok ?t = source_ok s" by (intro ext) (simp add: source_ok_def split: hello_source.split)
  have old: "\<exists>z0. e_adjs s b = Some z0 \<and> adj_source z0 = adj_source z \<and> adj_nbr z0 = adj_nbr z \<and> adj_lsr_id z0 = adj_lsr_id z"
    if "e_adjs ?t b = Some z" for b z using that g by (auto simp: x split: if_splits)
  have "dom (e_adjs ?t) = dom (e_adjs s)" by (auto simp: x split: if_splits)
  moreover have "source_ok s b (adj_source z)" if "e_adjs ?t b = Some z" for b z
    using old[OF that] disc_adj(2)[OF i] by metis
  ultimately have "adjs_ok ?t" using i by (simp add: disc_inv_def adjs_ok_def src m)
  moreover have "nbr_links_ok ?t" unfolding nbr_links_ok_def m
  proof (intro conjI allI impI)
    fix b z h assume "e_adjs ?t b = Some z"
    then show "adj_nbr z = Some h \<longleftrightarrow> map_option n_id (e_nbrs ?t h) = Some (adj_lsr_id z)"
      using old[of b z] disc_adj(3)[OF i, of b _ h] by auto
  qed (use i in \<open>auto simp: disc_inv_def nbr_links_ok_def\<close>)
  moreover have "fresh_ok ?t" using i by (auto simp: disc_inv_def fresh_ok_def x)
  moreover have "trees_ok ?t" "conf_ok ?t" "queues_ok ?t"
    using i by (simp_all add: disc_inv_def trees_ok_def conf_ok_def queues_ok_def id_of_def[abs_def])
  moreover have "faces_ok ?t" using i by (intro faces_ok_cong[of s, OF _ m(1)]) (simp_all add: disc_inv_def ia_adjs_def)
  moreover have "sess_inv ?t = sess_inv s" by (rule sess_inv_cong) simp_all
  ultimately show ?thesis using inv by (simp add: engine_inv_def disc_inv_def)
qed

lemma adj_del_untarget:
  assumes "e_adjs s a = Some x" and "adj_source x = HELLO_TARGETED k"
  shows "adj_del a status (tnbr_set k (\<lambda>y. y\<lparr>tn_adj := None\<rparr>) s) = adj_del a status s"
proof -
  let ?u = "tnbr_set k (\<lambda>y. y\<lparr>tn_adj := None\<rparr>) s"
  have "adj_get a ?u = Inr x" "adj_get a s = Inr x" using assms(1) by (simp_all add: adj_get_def)
  moreover have "adj_del_single a ?u = adj_del_single a s"
  proof (cases "e_tnbrs s k")
    case None
    then have "?u = s" by (cases s) (auto simp: tnbr_set_def)
    then show ?thesis by simp
  next
    case (Some y)
    then show ?thesis using assms
      by (cases s) (auto simp: adj_del_single_def adj_get_af_def adj_get_def tnbr_get_def tnbr_set_def nbr_get_def nbr_set_def Let_def
          split: option.split)
  qed
  ultimately show ?thesis by (simp add: adj_del_def)
qed

lemma adj_itimer_ok:
  assumes inv: "engine_inv s" and x: "e_adjs s a = Some x"
  shows "ensures (adj_itimer a s) (\<lambda>t. kept s t \<and> e_adjs t a = None)"
proof -
  let ?s = "adj_stop_itimer a s"
  let ?x = "x\<lparr>adj_inactivity_timer := None\<rparr>"
  have s0: "engine_inv ?s" unfolding adj_stop_itimer_def by (rule adj_set_engine[OF inv]) simp_all
  have k: "kept s ?s" using s0 by (simp add: kept_def adj_stop_itimer_def ifaces_same_def)
  have x0: "e_adjs ?s a = Some ?x" using x by (simp add: adj_stop_itimer_def adj_set_def)
  have del: "ensures (adj_del a S_HOLDTIME_EXP ?s) (\<lambda>t. kept s t \<and> e_adjs t a = None)"
    by (rule ensures_mono[OF adj_del_ok[OF s0 x0]]) (use kept_trans[OF k] shrunk_kept in blast)
  show ?thesis
  proof (cases "adj_source x")
    case (HELLO_LINK i f addr)
    then show ?thesis using del x0 by (simp add: adj_itimer_def adj_get_live)
  next
    case (HELLO_TARGETED j)
    have d: "disc_inv ?s" using s0 by (simp add: engine_inv_def)
    obtain y where y: "e_tnbrs ?s j = Some y" "tn_adj y = Some a"
      using disc_adj(2)[OF d x0] HELLO_TARGETED by (auto simp: source_ok_def)
    have "ensures (tnbr_del j ?s) (\<lambda>t. kept s t \<and> e_adjs t a = None)"
      by (rule ensures_mono[OF tnbr_del_ok[OF s0 y(1)]]) (use kept_trans[OF k] y(2) in blast)
    then show ?thesis using del x0 y HELLO_TARGETED adj_del_untarget[OF x0, of j S_HOLDTIME_EXP]
      by (simp add: adj_itimer_def Let_def adj_get_live tnbr_get_def)
  qed
qed

end
