(* ===== verification/Ldpe_Form.thy ===== *)
theory Ldpe_Form
  imports Ldpe_Disc
begin

text \<open>
  Receiving a hello keeps the invariant of discovery and never fails: adjacencies and neighbours are formed
  and refreshed, or deleted where the hello contradicts what is known, and a connection is tried.
\<close>

subsection \<open>Looking up\<close>

lemma rb_find_key_cong:
  "(\<And>x. x \<in> set (inorder t) \<Longrightarrow> key' x = key x) \<Longrightarrow> rb_find cmp key' k t = rb_find cmp key k t"
  by (induction t) auto

lemma rb_insert_absent_inorder:
  assumes "rb_find cmp key (key x) t = None"
  obtains u ys zs where "rb_insert cmp key x t = (None, u)" and "inorder t = ys @ zs" and "inorder u = ys @ x # zs"
proof -
  obtain q where q: "rb_descend cmp key (key x) [] t = Inr q"
    using assms rb_descend_Inl[of cmp key "key x" "[]" t] by (cases "rb_descend cmp key (key x) [] t") auto
  from rb_descend_inorder[OF q] have "inorder t = ctx_left q @ ctx_right q" by simp
  then show thesis
    by (rule that[of "rb_insert_color (RNode RB_RED RNil x RNil) q", rotated]) (use q in \<open>simp_all add: rb_insert_def inorder_insert_color\<close>)
qed

lemma find_ldpid_none:
  assumes inv: "disc_inv s" and "id_small i" and "nbr_find_ldpid i s = None" and "e_nbrs s h = Some n"
  shows "n_id n \<noteq> i"
proof -
  have o: "id_order.ordered (id_of s) (nbrs_by_id s)" and h: "h \<in> set (inorder (nbrs_by_id s))"
    using inv assms(4) by (auto simp: disc_inv_def trees_ok_def)
  have "ntohl (id_of s h) \<noteq> ntohl i"
    using id_order.find_None_iff[OF o assms(2)] assms(3) h by (auto simp: nbr_find_ldpid_def)
  then show ?thesis using assms(4) by (auto simp: id_of_def)
qed

lemma find_ldpid_some:
  assumes inv: "disc_inv s" and "id_small i" and "nbr_find_ldpid i s = Some h"
  shows "\<exists>n. e_nbrs s h = Some n \<and> n_id n = i"
proof -
  have o: "id_order.ordered (id_of s) (nbrs_by_id s)" using inv by (auto simp: disc_inv_def trees_ok_def)
  have h: "h \<in> set (inorder (nbrs_by_id s))" "ntohl (id_of s h) = ntohl i"
    using id_order.find_Some_iff[OF o assms(2), of h] assms(3) by (auto simp: nbr_find_ldpid_def)
  then obtain n where "e_nbrs s h = Some n" using inv by (auto simp: disc_inv_def trees_ok_def)
  then show ?thesis using h(2) by (simp add: id_of_def ntohl_eq_iff)
qed

lemma find_addr_some:
  assumes "disc_inv s" and "nbr_find_addr a addr s = Some h"
  shows "\<exists>n. e_nbrs s h = Some n"
  using assms rb_find_in by (fastforce simp: nbr_find_addr_def disc_inv_def trees_ok_def)

lemma adj_find_some:
  assumes "adj_find src s = Some a"
  shows "\<exists>x. e_adjs s a = Some x"
  using assms by (auto simp: adj_find_def source_match_def dest!: find_Some_in split: option.splits)

lemma adj_find_none:
  assumes "disc_inv s" and "adj_find (HELLO_TARGETED k) s = None" and "e_adjs s a = Some x"
  shows "adj_source x \<noteq> HELLO_TARGETED k"
  using find_None_none[of "source_match s (HELLO_TARGETED k)" "e_adj_list s"] assms disc_adj(1)[OF assms(1,3)]
  by (auto simp: adj_find_def source_match_def)

subsection \<open>A new adjacency\<close>

text \<open>The adjacency with its neighbour, if there is one.\<close>

definition linked :: "nat \<Rightarrow> nat option \<Rightarrow> adj \<Rightarrow> ldpe \<Rightarrow> ldpe \<Rightarrow> bool" where
  "linked a nbr x s t \<longleftrightarrow>
     e_adjs t = (e_adjs s)(a := Some x) \<and> e_adj_list t = a # e_adj_list s \<and>
     e_nbrs t = (case nbr of None \<Rightarrow> e_nbrs s
                 | Some h \<Rightarrow> (e_nbrs s)(h := map_option (n_adj_list_update (\<lambda>as. a # as)) (e_nbrs s h))) \<and>
     e_tnbrs t = (case adj_source x of HELLO_LINK _ _ _ \<Rightarrow> e_tnbrs s
                  | HELLO_TARGETED k \<Rightarrow> (e_tnbrs s)(k := map_option (tn_adj_update (\<lambda>_. Some a)) (e_tnbrs s k))) \<and>
     (\<forall>i f. ia_adjs t i f = (if \<exists>w. adj_source x = HELLO_LINK i f w then map_option (Cons a) (ia_adjs s i f) else ia_adjs s i f)) \<and>
     ifaces_same s t \<and> nbrs_by_id t = nbrs_by_id s \<and> nbrs_by_addr t = nbrs_by_addr s \<and> nbrs_by_pid t = nbrs_by_pid s \<and>
     e_next t = Suc a \<and> leconf t = leconf s \<and> peercnt t = peercnt s \<and> e_to_lde t = e_to_lde s"

lemma hello_adj_linked:
  assumes "source_live s source" and "\<And>h. nbr = Some h \<Longrightarrow> e_nbrs s h \<noteq> None"
  shows "ensures (hello_adj None nbr lsr_id source addr s) (\<lambda>(a, t). a = e_next s \<and>
    linked a nbr \<lparr>adj_lsr_id = lsr_id, adj_nbr = nbr, adj_source = source, adj_inactivity_timer = None,
      adj_holdtime = 0, adj_trans_addr = addr\<rparr> s t)"
proof -
  let ?a = "e_next s"
  let ?x = "\<lparr>adj_lsr_id = lsr_id, adj_nbr = None, adj_source = source, adj_inactivity_timer = None, adj_holdtime = 0, adj_trans_addr = addr\<rparr>"
  define u where "u = s\<lparr>e_adjs := (e_adjs s)(?a := Some ?x), e_next := Suc ?a, e_adj_list := ?a # e_adj_list s\<rparr>"
  define v where "v = (case source of HELLO_LINK i f _ \<Rightarrow> ia_set i f (\<lambda>ia. ia\<lparr>ia_adj_list := ?a # ia_adj_list ia\<rparr>) u
    | HELLO_TARGETED k \<Rightarrow> tnbr_set k (\<lambda>y. y\<lparr>tn_adj := Some ?a\<rparr>) u)"
  have new: "adj_new lsr_id source addr s = Inr (?a, v)"
    using assms(1) by (auto simp: adj_new_def u_def v_def Let_def source_live_def iface_get_def tnbr_get_def split: hello_source.splits)
  have v: "e_adjs v = (e_adjs s)(?a := Some ?x)" "e_adj_list v = ?a # e_adj_list s" "e_nbrs v = e_nbrs s"
    "e_tnbrs v = (case source of HELLO_LINK _ _ _ \<Rightarrow> e_tnbrs s
                  | HELLO_TARGETED k \<Rightarrow> (e_tnbrs s)(k := map_option (tn_adj_update (\<lambda>_. Some ?a)) (e_tnbrs s k)))"
    "nbrs_by_id v = nbrs_by_id s" "nbrs_by_addr v = nbrs_by_addr s" "nbrs_by_pid v = nbrs_by_pid s" "e_next v = Suc ?a"
    "leconf v = leconf s" "peercnt v = peercnt s" "e_to_lde v = e_to_lde s"
    by (cases source; simp add: v_def u_def tnbr_set_def)+
  have "ia_adjs u i f = ia_adjs s i f" for i f by (simp add: ia_adjs_def u_def)
  then have ia: "ia_adjs v i f = (if \<exists>w. source = HELLO_LINK i f w then map_option (Cons ?a) (ia_adjs s i f) else ia_adjs s i f)" for i f
    unfolding v_def by (cases source) (auto simp: ia_adjs_set[where r = "Cons ?a"] ia_adjs_cong[of "tnbr_set _ _ u" u])
  have "ifaces_same u v" by (cases source) (simp_all add: v_def ia_set_same, simp add: ifaces_same_def)
  then have i: "ifaces_same s v" by (simp add: ifaces_same_def u_def)
  show ?thesis
  proof (cases nbr)
    case None
    then show ?thesis using new v i ia by (simp add: hello_adj_def linked_def)
  next
    case (Some h)
    then obtain n where n: "e_nbrs s h = Some n" using assms(2) by auto
    then have "nbr_get h v = Inr n" using v(3) by (simp add: nbr_get_def)
    moreover have "ia_adjs (v\<lparr>e_adjs := A, e_nbrs := B\<rparr>) j f = ia_adjs v j f" for A B j f by (simp add: ia_adjs_def)
    ultimately show ?thesis using new v i ia Some n
      by (auto simp: hello_adj_def linked_def adj_set_def nbr_set_def ifaces_same_def)
  qed
qed


lemma id_inj:
  assumes inv: "disc_inv s" and "e_nbrs s h = Some n" and "e_nbrs s k = Some m" and "n_id n = n_id m"
  shows "h = k"
proof -
  have o: "id_order.ordered (id_of s) (nbrs_by_id s)" and "h \<in> set (inorder (nbrs_by_id s))" "k \<in> set (inorder (nbrs_by_id s))"
    using inv assms(2,3) by (auto simp: disc_inv_def trees_ok_def)
  moreover have "ntohl (id_of s h) = ntohl (id_of s k)" using assms(2-4) by (simp add: id_of_def)
  ultimately show ?thesis using id_order.ordered_key_inj[OF o] by blast
qed

text \<open>A neighbour whose list of adjacencies changes.\<close>

lemma relisted_sess:
  assumes "sess_inv s" and "e_nbrs s h = Some n" and "e_nbrs t = (e_nbrs s)(h := Some (n\<lparr>n_adj_list := as\<rparr>))"
    and "nbrs_by_pid t = nbrs_by_pid s" and "peercnt t = peercnt s" and "e_to_lde t = e_to_lde s"
  shows "sess_inv t"
  by (rule sess_inv_touch[OF assms]) (use sess_nbr[OF assms(1,2)] in \<open>simp_all add: nbr_ok_defs\<close>)

lemma linked_engine:
  assumes inv: "engine_inv s" and l: "linked a (adj_nbr x) x s t" and a: "a = e_next s" and src: "source_live s (adj_source x)"
    and nbr: "\<And>h. adj_nbr x = Some h \<longleftrightarrow> map_option n_id (e_nbrs s h) = Some (adj_lsr_id x)"
    and alone: "\<And>k b z. adj_source x = HELLO_TARGETED k \<Longrightarrow> e_adjs s b = Some z \<Longrightarrow> adj_source z \<noteq> HELLO_TARGETED k"
  shows "engine_inv t"
proof -
  have i: "disc_inv s" "sess_inv s" using inv by (simp_all add: engine_inv_def)
  have fr: "e_adjs s a = None" using i(1) a by (simp add: disc_inv_def fresh_ok_def)
  have v: "e_adjs t = (e_adjs s)(a := Some x)" "e_adj_list t = a # e_adj_list s" "ifaces_same s t" "nbrs_by_id t = nbrs_by_id s"
    "nbrs_by_addr t = nbrs_by_addr s" "nbrs_by_pid t = nbrs_by_pid s" "e_next t = Suc a" "leconf t = leconf s"
    "peercnt t = peercnt s" "e_to_lde t = e_to_lde s" using l by (simp_all add: linked_def)
  have n: "e_nbrs t h = (if adj_nbr x = Some h then map_option (n_adj_list_update (\<lambda>as. a # as)) (e_nbrs s h) else e_nbrs s h)" for h
    using l by (auto simp: linked_def split: option.splits)
  have y: "e_tnbrs t k = (if adj_source x = HELLO_TARGETED k then map_option (tn_adj_update (\<lambda>_. Some a)) (e_tnbrs s k) else e_tnbrs s k)" for k
    using l by (auto simp: linked_def split: hello_source.splits)
  have ids: "map_option n_id (e_nbrs t h) = map_option n_id (e_nbrs s h)" for h by (cases "e_nbrs s h") (auto simp: n)
  have dom: "dom (e_nbrs t) = dom (e_nbrs s)" by (auto simp: n split: if_splits)
  have key: "id_of t = id_of s" by (intro ext) (auto simp: id_of_def n split: option.split)
  have old: "source_ok t b (adj_source z)" if "e_adjs s b = Some z" for b z
    using disc_adj(2)[OF i(1) that] alone[OF _ that] ifaces_same_dom[OF v(3)] by (cases "adj_source z") (auto simp: source_ok_def y)
  have new: "source_ok t a (adj_source x)"
    using src ifaces_same_dom[OF v(3)] by (cases "adj_source x") (auto simp: source_ok_def source_live_def y)
  have tn: "map_option adj_source (e_adjs t b) = Some (HELLO_TARGETED k)" if z: "e_tnbrs t k = Some z" "tn_adj z = Some b" for k z b
  proof (cases "adj_source x = HELLO_TARGETED k")
    case True
    then show ?thesis using z by (auto simp: y v(1))
  next
    case False
    then have "map_option adj_source (e_adjs s b) = Some (HELLO_TARGETED k)" using disc_tnbr[OF i(1)] z by (simp add: y)
    then show ?thesis using fr v(1) by auto
  qed
  have "adjs_ok t" unfolding adjs_ok_def
    using i(1) old new tn fr by (auto simp: disc_inv_def adjs_ok_def v(1,2) split: if_splits)
  moreover have "nbr_links_ok t" unfolding nbr_links_ok_def ids
  proof (intro conjI allI impI)
    fix b z h assume "e_adjs t b = Some z"
    then show "adj_nbr z = Some h \<longleftrightarrow> map_option n_id (e_nbrs s h) = Some (adj_lsr_id z)"
      using nbr disc_adj(3)[OF i(1)] v(1) by (auto split: if_splits)
  next
    fix h m assume "e_nbrs t h = Some m"
    then obtain m0 where m0: "e_nbrs s h = Some m0" "m = (if adj_nbr x = Some h then m0\<lparr>n_adj_list := a # n_adj_list m0\<rparr> else m0)"
      by (auto simp: n split: if_splits)
    note d = disc_nbr_adjs[OF i(1) m0(1)]
    show "distinct (n_adj_list m)" using d(1) d(2)[of a] m0(2) fr by auto
    show "set (n_adj_list m) = {b. map_option adj_nbr (e_adjs t b) = Some (Some h)}" using d(2) m0(2) fr by (auto simp: v(1))
  qed
  moreover have "trees_ok t" using i(1) v key dom by (simp add: disc_inv_def trees_ok_def)
  moreover have "conf_ok t"
    using i(1) ifaces_same_dom[OF v(3)] ifaces_same_iface_ok[OF v(3)] by (auto simp: disc_inv_def conf_ok_def v(8) y dom_def subset_iff)
  moreover have "fresh_ok t" using i(1) a by (auto simp: disc_inv_def fresh_ok_def v(1,7) n y)
  moreover have "queues_ok t" using i(1) by (auto simp: disc_inv_def queues_ok_def n split: if_splits)
  moreover have "faces_ok t" unfolding faces_ok_def
  proof (intro allI impI)
    fix j f as assume as: "ia_adjs t j f = Some as"
    have fo: "faces_ok s" and c: "ia_adjs t j f = (if \<exists>w. adj_source x = HELLO_LINK j f w then map_option (Cons a) (ia_adjs s j f) else ia_adjs s j f)"
      using i(1) l by (simp_all add: disc_inv_def linked_def)
    have "ia_adjs s j f \<noteq> None" using as c by (metis map_option_is_None option.distinct(1))
    then obtain as0 where as0: "ia_adjs s j f = Some as0" by auto
    then have o: "distinct as0" "b \<in> set as0 \<longleftrightarrow> (\<exists>w. map_option adj_source (e_adjs s b) = Some (HELLO_LINK j f w))" for b
      using fo unfolding faces_ok_def by blast+
    have "a \<notin> set as0" using o(2)[of a] fr by simp
    then show "distinct as \<and> (\<forall>b. b \<in> set as \<longleftrightarrow> (\<exists>w. map_option adj_source (e_adjs t b) = Some (HELLO_LINK j f w)))"
      using as as0 c o by (auto simp: v(1) split: if_splits)
  qed
  moreover have "sess_inv t"
  proof (cases "adj_nbr x")
    case None
    then have "e_nbrs t = e_nbrs s" by (simp add: n fun_eq_iff)
    then show ?thesis using sess_inv_cong[of t s] v i(2) by simp
  next
    case (Some h)
    then obtain m where m: "e_nbrs s h = Some m" using nbr[of h] by auto
    have "e_nbrs t = (e_nbrs s)(h := Some (m\<lparr>n_adj_list := a # n_adj_list m\<rparr>))" using Some m by (auto simp: n fun_eq_iff)
    then show ?thesis by (rule relisted_sess[OF i(2) m]) (use v in simp_all)
  qed
  ultimately show ?thesis by (simp add: engine_inv_def disc_inv_def)
qed

text \<open>What is still there after a step of forming adjacencies and neighbours.\<close>

definition stays :: "('a \<Rightarrow> 'b) \<Rightarrow> (nat \<rightharpoonup> 'a) \<Rightarrow> (nat \<rightharpoonup> 'a) \<Rightarrow> bool" where
  "stays f M N \<longleftrightarrow> (\<forall>k x. M k = Some x \<longrightarrow> map_option f (N k) = Some (f x))"

lemma stays_refl [simp]: "stays f M M"
  by (simp add: stays_def)

lemma stays_trans: "stays f M N \<Longrightarrow> stays f N K \<Longrightarrow> stays f M K"
  by (fastforce simp: stays_def)

lemma stays_dom: "stays f M N \<Longrightarrow> dom M \<subseteq> dom N"
  by (force simp: stays_def)

definition adj_face :: "adj \<Rightarrow> u32 \<times> hello_source" where
  "adj_face x = (adj_lsr_id x, adj_source x)"

definition grown :: "ldpe \<Rightarrow> ldpe \<Rightarrow> bool" where
  "grown s t \<longleftrightarrow>
     kept s t \<and> stays adj_face (e_adjs s) (e_adjs t) \<and> stays n_id (e_nbrs s) (e_nbrs t) \<and> dom (e_tnbrs s) \<subseteq> dom (e_tnbrs t)"

lemma stays_Some: "stays f M N \<Longrightarrow> map_option f (M k) = Some y \<Longrightarrow> map_option f (N k) = Some y"
  by (auto simp: stays_def)

lemma grown_dom:
  assumes "grown s t"
  shows "dom (e_adjs s) \<subseteq> dom (e_adjs t)" and "dom (e_nbrs s) \<subseteq> dom (e_nbrs t)"
  using assms stays_dom[of adj_face "e_adjs s" "e_adjs t"] stays_dom[of n_id "e_nbrs s" "e_nbrs t"] by (simp_all add: grown_def)

lemma grown_refl: "engine_inv s \<Longrightarrow> grown s s"
  by (simp add: grown_def kept_refl)

lemma grown_trans: "grown s t \<Longrightarrow> grown t u \<Longrightarrow> grown s u"
  unfolding grown_def by (elim conjE, intro conjI) (erule (1) kept_trans, (erule (1) stays_trans order_trans)+)

lemma grown_source: "grown s t \<Longrightarrow> source_live s src \<Longrightarrow> source_live t src"
  using ifaces_same_dom[of s t] by (cases src) (auto simp: grown_def kept_def source_live_def)

lemma sess_ok_grown:
  assumes "engine_inv s" and "sess_ok h s t" and "peercnt t = peercnt s"
  shows "grown s t"
proof -
  have f: "sess_frame h s t" using assms(2) by (simp add: sess_ok_def)
  have "map_option n_id (e_nbrs t k) = map_option n_id (e_nbrs s k)" for k
    using f by (cases "k = h"; cases "e_nbrs s h"; cases "e_nbrs t h") (auto simp: sess_frame_def same_static_def)
  then have "stays n_id (e_nbrs s) (e_nbrs t)" by (simp add: stays_def)
  then show ?thesis using sess_ok_engine[OF assms(1,2)] f assms(3)
    by (simp add: grown_def kept_def sess_frame_def rest_same_iff ifaces_same_def)
qed

lemma quiet_grown: "engine_inv s \<Longrightarrow> quiet s t \<Longrightarrow> grown s t"
  using quiet_kept[of s t] quiet_tnbrs[of s t] by (simp add: grown_def quiet_def)

lemma grown_quiet: "grown s t \<Longrightarrow> quiet t u \<Longrightarrow> grown s u"
  using grown_trans[OF _ quiet_grown, of s t u] by (simp add: grown_def kept_def)

lemma hello_adj_ok:
  assumes inv: "engine_inv s" and src: "source_live s source" and id: "id_small lsr_id"
  shows "ensures (hello_adj (adj_find source s) (nbr_find_ldpid lsr_id s) lsr_id source addr s) (\<lambda>(a, t).
    grown s t \<and> e_adjs t a \<noteq> None \<and> (adj_find source s = None \<longrightarrow> map_option adj_face (e_adjs t a) = Some (lsr_id, source)) \<and>
    (nbr_find_ldpid lsr_id s = None \<longrightarrow>
      e_nbrs t = e_nbrs s \<and> nbrs_by_id t = nbrs_by_id s \<and> nbrs_by_addr t = nbrs_by_addr s \<and> leconf t = leconf s))"
proof (cases "adj_find source s")
  case (Some a)
  then show ?thesis using adj_find_some[OF Some] grown_refl[OF inv] by (auto simp: hello_adj_def)
next
  case None
  let ?nbr = "nbr_find_ldpid lsr_id s"
  let ?x = "\<lparr>adj_lsr_id = lsr_id, adj_nbr = ?nbr, adj_source = source, adj_inactivity_timer = None, adj_holdtime = 0, adj_trans_addr = addr\<rparr>"
  have i: "disc_inv s" using inv by (simp add: engine_inv_def)
  have nbr: "?nbr = Some h \<longleftrightarrow> map_option n_id (e_nbrs s h) = Some lsr_id" for h
    using find_ldpid_some[OF i id] find_ldpid_none[OF i id, of h] id_inj[OF i] by (cases ?nbr) fastforce+
  have "e_nbrs s h \<noteq> None" if "?nbr = Some h" for h using find_ldpid_some[OF i id that] by auto
  note l = hello_adj_linked[where lsr_id = lsr_id and addr = addr, OF src this]
  have "grown s t \<and> map_option adj_face (e_adjs t (e_next s)) = Some (lsr_id, source) \<and> (?nbr = None \<longrightarrow>
      e_nbrs t = e_nbrs s \<and> nbrs_by_id t = nbrs_by_id s \<and> nbrs_by_addr t = nbrs_by_addr s \<and> leconf t = leconf s)"
    if l: "linked (e_next s) ?nbr ?x s t" for t
  proof -
    have "engine_inv t"
      by (rule linked_engine[of s "e_next s" ?x]) (use inv l src nbr adj_find_none[OF i] None in auto)
    moreover have "e_adjs s (e_next s) = None" using i by (simp add: disc_inv_def fresh_ok_def)
    ultimately have "grown s t" using l
      by (auto simp: grown_def kept_def linked_def stays_def split: option.splits hello_source.splits)
    then show ?thesis using l by (auto simp: linked_def adj_face_def)
  qed
  then show ?thesis unfolding None by (intro ensures_mono[OF l]) auto
qed


subsection \<open>A new neighbour\<close>

text \<open>The adjacencies formed before the neighbour, adopted one after the other.\<close>

definition adopted :: "u32 \<Rightarrow> nat \<Rightarrow> nat list \<Rightarrow> ldpe \<Rightarrow> nat \<Rightarrow> adj option" where
  "adopted i h as s a =
     map_option (\<lambda>x. if a \<in> set as \<and> adj_lsr_id x = i then x\<lparr>adj_nbr := Some h\<rparr> else x) (e_adjs s a)"

definition waiting :: "u32 \<Rightarrow> ldpe \<Rightarrow> nat \<Rightarrow> bool" where
  "waiting i s a \<longleftrightarrow> map_option adj_lsr_id (e_adjs s a) = Some i"

lemma adopt_loop:
  assumes "set as \<subseteq> dom (e_adjs s)" and "e_nbrs s h = Some n"
  shows "foreach (nbr_adopt h) as s = Inr (s\<lparr>e_adjs := adopted (n_id n) h as s,
      e_nbrs := (e_nbrs s)(h := Some (n\<lparr>n_adj_list := rev (filter (waiting (n_id n) s) as) @ n_adj_list n\<rparr>))\<rparr>)"
  using assms
proof (induction as arbitrary: s n)
  case Nil
  then have "adopted (n_id n) h [] s = e_adjs s" "(e_nbrs s)(h := Some n) = e_nbrs s"
    by (auto simp: adopted_def option.map_ident)
  then show ?case by simp
next
  case (Cons a as)
  then obtain x where x: "e_adjs s a = Some x" by auto
  show ?case
  proof (cases "adj_lsr_id x = n_id n")
    case False
    then have "nbr_adopt h a s = Inr s" using x Cons.prems(2) by (simp add: nbr_adopt_def adj_get_def nbr_get_def)
    moreover have "adopted (n_id n) h (a # as) s b = adopted (n_id n) h as s b" for b
      using False x by (cases "b = a"; cases "e_adjs s b") (simp_all add: adopted_def)
    then have "adopted (n_id n) h (a # as) s = adopted (n_id n) h as s" by (rule ext)
    ultimately show ?thesis using Cons.IH[of s n] Cons.prems False x by (simp add: waiting_def)
  next
    case True
    let ?m = "n\<lparr>n_adj_list := a # n_adj_list n\<rparr>"
    define u where "u = nbr_set h (\<lambda>n. n\<lparr>n_adj_list := a # n_adj_list n\<rparr>) (adj_set a (\<lambda>x. x\<lparr>adj_nbr := Some h\<rparr>) s)"
    have u: "nbr_adopt h a s = Inr u" using True x Cons.prems(2) by (simp add: nbr_adopt_def adj_get_def nbr_get_def u_def)
    have e: "e_nbrs u = (e_nbrs s)(h := Some ?m)" "e_adjs u = (e_adjs s)(a := Some (x\<lparr>adj_nbr := Some h\<rparr>))"
      "u\<lparr>e_adjs := f, e_nbrs := g\<rparr> = s\<lparr>e_adjs := f, e_nbrs := g\<rparr>" for f g
      using Cons.prems(2) x by (simp_all add: nbr_set_def adj_set_def u_def)
    have "waiting (n_id n) u b = waiting (n_id n) s b" for b unfolding waiting_def e(2) using x by simp
    then have w: "waiting (n_id n) u = waiting (n_id n) s" by (rule ext)
    have "adopted (n_id n) h as u b = adopted (n_id n) h (a # as) s b" for b
      using x True by (cases "b = a"; cases "e_adjs s b") (simp_all add: adopted_def e(2))
    then have ad: "adopted (n_id n) h as u = adopted (n_id n) h (a # as) s" by (rule ext)
    have "waiting (n_id n) s a" using x True by (simp add: waiting_def)
    moreover have d: "set as \<subseteq> dom (e_adjs u)" using Cons.prems(1) e(2) by auto
    ultimately show ?thesis using Cons.IH[OF d, of ?m] u by (simp add: e w ad cong: if_cong)
  qed
qed

text \<open>The neighbour a hello creates.\<close>

definition fresh_nbr :: "u32 \<Rightarrow> af \<Rightarrow> bool \<Rightarrow> ldpd_addr \<Rightarrow> u32 \<Rightarrow> ldpe \<Rightarrow> nbr" where
  "fresh_nbr lsr_id a ds_tlv addr scope_id s =
     \<lparr>n_tcp = None, n_adj_list = [], n_ev_connect = False, n_keepalive_timer = None,
       n_keepalive_timeout = None, n_init_timeout = None, n_initdelay_timer = None,
       n_mapping_list = [], n_withdraw_list = [], n_request_list = [], n_release_list = [],
       n_abortreq_list = [], n_peerid = 0, n_af = a, n_ds_tlv = ds_tlv,
       n_v4_enabled = (a = AF_INET \<or> ds_tlv), n_v6_enabled = (a = AF_INET6 \<or> ds_tlv), n_id = lsr_id,
       n_laddr = ac_trans_addr (ldp_af_conf_get (leconf s) a), n_raddr = addr,
       n_raddr_scope = scope_id, n_fd = 0, n_state = NBR_STA_PRESENT, n_conf_seqnum = 0,
       n_idtimer_cnt = 0, n_keepalive = 0, n_max_pdu_len = 0, n_flags = 0\<rparr>"

definition added :: "nat \<Rightarrow> nbr \<Rightarrow> ldpe \<Rightarrow> ldpe \<Rightarrow> bool" where
  "added h n s t \<longleftrightarrow>
     e_nbrs t = (e_nbrs s)(h := Some n) \<and> e_adjs t = adopted (n_id n) h (e_adj_list s) s \<and>
     n_adj_list n = rev (filter (waiting (n_id n) s) (e_adj_list s)) \<and>
     id_order.ordered (id_of t) (nbrs_by_id t) \<and> set (inorder (nbrs_by_id t)) = insert h (set (inorder (nbrs_by_id s))) \<and>
     distinct (inorder (nbrs_by_addr t)) \<and> set (inorder (nbrs_by_addr t)) = insert h (set (inorder (nbrs_by_addr s))) \<and>
     e_next t = Suc h \<and> e_adj_list t = e_adj_list s \<and> e_ifaces t = e_ifaces s \<and> e_tnbrs t = e_tnbrs s \<and>
     leconf t = leconf s \<and> nbrs_by_pid t = nbrs_by_pid s \<and> peercnt t = peercnt s \<and> e_to_lde t = e_to_lde s"

lemma added_engine:
  assumes inv: "engine_inv s" and h: "h = e_next s" and t: "added h n s t" and n: "nbr_core n" "nbr_timers n" "n_state n = NBR_STA_PRESENT"
    "n_peerid n = 0" "n_mapping_list n = []" "n_withdraw_list n = []" "n_release_list n = []"
    and alone: "\<And>k m. e_nbrs s k = Some m \<Longrightarrow> n_id m \<noteq> n_id n"
  shows "engine_inv t"
proof -
  have i: "disc_inv s" "sess_inv s" using inv by (simp_all add: engine_inv_def)
  have v: "e_nbrs t = (e_nbrs s)(h := Some n)" "e_adj_list t = e_adj_list s" "e_ifaces t = e_ifaces s" "e_tnbrs t = e_tnbrs s"
    "leconf t = leconf s" "e_next t = Suc h" "nbrs_by_pid t = nbrs_by_pid s" "peercnt t = peercnt s" "e_to_lde t = e_to_lde s"
    using t by (simp_all add: added_def)
  have fr: "e_nbrs s h = None" using i(1) h by (simp add: disc_inv_def fresh_ok_def)
  have x: "e_adjs t b = map_option (\<lambda>x. if adj_lsr_id x = n_id n then x\<lparr>adj_nbr := Some h\<rparr> else x) (e_adjs s b)" for b
    using t i(1) by (cases "e_adjs s b") (auto simp: added_def adopted_def disc_inv_def adjs_ok_def)
  have src: "map_option adj_source (e_adjs t b) = map_option adj_source (e_adjs s b)" for b by (cases "e_adjs s b") (auto simp: x)
  have "source_ok t = source_ok s" by (intro ext) (simp add: source_ok_def v split: hello_source.split)
  moreover have "source_ok s b (adj_source z)" if "e_adjs t b = Some z" for b z
    using disc_adj(2)[OF i(1), of b] that by (auto simp: x)
  moreover have "dom (e_adjs t) = dom (e_adjs s)" by (auto simp: x)
  ultimately have "adjs_ok t" using i(1) by (simp add: disc_inv_def adjs_ok_def src v)
  moreover have "nbr_links_ok t" unfolding nbr_links_ok_def
  proof (intro conjI allI impI)
    fix b z k assume "e_adjs t b = Some z"
    then obtain z0 where z: "e_adjs s b = Some z0" "z = (if adj_lsr_id z0 = n_id n then z0\<lparr>adj_nbr := Some h\<rparr> else z0)" by (auto simp: x)
    show "adj_nbr z = Some k \<longleftrightarrow> map_option n_id (e_nbrs t k) = Some (adj_lsr_id z)"
      using disc_adj(3)[OF i(1) z(1), of k] z(2) v(1) alone[of k] fr by (auto split: if_splits)
  next
    fix k m assume m: "e_nbrs t k = Some m"
    have new: "(\<exists>z. e_adjs s b = Some z \<and> adj_lsr_id z = n_id n) \<longleftrightarrow> b \<in> set (n_adj_list n)" for b
      using t i(1) by (auto simp: added_def waiting_def disc_inv_def adjs_ok_def)
    have un: "adj_nbr z \<noteq> Some k" if "e_adjs s b = Some z" "adj_lsr_id z = n_id n" for b z k
      using disc_adj(3)[OF i(1) that(1), of k] that(2) alone[of k] by auto
    show "distinct (n_adj_list m)"
      using m v(1) disc_nbr_adjs(1)[OF i(1)] t i(1) by (auto simp: added_def disc_inv_def adjs_ok_def split: if_splits)
    show "set (n_adj_list m) = {b. map_option adj_nbr (e_adjs t b) = Some (Some k)}"
    proof (cases "k = h")
      case True
      have "adj_nbr z \<noteq> Some h" if "e_adjs s b = Some z" for b z using disc_adj(3)[OF i(1) that, of h] fr by auto
      then have "(\<exists>z. e_adjs t b = Some z \<and> adj_nbr z = Some h) \<longleftrightarrow> b \<in> set (n_adj_list n)" for b
        unfolding new[symmetric] by (auto simp: x)
      then show ?thesis using m True v(1) by auto
    next
      case False
      then have m: "e_nbrs s k = Some m" using m v(1) by simp
      have "(\<exists>z. e_adjs t b = Some z \<and> adj_nbr z = Some k) \<longleftrightarrow> (\<exists>z. e_adjs s b = Some z \<and> adj_nbr z = Some k)" for b
        using un[of b _ k] False by (auto simp: x split: if_splits)
      then show ?thesis using disc_nbr_adjs(2)[OF i(1) m] by auto
    qed
  qed
  moreover have "trees_ok t" using t i(1) by (auto simp: added_def disc_inv_def trees_ok_def)
  moreover have "conf_ok t" using i(1) by (simp add: disc_inv_def conf_ok_def v)
  moreover have "fresh_ok t" using i(1) h by (auto simp: disc_inv_def fresh_ok_def v x)
  moreover have "queues_ok t" using i(1) n by (auto simp: disc_inv_def queues_ok_def v)
  moreover have "faces_ok t"
    using i(1) by (intro faces_ok_cong[of s, OF _ src]) (simp_all add: disc_inv_def ia_adjs_def v)
  moreover have "sess_inv t"
  proof -
    have p: "pids_ok s" using i(2) by (simp add: sess_inv_def)
    have "pid_of t = pid_of s" using fr n(4) by (auto simp: pid_of_def v fun_eq_iff)
    then have "pids_ok t" using p n(4) fr by (auto simp: pids_ok_def v)
    moreover have "(\<exists>m. e_nbrs t k = Some m \<and> n_state m = NBR_STA_OPER \<and> n_peerid m = q) \<longleftrightarrow>
        (\<exists>m. e_nbrs s k = Some m \<and> n_state m = NBR_STA_OPER \<and> n_peerid m = q)" for k q using n(3) fr v(1) by auto
    then have "oper_pids t = oper_pids s" by (simp add: oper_pids_def)
    ultimately show ?thesis using i(2) n(1,2) v by (auto simp: sess_inv_def lde_sync_def)
  qed
  ultimately show ?thesis by (simp add: engine_inv_def disc_inv_def)
qed


lemma new_nbr_ok:
  assumes inv: "engine_inv s" and id: "id_small lsr_id" and free: "nbr_find_ldpid lsr_id s = None" "nbr_find_addr a addr s = None"
  shows "ensures (nbr_new lsr_id a ds_tlv addr scope_id s) (\<lambda>(h, t). grown s t \<and> map_option n_id (e_nbrs t h) = Some lsr_id)"
proof -
  define h where "h = e_next s"
  define n where "n = fresh_nbr lsr_id a ds_tlv addr scope_id s"
  define m where "m = n\<lparr>n_adj_list := rev (filter (waiting lsr_id s) (e_adj_list s))\<rparr>"
  define u where "u = s\<lparr>e_nbrs := (e_nbrs s)(h := Some m), e_next := Suc h, e_adjs := adopted lsr_id h (e_adj_list s) s\<rparr>"
  have i: "disc_inv s" using inv by (simp add: engine_inv_def)
  have fr: "e_nbrs s h = None" using i by (simp add: disc_inv_def fresh_ok_def h_def)
  have tr: "id_order.ordered (id_of s) (nbrs_by_id s)" "set (inorder (nbrs_by_id s)) = dom (e_nbrs s)"
    "distinct (inorder (nbrs_by_addr s))" "set (inorder (nbrs_by_addr s)) = dom (e_nbrs s)"
    "set (e_adj_list s) = dom (e_adjs s)" using i by (simp_all add: disc_inv_def trees_ok_def adjs_ok_def)
  have n: "n_id n = lsr_id" "n_adj_list n = []" by (simp_all add: n_def fresh_nbr_def)
  let ?s0 = "s\<lparr>e_nbrs := (e_nbrs s)(h := Some n), e_next := Suc h\<rparr>"
  have ad: "adopted lsr_id h (e_adj_list s) ?s0 = adopted lsr_id h (e_adj_list s) s" "waiting lsr_id ?s0 = waiting lsr_id s"
    by (simp_all add: adopted_def waiting_def fun_eq_iff)
  have uf: "nbrs_by_id u = nbrs_by_id s" "nbrs_by_addr u = nbrs_by_addr s" by (simp_all add: u_def)
  have loop: "foreach (nbr_adopt h) (e_adj_list s) ?s0 = Inr u"
    using adopt_loop[of "e_adj_list s" ?s0 h n] n ad tr(5) by (simp add: u_def m_def)
  have key: "id_of u h = lsr_id" "addr_of u h = (a, addr)" "k \<noteq> h \<Longrightarrow> id_of u k = id_of s k" "k \<noteq> h \<Longrightarrow> addr_of u k = addr_of s k" for k
    by (simp_all add: id_of_def addr_of_def u_def m_def n_def fresh_nbr_def)
  have cong: "rb_find nbr_id_compare (id_of u) i (nbrs_by_id s) = rb_find nbr_id_compare (id_of s) i (nbrs_by_id s)"
    "rb_find nbr_addr_compare (addr_of u) j (nbrs_by_addr s) = rb_find nbr_addr_compare (addr_of s) j (nbrs_by_addr s)" for i j
    by (rule rb_find_key_cong, use key fr tr in \<open>metis domIff\<close>)+
  have o: "id_order.ordered (id_of u) (nbrs_by_id s)"
  proof -
    have "id_of u k = id_of s k" if "k \<in> set (inorder (nbrs_by_id s))" for k using that key(3)[of k] fr tr(2) by auto
    then show ?thesis using tr(1) unfolding id_order.ordered_def by (simp cong: map_cong)
  qed
  have none: "rb_find nbr_id_compare (id_of u) (id_of u h) (nbrs_by_id s) = None"
    "rb_find nbr_addr_compare (addr_of u) (addr_of u h) (nbrs_by_addr s) = None"
    using free cong by (simp_all add: key nbr_find_ldpid_def nbr_find_addr_def)
  obtain T1 ys zs where T1: "rb_insert nbr_id_compare (id_of u) h (nbrs_by_id s) = (None, T1)" "inorder (nbrs_by_id s) = ys @ zs"
    "inorder T1 = ys @ h # zs" using rb_insert_absent_inorder[OF none(1)] by metis
  obtain T2 ys2 zs2 where T2: "rb_insert nbr_addr_compare (addr_of u) h (nbrs_by_addr s) = (None, T2)"
    "inorder (nbrs_by_addr s) = ys2 @ zs2" "inorder T2 = ys2 @ h # zs2" using rb_insert_absent_inorder[OF none(2)] by metis
  define t where "t = u\<lparr>nbrs_by_id := T1, nbrs_by_addr := T2\<rparr>"
  have "id_order.ordered (id_of u) T1" using id_order.insert_ordered[OF o, of h] id key(1) T1(1) by simp
  moreover have "id_of t = id_of u" by (simp add: id_of_def t_def fun_eq_iff)
  moreover have "h \<notin> set (inorder (nbrs_by_addr s))" using fr tr(4) by auto
  ultimately have "added h m s t"
    using T1(2,3) T2(2,3) tr(3) n(1) by (auto simp: added_def t_def u_def m_def)
  then have e: "engine_inv t"
  proof (rule added_engine[OF inv h_def])
    show "n_id k \<noteq> n_id m" if "e_nbrs s j = Some k" for j k
      using find_ldpid_none[OF i id free(1) that] n(1) by (simp add: m_def)
  qed (simp_all add: m_def n_def fresh_nbr_def nbr_ok_defs)
  have g: "grown s t" using e \<open>added h m s t\<close> fr by (auto simp: grown_def kept_def added_def adopted_def ifaces_same_def stays_def adj_face_def)
  have new: "nbr_new lsr_id a ds_tlv addr scope_id s =
      (case pending_conn_find a addr t of None \<Rightarrow> Inr (h, t)
       | Some p \<Rightarrow> and_then (session_accept_nbr h (pc_fd p) t) (\<lambda>s3. Inr (h, pending_conn_del p s3)))"
    unfolding nbr_new_def Let_def fresh_nbr_def[symmetric] h_def[symmetric] n_def[symmetric]
    using loop T1(1) T2(1) uf by (simp add: t_def[symmetric] split: option.split)
  have th: "e_nbrs t h = Some m" "n_state m = NBR_STA_PRESENT" by (simp_all add: t_def u_def m_def n_def fresh_nbr_def)
  have acc: "ensures (and_then (session_accept_nbr h fd t) (\<lambda>s3. Inr (h, pending_conn_del p s3))) (\<lambda>(h, t). grown s t \<and> map_option n_id (e_nbrs t h) = Some lsr_id)" for fd p
  proof (rule ensures_and_then[OF accept_ok[OF _ th]])
    show "sess_inv t" using e by (simp add: engine_inv_def)
    fix v assume v: "sess_ok h t v \<and> peercnt v = peercnt t"
    have gv: "grown s v" using grown_trans[OF g sess_ok_grown[OF e]] v by blast
    moreover have "quiet v (pending_conn_del p v)" by (simp add: quiet_def disc_view_def pending_conn_del_def)
    ultimately have "grown s (pending_conn_del p v)" by (rule grown_quiet)
    moreover have "map_option n_id (e_nbrs v h) = Some lsr_id"
      by (rule stays_Some[of n_id "e_nbrs t"]) (use sess_ok_grown[OF e, of h v] v th n(1) in \<open>simp_all add: grown_def m_def\<close>)
    ultimately show "ensures (Inr (h, pending_conn_del p v)) (\<lambda>(h, t). grown s t \<and> map_option n_id (e_nbrs t h) = Some lsr_id)" by (simp add: pending_conn_del_def)
  qed
  show ?thesis unfolding new using acc g th(1) n(1) by (auto simp: m_def split: option.split)
qed

subsection \<open>What an accepted hello changes\<close>

lemma nbr_set_grown:
  assumes "engine_inv s" and "\<And>n. face (g n) = face n \<and> n_peerid (g n) = n_peerid n \<and> n_state (g n) = n_state n"
    and "\<And>n. nbr_core n \<Longrightarrow> nbr_core (g n)" and "\<And>n. nbr_timers n \<Longrightarrow> nbr_timers (g n)"
  shows "grown s (nbr_set h g s)"
proof -
  have i: "sess_inv s" using assms(1) by (simp add: engine_inv_def)
  have "engine_inv (nbr_set h g s)"
    by (rule nbr_set_engine[OF assms(1)]) (use assms(2-4) sess_nbr[OF i] in auto)
  moreover have "n_id (g n) = n_id n" for n using assms(2)[of n] by (simp add: face_def)
  ultimately show ?thesis by (auto simp: grown_def kept_def ifaces_same_def nbr_set_def stays_def)
qed

lemma adj_set_grown:
  assumes "engine_inv s" and "\<And>x. adj_source (g x) = adj_source x" "\<And>x. adj_nbr (g x) = adj_nbr x" "\<And>x. adj_lsr_id (g x) = adj_lsr_id x"
  shows "grown s (adj_set a g s)"
  using adj_set_engine[of s g a] assms by (auto simp: grown_def kept_def ifaces_same_def adj_set_def stays_def adj_face_def)

lemmas field_ok = face_def nbr_core_def nbr_timers_def

lemma hello_refresh_ok:
  assumes inv: "engine_inv s" and n: "\<And>h. nbr = Some h \<Longrightarrow> e_nbrs s h \<noteq> None"
  shows "ensures (hello_refresh nbr flags ho s) (grown s)"
proof (cases nbr)
  case (Some h)
  obtain m where m: "e_nbrs s h = Some m" using n[OF Some] by auto
  let ?f = "\<lambda>n :: nbr. n\<lparr>n_flags := (if has_flag flags F_HELLO_GTSM
     then n_flags n OR F_NBR_GTSM_NEGOTIATED else n_flags n AND NOT F_NBR_GTSM_NEGOTIATED)\<rparr>"
  have one: "grown u (nbr_set h ?f u)" "grown u (nbr_stop_idtimer h u)" "grown u (nbr_set h (\<lambda>n. n\<lparr>n_conf_seqnum := c\<rparr>) u)"
    if u: "engine_inv u" for u c
    using u unfolding nbr_stop_idtimer_def by (intro nbr_set_grown; simp add: field_ok)+
  have e: "engine_inv u" if "grown v u" for u v using that by (simp add: grown_def kept_def)
  have "grown s (nbr_set h (\<lambda>n. n\<lparr>n_conf_seqnum := ho_conf ho\<rparr>) (if b then nbr_stop_idtimer h (nbr_set h ?f s) else nbr_set h ?f s))" for b
    using one[OF inv] one(3)[OF e[OF one(1)[OF inv]], of "ho_conf ho"] one(2)[OF e[OF one(1)[OF inv]]]
      one(3)[OF e[OF one(2)[OF e[OF one(1)[OF inv]]]], of "ho_conf ho"]
    by (cases b) (simp_all, (meson grown_trans)+)
  then show ?thesis using one(1)[OF inv] Some m by (auto simp: hello_refresh_def nbr_get_def Let_def)
qed (simp add: hello_refresh_def grown_refl[OF inv])

lemma hello_holdtime_ok:
  assumes inv: "engine_inv s" and src: "source_live s source" and x: "e_adjs s a \<noteq> None"
  shows "ensures (hello_holdtime source a holdtime s) (grown s)"
proof -
  have "grown s (adj_set a (\<lambda>x. x\<lparr>adj_holdtime := k\<rparr>) s)" for k using inv by (intro adj_set_grown) simp_all
  moreover have "grown u (adj_start_itimer a u)" "grown u (adj_stop_itimer a u)" if "engine_inv u" for u
    unfolding adj_start_itimer_def adj_stop_itimer_def using that by (intro adj_set_grown; simp)+
  ultimately have g: "grown s (if c then adj_start_itimer a (adj_set a (\<lambda>x. x\<lparr>adj_holdtime := k\<rparr>) s)
      else adj_stop_itimer a (adj_set a (\<lambda>x. x\<lparr>adj_holdtime := k\<rparr>) s))" for c k
    using grown_trans by (cases c) (simp_all, (metis grown_def kept_def)+)
  obtain y where "e_adjs s a = Some y" using x by auto
  then show ?thesis using src g unfolding hello_holdtime_def
    by (cases source) (auto simp: source_live_def iface_get_def tnbr_get_def adj_get_def Let_def)
qed

lemma nbr_adj_live:
  assumes "disc_inv s" and "e_nbrs s h = Some n" and "a \<in> set (n_adj_list n)"
  shows "\<exists>x. e_adjs s a = Some x \<and> source_live s (adj_source x)"
  using assms source_ok_live by (fastforce simp: disc_defs)

lemma establish_connection_ok:
  assumes inv: "engine_inv s" and n: "e_nbrs s h = Some n"
  shows "ensures (nbr_establish_connection r h s) (grown s)"
proof -
  define w where "w = (\<lambda>fd. nbr_set h (\<lambda>n. n\<lparr>n_fd := fd\<rparr>) s)"
  define hellos where "hellos = (\<lambda>fd. foreach (\<lambda>a s. and_then (adj_get a s) (\<lambda>x. send_hello (adj_source x) s)) (n_adj_list n) (w fd))"
  have w: "grown s (w fd)" for fd unfolding w_def using inv by (intro nbr_set_grown) (simp_all add: field_ok)
  have h: "ensures (hellos fd) (\<lambda>u. grown s u \<and> e_nbrs u h \<noteq> None)" for fd
  proof -
    have "ensures (hellos fd) (quiet (w fd))" unfolding hellos_def
    proof (rule ensures_foreach)
      fix a v assume a: "a \<in> set (n_adj_list n)" and v: "quiet (w fd) v"
      have "disc_inv s" using inv by (simp add: engine_inv_def)
      then obtain x where "e_adjs s a = Some x" "source_live s (adj_source x)" using nbr_adj_live[OF _ n a] by blast
      then have x: "e_adjs v a = Some x" "source_live v (adj_source x)"
        using quiet_tnbrs[OF v] by (auto simp: w_def source_live_def split: hello_source.splits)
      have "ensures (send_hello (adj_source x) v) (quiet (w fd))"
        by (rule ensures_mono[OF send_hello_quiet[OF x(2)] quiet_trans[OF v]])
      then show "ensures (and_then (adj_get a v) (\<lambda>x. send_hello (adj_source x) v)) (quiet (w fd))" using x(1) by (simp add: adj_get_def)
    qed simp
    moreover have "grown s u \<and> e_nbrs u h \<noteq> None" if "quiet (w fd) u" for u
      using grown_quiet[OF w that] that n by (simp add: quiet_def w_def e_nbrs_set)
    ultimately show ?thesis by (rule ensures_mono)
  qed
  have ev: "grown s (nbr_set h (\<lambda>n. n\<lparr>n_ev_connect := True\<rparr>) u)" if "grown s u" for u
    using that nbr_set_grown[of u "\<lambda>n. n\<lparr>n_ev_connect := True\<rparr>" h] by (intro grown_trans[OF that]) (simp add: field_ok grown_def kept_def)
  have up: "ensures (nbr_fsm h NBR_EVT_CONNECT_UP u) (grown s)" if u: "grown s u" and m: "e_nbrs u h \<noteq> None" for u
  proof -
    have i: "engine_inv u" using u by (simp add: grown_def kept_def)
    obtain k where k: "e_nbrs u h = Some k" using m by auto
    have "sess_inv u" using i by (simp add: engine_inv_def)
    from connect_up_ok[OF this k] show ?thesis
      by (rule ensures_mono) (use grown_trans[OF u] sess_ok_grown[OF i] in blast)
  qed
  have pr: "ensures (hellos fd) (grown s)" "ensures (and_then (hellos fd) (\<lambda>s1. Inr (nbr_set h (\<lambda>n. n\<lparr>n_ev_connect := True\<rparr>) s1))) (grown s)"
    "ensures (and_then (hellos fd) (nbr_fsm h NBR_EVT_CONNECT_UP)) (grown s)" for fd
    by (rule ensures_mono[OF h], simp) (rule ensures_and_then[OF h], use ev up in simp)+
  show ?thesis using pr[unfolded hellos_def] w n unfolding nbr_establish_connection_def
    by (cases r) (simp_all add: nbr_get_def Let_def w_def[symmetric])
qed

lemma hello_connect_ok:
  assumes inv: "engine_inv s" and n: "\<And>h. nbr = Some h \<Longrightarrow> e_nbrs s h \<noteq> None"
  shows "ensures (hello_connect r nbr s) (grown s)"
proof (cases nbr)
  case (Some h)
  obtain m where m: "e_nbrs s h = Some m" using n[OF Some] by auto
  show ?thesis using establish_connection_ok[OF inv m] grown_refl[OF inv] Some m by (simp add: hello_connect_def nbr_get_def)
qed (simp add: hello_connect_def grown_refl[OF inv])

lemma grown_kept: "grown s t \<Longrightarrow> kept s t"
  by (simp add: grown_def)

lemma kept_engine: "kept s t \<Longrightarrow> engine_inv t"
  by (simp add: kept_def)

lemma del_adj_opt_ok:
  assumes inv: "engine_inv s" and a: "\<And>a. adj = Some a \<Longrightarrow> e_adjs s a \<noteq> None"
  shows "ensures (del_adj_opt adj status s) (kept s)"
proof (cases adj)
  case (Some x)
  obtain y where y: "e_adjs s x = Some y" using a[OF Some] by auto
  show ?thesis using Some by (auto simp: del_adj_opt_def intro: ensures_mono[OF adj_del_ok[OF inv y]] shrunk_kept)
qed (simp add: del_adj_opt_def kept_refl[OF inv])

lemma shutdown_grown:
  assumes inv: "engine_inv s" and n: "e_nbrs s h \<noteq> None"
  shows "ensures (session_shutdown h status i type s) (\<lambda>t. grown s t)"
proof -
  obtain m where m: "e_nbrs s h = Some m" using n by auto
  have "sess_inv s" using inv by (simp add: engine_inv_def)
  from shutdown_ok[OF this m] show ?thesis by (rule ensures_mono) (use sess_ok_grown[OF inv] in blast)
qed

lemma hello_formed_ok:
  assumes inv: "engine_inv s" and src: "source_live s source" and id: "id_small lsr_id"
    and free: "nbr_find_ldpid lsr_id s = None \<Longrightarrow> nbr_find_addr a addr s = None"
  shows "ensures (and_then (hello_adj (adj_find source s) (nbr_find_ldpid lsr_id s) lsr_id source addr s) (\<lambda>(a1, s1).
           and_then (if nbr_find_ldpid lsr_id s = None \<and> c
                     then and_then (nbr_new lsr_id a ds addr scope_id s1) (\<lambda>(h, s2). Inr (Some h, s2))
                     else Inr (nbr_find_ldpid lsr_id s, s1)) (\<lambda>(nbr1, s2).
           and_then (hello_refresh nbr1 flags ho s2) (\<lambda>s3.
           and_then (hello_holdtime source a1 holdtime s3) (hello_connect r nbr1)))))
         (\<lambda>t. grown s t \<and> (adj_find source s = None \<longrightarrow> (\<exists>k. map_option adj_face (e_adjs t k) = Some (lsr_id, source))) \<and>
           (nbr_find_ldpid lsr_id s = None \<longrightarrow> c \<longrightarrow> (\<exists>h. map_option n_id (e_nbrs t h) = Some lsr_id)))"
    (is "ensures (and_then _ (\<lambda>(a1, s1). and_then (?mk s1) (\<lambda>(nbr1, s2). ?rest a1 nbr1 s2))) _")
proof (rule ensures_and_then[OF hello_adj_ok[OF inv src id]], unfold split_paired_all, clarify)
  fix a1 s1 y
  assume g1: "grown s s1" and y: "e_adjs s1 a1 = Some y"
    and a1: "adj_find source s = None \<longrightarrow> map_option adj_face (e_adjs s1 a1) = Some (lsr_id, source)"
    and same: "nbr_find_ldpid lsr_id s = None \<longrightarrow>
      e_nbrs s1 = e_nbrs s \<and> nbrs_by_id s1 = nbrs_by_id s \<and> nbrs_by_addr s1 = nbrs_by_addr s \<and> leconf s1 = leconf s"
  have e1: "engine_inv s1" using g1 by (simp add: grown_def kept_def)
  have d: "disc_inv s" using inv by (simp add: engine_inv_def)
  have mk: "ensures (?mk s1) (\<lambda>(nbr1, s2). grown s1 s2 \<and> (\<forall>h. nbr1 = Some h \<longrightarrow> e_nbrs s2 h \<noteq> None) \<and>
      (nbr_find_ldpid lsr_id s = None \<longrightarrow> c \<longrightarrow> (\<exists>h. map_option n_id (e_nbrs s2 h) = Some lsr_id)))"
  proof (cases "nbr_find_ldpid lsr_id s = None \<and> c")
    case True
    have "id_of s1 = id_of s" "addr_of s1 = addr_of s" using same True by (auto simp: id_of_def addr_of_def fun_eq_iff)
    then have "nbr_find_ldpid lsr_id s1 = None" "nbr_find_addr a addr s1 = None"
      using True same free by (simp_all add: nbr_find_ldpid_def nbr_find_addr_def)
    from new_nbr_ok[OF e1 id this, where ds_tlv = ds and scope_id = scope_id] show ?thesis
      unfolding if_P[OF True] by (rule ensures_and_then) (auto, blast)
  next
    case False
    have "e_nbrs s1 h \<noteq> None" if "nbr_find_ldpid lsr_id s = Some h" for h
      using find_ldpid_some[OF d id that] grown_dom[OF g1] by auto
    then show ?thesis using False grown_refl[OF e1] unfolding if_not_P[OF False] by auto
  qed
  have rest: "ensures (?rest a1 nbr1 s2) (grown s2)" if g2: "grown s1 s2" and n2: "\<And>h. nbr1 = Some h \<Longrightarrow> e_nbrs s2 h \<noteq> None" for nbr1 s2
  proof (rule ensures_and_then[OF hello_refresh_ok])
    show "engine_inv s2" using g2 by (simp add: grown_def kept_def)
    fix s3 assume g3: "grown s2 s3"
    have e3: "engine_inv s3" using g3 by (simp add: grown_def kept_def)
    have g: "grown s s3" by (rule grown_trans[OF g1 grown_trans[OF g2 g3]])
    have "e_adjs s3 a1 \<noteq> None" using y grown_dom[OF grown_trans[OF g2 g3]] by auto
    from hello_holdtime_ok[OF e3 grown_source[OF g src] this]
    show "ensures (and_then (hello_holdtime source a1 holdtime s3) (hello_connect r nbr1)) (grown s2)"
    proof (rule ensures_and_then)
      fix s4 assume g4: "grown s3 s4"
      have e4: "engine_inv s4" using g4 by (simp add: grown_def kept_def)
      have "e_nbrs s4 h \<noteq> None" if "nbr1 = Some h" for h using n2[OF that] grown_dom[OF grown_trans[OF g3 g4]] by auto
      from hello_connect_ok[OF e4 this] show "ensures (hello_connect r nbr1 s4) (grown s2)"
        by (rule ensures_mono) (assumption | rule grown_trans[OF grown_trans[OF g3 g4]])+
    qed
  qed (use n2 in simp)
  let ?post = "\<lambda>t. grown s t \<and> (adj_find source s = None \<longrightarrow> (\<exists>k. map_option adj_face (e_adjs t k) = Some (lsr_id, source))) \<and>
     (nbr_find_ldpid lsr_id s = None \<longrightarrow> c \<longrightarrow> (\<exists>h. map_option n_id (e_nbrs t h) = Some lsr_id))"
  have fin: "?post t" if g2: "grown s1 s2" and t: "grown s2 t"
    and m: "nbr_find_ldpid lsr_id s = None \<longrightarrow> c \<longrightarrow> (\<exists>h. map_option n_id (e_nbrs s2 h) = Some lsr_id)" for s2 t
  proof -
    have "stays adj_face (e_adjs s1) (e_adjs t)" "stays n_id (e_nbrs s2) (e_nbrs t)" using grown_trans[OF g2 t] t by (simp_all add: grown_def)
    then show ?thesis using stays_Some a1 m grown_trans[OF g1 grown_trans[OF g2 t]] by meson
  qed
  have step: "ensures (?rest a1 nbr1 s2) ?post" if "grown s1 s2 \<and> (\<forall>h. nbr1 = Some h \<longrightarrow> e_nbrs s2 h \<noteq> None) \<and>
      (nbr_find_ldpid lsr_id s = None \<longrightarrow> c \<longrightarrow> (\<exists>h. map_option n_id (e_nbrs s2 h) = Some lsr_id))" for nbr1 s2
    by (rule ensures_mono[OF rest]) (use that in blast, use that in blast, rule fin, use that in blast, assumption, use that in blast)
  show "ensures (and_then (?mk s1) (\<lambda>(nbr1, s2). ?rest a1 nbr1 s2)) ?post"
    by (rule ensures_and_then[OF mk], unfold split_paired_all split_conv) (rule step)
qed

lemma if_ensures: "(c \<Longrightarrow> ensures x P) \<Longrightarrow> (\<not> c \<Longrightarrow> ensures y P) \<Longrightarrow> ensures (if c then x else y) P"
  by simp

lemma hello_accept_ok:
  assumes inv: "engine_inv s" and src: "source_live s source" and id: "id_small lsr_id"
  shows "ensures (hello_accept r lsr_id msg a source addr scope_id holdtime flags ho s) (kept s)"
proof -
  define adj where "adj = adj_find source s"
  define nbr where "nbr = nbr_find_ldpid lsr_id s"
  define ds where "ds = has_flag (ho_rcvd ho) F_HELLO_TLV_RCVD_DS"
  let ?shut = "\<lambda>status. case nbr of None \<Rightarrow> Inr s | Some h \<Rightarrow> session_shutdown h status (lm_id msg) (lm_type msg) s"
  let ?count = "case nbr of None \<Rightarrow> Inr False
    | Some h \<Rightarrow> if ds then Inr False
        else and_then (nbr_adj_count h (case a of AF_INET \<Rightarrow> AF_INET6 | AF_INET6 \<Rightarrow> AF_INET) s) (\<lambda>k. Inr (k > 0))"
  let ?conf = "case nbr of None \<Rightarrow> Inr (nbr_find_addr a addr s \<noteq> None)
    | Some h \<Rightarrow> and_then (nbr_get h s) (\<lambda>n. Inr (n_af n = a \<and> (ldp_addrcmp a (n_raddr n) addr \<noteq> 0 \<or> n_raddr_scope n \<noteq> scope_id)))"
  have d: "disc_inv s" using inv by (simp add: engine_inv_def)
  have nb: "\<exists>n. e_nbrs s h = Some n" if "nbr = Some h" for h using find_ldpid_some[OF d id] that by (auto simp: nbr_def)
  have ad: "e_adjs s x \<noteq> None" if "adj = Some x" for x using adj_find_some that by (auto simp: adj_def)
  have shut: "ensures (?shut status) (grown s)" for status
    using nb grown_refl[OF inv] by (cases nbr) (auto intro: shutdown_grown[OF inv])
  have count: "ensures ?count (\<lambda>_. True)"
    using nb by (cases nbr) (auto dest!: nbr_adj_count_live[OF d, of _ _ "case a of AF_INET \<Rightarrow> AF_INET6 | AF_INET6 \<Rightarrow> AF_INET"])
  have conf: "ensures ?conf (\<lambda>c. c = False \<longrightarrow> nbr = None \<longrightarrow> nbr_find_addr a addr s = None)"
    using nb by (cases nbr) (auto simp: nbr_get_def)
  have gone: "ensures (del_adj_opt adj S_SHUTDOWN u) (kept s)" if g: "grown s u" for u
  proof (rule ensures_mono[OF del_adj_opt_ok])
    show "engine_inv u" using g by (simp add: grown_def kept_def)
    show "e_adjs u x \<noteq> None" if "adj = Some x" for x using ad[OF that] grown_dom[OF g] by auto
    show "kept s v" if "kept u v" for v by (rule kept_trans[OF grown_kept[OF g] that])
  qed
  show ?thesis
    unfolding hello_accept_def Let_def adj_def[symmetric] nbr_def[symmetric] ds_def[symmetric]
  proof (rule if_ensures)
    show "ensures (and_then (?shut S_TRANS_MISMTCH) (del_adj_opt adj S_SHUTDOWN)) (kept s)" by (rule ensures_and_then[OF shut gone])
  next
    show "ensures (and_then ?count (\<lambda>bad. if bad then ?shut S_DS_NONCMPLNCE
       else and_then ?conf (\<lambda>conflict. if conflict then del_adj_opt adj S_SHUTDOWN s
         else and_then (hello_adj adj nbr lsr_id source addr s) (\<lambda>(a1, s1).
           and_then (if nbr = None \<and> (\<not> ds \<or> (ho_pref ho = DUAL_STACK_LDPOV4 \<and> a = AF_INET) \<or> (ho_pref ho = DUAL_STACK_LDPOV6 \<and> a = AF_INET6))
                     then and_then (nbr_new lsr_id a ds addr scope_id s1) (\<lambda>(h, s2). Inr (Some h, s2)) else Inr (nbr, s1)) (\<lambda>(nbr1, s2).
           and_then (hello_refresh nbr1 flags ho s2) (\<lambda>s3.
           and_then (hello_holdtime source a1 holdtime s3) (hello_connect r nbr1))))))) (kept s)"
    proof (rule ensures_and_then[OF count], rule if_ensures, rule ensures_mono[OF shut grown_kept], assumption,
        rule ensures_and_then[OF conf], rule if_ensures, rule gone[OF grown_refl[OF inv]])
      fix c assume "c = False \<longrightarrow> nbr = None \<longrightarrow> nbr_find_addr a addr s = None" and "\<not> c"
      then have free: "nbr_find_ldpid lsr_id s = None \<Longrightarrow> nbr_find_addr a addr s = None" by (simp add: nbr_def)
      show "ensures (and_then (hello_adj adj nbr lsr_id source addr s) (\<lambda>(a1, s1).
           and_then (if nbr = None \<and> (\<not> ds \<or> (ho_pref ho = DUAL_STACK_LDPOV4 \<and> a = AF_INET) \<or> (ho_pref ho = DUAL_STACK_LDPOV6 \<and> a = AF_INET6))
                     then and_then (nbr_new lsr_id a ds addr scope_id s1) (\<lambda>(h, s2). Inr (Some h, s2)) else Inr (nbr, s1)) (\<lambda>(nbr1, s2).
           and_then (hello_refresh nbr1 flags ho s2) (\<lambda>s3.
           and_then (hello_holdtime source a1 holdtime s3) (hello_connect r nbr1))))) (kept s)"
        unfolding adj_def nbr_def by (rule ensures_mono[OF hello_formed_ok[OF inv src id free]]) (use grown_kept in blast)+
    qed
  qed
qed

subsection \<open>A hello as it arrives\<close>

lemma ensures_empty: "within {} m P \<longleftrightarrow> ensures m P"
  by (cases m) simp_all

lemmas ld_then = ld16_then[where E = "{}", unfolded ensures_empty] ld32_then[where E = "{}", unfolded ensures_empty]
  ld_msg_then[where E = "{}", unfolded ensures_empty]

lemma hello_prms_read: "len \<le> length buf \<Longrightarrow> ensures (tlv_decode_hello_prms buf len) (\<lambda>p. p \<noteq> None \<longrightarrow> 8 \<le> len)"
  unfolding tlv_decode_hello_prms_def using ld_ok(2)[of 0 buf] ld_ok(2)[of 2 buf] ld_ok(2)[of 4 buf] ld_ok(2)[of 6 buf] by auto

lemma hello_opt_read: "tlv_len \<le> length buf \<Longrightarrow> ensures (hello_opt c a type tlv_len buf ho) (\<lambda>_. True)"
  unfolding hello_opt_def using ld_ok(2)[of 0 buf] ld_ok(2)[of 2 buf] ld_ok(3)[of 0 buf] by (auto simp: ldn_def)

lemma hello_opts_read: "len \<le> length buf \<Longrightarrow> ensures (tlv_decode_opt_hello_prms c a buf len tot ho) (\<lambda>_. True)"
proof (induction c a buf len tot ho rule: tlv_decode_opt_hello_prms.induct)
  case (1 c a buf len tot ho)
  show ?case
  proof (cases "len < 4")
    case False
    then obtain x y where xy: "ld16 buf 0 = Inr x" "ld16 buf 2 = Inr y" using 1(2) ld_ok(2)[of 0 buf] ld_ok(2)[of 2 buf] by auto
    let ?l = "unat (ntohs y)"
    show ?thesis
    proof (cases "len < ?l + 4")
      case True
      then show ?thesis using False xy by (subst tlv_decode_opt_hello_prms.simps) simp
    next
      case fits: False
      have "ensures (hello_opt c a (ntohs x) ?l (drop 4 buf) ho) (\<lambda>_. True)" using 1(2) fits by (intro hello_opt_read) simp
      then obtain q where q: "hello_opt c a (ntohs x) ?l (drop 4 buf) ho = Inr q" by (auto simp: ensures_iff)
      show ?thesis using 1(1)[OF False refl refl fits] 1(2) False fits xy q
        by (subst tlv_decode_opt_hello_prms.simps) (simp add: Let_def split: option.split)
    qed
  qed (subst tlv_decode_opt_hello_prms.simps, simp)
qed

lemma recv_hello_ok:
  assumes inv: "engine_inv s" and i: "e_ifaces s iface = Some x" and id: "id_small lsr_id" and len: "len \<le> length buf"
  shows "ensures (recv_hello r lsr_id msg a src iface multicast buf len s) (kept s)"
proof -
  have k: "kept s s" by (rule kept_refl[OF inv])
  have targ: "ensures (and_then (hello_tnbr a src flags s) (\<lambda>(t, s1). case t of None \<Rightarrow> Inr s1
      | Some t \<Rightarrow> hello_accept r lsr_id msg a (HELLO_TARGETED t) addr scope_id holdtime flags ho s1)) (kept s)"
    for addr scope_id holdtime flags ho
  proof (rule ensures_and_then[OF hello_tnbr_ok[OF inv]], unfold split_paired_all split_conv, elim conjE)
    fix t s1 assume k1: "kept s s1" and t: "\<forall>k. t = Some k \<longrightarrow> e_tnbrs s1 k \<noteq> None"
    have "source_live s1 (HELLO_TARGETED q)" if "t = Some q" for q using t that by (simp add: source_live_def)
    then show "ensures (case t of None \<Rightarrow> Inr s1
      | Some t \<Rightarrow> hello_accept r lsr_id msg a (HELLO_TARGETED t) addr scope_id holdtime flags ho s1) (kept s)"
      using k1 by (cases t) (auto intro!: ensures_mono[OF hello_accept_ok[OF kept_engine[OF k1] _ id]] kept_trans[OF k1])
  qed
  have link: "ensures (hello_accept r lsr_id msg a (HELLO_LINK iface a src) addr scope_id holdtime flags ho s) (kept s)"
    for addr scope_id holdtime flags ho
    by (rule hello_accept_ok[OF inv _ id]) (simp add: source_live_def i)
  have opts: "ensures (tlv_decode_opt_hello_prms (leconf s) a (drop 8 buf) (len - 8) 0 hello_opts_zero) (\<lambda>_. True)"
    using len by (intro hello_opts_read) simp
  show ?thesis unfolding recv_hello_def
  proof (rule ensures_and_then[OF hello_prms_read[OF len]], goal_cases)
    case (1 p)
    show ?case
    proof (cases p)
      case (Some hf)
      obtain holdtime flags where hf: "hf = (holdtime, flags)" by (cases hf)
      show ?thesis unfolding Some hf option.case split_conv
      proof (rule if_ensures, simp add: k, rule ensures_and_then[OF opts], goal_cases)
        case (1 q)
        show ?case
        proof (cases q)
          case (Some th)
          obtain tot ho where th: "th = (tot, ho)" by (cases th)
          show ?thesis using targ link k i by (simp add: Some th Let_def iface_get_def)
        qed (simp add: k)
      qed
    qed (simp add: k)
  qed
qed

lemma find_iface_ok:
  assumes inv: "disc_inv s"
  shows "ensures (disc_find_iface ifindex a src multicast s) (\<lambda>i. \<forall>k. i = Some k \<longrightarrow> e_ifaces s k \<noteq> None)"
proof (cases "if_lookup (ucast ifindex) s")
  case (Some i)
  then have "i \<in> set (c_iface_list (leconf s))" by (auto simp: if_lookup_def dest!: find_Some_in)
  then obtain x where x: "e_ifaces s i = Some x" "iface_ok x" using inv by (fastforce simp: disc_inv_def conf_ok_def)
  have "ensures (foreach (\<lambda>f found. if found \<or> ifa_af f \<noteq> AF_INET then Inr found
       else if if_pointopoint x then Inr (a0 (ifa_dstbrd f) = a0 src)
       else and_then (prefixlen2mask (ifa_prefixlen f)) (\<lambda>m. Inr (a0 (ifa_addr f) AND m = a0 src AND m))) (if_addr_list x) False) (\<lambda>_. True)"
    by (rule ensures_foreach) (use x(2) in \<open>auto simp: iface_ok_def list_all_iff prefixlen2mask_def\<close>)
  then show ?thesis using Some x(1) by (auto simp: disc_find_iface_def iface_get_def ensures_iff split: af.split)
qed (simp add: disc_find_iface_def)

lemma disc_recv_packet_ok:
  assumes inv: "engine_inv s" and id: "\<And>i. ld32 bytes 4 = Inr i \<Longrightarrow> id_small i"
  shows "ensures (disc_recv_packet r a src ifindex multicast bytes s) (kept s)"
proof -
  have k: "kept s s" by (rule kept_refl[OF inv])
  define len where "len = unat (of_nat (length bytes) :: u16)"
  have "len \<le> length bytes" unfolding len_def by (simp add: unat_of_nat take_bit_nat_less_eq_self)
  note len = this
  show ?thesis unfolding disc_recv_packet_def Let_def len_def[symmetric]
  proof (rule if_ensures, simp add: k, rule ensures_and_then[OF find_iface_ok], goal_cases)
    case 1 then show ?case using inv by (simp add: engine_inv_def)
  next
    case (2 i)
    show ?case
    proof (cases i)
      case (Some j)
      then obtain x where x: "e_ifaces s j = Some x" using 2(2) by auto
      have hello: "ensures (recv_hello r lsr_id msg a src j multicast (drop 18 bytes) (len - 18) s) (kept s)" if "id_small lsr_id" for lsr_id msg
        using len by (intro recv_hello_ok[OF inv x that]) simp
      show ?thesis unfolding Some option.case
        by (rule if_ensures, simp add: k, (rule ld_then, use len in simp)+) (use k hello id len in \<open>auto intro!: ld_then\<close>)
    qed (simp add: k)
  qed
qed

end
