(* ===== verification/Ldpe_Exchange.thy ===== *)
theory Ldpe_Exchange
  imports Ldpe_Codec
begin

text \<open>
  Two engines with a session between them: the label mappings one sends are the label mappings the other
  hands to its label decision engine, in the same order, however the sender cuts them into PDUs.
\<close>

subsection \<open>Reading a PDU of label mappings\<close>

fun received_msgs :: "u32 \<Rightarrow> u32 \<Rightarrow> map_tlv list \<Rightarrow> ldpe_imsg list" where
  "received_msgs p i [] = []"
| "received_msgs p i (m # ms) = IMSG_LABEL_MAPPING p (received m (i + 1)) # received_msgs p (i + 1) ms"

lemma received_msgs_append: "received_msgs p i (a @ b) = received_msgs p i a @ received_msgs p (i + of_nat (length a)) b"
  by (induction a arbitrary: i) (simp_all add: add.assoc)

definition told :: "ldpe_imsg list \<Rightarrow> ldpe \<Rightarrow> ldpe" where
  "told ms s = s\<lparr>e_to_lde := e_to_lde s @ ms\<rparr>"

lemma told_simps [simp]:
  "told [] s = s" "told b (told a s) = told (a @ b) s" "e_nbrs (told ms s) = e_nbrs s" "e_to_lde (told ms s) = e_to_lde s @ ms"
  "nbr_set h g (told ms s) = told ms (nbr_set h g s)"
  by (simp_all add: told_def nbr_set_def split: option.split)

lemma compose_told: "ldpe_imsg_compose_lde m s = told [m] s"
  by (simp add: ldpe_imsg_compose_lde_def told_def)

lemma session_msgs_mappings:
  assumes "e_nbrs s h = Some n" and "n_state n = NBR_STA_OPER" and "list_all (mapping_ok n) ms"
  shows "session_msgs h (label_stream MSG_TYPE_LABELMAPPING i ms) (length (label_stream MSG_TYPE_LABELMAPPING i ms))
      (length (label_stream MSG_TYPE_LABELMAPPING i ms)) s = Inr (True, told (received_msgs (n_peerid n) i ms) s)"
  using assms
proof (induction ms arbitrary: i s)
  case Nil
  then show ?case by (subst session_msgs.simps) simp
next
  case (Cons m ms)
  let ?rest = "label_stream MSG_TYPE_LABELMAPPING (i + 1) ms"
  let ?b = "label_bytes MSG_TYPE_LABELMAPPING m (i + 1)"
  have ok: "mapping_ok n m" "wire_ok m" using Cons.prems(3) by (auto simp: mapping_ok_def canonical_def)
  have sz: "unat (label_msg_size m) = length ?b" "12 \<le> length ?b"
    using unat_label_msg_size[OF ok(2), of MSG_TYPE_LABELMAPPING "i + 1"] by (simp_all add: label_bytes_def fec_tlv_def)
  then have len: "unat (label_msg_size m - 4) = length ?b - 4" by (simp add: unat_sub word_le_nat_alt)
  have recv: "recv_labelmessage h (?b @ ?rest) (length ?b) MSG_TYPE_LABELMAPPING s =
      Inr (0, told [IMSG_LABEL_MAPPING (n_peerid n) (received m (i + 1))] s)"
    using label_mapping_read[OF Cons.prems(1) ok(1)] by (simp add: sz(1) compose_told)
  note IH = Cons.IH[of "told [IMSG_LABEL_MAPPING (n_peerid n) (received m (i + 1))] s" "i + 1"]
  have "\<not> length ?b - 4 < 4" using sz(2) by simp
  then show ?case using Cons.prems sz len recv IH
    by (subst session_msgs.simps)
       (simp add: label_msg_header Let_def nbr_get_live msg_unexpected_def recv_msg_def)
qed

lemma ld32_le: "ld32 (le32 v @ bs) 0 = Inr v"
  by (simp add: ld32_def le32_def)

lemma session_pdu_mappings:
  assumes n: "e_nbrs s h = Some n" "nbr_core n" "n_state n = NBR_STA_OPER" "n_id n = ldp_rtr_id_get a"
    and ms: "list_all (mapping_ok n) ms" "ms \<noteq> []"
    and len: "6 + length (label_stream MSG_TYPE_LABELMAPPING i ms) \<le> unat (n_max_pdu_len n)"
  shows "session_pdu h (pdu_of a (label_stream MSG_TYPE_LABELMAPPING i ms)) s =
    Inr (True, told (received_msgs (n_peerid n) i ms) (nbr_set h pdu_rcvd s))"
proof -
  let ?b = "label_stream MSG_TYPE_LABELMAPPING i ms"
  let ?p = "pdu_of a ?b"
  have "unat (n_max_pdu_len n) < 2 ^ 16" using unsigned_less[of "n_max_pdu_len n"] by simp
  then have k: "unat (of_nat (6 + length ?b) :: u16) = 6 + length ?b" using len by (simp add: unat_of_nat del: of_nat_add)
  obtain m ms' where m: "ms = m # ms'" "wire_ok m" using ms by (cases ms) (auto simp: mapping_ok_def canonical_def)
  have "12 \<le> length ?b" by (simp add: m label_bytes_def fec_tlv_def)
  then have lo: "\<not> (of_nat (6 + length ?b) :: u16) < 14" "unat (of_nat (6 + length ?b) - 6 :: u16) = length ?b"
    using k by (simp_all add: word_less_nat_alt unat_sub word_le_nat_alt del: of_nat_add)
  have hi: "\<not> n_max_pdu_len n < of_nat (6 + length ?b)" using k len by (simp add: word_less_nat_alt del: of_nat_add)
  have ld: "ld16 ?p 0 = Inr (ntohs LDP_VERSION)" "ld16 ?p 2 = Inr (ntohs (of_nat (6 + length ?b)))"
    "ld32 ?p 4 = Inr (ldp_rtr_id_get a)" "ld16 ?p 8 = Inr 0" "drop 10 ?p = ?b" "length ?p = 10 + length ?b"
    using ld_skip(1)[of "be16 LDP_VERSION" 2 "be16 (of_nat (6 + length ?b)) @ le32 (ldp_rtr_id_get a) @ be16 0 @ ?b" 0]
      ld_skip(2)[of "be16 LDP_VERSION @ be16 (of_nat (6 + length ?b))" 4 "le32 (ldp_rtr_id_get a) @ be16 0 @ ?b" 0]
      ld_skip(1)[of "be16 LDP_VERSION @ be16 (of_nat (6 + length ?b)) @ le32 (ldp_rtr_id_get a)" 8 "be16 0 @ ?b" 0]
    by (simp_all add: pdu_of_def ld32_le ntohs_def[of 0] of_be16_def[of 0] del: of_nat_add)
  have n': "e_nbrs (nbr_set h pdu_rcvd s) h = Some (pdu_rcvd n)" using n(1) by (simp add: nbr_set_def)
  have "mapping_ok (pdu_rcvd n) = mapping_ok n" by (simp add: fun_eq_iff mapping_ok_def pdu_rcvd_def)
  then have msgs: "session_msgs h ?b (length ?b) (length ?b) (nbr_set h pdu_rcvd s) =
      Inr (True, told (received_msgs (n_peerid n) i ms) (nbr_set h pdu_rcvd s))"
    using session_msgs_mappings[OF n', of ms i] n(3) ms by simp
  have fsm: "nbr_fsm h NBR_EVT_PDU_RCVD s = Inr (nbr_set h pdu_rcvd s)" by (rule fsm_pdu(2)) (use n in auto)
  show ?thesis using ld n lo hi msgs fsm by (simp add: session_pdu_def Let_def nbr_get_live del: of_nat_add)
qed

lemma get_pdu_of:
  assumes "6 + length b < 2 ^ 16" and "4 \<le> length b"
  shows "session_get_pdu (pdu_of a b @ rest) = Some (pdu_of a b, rest)"
proof -
  have k: "unat (of_nat (6 + length b) :: u16) = 6 + length b" using assms(1) by (simp add: unat_of_nat del: of_nat_add)
  have "of_be16 ((pdu_of a b @ rest) ! 2) ((pdu_of a b @ rest) ! 3) = of_nat (6 + length b)"
    by (simp add: pdu_of_def be16_def del: of_nat_add)
  moreover have "length (pdu_of a b) = 10 + length b" by (simp add: pdu_of_def)
  ultimately show ?thesis using k by (simp add: session_get_pdu_def Let_def del: of_nat_add)
qed

lemma session_loop_mappings:
  assumes "e_nbrs s h = Some n" and "nbr_core n" and "n_state n = NBR_STA_OPER" and "n_id n = ldp_rtr_id_get a"
    and "list_all (mapping_ok n) (concat segs)" and "[] \<notin> set segs"
    and "\<forall>x \<in> set (label_bodies MSG_TYPE_LABELMAPPING i segs). 6 + length x \<le> unat (n_max_pdu_len n)"
    and "n_tcp n = Some t" and "t_rbuf t = concat (map (pdu_of a) (label_bodies MSG_TYPE_LABELMAPPING i segs))"
  shows "\<exists>u. session_loop h s = Some (Inr u) \<and> e_to_lde u = e_to_lde s @ received_msgs (n_peerid n) i (concat segs)"
  using assms
proof (induction segs arbitrary: i s n t)
  case Nil
  then have "session_get_pdu (t_rbuf t) = None" by (simp add: session_get_pdu_def)
  then show ?case using Nil.prems by (subst session_loop.simps) (simp add: nbr_tcp_live)
next
  case (Cons seg segs)
  let ?b = "label_stream MSG_TYPE_LABELMAPPING i seg"
  let ?rest = "concat (map (pdu_of a) (label_bodies MSG_TYPE_LABELMAPPING (i + of_nat (length seg)) segs))"
  let ?n1 = "n\<lparr>n_tcp := Some (t\<lparr>t_rbuf := ?rest\<rparr>)\<rparr>"
  let ?s1 = "nbr_set h (\<lambda>n. n\<lparr>n_tcp := Some (t\<lparr>t_rbuf := ?rest\<rparr>)\<rparr>) s"
  let ?s2 = "told (received_msgs (n_peerid n) i seg) (nbr_set h pdu_rcvd ?s1)"
  have seg: "seg \<noteq> []" "list_all (mapping_ok n) seg" "6 + length ?b \<le> unat (n_max_pdu_len n)" using Cons.prems(5-7) by auto
  have "unat (n_max_pdu_len n) < 2 ^ 16" using unsigned_less[of "n_max_pdu_len n"] by simp
  then have "6 + length ?b < 2 ^ 16" using seg(3) by simp
  moreover have "4 \<le> length ?b" using seg(1) by (cases seg) (simp_all add: label_bytes_def)
  ultimately have get: "session_get_pdu (t_rbuf t) = Some (pdu_of a ?b, ?rest)"
    using get_pdu_of[of ?b a ?rest] Cons.prems(9) by simp
  have n1: "e_nbrs ?s1 h = Some ?n1" "nbr_core ?n1" "mapping_ok ?n1 = mapping_ok n"
    using Cons.prems(1-3,8) by (simp_all add: nbr_set_def nbr_core_def fun_eq_iff mapping_ok_def)
  have pdu: "session_pdu h (pdu_of a ?b) ?s1 = Inr (True, ?s2)"
    using session_pdu_mappings[OF n1(1,2), of a seg i] Cons.prems(3,4) seg n1(3) by simp
  have n2: "e_nbrs ?s2 h = Some (pdu_rcvd ?n1)" using Cons.prems(1) by (simp add: nbr_set_def)
  have n3: "mapping_ok (pdu_rcvd ?n1) = mapping_ok n" "n_id (pdu_rcvd ?n1) = n_id n"
    by (simp_all add: fun_eq_iff mapping_ok_def pdu_rcvd_def)
  have "\<exists>u. session_loop h ?s2 = Some (Inr u) \<and>
      e_to_lde u = e_to_lde ?s2 @ received_msgs (n_peerid (pdu_rcvd ?n1)) (i + of_nat (length seg)) (concat segs)"
    by (rule Cons.IH[OF n2]) (use Cons.prems n1(2) n3 in auto)
  then show ?case using Cons.prems(1,8) get pdu
    by (subst session_loop.simps) (auto simp: nbr_tcp_live received_msgs_append)
qed

subsection \<open>From one engine to the other\<close>

lemma stream_length: "list_all wire_ok ms \<Longrightarrow> length (label_stream type i ms) \<le> 70 * length ms"
proof (induction ms arbitrary: i)
  case (Cons m ms)
  then have "length (label_bytes type m (i + 1)) \<le> 70"
    using label_size_small[of m] unat_label_msg_size[of m type "i + 1"] by simp
  moreover have "length (label_stream type (i + 1) ms) \<le> 70 * length ms" using Cons by simp
  ultimately show ?case by simp
qed simp

lemma pdus_length:
  "list_all wire_ok (concat segs) \<Longrightarrow> [] \<notin> set segs \<Longrightarrow>
     length (concat (map (pdu_of a) (label_bodies type i segs))) \<le> 80 * length (concat segs)"
proof (induction segs arbitrary: i)
  case (Cons seg segs)
  have "length (pdu_of a (label_stream type i seg)) \<le> 10 + 70 * length seg"
    using stream_length[of seg type i] Cons.prems(1) by (simp add: pdu_of_def)
  moreover have "1 \<le> length seg" using Cons.prems(2) by (cases seg) simp_all
  moreover have "length (concat (map (pdu_of a) (label_bodies type (i + of_nat (length seg)) segs))) \<le> 80 * length (concat segs)"
    using Cons by simp
  ultimately show ?case by simp
qed simp

lemma exchange_read:
  assumes inv: "sess_inv b" and k: "e_nbrs b g = Some k" "n_state k = NBR_STA_OPER" "n_id k = ldp_rtr_id_get a"
    "n_tcp k = Some t" "t_rbuf t = []"
    and segs: "list_all (mapping_ok k) (concat segs)" "[] \<notin> set segs" "segs \<noteq> []"
      "\<forall>x \<in> set (label_bodies MSG_TYPE_LABELMAPPING i segs). 6 + length x \<le> unat (n_max_pdu_len k)"
    and len: "length (concat (map (pdu_of a) (label_bodies MSG_TYPE_LABELMAPPING i segs))) \<le> IBUF_READ_SIZE"
  shows "\<exists>u. session_read g (Read_bytes (concat (map (pdu_of a) (label_bodies MSG_TYPE_LABELMAPPING i segs)))) b = Inr u \<and>
    sess_inv u \<and> e_to_lde u = e_to_lde b @ received_msgs (n_peerid k) i (concat segs)"
proof -
  let ?bs = "concat (map (pdu_of a) (label_bodies MSG_TYPE_LABELMAPPING i segs))"
  let ?k = "k\<lparr>n_tcp := Some (t\<lparr>t_rbuf := ?bs\<rparr>)\<rparr>"
  let ?s = "nbr_set g (\<lambda>n. n\<lparr>n_tcp := Some (t\<lparr>t_rbuf := ?bs\<rparr>)\<rparr>) b"
  have core: "nbr_core k" using sess_nbr[OF inv k(1)] by simp
  have ne: "?bs \<noteq> []" using segs(3) by (cases segs) (simp_all add: pdu_of_def be16_def)
  have s: "e_nbrs ?s g = Some ?k" "nbr_core ?k" "mapping_ok ?k = mapping_ok k"
    using k core by (simp_all add: nbr_set_def nbr_core_def fun_eq_iff mapping_ok_def)
  have "\<exists>u. session_loop g ?s = Some (Inr u) \<and> e_to_lde u = e_to_lde ?s @ received_msgs (n_peerid ?k) i (concat segs)"
    by (rule session_loop_mappings[OF s(1,2), where t = "t\<lparr>t_rbuf := ?bs\<rparr>"]) (use k segs s(3) in auto)
  then obtain u where u: "session_loop g ?s = Some (Inr u)" "e_to_lde u = e_to_lde b @ received_msgs (n_peerid k) i (concat segs)" by auto
  have "session_read g (Read_bytes ?bs) b = of_loop (session_loop g ?s)"
    using nbr_tcp_live[OF k(1,4)] k(5) len ne by (auto simp: session_read_def Let_def)
  then have r: "session_read g (Read_bytes ?bs) b = Inr u" by (simp add: of_loop_def u(1))
  have "ready g b" using inv k by (auto simp: ready_def)
  from session_read_ok[OF this, of "Read_bytes ?bs"] r have "sess_inv u" by (simp add: sess_ok_def)
  then show ?thesis using r u(2) by simp
qed

end
