(* ===== verification/Ldpe_Correct.thy ===== *)
theory Ldpe_Correct
  imports Ldpe_Exchange
begin

text \<open>
  The properties of the protocol engine, with a small engine as the state of the witnesses: one
  neighbour, reached over IPv4, in a chosen state of its session.
\<close>

subsection \<open>A small engine\<close>

definition demo_conf :: ldpd_conf where
  "demo_conf =
     (let ac = \<lparr>ac_keepalive = 180, ac_lhello_holdtime = 0, ac_lhello_interval = 0, ac_thello_holdtime = 0,
            ac_thello_interval = 0, ac_trans_addr = addr_zero, ac_flags = F_LDPD_AF_ENABLED\<rparr>
      in \<lparr>c_rtr_id = 0, c_ipv4 = ac, c_ipv6 = ac, c_iface_list = [], c_tnbr_list = [], c_nbrp_list = [],
          c_lhello_holdtime = 0, c_lhello_interval = 0, c_thello_holdtime = 0, c_thello_interval = 0,
          c_trans_pref = 0, c_flags = 0\<rparr>)"

definition demo_peer :: "u32 \<Rightarrow> u32 \<Rightarrow> nbr" where
  "demo_peer peer st =
     \<lparr>n_tcp = (if st = NBR_STA_PRESENT then None else Some \<lparr>t_fd = 7, t_rbuf = []\<rparr>), n_adj_list = [],
       n_ev_connect = False,
       n_keepalive_timer = (if st = NBR_STA_OPER then Some 60 else None),
       n_keepalive_timeout = (if st = NBR_STA_OPER then Some 180 else None),
       n_init_timeout = (if st = NBR_STA_OPER \<or> st = NBR_STA_PRESENT then None else Some 15),
       n_initdelay_timer = None, n_mapping_list = [], n_withdraw_list = [], n_request_list = [],
       n_release_list = [], n_abortreq_list = [], n_peerid = (if st = NBR_STA_OPER then 2 else 0),
       n_af = AF_INET, n_ds_tlv = False, n_v4_enabled = True, n_v6_enabled = False, n_id = peer,
       n_laddr = addr_zero, n_raddr = v4_addr peer, n_raddr_scope = 0, n_fd = -1, n_state = st, n_conf_seqnum = 0,
       n_idtimer_cnt = 0, n_keepalive = 180, n_max_pdu_len = 4096, n_flags = 0\<rparr>"

definition demo_engine :: "u32 \<Rightarrow> u32 \<Rightarrow> u32 \<Rightarrow> ldpe" where
  "demo_engine rid peer st =
     \<lparr>e_nbrs = (\<lambda>h. if h = 0 then Some (demo_peer peer st) else None),
       nbrs_by_id = RNode RB_BLACK RNil 0 RNil, nbrs_by_addr = RNode RB_BLACK RNil 0 RNil,
       nbrs_by_pid = (if st = NBR_STA_OPER then RNode RB_BLACK RNil 0 RNil else RNil),
       e_adjs = (\<lambda>_. None), e_adj_list = [], e_ifaces = (\<lambda>_. None), e_tnbrs = (\<lambda>_. None), e_next = 1,
       leconf = demo_conf, g_rtr_id = rid,
       g_ipv4 = \<lparr>ag_disc_socket = 3, ag_edisc_socket = 4, ag_session_socket = 5\<rparr>,
       g_ipv6 = \<lparr>ag_disc_socket = -1, ag_edisc_socket = -1, ag_session_socket = -1\<rparr>,
       g_conf_seqnum = 0, g_addr_list = [], g_pending_conns = [], e_detached = [], msgcnt = 0,
       peercnt = (if st = NBR_STA_OPER then 2 else 1),
       e_to_lde = (if st = NBR_STA_OPER then [IMSG_NEIGHBOR_UP 2 peer True False] else []),
       e_net = [], e_hellos = []\<rparr>"

lemma demo_engine_simps [simp]:
  "e_nbrs (demo_engine rid peer st) h = (if h = 0 then Some (demo_peer peer st) else None)"
  "leconf (demo_engine rid peer st) = demo_conf" "g_rtr_id (demo_engine rid peer st) = rid"
  "peercnt (demo_engine rid peer st) = (if st = NBR_STA_OPER then 2 else 1)" "msgcnt (demo_engine rid peer st) = 0"
  "e_net (demo_engine rid peer st) = []"
  "e_to_lde (demo_engine rid peer st) = (if st = NBR_STA_OPER then [IMSG_NEIGHBOR_UP 2 peer True False] else [])"
  by (simp_all add: demo_engine_def)

lemma demo_peer_simps [simp]:
  "n_state (demo_peer peer st) = st" "n_id (demo_peer peer st) = peer" "n_max_pdu_len (demo_peer peer st) = 4096"
  "st \<noteq> NBR_STA_PRESENT \<Longrightarrow> n_tcp (demo_peer peer st) = Some \<lparr>t_fd = 7, t_rbuf = []\<rparr>"
  "n_v4_enabled (demo_peer peer st)" "\<not> n_v6_enabled (demo_peer peer st)" "n_peerid (demo_peer peer st) = (if st = NBR_STA_OPER then 2 else 0)"
  by (simp_all add: demo_peer_def)

lemma demo_rtr_id [simp]: "ldp_rtr_id_get (demo_engine rid peer st) = rid"
  by (simp add: ldp_rtr_id_get_def demo_conf_def Let_def)

lemma demo_inv:
  assumes "st \<in> {NBR_STA_PRESENT, NBR_STA_INITIAL, NBR_STA_OPENREC, NBR_STA_OPENSENT, NBR_STA_OPER}"
  shows "sess_inv (demo_engine rid peer st)"
proof -
  let ?s = "demo_engine rid peer st"
  have "nbr_core (demo_peer peer st)" "nbr_timers (demo_peer peer st)"
    using assms by (auto simp: nbr_ok_defs demo_peer_def)
  moreover have "pids_ok ?s"
    using assms by (auto simp: pids_ok_def pid_order.ordered_def demo_engine_def demo_peer_def pid_of_def peerid_small_def)
  moreover have "oper_pids ?s = (if st = NBR_STA_OPER then {2} else {})"
    by (auto simp: oper_pids_def demo_peer_def)
  then have "lde_sync ?s" by (simp add: lde_sync_def demo_engine_def msg_expected_def up_step_def peerid_small_def lde_up_def)
  ultimately show ?thesis by (simp add: sess_inv_def)
qed

subsection \<open>Reading a session\<close>

text \<open>
  Whatever bytes arrive on the session of a neighbour, in any state of the session, reading them ends
  in a state where the invariant of the sessions holds, or with one of three faults: a read past the end of
  the PDU, a prefix copied past the sixteen bytes of an address, or an endless loop.  The process is never
  stopped by \<open>fatal\<close> and no freed neighbour or connection is used.
\<close>

theorem session_read_safe:
  assumes "sess_inv s" and "e_nbrs s h = Some n" and "n_state n \<noteq> NBR_STA_PRESENT" and "peercnt s < 2 ^ 31 - 1"
  shows "case session_read h r s of
      Inl e \<Rightarrow> e = Out_of_bounds_read \<or> e = Buffer_overflow \<or> e = Hang
    | Inr t \<Rightarrow> sess_inv t"
proof -
  have "ready h s" using assms by (auto simp: ready_def room_def)
  from session_read_ok[OF this, of r] show ?thesis
    by (cases "session_read h r s") (auto simp: wire_faults_def sess_ok_def)
qed

theorem session_read_safe_witness:
  "case session_read 0 (Read_bytes [0, 1, 0, 14, 2, 0, 0, 0, 0, 0, 2, 1, 0, 4, 0, 0, 0, 9]) (demo_engine 1 2 NBR_STA_OPENREC) of
      Inl e \<Rightarrow> e = Out_of_bounds_read \<or> e = Buffer_overflow \<or> e = Hang
    | Inr t \<Rightarrow> sess_inv t"
  using session_read_safe[of "demo_engine 1 2 NBR_STA_OPENREC" 0 "demo_peer 2 NBR_STA_OPENREC"
      "Read_bytes [0, 1, 0, 14, 2, 0, 0, 0, 0, 0, 2, 1, 0, 4, 0, 0, 0, 9]"] demo_inv[of NBR_STA_OPENREC 1 2] by simp

text \<open>
  C39: The decoder of FEC elements fails on exactly three kinds of input: an empty buffer, whose type byte it
  reads; a prefix longer than 128 bits whose bytes are there, which it copies past the address; and a
  pseudowire with a sub-TLV of length zero that is not an interface MTU, over which it loops for ever.
\<close>

theorem fec_decode_faults:
  assumes "sess_inv s" and "e_nbrs s h = Some n" and "n_state n \<noteq> NBR_STA_PRESENT" and "len \<le> length buf"
  shows "tlv_decode_fec_elm h msg buf len m s = Inl e \<longleftrightarrow>
      e = Out_of_bounds_read \<and> buf = [] \<or>
      e = Buffer_overflow \<and> buf \<noteq> [] \<and> buf ! 0 = MAP_TYPE_PREFIX \<and> of_be16 (buf ! 1) (buf ! 2) \<in> {AF_IPV4, AF_IPV6} \<and>
        128 < buf ! 3 \<and> 4 + PREFIX_SIZE (buf ! 3) \<le> len \<or>
      e = Hang \<and> buf \<noteq> [] \<and> buf ! 0 = MAP_TYPE_PWID \<and> 12 \<le> len \<and> len = 8 + unat (buf ! 3) \<and> pw_stuck buf 12 (buf ! 3 - 4)"
proof -
  have live: "live h s" using assms by (auto simp: live_def)
  show ?thesis
  proof (cases buf)
    case (Cons b bs)
    then show ?thesis using decode_prefix_faults[OF live assms(4)] decode_pwid_faults[OF live assms(4)] fail_no_fault[OF live]
      by (auto simp: tlv_decode_fec_elm_def ld8_def Let_def)
  qed (auto simp: tlv_decode_fec_elm_def ld8_def)
qed

theorem fec_decode_faults_witness:
  "tlv_decode_fec_elm 0 \<lparr>lm_type = 0, lm_length = 0, lm_id = 0\<rparr> [0x80, 0, 5, 6, 0, 0, 0, 0, 0, 0, 0, 1, 2, 0] 14 map_zero
     (demo_engine 1 2 NBR_STA_OPER) = Inl Hang"
proof -
  have "pw_stuck [0x80, 0, 5, 6, 0, 0, 0, 0, 0, 0, 0, 1, 2, 0] 12 2" by (subst pw_stuck.simps) simp
  then show ?thesis
    using fec_decode_faults[of "demo_engine 1 2 NBR_STA_OPER" 0 "demo_peer 2 NBR_STA_OPER" 14
        "[0x80, 0, 5, 6, 0, 0, 0, 0, 0, 0, 0, 1, 2, 0]" "\<lparr>lm_type = 0, lm_length = 0, lm_id = 0\<rparr>" map_zero Hang]
      demo_inv[of NBR_STA_OPER 1 2] by simp
qed

subsection \<open>Label messages between engines\<close>








subsection \<open>Sessions\<close>

text \<open>
  C10: The keepalive that completes a session setup establishes the session: the neighbour is operational with
  both keepalive timers running and the initialization timeout stopped, it has a peer id no neighbour had
  before and is found under it, and the label decision engine is told the new peer and asked for its labels.
\<close>

theorem session_established:
  assumes "sess_inv s" and "e_nbrs s h = Some n" and "n_state n = NBR_STA_OPENREC" and "peercnt s < 2 ^ 31 - 1"
  shows "\<exists>t. nbr_fsm h NBR_EVT_KEEPALIVE_RCVD s = Inr t \<and> sess_inv t \<and>
      e_nbrs t = (e_nbrs s)(h := Some (established (peercnt s + 1) n)) \<and>
      nbr_find_peerid (peercnt s + 1) t = Some h \<and> nbr_find_peerid (peercnt s + 1) s = None \<and>
      e_to_lde t = e_to_lde s @ [IMSG_NEIGHBOR_UP (peercnt s + 1) (n_id n) (n_v4_enabled n) (n_v6_enabled n),
        IMSG_LABEL_MAPPING_FULL (peercnt s + 1)]"
proof -
  have r: "room s" using assms(4) by (simp add: room_def)
  let ?p = "peercnt s + 1"
  from fsm_established[OF assms(1-3) r] keepalive_rcvd_ok[OF assms(1-3) r] obtain t where
    t: "nbr_fsm h NBR_EVT_KEEPALIVE_RCVD s = Inr t" "pids_ok t" "sess_inv t"
      "e_nbrs t = (e_nbrs s)(h := Some (established ?p n))"
      "e_to_lde t = e_to_lde s @ [IMSG_NEIGHBOR_UP ?p (n_id n) (n_v4_enabled n) (n_v6_enabled n), IMSG_LABEL_MAPPING_FULL ?p]"
    by (auto simp: ensures_iff sess_ok_def)
  have "nbr_find_peerid ?p t = Some h" using find_peerid[OF t(2), of h] t(4) room_next[OF r] by (simp add: established_def)
  moreover have "nbr_find_peerid ?p s = None"
  proof (rule find_peerid_none)
    show "pids_ok s" using assms(1) by (simp add: sess_inv_def)
    then show "n_peerid m \<noteq> ?p" if "e_nbrs s k = Some m" for k m using that room_next(1)[OF r] by (fastforce simp: pids_ok_def)
  qed (use room_next[OF r] in auto)
  ultimately show ?thesis using t by simp
qed

theorem session_established_witness:
  "\<exists>t. nbr_fsm 0 NBR_EVT_KEEPALIVE_RCVD (demo_engine 1 2 NBR_STA_OPENREC) = Inr t \<and> sess_inv t \<and>
      e_nbrs t = (e_nbrs (demo_engine 1 2 NBR_STA_OPENREC))(0 := Some (established 2 (demo_peer 2 NBR_STA_OPENREC))) \<and>
      nbr_find_peerid 2 t = Some 0 \<and> nbr_find_peerid 2 (demo_engine 1 2 NBR_STA_OPENREC) = None \<and>
      e_to_lde t = [IMSG_NEIGHBOR_UP 2 2 True False, IMSG_LABEL_MAPPING_FULL 2]"
  using session_established[of "demo_engine 1 2 NBR_STA_OPENREC" 0 "demo_peer 2 NBR_STA_OPENREC"] demo_inv[of NBR_STA_OPENREC 1 2] by simp





end
