(* ===== verification/Ldpe_Discover.thy ===== *)
theory Ldpe_Discover
  imports Ldpe_Form Ldpe_Correct
begin

text \<open>
  Discovery between two engines: the hello one of them sends is the hello the other reads, and it makes the
  sender a neighbour of the receiver.
\<close>

subsection \<open>The bytes of a hello\<close>

definition trans_tlv :: "af \<Rightarrow> ldpe \<Rightarrow> byte list" where
  "trans_tlv f s =
     (case f of
        AF_INET \<Rightarrow> be16 TLV_TYPE_IPV4TRANSADDR @ be16 4 @ le32 (a0 (ac_trans_addr (c_ipv4 (leconf s))))
      | AF_INET6 \<Rightarrow> be16 TLV_TYPE_IPV6TRANSADDR @ be16 16 @ s6_addr (ac_trans_addr (c_ipv6 (leconf s))))"

definition hello_opts_bytes :: "af \<Rightarrow> ldpe \<Rightarrow> byte list" where
  "hello_opts_bytes f s = trans_tlv f s @ be16 TLV_TYPE_CONFIG @ be16 4 @ le32 (htonl (g_conf_seqnum s))"

definition hello_size :: "af \<Rightarrow> nat" where
  "hello_size f = (case f of AF_INET \<Rightarrow> 42 | AF_INET6 \<Rightarrow> 54)"

definition hello_bytes :: "af \<Rightarrow> u16 \<Rightarrow> u16 \<Rightarrow> ldpe \<Rightarrow> byte list" where
  "hello_bytes f holdtime flags s =
     be16 LDP_VERSION @ be16 (of_nat (hello_size f) - 4) @ le32 (ldp_rtr_id_get s) @ be16 0 @
     be16 MSG_TYPE_HELLO @ be16 (of_nat (hello_size f) - 14) @ be32 (msgcnt s + 1) @
     be16 TLV_TYPE_COMMONHELLO @ be16 4 @ be16 holdtime @ be16 flags @ hello_opts_bytes f s"

lemma length_hello_opts: "length (hello_opts_bytes f s) = hello_size f - 26"
  by (cases f) (simp_all add: hello_opts_bytes_def trans_tlv_def hello_size_def)

lemma length_hello_bytes: "length (hello_bytes f holdtime flags s) = hello_size f"
  by (cases f) (simp_all add: hello_bytes_def length_hello_opts hello_size_def)

text \<open>What is sent, when the sender has a single stack.\<close>

lemma hello_packet_bytes:
  assumes "\<not> ldp_is_dual_stack (leconf s)"
  shows "hello_packet f holdtime flags fd dst s =
    s\<lparr>msgcnt := msgcnt s + 1,
      e_hellos := e_hellos s @ [\<lparr>hp_fd = fd, hp_af = f, hp_dst = dst, hp_bytes = hello_bytes f holdtime flags s\<rparr>]\<rparr>"
  using assms
  by (cases f)
     (simp_all add: hello_packet_def Let_def gen_ldp_hdr_def gen_msg_hdr_def gen_hello_prms_tlv_def gen_opt4_hello_prms_tlv_def
        gen_opt16_hello_prms_tlv_def ibuf_add_def ibuf_open_def hello_bytes_def hello_opts_bytes_def trans_tlv_def hello_size_def)

subsection \<open>Reading a hello\<close>

lemma ld_past:
  "length a \<le> k \<Longrightarrow> ld16 (a @ bs) k = ld16 bs (k - length a)" "length a \<le> k \<Longrightarrow> ld32 (a @ bs) k = ld32 bs (k - length a)"
  using ld_skip(1)[of a "length a" bs "k - length a"] ld_skip(2)[of a "length a" bs "k - length a"] by simp_all

lemma hello_prms_read_back:
  "8 \<le> len \<Longrightarrow> tlv_decode_hello_prms (be16 TLV_TYPE_COMMONHELLO @ be16 4 @ be16 holdtime @ be16 flags @ bs) len = Inr (Some (holdtime, flags))"
  by (simp add: tlv_decode_hello_prms_def ld_past)

text \<open>The address a hello carries, and what the configuration number becomes on the way: its bytes are swapped.\<close>

definition hello_trans :: "af \<Rightarrow> ldpe \<Rightarrow> ldpd_addr" where
  "hello_trans f s = (case f of AF_INET \<Rightarrow> v4_addr (a0 (ac_trans_addr (c_ipv4 (leconf s)))) | AF_INET6 \<Rightarrow> ac_trans_addr (c_ipv6 (leconf s)))"

definition hello_read :: "af \<Rightarrow> ldpe \<Rightarrow> hello_opts" where
  "hello_read f s = \<lparr>ho_rcvd = F_HELLO_TLV_RCVD_ADDR OR F_HELLO_TLV_RCVD_CONF, ho_addr = hello_trans f s,
     ho_conf = htonl (g_conf_seqnum s), ho_pref = 0\<rparr>"

lemma hello_opts_step:
  assumes "ld16 buf 0 = Inr (ntohs ty)" and "ld16 buf 2 = Inr (ntohs l)" and "unat l + 4 \<le> len"
    and "hello_opt c f ty (unat l) (drop 4 buf) ho = Inr (Some ho1)"
  shows "tlv_decode_opt_hello_prms c f buf len tot ho =
    tlv_decode_opt_hello_prms c f (drop (unat l + 4) buf) (len - (4 + unat l)) (tot + 4 + unat l) ho1"
  using assms by (subst tlv_decode_opt_hello_prms.simps) (simp add: Let_def)

lemma s6_roundtrip [simp]: "of_s6_addr (s6_addr x) = x"
  by (cases x) (simp add: s6_addr_def le32_def)

lemma hello_opts_read_back:
  "tlv_decode_opt_hello_prms c f (hello_opts_bytes f s) (hello_size f - 26) 0 hello_opts_zero = Inr (Some (hello_size f - 26, hello_read f s))"
proof -
  define conf where "conf = be16 TLV_TYPE_CONFIG @ be16 4 @ le32 (htonl (g_conf_seqnum s))"
  define l :: u16 where "l = (case f of AF_INET \<Rightarrow> 4 | AF_INET6 \<Rightarrow> 16)"
  let ?ho = "\<lparr>ho_rcvd = F_HELLO_TLV_RCVD_ADDR, ho_addr = hello_trans f s, ho_conf = 0, ho_pref = 0\<rparr>"
  have b: "hello_opts_bytes f s = trans_tlv f s @ conf" "length (trans_tlv f s) = unat l + 4" "length conf = 8"
    by (cases f; simp add: hello_opts_bytes_def conf_def trans_tlv_def l_def)+
  have sz: "hello_size f - 26 = unat l + 12" by (cases f) (simp_all add: hello_size_def l_def)
  have addr: "hello_opt c f (case f of AF_INET \<Rightarrow> TLV_TYPE_IPV4TRANSADDR | AF_INET6 \<Rightarrow> TLV_TYPE_IPV6TRANSADDR) (unat l)
      (drop 4 (trans_tlv f s @ conf)) hello_opts_zero = Inr (Some ?ho)"
    by (cases f) (simp_all add: hello_opt_def trans_tlv_def l_def hello_opts_zero_def has_flag_def ld32_le ldn_def hello_trans_def v4_addr_def)
  have "tlv_decode_opt_hello_prms c f (trans_tlv f s @ conf) (unat l + 12) 0 hello_opts_zero =
      tlv_decode_opt_hello_prms c f conf 8 (unat l + 4) ?ho"
    by (subst hello_opts_step[OF _ _ _ addr])
       (cases f; simp add: trans_tlv_def l_def ld_past; simp add: b(2) l_def trans_tlv_def)+
  moreover have "hello_opt c f TLV_TYPE_CONFIG 4 (drop 4 conf) ?ho = Inr (Some (hello_read f s))"
    using ld32_le[of "htonl (g_conf_seqnum s)" "[]"] by (simp add: hello_opt_def conf_def hello_read_def)
  then have "tlv_decode_opt_hello_prms c f conf 8 (unat l + 4) ?ho = tlv_decode_opt_hello_prms c f (drop 8 conf) 0 (12 + unat l) (hello_read f s)"
    using hello_opts_step[of conf TLV_TYPE_CONFIG 4 8 c f ?ho] by (simp add: conf_def ld_past)
  ultimately show ?thesis unfolding b(1) sz by (simp add: tlv_decode_opt_hello_prms.simps)
qed

subsection \<open>A new neighbour\<close>

text \<open>The neighbour with a router id and the adjacency over an interface are there and linked.\<close>

definition neighbours :: "u32 \<Rightarrow> hello_source \<Rightarrow> ldpe \<Rightarrow> bool" where
  "neighbours lsr_id source t \<longleftrightarrow>
     (\<exists>h n k x. nbr_find_ldpid lsr_id t = Some h \<and> e_nbrs t h = Some n \<and> n_id n = lsr_id \<and> k \<in> set (n_adj_list n) \<and>
        e_adjs t k = Some x \<and> adj_source x = source \<and> adj_lsr_id x = lsr_id \<and> adj_nbr x = Some h)"

lemma neighbours_linked:
  assumes inv: "disc_inv t" and id: "id_small i" and "map_option adj_face (e_adjs t k) = Some (i, source)"
    and "map_option n_id (e_nbrs t h) = Some i"
  shows "neighbours i source t"
proof -
  obtain x n where x: "e_adjs t k = Some x" "adj_lsr_id x = i" "adj_source x = source" and n: "e_nbrs t h = Some n" "n_id n = i"
    using assms(3,4) by (auto simp: adj_face_def)
  have l: "adj_nbr x = Some h" using disc_adj(3)[OF inv x(1), of h] x(2) n by simp
  then have "k \<in> set (n_adj_list n)" using disc_nbr_adjs(2)[OF inv n(1)] x(1) by blast
  moreover have "nbr_find_ldpid i t = Some h"
    using find_ldpid_none[OF inv id _ n(1)] find_ldpid_some[OF inv id] id_inj[OF inv n(1)] n(2) by (cases "nbr_find_ldpid i t") fastforce+
  ultimately show ?thesis using x n l by (auto simp: neighbours_def)
qed

lemma hello_accept_forms:
  assumes inv: "engine_inv s" and src: "source_live s source" and id: "id_small i"
    and new: "adj_find source s = None" "nbr_find_ldpid i s = None" "nbr_find_addr f addr s = None"
    and ds: "\<not> has_flag (ho_rcvd ho) F_HELLO_TLV_RCVD_DS"
  shows "ensures (hello_accept r i msg f source addr scope_id holdtime flags ho s) (\<lambda>t. engine_inv t \<and> neighbours i source t)"
proof -
  have "ensures (hello_accept r i msg f source addr scope_id holdtime flags ho s)
      (\<lambda>t. grown s t \<and> (adj_find source s = None \<longrightarrow> (\<exists>k. map_option adj_face (e_adjs t k) = Some (i, source))) \<and>
         (nbr_find_ldpid i s = None \<longrightarrow> True \<longrightarrow> (\<exists>h. map_option n_id (e_nbrs t h) = Some i)))"
    using hello_formed_ok[OF inv src id, where c = True and a = f and addr = addr and ds = False and scope_id = scope_id and
        flags = flags and ho = ho and holdtime = holdtime and r = r] new ds
    by (simp add: hello_accept_def Let_def)
  then show ?thesis
  proof (rule ensures_mono)
    fix t assume t: "grown s t \<and> (adj_find source s = None \<longrightarrow> (\<exists>k. map_option adj_face (e_adjs t k) = Some (i, source))) \<and>
         (nbr_find_ldpid i s = None \<longrightarrow> True \<longrightarrow> (\<exists>h. map_option n_id (e_nbrs t h) = Some i))"
    then have e: "engine_inv t" "disc_inv t" by (auto simp: grown_def kept_def engine_inv_def)
    then show "engine_inv t \<and> neighbours i source t" using t new neighbours_linked[OF e(2) id] by blast
  qed
qed

text \<open>The hello of one engine, as it arrives at another.\<close>

lemma hello_received:
  assumes "id_small (ldp_rtr_id_get a)" and "\<not> bad_addr f src" and "disc_find_iface ifindex f src True b = Inr (Some j)"
    and hold: "holdtime = 0 \<or> MIN_HOLDTIME \<le> holdtime" and targ: "\<not> has_flag flags F_HELLO_TARGETED"
    and addr: "\<not> bad_addr f (hello_trans f a)" and x: "e_ifaces b j = Some x"
  shows "\<exists>msg scope_id. disc_recv_packet r f src ifindex True (hello_bytes f holdtime flags a) b =
    hello_accept r (ldp_rtr_id_get a) msg f (HELLO_LINK j f src) (hello_trans f a) scope_id holdtime flags (hello_read f a) b"
proof -
  let ?b = "hello_bytes f holdtime flags a"
  let ?n = "hello_size f"
  have n: "?n \<in> {42, 54}" by (cases f) (simp_all add: hello_size_def)
  have len: "unat (of_nat (length ?b) :: u16) = ?n" using n by (auto simp: length_hello_bytes unat_of_nat)
  have pl: "unat (of_nat ?n - 4 :: u16) = ?n - 4" "unat (of_nat ?n - 14 :: u16) = ?n - 14" using n by auto
  have ld: "ld16 ?b 0 = Inr (ntohs LDP_VERSION)" "ld16 ?b 2 = Inr (ntohs (of_nat ?n - 4))" "ld32 ?b 4 = Inr (ldp_rtr_id_get a)"
    "ld16 ?b 8 = Inr (ntohs 0)" by (simp_all add: hello_bytes_def ld_past ld32_le)
  have d: "drop 10 ?b = be16 MSG_TYPE_HELLO @ be16 (of_nat ?n - 14) @ be32 (msgcnt a + 1) @ drop 18 ?b"
    "drop 18 ?b = be16 TLV_TYPE_COMMONHELLO @ be16 4 @ be16 holdtime @ be16 flags @ hello_opts_bytes f a"
    by (simp_all add: hello_bytes_def)
  have msg: "ld_msg (drop 10 ?b) = Inr \<lparr>lm_type = ntohs MSG_TYPE_HELLO, lm_length = ntohs (of_nat ?n - 14), lm_id = ntohl (msgcnt a + 1)\<rparr>"
    by (simp add: d(1) ld_msg_def ld_past)
  let ?msg = "\<lparr>lm_type = ntohs MSG_TYPE_HELLO, lm_length = ntohs (of_nat ?n - 14), lm_id = ntohl (msgcnt a + 1)\<rparr>"
  have "disc_recv_packet r f src ifindex True ?b b = recv_hello r (ldp_rtr_id_get a) ?msg f src j True (drop 18 ?b) (?n - 18) b"
    using assms(2,3) n len pl ld msg by (auto simp: disc_recv_packet_def Let_def)
  moreover have "tlv_decode_hello_prms (drop 18 ?b) (?n - 18) = Inr (Some (holdtime, flags))"
    unfolding d(2) by (rule hello_prms_read_back) (use n in auto)
  moreover have "drop 8 (drop 18 ?b) = hello_opts_bytes f a" by (simp add: d(2))
  then have "tlv_decode_opt_hello_prms (leconf b) f (drop 8 (drop 18 ?b)) (?n - 18 - 8) 0 hello_opts_zero = Inr (Some (?n - 26, hello_read f a))"
    using hello_opts_read_back[of "leconf b" f a] by simp
  moreover have "\<not> (holdtime \<noteq> 0 \<and> holdtime < MIN_HOLDTIME)" using hold by auto
  moreover have "has_flag (ho_rcvd (hello_read f a)) F_HELLO_TLV_RCVD_ADDR" "ho_addr (hello_read f a) = hello_trans f a"
    by (simp_all add: hello_read_def has_flag_def)
  ultimately show ?thesis using targ addr x by (simp add: recv_hello_def Let_def iface_get_def del: drop_drop) blast
qed

lemma send_hello_bytes:
  assumes "e_ifaces a i = Some y" and "\<not> ldp_is_dual_stack (leconf a)"
  shows "\<exists>flags a1. send_hello (HELLO_LINK i f w) a = Inr a1 \<and> \<not> has_flag flags F_HELLO_TARGETED \<and>
    e_hellos a1 = e_hellos a @ [\<lparr>hp_fd = ag_disc_socket (ldp_af_global_get a f), hp_af = f, hp_dst = mcast_addr f,
      hp_bytes = hello_bytes f (if_get_hello_holdtime a f (iface_af_get y f)) flags a\<rparr>]"
  using assms
  by (intro exI[of _ "if f = AF_INET \<and> \<not> has_flag (ac_flags (c_ipv4 (leconf a))) F_LDPD_AF_NO_GTSM then F_HELLO_GTSM else 0"])
     (simp add: send_hello_def iface_get_def hello_packet_bytes has_flag_def)

lemma hello_neighbour:
  assumes inv: "engine_inv b" and y: "e_ifaces a i = Some y" "\<not> ldp_is_dual_stack (leconf a)"
    and hold: "if_get_hello_holdtime a f (iface_af_get y f) = 0 \<or> MIN_HOLDTIME \<le> if_get_hello_holdtime a f (iface_af_get y f)"
    and id: "id_small (ldp_rtr_id_get a)" and src: "\<not> bad_addr f src" and j: "disc_find_iface ifindex f src True b = Inr (Some j)"
    and addr: "\<not> bad_addr f (hello_trans f a)"
    and new: "adj_find (HELLO_LINK j f src) b = None" "nbr_find_ldpid (ldp_rtr_id_get a) b = None" "nbr_find_addr f (hello_trans f a) b = None"
  shows "\<exists>a1 p b1. send_hello (HELLO_LINK i f w) a = Inr a1 \<and> e_hellos a1 = e_hellos a @ [p] \<and> hp_dst p = mcast_addr f \<and>
    disc_recv_packet r f src ifindex True (hp_bytes p) b = Inr b1 \<and> ld32 (hp_bytes p) 4 = Inr (ldp_rtr_id_get a) \<and>
    neighbours (ldp_rtr_id_get a) (HELLO_LINK j f src) b1"
proof -
  let ?h = "if_get_hello_holdtime a f (iface_af_get y f)"
  obtain flags a1 where s: "send_hello (HELLO_LINK i f w) a = Inr a1" "\<not> has_flag flags F_HELLO_TARGETED"
    "e_hellos a1 = e_hellos a @ [\<lparr>hp_fd = ag_disc_socket (ldp_af_global_get a f), hp_af = f, hp_dst = mcast_addr f,
      hp_bytes = hello_bytes f ?h flags a\<rparr>]" using send_hello_bytes[OF y, of f w] by blast
  have "disc_inv b" using inv by (simp add: engine_inv_def)
  then obtain x where x: "e_ifaces b j = Some x" using find_iface_ok[of b ifindex f src True] j by auto
  obtain msg sc where rc: "disc_recv_packet r f src ifindex True (hello_bytes f ?h flags a) b =
      hello_accept r (ldp_rtr_id_get a) msg f (HELLO_LINK j f src) (hello_trans f a) sc ?h flags (hello_read f a) b"
    using hello_received[OF id src j hold s(2) addr x] by blast
  have "source_live b (HELLO_LINK j f src)" using x by (simp add: source_live_def)
  moreover have "\<not> has_flag (ho_rcvd (hello_read f a)) F_HELLO_TLV_RCVD_DS" by (simp add: hello_read_def has_flag_def)
  ultimately obtain b1 where "disc_recv_packet r f src ifindex True (hello_bytes f ?h flags a) b = Inr b1"
    "neighbours (ldp_rtr_id_get a) (HELLO_LINK j f src) b1"
    using hello_accept_forms[OF inv _ id new, of "hello_read f a" r msg sc ?h flags] rc by (auto simp: ensures_iff)
  moreover have "ld32 (hello_bytes f ?h flags a) 4 = Inr (ldp_rtr_id_get a)" by (simp add: hello_bytes_def ld_past ld32_le)
  ultimately show ?thesis using s by auto
qed

subsection \<open>An engine that starts\<close>

text \<open>One interface, 10.0.0.0/8, with LDP enabled for IPv4; the router id is the address on it.\<close>

definition demo_iface :: "u32 \<Rightarrow> iface" where
  "demo_iface rid =
     \<lparr>if_name = ''eth0'', if_ifindex = 1,
       if_addr_list = [\<lparr>ifa_af = AF_INET, ifa_addr = v4_addr rid, ifa_prefixlen = 8, ifa_dstbrd = addr_zero\<rparr>],
       if_linklocal = addr_zero, if_pointopoint = False, if_flags = 0x41,
       if_ipv4 = \<lparr>ia_enabled = True, ia_active = True, ia_adj_list = [], ia_hello_timer = Some 5, ia_hello_holdtime = 15,
         ia_hello_interval = 5\<rparr>,
       if_ipv6 = \<lparr>ia_enabled = False, ia_active = False, ia_adj_list = [], ia_hello_timer = None, ia_hello_holdtime = 15,
         ia_hello_interval = 5\<rparr>\<rparr>"

definition demo_start :: "u32 \<Rightarrow> ldpe" where
  "demo_start rid =
     (let ac = \<lparr>ac_keepalive = 180, ac_lhello_holdtime = 0, ac_lhello_interval = 0, ac_thello_holdtime = 0,
            ac_thello_interval = 0, ac_trans_addr = v4_addr rid, ac_flags = F_LDPD_AF_ENABLED\<rparr>
      in \<lparr>e_nbrs = (\<lambda>_. None), nbrs_by_id = RNil, nbrs_by_addr = RNil, nbrs_by_pid = RNil, e_adjs = (\<lambda>_. None),
          e_adj_list = [], e_ifaces = (\<lambda>i. if i = 0 then Some (demo_iface rid) else None), e_tnbrs = (\<lambda>_. None), e_next = 0,
          leconf = demo_conf\<lparr>c_iface_list := [0], c_ipv4 := ac, c_ipv6 := ac\<lparr>ac_flags := 0\<rparr>\<rparr>, g_rtr_id = rid,
          g_ipv4 = \<lparr>ag_disc_socket = 3, ag_edisc_socket = 4, ag_session_socket = 5\<rparr>,
          g_ipv6 = \<lparr>ag_disc_socket = -1, ag_edisc_socket = -1, ag_session_socket = -1\<rparr>,
          g_conf_seqnum = 0, g_addr_list = [], g_pending_conns = [], e_detached = [], msgcnt = 0, peercnt = 1,
          e_to_lde = [], e_net = [], e_hellos = []\<rparr>)"

end
