(* ===== verification/Ldpe_Main.thy ===== *)
theory Ldpe_Main
  imports Ldpe_Hello
begin

text \<open>
  What the parent process tells the protocol engine (\<open>ldpe_dispatch_main\<close> of \<open>ldpe.c\<close>): interfaces that
  change, addresses that come and go, sockets that are closed and set up, a new router id; and what follows
  from it for the interfaces (\<open>interface.c\<close>) and the targeted neighbours.

  Whether the operating system lets an interface join the multicast group, and what a connection attempt
  comes to, are arguments, given per interface and family and per neighbour.  A family argument of C that can
  be \<open>AF_UNSPEC\<close> is an optional family.  The reconfiguration messages are not part of the model, nor is the
  request for new sockets, which goes back to the parent process.
\<close>

subsection \<open>Hellos of an interface\<close>

abbreviation (input) IFF_UP :: u16 where "IFF_UP \<equiv> 0x0001"
abbreviation (input) IFF_BROADCAST :: u32 where "IFF_BROADCAST \<equiv> 0x0002"
abbreviation (input) IFF_POINTOPOINT :: u32 where "IFF_POINTOPOINT \<equiv> 0x0010"
abbreviation (input) IFF_RUNNING :: u16 where "IFF_RUNNING \<equiv> 0x0040"
abbreviation (input) IFF_MULTICAST :: u32 where "IFF_MULTICAST \<equiv> 0x1000"

definition if_start_hello_timer :: "nat \<Rightarrow> af \<Rightarrow> ldpe \<Rightarrow> ldpe" where
  "if_start_hello_timer i f s =
     ia_set i f (\<lambda>ia. ia\<lparr>ia_hello_timer := Some (uint (if_get_hello_interval s f ia))\<rparr>) s"

definition if_stop_hello_timer :: "nat \<Rightarrow> af \<Rightarrow> ldpe \<Rightarrow> ldpe" where
  "if_stop_hello_timer i f = ia_set i f (\<lambda>ia. ia\<lparr>ia_hello_timer := None\<rparr>)"

definition if_hello_timer :: "nat \<Rightarrow> af \<Rightarrow> ldpe \<Rightarrow> ldpe result" where
  "if_hello_timer i f s =
     and_then (send_hello (HELLO_LINK i f addr_zero) (if_stop_hello_timer i f s)) (\<lambda>s1.
       Inr (if_start_hello_timer i f s1))"

subsection \<open>Starting and stopping an interface\<close>

definition if_start :: "(nat \<Rightarrow> af \<Rightarrow> bool) \<Rightarrow> nat \<Rightarrow> af \<Rightarrow> ldpe \<Rightarrow> ldpe result" where
  "if_start joins i f s =
     (if \<not> joins i f then Inr s
      else and_then (send_hello (HELLO_LINK i f addr_zero) s) (\<lambda>s1. Inr (if_start_hello_timer i f s1)))"

text \<open>The loop of \<open>if_reset\<close>, which takes the first adjacency of the interface until there is none.\<close>

partial_function (option) del_ia_adjs :: "nat \<Rightarrow> af \<Rightarrow> ldpe \<Rightarrow> ldpe result option" where
  "del_ia_adjs i f s =
     (case e_ifaces s i of
        None \<Rightarrow> Some (Inl Use_after_free)
      | Some x \<Rightarrow>
          (case ia_adj_list (iface_af_get x f) of
             [] \<Rightarrow> Some (Inr s)
           | a # _ \<Rightarrow>
               (case adj_del a S_SHUTDOWN s of
                  Inl e \<Rightarrow> Some (Inl e)
                | Inr s1 \<Rightarrow> del_ia_adjs i f s1)))"

definition if_reset :: "nat \<Rightarrow> af \<Rightarrow> ldpe \<Rightarrow> ldpe result" where
  "if_reset i f s = of_loop (del_ia_adjs i f (if_stop_hello_timer i f s))"

definition if_update_af :: "(nat \<Rightarrow> af \<Rightarrow> bool) \<Rightarrow> nat \<Rightarrow> af \<Rightarrow> bool \<Rightarrow> ldpe \<Rightarrow> ldpe result" where
  "if_update_af joins i f link_ok s =
     and_then (iface_get i s) (\<lambda>x.
       let addr_ok = (case f of AF_INET \<Rightarrow> list_ex (\<lambda>a. ifa_af a = AF_INET) (if_addr_list x)
                      | AF_INET6 \<Rightarrow> in6_linklocal (if_linklocal x));
           socket_ok = (ag_disc_socket (ldp_af_global_get s f) \<noteq> -1);
           rtr_id_ok = (ldp_rtr_id_get s \<noteq> 0);
           ok = (ia_enabled (iface_af_get x f) \<and> link_ok \<and> addr_ok \<and> socket_ok \<and> rtr_id_ok)
       in if \<not> ia_active (iface_af_get x f)
          then (if \<not> ok then Inr s else if_start joins i f (ia_set i f (\<lambda>ia. ia\<lparr>ia_active := True\<rparr>) s))
          else if ok then Inr s
          else if_reset i f (ia_set i f (\<lambda>ia. ia\<lparr>ia_active := False\<rparr>) s))"

definition if_update :: "(nat \<Rightarrow> af \<Rightarrow> bool) \<Rightarrow> nat \<Rightarrow> af option \<Rightarrow> ldpe \<Rightarrow> ldpe result" where
  "if_update joins i f s =
     and_then (iface_get i s) (\<lambda>x.
       let link_ok = (has_flag (if_flags x) IFF_UP \<and> has_flag (if_flags x) IFF_RUNNING) in
       and_then (if f = Some AF_INET \<or> f = None then if_update_af joins i AF_INET link_ok s else Inr s) (\<lambda>s1.
         if f = Some AF_INET6 \<or> f = None then if_update_af joins i AF_INET6 link_ok s1 else Inr s1))"

definition if_update_all :: "(nat \<Rightarrow> af \<Rightarrow> bool) \<Rightarrow> af option \<Rightarrow> ldpe \<Rightarrow> ldpe result" where
  "if_update_all joins f s = foreach (\<lambda>i. if_update joins i f) (c_iface_list (leconf s)) s"

definition tnbr_update_all :: "af option \<Rightarrow> ldpe \<Rightarrow> ldpe result" where
  "tnbr_update_all f s =
     foreach (\<lambda>t s. and_then (tnbr_get t s) (\<lambda>y. if Some (tn_af y) = f \<or> f = None then tnbr_update t s else Inr s))
       (c_tnbr_list (leconf s)) s"

subsection \<open>Addresses\<close>

record kif =
  kif_ifname :: string
  kif_ifindex :: u16
  kif_flags :: u32

record kaddr =
  ka_ifindex :: u16
  ka_af :: af
  ka_addr :: ldpd_addr
  ka_prefixlen :: u8
  ka_dstbrd :: ldpd_addr

definition if_lookup_name :: "string \<Rightarrow> ldpe \<Rightarrow> nat option" where
  "if_lookup_name ifname s =
     find (\<lambda>i. case e_ifaces s i of None \<Rightarrow> False | Some x \<Rightarrow> if_name x = ifname) (c_iface_list (leconf s))"

definition if_update_info :: "kif \<Rightarrow> iface \<Rightarrow> iface" where
  "if_update_info k x =
     x\<lparr>if_pointopoint := (if has_flag (kif_flags k) IFF_BROADCAST \<and> has_flag (kif_flags k) IFF_MULTICAST then False
                          else if has_flag (kif_flags k) IFF_POINTOPOINT then True else if_pointopoint x),
       if_ifindex := ucast (kif_ifindex k), if_flags := ucast (kif_flags k)\<rparr>"

definition if_addr_new :: "kaddr \<Rightarrow> if_addr" where
  "if_addr_new ka = \<lparr>ifa_af = ka_af ka, ifa_addr = ka_addr ka, ifa_prefixlen = ka_prefixlen ka, ifa_dstbrd = ka_dstbrd ka\<rparr>"

definition if_addr_lookup :: "if_addr list \<Rightarrow> kaddr \<Rightarrow> if_addr option" where
  "if_addr_lookup as ka =
     find (\<lambda>x. ldp_addrcmp (ka_af ka) (ifa_addr x) (ka_addr ka) = 0 \<and> ifa_prefixlen x = ka_prefixlen ka \<and>
       ldp_addrcmp (ka_af ka) (ifa_dstbrd x) (ka_dstbrd ka) = 0) as"

text \<open>The operational neighbours of the family are told.\<close>

definition announce_addr :: "if_addr \<Rightarrow> bool \<Rightarrow> ldpe \<Rightarrow> ldpe result" where
  "announce_addr x withdraw s =
     foreach (\<lambda>h s. and_then (nbr_get h s) (\<lambda>n.
         if n_state n \<noteq> NBR_STA_OPER \<or> (ifa_af x = AF_INET \<and> \<not> n_v4_enabled n) \<or> (ifa_af x = AF_INET6 \<and> \<not> n_v6_enabled n)
         then Inr s else send_address h (ifa_af x) (Some x) withdraw s))
       (inorder (nbrs_by_id s)) s"

definition if_addr_add :: "(nat \<Rightarrow> af \<Rightarrow> bool) \<Rightarrow> kaddr \<Rightarrow> ldpe \<Rightarrow> ldpe result" where
  "if_addr_add joins ka s =
     and_then (if if_addr_lookup (g_addr_list s) ka = None
               then announce_addr (if_addr_new ka) False (s\<lparr>g_addr_list := if_addr_new ka # g_addr_list s\<rparr>)
               else Inr s) (\<lambda>s1.
       case if_lookup (ka_ifindex ka) s1 of
         None \<Rightarrow> Inr s1
       | Some i \<Rightarrow>
           let s2 = (if ka_af ka = AF_INET6 \<and> in6_linklocal (ka_addr ka)
                     then iface_set i (\<lambda>x. x\<lparr>if_linklocal := ka_addr ka\<rparr>) s1 else s1)
           in and_then (iface_get i s2) (\<lambda>x.
                if if_addr_lookup (if_addr_list x) ka = None
                then if_update joins i (Some (ka_af ka))
                       (iface_set i (\<lambda>x. x\<lparr>if_addr_list := if_addr_new ka # if_addr_list x\<rparr>) s2)
                else Inr s2))"

definition if_addr_del :: "(nat \<Rightarrow> af \<Rightarrow> bool) \<Rightarrow> kaddr \<Rightarrow> ldpe \<Rightarrow> ldpe result" where
  "if_addr_del joins ka s =
     and_then
       (case if_lookup (ka_ifindex ka) s of
          None \<Rightarrow> Inr s
        | Some i \<Rightarrow>
            and_then (iface_get i s) (\<lambda>x.
              let s1 = (if ka_af ka = AF_INET6 \<and> if_linklocal x = ka_addr ka
                        then iface_set i (\<lambda>x. x\<lparr>if_linklocal := addr_zero\<rparr>) s else s)
              in case if_addr_lookup (if_addr_list x) ka of
                   None \<Rightarrow> Inr s1
                 | Some y \<Rightarrow>
                     if_update joins i (Some (ifa_af y)) (iface_set i (\<lambda>x. x\<lparr>if_addr_list := remove1 y (if_addr_list x)\<rparr>) s1)))
       (\<lambda>s2.
         case if_addr_lookup (g_addr_list s2) ka of
           None \<Rightarrow> Inr s2
         | Some y \<Rightarrow> and_then (announce_addr y True s2) (\<lambda>s3. Inr (s3\<lparr>g_addr_list := remove1 y (g_addr_list s3)\<rparr>)))"

subsection \<open>Sockets and the router id\<close>

definition af_global_set :: "af \<Rightarrow> ldpd_af_global \<Rightarrow> ldpe \<Rightarrow> ldpe" where
  "af_global_set f g s = (case f of AF_INET \<Rightarrow> s\<lparr>g_ipv4 := g\<rparr> | AF_INET6 \<Rightarrow> s\<lparr>g_ipv6 := g\<rparr>)"

definition ldpe_close_sockets :: "af \<Rightarrow> ldpe \<Rightarrow> ldpe" where
  "ldpe_close_sockets f = af_global_set f \<lparr>ag_disc_socket = -1, ag_edisc_socket = -1, ag_session_socket = -1\<rparr>"

definition ldpe_setup_sockets :: "af \<Rightarrow> int \<Rightarrow> int \<Rightarrow> int \<Rightarrow> ldpe \<Rightarrow> ldpe" where
  "ldpe_setup_sockets f disc edisc session =
     af_global_set f \<lparr>ag_disc_socket = disc, ag_edisc_socket = edisc, ag_session_socket = session\<rparr>"

definition ldpe_reset_nbrs :: "af \<Rightarrow> ldpe \<Rightarrow> ldpe result" where
  "ldpe_reset_nbrs f s =
     foreach (\<lambda>h s. and_then (nbr_get h s) (\<lambda>n. if n_af n = f then session_shutdown h S_SHUTDOWN 0 0 s else Inr s))
       (inorder (nbrs_by_id s)) s"

definition nbr_reconnect :: "(nat \<Rightarrow> connect_result) \<Rightarrow> af \<Rightarrow> nat \<Rightarrow> ldpe \<Rightarrow> ldpe result" where
  "nbr_reconnect r f h s =
     and_then (nbr_get h s) (\<lambda>n.
       if n_af n \<noteq> f then Inr s
       else let n1 = n\<lparr>n_laddr := ac_trans_addr (ldp_af_conf_get (leconf s) f)\<rparr>; s1 = nbr_set h (\<lambda>_. n1) s
            in if nbr_session_active_role n1 then nbr_establish_connection (r h) h s1 else Inr s1)"

text \<open>The descriptors that are set up are those the preceding messages brought; -1 where one is missing.\<close>

datatype main_imsg =
    IMSG_IFSTATUS kif
  | IMSG_NEWADDR kaddr
  | IMSG_DELADDR kaddr
  | IMSG_CLOSE_SOCKETS af
  | IMSG_SETUP_SOCKETS af int int int
  | IMSG_RTRID_UPDATE u32

fun ldpe_handle_main :: "(nat \<Rightarrow> af \<Rightarrow> bool) \<Rightarrow> (nat \<Rightarrow> connect_result) \<Rightarrow> main_imsg \<Rightarrow> ldpe \<Rightarrow> ldpe result" where
  "ldpe_handle_main joins r (IMSG_IFSTATUS k) s =
     (case if_lookup_name (kif_ifname k) s of
        None \<Rightarrow> Inr s
      | Some i \<Rightarrow> if_update joins i None (iface_set i (if_update_info k) s))"
| "ldpe_handle_main joins r (IMSG_NEWADDR ka) s = if_addr_add joins ka s"
| "ldpe_handle_main joins r (IMSG_DELADDR ka) s = if_addr_del joins ka s"
| "ldpe_handle_main joins r (IMSG_CLOSE_SOCKETS f) s =
     and_then (ldpe_reset_nbrs f s) (\<lambda>s1.
     and_then (if_update_all joins (Some f) (ldpe_close_sockets f s1)) (tnbr_update_all (Some f)))"
| "ldpe_handle_main joins r (IMSG_SETUP_SOCKETS f disc edisc session) s =
     (if disc = -1 \<or> edisc = -1 \<or> session = -1 then Inr s
      else and_then (if_update_all joins (Some f) (ldpe_setup_sockets f disc edisc session s)) (\<lambda>s1.
           and_then (tnbr_update_all (Some f) s1) (\<lambda>s2.
             foreach (nbr_reconnect r f) (inorder (nbrs_by_id s2)) s2)))"
| "ldpe_handle_main joins r (IMSG_RTRID_UPDATE rtr_id) s =
     (let s1 = s\<lparr>g_rtr_id := rtr_id\<rparr> in
      and_then (if c_rtr_id (leconf s) = 0
                then and_then (ldpe_reset_nbrs AF_INET s1) (ldpe_reset_nbrs AF_INET6) else Inr s1) (\<lambda>s2.
      and_then (if_update_all joins None s2) (tnbr_update_all None)))"

end
