(* ===== verification/Ldpe_Reach.thy ===== *)
theory Ldpe_Reach
  imports Ldpe_Discover Ldpe_Main
begin

text \<open>
  The protocol engine as a whole: every event it handles (hellos, bytes and connections on its sockets, its
  timers, messages of the label decision engine and of the parent process) keeps the invariant of sessions
  and discovery, so the invariant holds in every state the engine can reach.
\<close>

subsection \<open>Interfaces\<close>

text \<open>What a change of the interfaces leaves alone.\<close>

definition steady :: "ldpe \<Rightarrow> ldpe \<Rightarrow> bool" where
  "steady s t \<longleftrightarrow> engine_inv t \<and> dom (e_ifaces t) = dom (e_ifaces s) \<and> leconf t = leconf s \<and> peercnt t = peercnt s"

lemma steady_refl: "engine_inv s \<Longrightarrow> steady s s"
  by (simp add: steady_def)

lemma steady_trans: "steady s t \<Longrightarrow> steady t u \<Longrightarrow> steady s u"
  by (simp add: steady_def)

lemma steady_engine: "steady s t \<Longrightarrow> engine_inv t"
  by (simp add: steady_def)

lemma shrunk_steady: "engine_inv t \<Longrightarrow> shrunk s t \<Longrightarrow> steady s t"
  using ifaces_same_dom[of s t] by (auto simp: steady_def shrunk_def dom_def)

lemma quiet_steady: "engine_inv s \<Longrightarrow> quiet s t \<Longrightarrow> steady s t"
  using quiet_engine[of s t] quiet_tnbrs[of s t] by (simp add: steady_def quiet_def)

lemma iface_set_steady:
  assumes inv: "engine_inv s" and g: "\<And>x f. ia_adj_list (iface_af_get (g x) f) = ia_adj_list (iface_af_get x f)"
    and ok: "\<And>x. iface_ok x \<Longrightarrow> iface_ok (g x)"
  shows "steady s (iface_set i g s)"
proof -
  let ?t = "iface_set i g s"
  have f: "e_nbrs ?t = e_nbrs s" "nbrs_by_id ?t = nbrs_by_id s" "nbrs_by_addr ?t = nbrs_by_addr s" "nbrs_by_pid ?t = nbrs_by_pid s"
    "e_adjs ?t = e_adjs s" "e_adj_list ?t = e_adj_list s" "e_tnbrs ?t = e_tnbrs s" "e_next ?t = e_next s" "leconf ?t = leconf s"
    "peercnt ?t = peercnt s" "e_to_lde ?t = e_to_lde s"
    "\<And>j. e_ifaces ?t j = (if j = i then map_option g (e_ifaces s i) else e_ifaces s j)"
    by (simp_all add: iface_set_def)
  have i: "disc_inv s" "sess_inv s" using inv by (simp_all add: engine_inv_def)
  have dom: "dom (e_ifaces ?t) = dom (e_ifaces s)" by (auto simp: f split: if_splits)
  have "source_ok ?t = source_ok s" by (intro ext) (simp add: source_ok_def f split: hello_source.split)
  then have "adjs_ok ?t" using i(1) by (simp add: disc_inv_def adjs_ok_def f)
  moreover have "iface_ok y" if "e_ifaces ?t j = Some y" for j y
  proof -
    have old: "iface_ok z" if "e_ifaces s k = Some z" for k z using i(1) that unfolding disc_inv_def conf_ok_def by blast
    show ?thesis using that old ok by (cases "j = i") (auto simp only: f(12) if_True if_False refl map_option_eq_Some)
  qed
  then have "conf_ok ?t" using i(1) unfolding disc_inv_def conf_ok_def dom f(7,9) by blast
  moreover have "nbr_links_ok ?t" "trees_ok ?t" "fresh_ok ?t" "queues_ok ?t"
    using i(1) by (simp_all add: disc_inv_def nbr_links_ok_def trees_ok_def fresh_ok_def queues_ok_def f id_of_def[abs_def])
  moreover have ia: "ia_adjs ?t j h = ia_adjs s j h" for j h by (cases "e_ifaces s i") (auto simp: ia_adjs_def f g)
  have "faces_ok s" using i(1) by (simp add: disc_inv_def)
  then have "faces_ok ?t" by (rule faces_ok_cong[OF _ _ ia]) (simp add: f(5))
  moreover have "sess_inv ?t" using sess_inv_cong[of ?t s] i(2) f by simp
  ultimately show ?thesis using dom f by (simp add: steady_def engine_inv_def disc_inv_def)
qed

lemma ia_set_steady:
  assumes "engine_inv s" and "\<And>ia. ia_adj_list (g ia) = ia_adj_list ia"
  shows "steady s (ia_set i f g s)"
  unfolding ia_set_def
  by (rule iface_set_steady[OF assms(1)]) (auto simp: iface_af_get_def iface_ok_def assms(2) split: af.split)

lemma if_started_ok:
  assumes inv: "engine_inv s" and i: "e_ifaces s i \<noteq> None"
  shows "ensures (and_then (send_hello (HELLO_LINK i f addr_zero) s) (\<lambda>s1. Inr (if_start_hello_timer i f s1))) (steady s)"
proof (rule ensures_and_then[OF send_hello_quiet])
  show "source_live s (HELLO_LINK i f addr_zero)" using i by (simp add: source_live_def)
  fix t assume q: "quiet s t"
  have "steady t (if_start_hello_timer i f t)" unfolding if_start_hello_timer_def
    by (rule ia_set_steady[OF quiet_engine[OF inv q]]) simp
  then show "ensures (Inr (if_start_hello_timer i f t)) (steady s)" using steady_trans[OF quiet_steady[OF inv q]] by simp
qed

text \<open>The loop that deletes the adjacencies of an interface ends, with none left.\<close>

lemma del_ia_adjs_ok:
  assumes "engine_inv s" and "ia_adjs s i f = Some as"
  shows "\<exists>t. del_ia_adjs i f s = Some (Inr t) \<and> steady s t \<and> ia_adjs t i f = Some []"
  using assms
proof (induction "length as" arbitrary: s as rule: less_induct)
  case less
  obtain x where x: "e_ifaces s i = Some x" "ia_adj_list (iface_af_get x f) = as" using less.prems(2) by (auto simp: ia_adjs_def)
  show ?case
  proof (cases as)
    case Nil
    then show ?thesis using x less.prems steady_refl by (subst del_ia_adjs.simps) auto
  next
    case (Cons a bs)
    have d: "disc_inv s" using less.prems(1) by (simp add: engine_inv_def)
    then have as: "distinct as" "b \<in> set as \<longleftrightarrow> (\<exists>w. map_option adj_source (e_adjs s b) = Some (HELLO_LINK i f w))" for b
      using less.prems(2) unfolding disc_inv_def faces_ok_def by blast+
    then obtain y where y: "e_adjs s a = Some y" using Cons by fastforce
    from adj_del_ok[OF less.prems(1) y, of S_SHUTDOWN] obtain u where
      u: "adj_del a S_SHUTDOWN s = Inr u" "engine_inv u" "shrunk s u" "e_adjs u a = None" by (auto simp: ensures_iff)
    have st: "steady s u" using shrunk_steady[OF u(2,3)] .
    then have "e_ifaces u i \<noteq> None" using x(1) by (auto simp: steady_def)
    then obtain cs where cs: "ia_adjs u i f = Some cs" by (auto simp: ia_adjs_def)
    then have cs': "distinct cs" "b \<in> set cs \<longleftrightarrow> (\<exists>w. map_option adj_source (e_adjs u b) = Some (HELLO_LINK i f w))" for b
      using u(2) unfolding engine_inv_def disc_inv_def faces_ok_def by blast+
    have "e_adjs u \<subseteq>\<^sub>m e_adjs s" using u(3) by (simp add: shrunk_def)
    then have "set cs \<subseteq> set as - {a}" using cs'(2) as(2) u(4) by (fastforce simp: map_le_def dom_def)
    then have "set cs \<subset> set as" using Cons by auto
    then have "length cs < length as" using cs'(1) as(1) psubset_card_mono[of "set as" "set cs"] by (simp add: distinct_card)
    from less.hyps[OF this u(2) cs] obtain t where t: "del_ia_adjs i f u = Some (Inr t)" "steady u t" "ia_adjs t i f = Some []" by blast
    then show ?thesis using x Cons u(1) steady_trans[OF st] by (subst del_ia_adjs.simps) simp
  qed
qed

lemma if_reset_ok:
  assumes inv: "engine_inv s" and i: "e_ifaces s i \<noteq> None"
  shows "ensures (if_reset i f s) (\<lambda>t. steady s t \<and> ia_adjs t i f = Some [])"
proof -
  let ?s = "if_stop_hello_timer i f s"
  have st: "steady s ?s" unfolding if_stop_hello_timer_def by (rule ia_set_steady[OF inv]) simp
  then have "e_ifaces ?s i \<noteq> None" using i by (auto simp: steady_def)
  then obtain as where "ia_adjs ?s i f = Some as" by (auto simp: ia_adjs_def)
  from del_ia_adjs_ok[OF steady_engine[OF st] this] show ?thesis using steady_trans[OF st] by (auto simp: if_reset_def of_loop_def)
qed

lemma if_update_af_ok:
  assumes inv: "engine_inv s" and i: "e_ifaces s i \<noteq> None"
  shows "ensures (if_update_af joins i f link_ok s) (steady s)"
proof -
  let ?a = "ia_set i f (\<lambda>ia. ia\<lparr>ia_active := True\<rparr>) s" and ?d = "ia_set i f (\<lambda>ia. ia\<lparr>ia_active := False\<rparr>) s"
  have st: "steady s ?a" "steady s ?d" by (rule ia_set_steady[OF inv], simp)+
  then have l: "e_ifaces ?a i \<noteq> None" "e_ifaces ?d i \<noteq> None" using i by (auto simp: steady_def)
  have "ensures (if_start joins i f ?a) (steady s)"
    using ensures_mono[OF if_started_ok[OF steady_engine[OF st(1)] l(1)] steady_trans[OF st(1)]] st(1) by (simp add: if_start_def)
  moreover have "ensures (if_reset i f ?d) (steady s)"
    by (rule ensures_mono[OF if_reset_ok[OF steady_engine[OF st(2)] l(2)]]) (use steady_trans[OF st(2)] in blast)
  ultimately show ?thesis using i steady_refl[OF inv] unfolding if_update_af_def Let_def by (auto simp: iface_get_def)
qed

lemma if_update_ok:
  assumes inv: "engine_inv s" and i: "e_ifaces s i \<noteq> None"
  shows "ensures (if_update joins i f s) (steady s)"
proof -
  obtain x where x: "e_ifaces s i = Some x" using i by auto
  have one: "ensures (if c then if_update_af joins i g l t else Inr t) (steady s)" if t: "steady s t" for c g l t
  proof -
    have "e_ifaces t i \<noteq> None" using t x by (auto simp: steady_def)
    from ensures_mono[OF if_update_af_ok[OF steady_engine[OF t] this, of joins g l] steady_trans[OF t]] show ?thesis using t by simp
  qed
  have "iface_get i s = Inr x" using x by (simp add: iface_get_def)
  then show ?thesis unfolding if_update_def Let_def
    by (simp only: and_then_simps) (rule ensures_and_then[OF one[OF steady_refl[OF inv]] one])
qed

subsection \<open>Messages of the parent process\<close>

lemma if_update_all_ok:
  assumes inv: "engine_inv s"
  shows "ensures (if_update_all joins f s) (steady s)"
  unfolding if_update_all_def
proof (rule ensures_foreach[where P = "steady s", OF steady_refl[OF inv]])
  fix i t assume i: "i \<in> set (c_iface_list (leconf s))" and t: "steady s t"
  have "e_ifaces s i \<noteq> None" using inv i by (auto simp: engine_inv_def disc_inv_def conf_ok_def)
  then have "e_ifaces t i \<noteq> None" using t by (auto simp: steady_def)
  from ensures_mono[OF if_update_ok[OF steady_engine[OF t] this] steady_trans[OF t]]
  show "ensures (if_update joins i f t) (steady s)" .
qed

lemma tnbr_update_all_ok:
  assumes inv: "engine_inv s"
  shows "ensures (tnbr_update_all f s) (\<lambda>t. kept s t \<and> dom (e_tnbrs t) = dom (e_tnbrs s))"
  unfolding tnbr_update_all_def
proof (rule ensures_foreach)
  show "kept s s \<and> dom (e_tnbrs s) = dom (e_tnbrs s)" by (simp add: kept_refl[OF inv])
  fix k t assume k: "k \<in> set (c_tnbr_list (leconf s))" and t: "kept s t \<and> dom (e_tnbrs t) = dom (e_tnbrs s)"
  have "k \<in> dom (e_tnbrs s)" using inv k by (auto simp: engine_inv_def disc_inv_def conf_ok_def)
  then obtain y where y: "e_tnbrs t k = Some y" using t by auto
  have e: "engine_inv t" using t by (simp add: kept_def)
  have "ensures (tnbr_update k t) (\<lambda>u. kept s u \<and> dom (e_tnbrs u) = dom (e_tnbrs s))"
    by (rule ensures_mono[OF tnbr_update_ok[OF e y]]) (use t kept_trans in auto)
  then show "ensures (and_then (tnbr_get k t) (\<lambda>y. if Some (tn_af y) = f \<or> f = None then tnbr_update k t else Inr t))
      (\<lambda>t. kept s t \<and> dom (e_tnbrs t) = dom (e_tnbrs s))" using y t by (simp add: tnbr_get_def)
qed

text \<open>A loop over the tree of neighbours whose body deletes none of them.\<close>

lemma nbr_loop_ok:
  assumes inv: "engine_inv s"
    and step: "\<And>h t n. engine_inv t \<Longrightarrow> e_nbrs t h = Some n \<Longrightarrow> ensures (f h t) (grown t)"
  shows "ensures (foreach f (inorder (nbrs_by_id s)) s) (grown s)"
proof (rule ensures_foreach[where P = "grown s", OF grown_refl[OF inv]])
  fix h t assume h: "h \<in> set (inorder (nbrs_by_id s))" and t: "grown s t"
  have "h \<in> dom (e_nbrs s)" using inv h by (auto simp: engine_inv_def disc_inv_def trees_ok_def)
  then obtain n where n: "e_nbrs t h = Some n" using grown_dom(2)[OF t] by auto
  have "engine_inv t" using t by (simp add: grown_def kept_def)
  from ensures_mono[OF step[OF this n] grown_trans[OF t]] show "ensures (f h t) (grown s)" .
qed

lemma announce_addr_ok:
  assumes inv: "engine_inv s"
  shows "ensures (announce_addr x w s) (grown s)"
  unfolding announce_addr_def
proof (rule nbr_loop_ok[OF inv])
  fix h t n assume t: "engine_inv t" and n: "e_nbrs t h = Some n"
  have "ensures (send_address h (ifa_af x) (Some x) w t) (grown t)" if "n_state n = NBR_STA_OPER"
  proof (rule ensures_mono[OF send_address_ok[OF _ n that]])
    show "sess_inv t" using t by (simp add: engine_inv_def)
  qed (auto simp: same_session_def intro: sess_ok_grown[OF t])
  then show "ensures (and_then (nbr_get h t) (\<lambda>n. if n_state n \<noteq> NBR_STA_OPER \<or> (ifa_af x = AF_INET \<and> \<not> n_v4_enabled n) \<or>
      (ifa_af x = AF_INET6 \<and> \<not> n_v6_enabled n) then Inr t else send_address h (ifa_af x) (Some x) w t)) (grown t)"
    using n grown_refl[OF t] by (simp add: nbr_get_def)
qed

lemma reset_nbrs_ok:
  assumes inv: "engine_inv s"
  shows "ensures (ldpe_reset_nbrs f s) (grown s)"
  unfolding ldpe_reset_nbrs_def
proof (rule nbr_loop_ok[OF inv])
  fix h t n assume t: "engine_inv t" and n: "e_nbrs t h = Some n"
  show "ensures (and_then (nbr_get h t) (\<lambda>n. if n_af n = f then session_shutdown h S_SHUTDOWN 0 0 t else Inr t)) (grown t)"
    using shutdown_grown[OF t, of h] grown_refl[OF t] n by (simp add: nbr_get_def)
qed

lemma nbr_reconnect_ok:
  assumes t: "engine_inv t" and n: "e_nbrs t h = Some n"
  shows "ensures (nbr_reconnect r f h t) (grown t)"
proof -
  let ?g = "\<lambda>n :: nbr. n\<lparr>n_laddr := ac_trans_addr (ldp_af_conf_get (leconf t) f)\<rparr>"
  have g: "grown t (nbr_set h ?g t)" by (rule nbr_set_grown[OF t]) (simp_all add: field_ok)
  have e: "nbr_set h (\<lambda>_. ?g n) t = nbr_set h ?g t" "e_nbrs (nbr_set h ?g t) h = Some (?g n)" using n by (simp_all add: nbr_set_def)
  have "engine_inv (nbr_set h ?g t)" using g by (simp add: grown_def kept_def)
  from ensures_mono[OF establish_connection_ok[OF this e(2), of "r h"] grown_trans[OF g]]
  show ?thesis using g n grown_refl[OF t] by (simp add: nbr_reconnect_def nbr_get_def Let_def e(1))
qed

lemma quiet_fields:
  "quiet s (s\<lparr>g_addr_list := x\<rparr>)" "quiet s (af_global_set f g s)" "quiet s (s\<lparr>g_rtr_id := i\<rparr>)"
  by (auto simp: quiet_def disc_view_def af_global_set_def split: af.split)

lemma grown_engine: "grown s t \<Longrightarrow> engine_inv t"
  by (simp add: grown_def kept_def)

lemma if_lookup_live: "engine_inv s \<Longrightarrow> if_lookup k s = Some i \<Longrightarrow> e_ifaces s i \<noteq> None"
  by (auto simp: if_lookup_def engine_inv_def disc_inv_def conf_ok_def dest!: find_Some_in)

text \<open>What the parent process reports of an address: an IPv4 prefix has at most 32 bits.\<close>

definition kaddr_ok :: "kaddr \<Rightarrow> bool" where
  "kaddr_ok ka \<longleftrightarrow> (ka_af ka = AF_INET \<longrightarrow> ka_prefixlen ka \<le> 32)"

definition main_ok :: "main_imsg \<Rightarrow> bool" where
  "main_ok m \<longleftrightarrow> (case m of IMSG_NEWADDR ka \<Rightarrow> kaddr_ok ka | _ \<Rightarrow> True)"

lemma if_addr_add_ok:
  assumes inv: "engine_inv s" and ka: "kaddr_ok ka"
  shows "ensures (if_addr_add joins ka s) engine_inv"
  unfolding if_addr_add_def
proof (rule ensures_and_then)
  have "engine_inv (s\<lparr>g_addr_list := if_addr_new ka # g_addr_list s\<rparr>)" by (rule quiet_engine[OF inv quiet_fields(1)])
  from ensures_mono[OF announce_addr_ok[OF this] grown_engine]
  show "ensures (if if_addr_lookup (g_addr_list s) ka = None
      then announce_addr (if_addr_new ka) False (s\<lparr>g_addr_list := if_addr_new ka # g_addr_list s\<rparr>) else Inr s) engine_inv"
    using inv by simp
next
  fix t assume t: "engine_inv t"
  show "ensures (case if_lookup (ka_ifindex ka) t of None \<Rightarrow> Inr t | Some i \<Rightarrow>
      let s2 = (if ka_af ka = AF_INET6 \<and> in6_linklocal (ka_addr ka) then iface_set i (\<lambda>x. x\<lparr>if_linklocal := ka_addr ka\<rparr>) t else t)
      in and_then (iface_get i s2) (\<lambda>x. if if_addr_lookup (if_addr_list x) ka = None
        then if_update joins i (Some (ka_af ka)) (iface_set i (\<lambda>x. x\<lparr>if_addr_list := if_addr_new ka # if_addr_list x\<rparr>) s2)
        else Inr s2)) engine_inv"
  proof (cases "if_lookup (ka_ifindex ka) t")
    case (Some i)
    define u where "u = (if ka_af ka = AF_INET6 \<and> in6_linklocal (ka_addr ka) then iface_set i (\<lambda>x. x\<lparr>if_linklocal := ka_addr ka\<rparr>) t else t)"
    have "steady t (iface_set i (\<lambda>x. x\<lparr>if_linklocal := ka_addr ka\<rparr>) t)"
      by (rule iface_set_steady[OF t]) (simp_all add: iface_af_get_def iface_ok_def split: af.split)
    then have u: "steady t u" using steady_refl[OF t] by (simp add: u_def)
    then obtain x where x: "e_ifaces u i = Some x" using if_lookup_live[OF t Some] by (auto simp: steady_def)
    let ?v = "iface_set i (\<lambda>x. x\<lparr>if_addr_list := if_addr_new ka # if_addr_list x\<rparr>) u"
    have v: "steady u ?v" using ka
      by (intro iface_set_steady[OF steady_engine[OF u]])
         (simp_all add: iface_af_get_def iface_ok_def kaddr_ok_def if_addr_new_def split: af.split)
    then have "e_ifaces ?v i \<noteq> None" using x by (auto simp: steady_def)
    from ensures_mono[OF if_update_ok[OF steady_engine[OF v] this, of joins "Some (ka_af ka)"] steady_engine]
    show ?thesis using Some x steady_engine[OF u] by (simp add: u_def[symmetric] iface_get_def)
  qed (simp add: t)
qed

lemma if_addr_del_ok:
  assumes inv: "engine_inv s"
  shows "ensures (if_addr_del joins ka s) engine_inv"
  unfolding if_addr_del_def
proof (rule ensures_and_then[where Q = engine_inv])
  show "ensures (case if_lookup (ka_ifindex ka) s of None \<Rightarrow> Inr s | Some i \<Rightarrow> and_then (iface_get i s) (\<lambda>x.
      let s1 = (if ka_af ka = AF_INET6 \<and> if_linklocal x = ka_addr ka then iface_set i (\<lambda>x. x\<lparr>if_linklocal := addr_zero\<rparr>) s else s)
      in case if_addr_lookup (if_addr_list x) ka of None \<Rightarrow> Inr s1
         | Some y \<Rightarrow> if_update joins i (Some (ifa_af y)) (iface_set i (\<lambda>x. x\<lparr>if_addr_list := remove1 y (if_addr_list x)\<rparr>) s1))) engine_inv"
  proof (cases "if_lookup (ka_ifindex ka) s")
    case (Some i)
    then obtain x where x: "e_ifaces s i = Some x" using if_lookup_live[OF inv Some] by auto
    define u where "u = (if ka_af ka = AF_INET6 \<and> if_linklocal x = ka_addr ka then iface_set i (\<lambda>x. x\<lparr>if_linklocal := addr_zero\<rparr>) s else s)"
    have "steady s (iface_set i (\<lambda>x. x\<lparr>if_linklocal := addr_zero\<rparr>) s)"
      by (rule iface_set_steady[OF inv]) (simp_all add: iface_af_get_def iface_ok_def split: af.split)
    then have u: "steady s u" using steady_refl[OF inv] by (simp add: u_def)
    have "ensures (if_update joins i f (iface_set i (\<lambda>x. x\<lparr>if_addr_list := remove1 y (if_addr_list x)\<rparr>) u)) engine_inv" for y f
    proof -
      let ?v = "iface_set i (\<lambda>x. x\<lparr>if_addr_list := remove1 y (if_addr_list x)\<rparr>) u"
      have v: "steady u ?v"
        by (rule iface_set_steady[OF steady_engine[OF u]])
           (auto simp: iface_af_get_def iface_ok_def list_all_iff split: af.split dest: notin_set_remove1 set_remove1_subset[THEN subsetD])
      then have "e_ifaces ?v i \<noteq> None" using x u by (auto simp: steady_def)
      from ensures_mono[OF if_update_ok[OF steady_engine[OF v] this] steady_engine] show ?thesis .
    qed
    then show ?thesis using Some x steady_engine[OF u] by (simp add: u_def[symmetric] iface_get_def split: option.split)
  qed (simp add: inv)
next
  fix t assume t: "engine_inv t"
  have "ensures (and_then (announce_addr y True t) (\<lambda>s3. Inr (s3\<lparr>g_addr_list := remove1 y (g_addr_list s3)\<rparr>))) engine_inv" for y
    by (rule ensures_and_then[OF announce_addr_ok[OF t]]) (use quiet_engine[OF grown_engine quiet_fields(1)] in auto)
  then show "ensures (case if_addr_lookup (g_addr_list t) ka of None \<Rightarrow> Inr t
      | Some y \<Rightarrow> and_then (announce_addr y True t) (\<lambda>s3. Inr (s3\<lparr>g_addr_list := remove1 y (g_addr_list s3)\<rparr>))) engine_inv"
    using t by (simp split: option.split)
qed

lemma updates_ok:
  assumes "engine_inv s"
  shows "ensures (and_then (if_update_all joins f s) (tnbr_update_all f)) engine_inv"
  by (rule ensures_and_then[OF if_update_all_ok[OF assms]])
     (rule ensures_mono[OF tnbr_update_all_ok[OF steady_engine]], assumption, simp add: kept_def)

lemma handle_main_ok:
  assumes inv: "engine_inv s" and m: "main_ok m"
  shows "ensures (ldpe_handle_main joins r m s) engine_inv"
proof (cases m)
  case (IMSG_IFSTATUS k)
  show ?thesis
  proof (cases "if_lookup_name (kif_ifname k) s")
    case (Some i)
    then have "e_ifaces s i \<noteq> None" using inv by (auto simp: if_lookup_name_def split: option.splits dest!: find_Some_in)
    moreover have u: "steady s (iface_set i (if_update_info k) s)"
      by (rule iface_set_steady[OF inv]) (simp_all add: if_update_info_def iface_af_get_def iface_ok_def split: af.split)
    ultimately have "e_ifaces (iface_set i (if_update_info k) s) i \<noteq> None" by (auto simp: steady_def)
    from ensures_mono[OF if_update_ok[OF steady_engine[OF u] this] steady_engine] show ?thesis using Some IMSG_IFSTATUS by simp
  qed (simp add: inv IMSG_IFSTATUS)
next
  case (IMSG_NEWADDR ka)
  then show ?thesis using if_addr_add_ok[OF inv] m by (simp add: main_ok_def)
next
  case (IMSG_DELADDR ka)
  then show ?thesis using if_addr_del_ok[OF inv] by simp
next
  case (IMSG_CLOSE_SOCKETS f)
  have "ensures (and_then (if_update_all joins (Some f) (ldpe_close_sockets f t)) (tnbr_update_all (Some f))) engine_inv" if "grown s t" for t
    unfolding ldpe_close_sockets_def by (rule updates_ok[OF quiet_engine[OF grown_engine[OF that] quiet_fields(2)]])
  then show ?thesis using IMSG_CLOSE_SOCKETS by (simp add: ensures_and_then[OF reset_nbrs_ok[OF inv]])
next
  case (IMSG_SETUP_SOCKETS f disc edisc session)
  have "engine_inv (ldpe_setup_sockets f disc edisc session s)" unfolding ldpe_setup_sockets_def by (rule quiet_engine[OF inv quiet_fields(2)])
  note all = if_update_all_ok[OF this]
  have "ensures (foreach (nbr_reconnect r f) (inorder (nbrs_by_id t)) t) engine_inv" if t: "engine_inv t" for t
    by (rule ensures_mono[OF nbr_loop_ok[OF t nbr_reconnect_ok] grown_engine])
  then have "ensures (and_then (tnbr_update_all (Some f) u) (\<lambda>s2. foreach (nbr_reconnect r f) (inorder (nbrs_by_id s2)) s2)) engine_inv"
    if u: "engine_inv u" for u by (intro ensures_and_then[OF tnbr_update_all_ok[OF u]]) (simp add: kept_def)
  then have "ensures (and_then (if_update_all joins (Some f) (ldpe_setup_sockets f disc edisc session s)) (\<lambda>s1.
      and_then (tnbr_update_all (Some f) s1) (\<lambda>s2. foreach (nbr_reconnect r f) (inorder (nbrs_by_id s2)) s2))) engine_inv"
    by (intro ensures_and_then[OF all]) (simp add: steady_def)
  then show ?thesis using IMSG_SETUP_SOCKETS inv by simp
next
  case (IMSG_RTRID_UPDATE i)
  have e: "engine_inv (s\<lparr>g_rtr_id := i\<rparr>)" by (rule quiet_engine[OF inv quiet_fields(3)])
  have "ensures (ldpe_reset_nbrs AF_INET6 t) engine_inv" if "grown (s\<lparr>g_rtr_id := i\<rparr>) t" for t
    by (rule ensures_mono[OF reset_nbrs_ok[OF grown_engine[OF that]] grown_engine])
  then have "ensures (if c_rtr_id (leconf s) = 0 then and_then (ldpe_reset_nbrs AF_INET (s\<lparr>g_rtr_id := i\<rparr>)) (ldpe_reset_nbrs AF_INET6)
      else Inr (s\<lparr>g_rtr_id := i\<rparr>)) engine_inv"
    using e by (simp add: ensures_and_then[OF reset_nbrs_ok[OF e]])
  from ensures_and_then[OF this updates_ok] show ?thesis using IMSG_RTRID_UPDATE by (simp add: Let_def)
qed

subsection \<open>Messages of the label decision engine\<close>

text \<open>What the engine can write: the maps and the notifications the label decision engine sends are of this kind.\<close>

definition lde_msg_ok :: "ldpe_msg \<Rightarrow> bool" where
  "lde_msg_ok m \<longleftrightarrow>
     (case m of
        IMSG_MAPPING_ADD _ x \<Rightarrow> wire_ok x
      | IMSG_RELEASE_ADD _ x \<Rightarrow> wire_ok x
      | IMSG_WITHDRAW_ADD _ x \<Rightarrow> wire_ok x
      | IMSG_NOTIFICATION_SEND _ nm \<Rightarrow> has_flag (nm_flags nm) F_NOTIF_FEC \<longrightarrow> wire_ok (nm_fec nm)
      | _ \<Rightarrow> True)"

lemma gen_fec_tlv_total: "wire_ok m \<Longrightarrow> \<exists>b'. gen_fec_tlv m b = Inr b'"
  using prefix_size_le[of "m_prefixlen m"] by (auto simp: gen_fec_tlv_def wire_ok_def Let_def)

lemma notification_full_net:
  assumes "has_flag (nm_flags nm) F_NOTIF_FEC \<longrightarrow> wire_ok (nm_fec nm)"
  shows "ensures (send_notification_full fd nm s) (net_only s)"
proof -
  have "ensures (if has_flag (nm_flags nm) F_NOTIF_FEC then gen_fec_tlv (nm_fec nm) b else Inr b) (\<lambda>_. True)" for b
    using assms gen_fec_tlv_total[of "nm_fec nm" b] by auto
  then have "ensures (and_then (if has_flag (nm_flags nm) F_NOTIF_FEC then gen_fec_tlv (nm_fec nm) b else Inr b)
      (\<lambda>b4. if ib_err b4 then Inr (s\<lparr>msgcnt := k\<rparr>) else Inr (evbuf_enqueue fd (ib_data b4) (s\<lparr>msgcnt := k\<rparr>)))) (net_only s)" for b k
    by (rule ensures_and_then) (simp add: net_only_def evbuf_enqueue_def)
  then show ?thesis by (simp add: send_notification_full_def gen_msg_hdr_def Let_def)
qed

text \<open>A neighbour whose queues change.\<close>

lemma requeued_engine:
  assumes inv: "engine_inv s" and n: "e_nbrs s h = Some n"
    and g: "n_id (g n) = n_id n" "n_adj_list (g n) = n_adj_list n" "n_peerid (g n) = n_peerid n" "n_state (g n) = n_state n"
      "nbr_core (g n) = nbr_core n" "nbr_timers (g n) = nbr_timers n"
    and q: "list_all wire_ok (n_mapping_list (g n))" "list_all wire_ok (n_withdraw_list (g n))" "list_all wire_ok (n_release_list (g n))"
  shows "engine_inv (nbr_set h g s)"
proof -
  let ?t = "nbr_set h g s"
  have i: "disc_inv s" "sess_inv s" using inv by (simp_all add: engine_inv_def)
  have e: "e_nbrs ?t k = (if k = h then Some (g n) else e_nbrs s k)" for k using n by (simp add: e_nbrs_set)
  have ids: "map_option n_id (e_nbrs ?t k) = map_option n_id (e_nbrs s k)" for k using n g(1) by (simp add: e)
  have key: "id_of ?t = id_of s" by (intro ext) (use n g(1) in \<open>simp add: id_of_def e\<close>)
  have dom: "dom (e_nbrs ?t) = dom (e_nbrs s)" using n by (auto simp: e split: if_splits)
  have "source_ok ?t = source_ok s" by (intro ext) (simp add: source_ok_def split: hello_source.split)
  then have "adjs_ok ?t" using i(1) by (simp add: disc_inv_def adjs_ok_def)
  moreover have "nbr_links_ok ?t" unfolding nbr_links_ok_def ids
    using i(1) n g(2) by (auto simp: disc_inv_def nbr_links_ok_def e split: if_splits)
  moreover have "trees_ok ?t" using i(1) by (simp add: disc_inv_def trees_ok_def key dom)
  moreover have "fresh_ok ?t" using i(1) n by (auto simp: disc_inv_def fresh_ok_def e)
  moreover have "queues_ok ?t" using i(1) q by (auto simp: disc_inv_def queues_ok_def e split: if_splits)
  moreover have "conf_ok ?t" using i(1) by (simp add: disc_inv_def conf_ok_def)
  moreover have "faces_ok ?t" by (rule faces_ok_frame[of s]) (use i(1) in \<open>simp_all add: disc_inv_def\<close>)
  moreover have "sess_inv ?t" using nbr_set_touch[OF i(2) n] sess_nbr[OF i(2) n] g(3-6) by simp
  ultimately show ?thesis by (simp add: engine_inv_def disc_inv_def)
qed

lemma disc_queues:
  assumes "engine_inv s" and "e_nbrs s h = Some n"
  shows "list_all wire_ok (n_mapping_list n)" and "list_all wire_ok (n_withdraw_list n)" and "list_all wire_ok (n_release_list n)"
  using assms by (auto simp: engine_inv_def disc_inv_def queues_ok_def)

lemma with_oper_ok:
  assumes inv: "engine_inv s"
    and f: "\<And>h n. e_nbrs s h = Some n \<Longrightarrow> n_state n = NBR_STA_OPER \<Longrightarrow> ensures (f h n s) engine_inv"
  shows "ensures (with_oper p f s) engine_inv"
proof (cases "nbr_find_peerid p s")
  case (Some h)
  then have "h \<in> set (inorder (nbrs_by_pid s))" using rb_find_in by (fastforce simp: nbr_find_peerid_def)
  then obtain n where "e_nbrs s h = Some n" using inv by (auto simp: engine_inv_def sess_inv_def pids_ok_def)
  then show ?thesis using Some f[of h n] inv by (simp add: with_oper_def nbr_get_def)
qed (simp add: with_oper_def inv)

lemma queue_sent_ok:
  assumes inv: "engine_inv s" and n: "e_nbrs s h = Some n" "n_state n = NBR_STA_OPER" and mh: "list_all wire_ok mh"
    and g: "\<And>(n :: nbr) l. n_id (g l n) = n_id n \<and> n_adj_list (g l n) = n_adj_list n \<and> n_peerid (g l n) = n_peerid n \<and>
      n_state (g l n) = n_state n \<and> nbr_core (g l n) = nbr_core n \<and> nbr_timers (g l n) = nbr_timers n"
      "\<And>n. list_all wire_ok (n_mapping_list n) \<Longrightarrow> list_all wire_ok (n_mapping_list (g [] n))"
      "\<And>n. list_all wire_ok (n_withdraw_list n) \<Longrightarrow> list_all wire_ok (n_withdraw_list (g [] n))"
      "\<And>n. list_all wire_ok (n_release_list n) \<Longrightarrow> list_all wire_ok (n_release_list (g [] n))"
  shows "ensures (and_then (send_labelmessage h type mh s) (\<lambda>(left, s1). Inr (nbr_set h (g left) s1))) engine_inv"
proof -
  have i: "sess_inv s" using inv by (simp add: engine_inv_def)
  obtain tc where tc: "n_tcp n = Some tc" using sess_nbr[OF i n(1)] n(2) by (auto simp: nbr_core_def)
  from send_labelmessage_packs[OF i n tc mh, of type] obtain t where
    t: "send_labelmessage h type mh s = Inr ([], t)" "same_session h s t" by auto
  have e: "engine_inv t" using sess_ok_engine[OF inv] t(2) by (auto simp: same_session_def)
  obtain m where m: "e_nbrs t h = Some m" using t(2) by (auto simp: same_session_def)
  have "engine_inv (nbr_set h (g []) t)"
    by (rule requeued_engine[OF e m]) (use g disc_queues[OF e m] in simp_all)
  then show ?thesis using t(1) by simp
qed

lemma handle_lde_ok:
  assumes inv: "engine_inv s" and m: "lde_msg_ok m"
  shows "ensures (ldpe_handle_lde m s) engine_inv"
proof -
  note q = disc_queues[OF inv]
  have put: "engine_inv (nbr_set h (\<lambda>n. n\<lparr>n_mapping_list := n_mapping_list n @ [x]\<rparr>) s)"
    "engine_inv (nbr_set h (\<lambda>n. n\<lparr>n_release_list := n_release_list n @ [x]\<rparr>) s)"
    "engine_inv (nbr_set h (\<lambda>n. n\<lparr>n_withdraw_list := n_withdraw_list n @ [x]\<rparr>) s)" if "e_nbrs s h = Some n" "wire_ok x" for h n x
    by (rule requeued_engine[OF inv that(1)]; use q[OF that(1)] that(2) in \<open>simp add: nbr_ok_defs\<close>)+
  have sent: "ensures (and_then (send_labelmessage h MSG_TYPE_LABELMAPPING (n_mapping_list n) s)
        (\<lambda>(left, s1). Inr (nbr_set h (\<lambda>n. n\<lparr>n_mapping_list := left\<rparr>) s1))) engine_inv"
    "ensures (and_then (send_labelmessage h MSG_TYPE_LABELRELEASE (n_release_list n) s)
        (\<lambda>(left, s1). Inr (nbr_set h (\<lambda>n. n\<lparr>n_release_list := left\<rparr>) s1))) engine_inv"
    "ensures (and_then (send_labelmessage h MSG_TYPE_LABELWITHDRAW (n_withdraw_list n) s)
        (\<lambda>(left, s1). Inr (nbr_set h (\<lambda>n. n\<lparr>n_withdraw_list := left\<rparr>) s1))) engine_inv"
    if n: "e_nbrs s h = Some n" "n_state n = NBR_STA_OPER" for h n
    by (rule queue_sent_ok[OF inv n, where g = "\<lambda>l n. n\<lparr>n_mapping_list := l\<rparr>"]
          queue_sent_ok[OF inv n, where g = "\<lambda>l n. n\<lparr>n_release_list := l\<rparr>"]
          queue_sent_ok[OF inv n, where g = "\<lambda>l n. n\<lparr>n_withdraw_list := l\<rparr>"];
        use q[OF n(1)] in \<open>simp add: nbr_ok_defs\<close>)+
  have notif: "ensures (and_then (nbr_tcp h s) (\<lambda>t. send_notification_full (t_fd t) nm s)) engine_inv"
    if n: "e_nbrs s h = Some n" "n_state n = NBR_STA_OPER" and nm: "has_flag (nm_flags nm) F_NOTIF_FEC \<longrightarrow> wire_ok (nm_fec nm)" for h n nm
  proof -
    have "sess_inv s" using inv by (simp add: engine_inv_def)
    then obtain tc where tc: "n_tcp n = Some tc" using sess_nbr[of s h n] n by (auto simp: nbr_core_def)
    have "ensures (send_notification_full (t_fd tc) nm s) engine_inv"
      by (rule ensures_mono[OF notification_full_net[OF nm] net_only_engine[OF inv]])
    then show ?thesis using nbr_tcp_live[OF n(1) tc] by simp
  qed
  show ?thesis using m by (cases m) (auto simp: lde_msg_ok_def inv intro!: with_oper_ok[OF inv] intro: put sent notif)
qed

subsection \<open>Events\<close>

text \<open>
  Everything the event loop of the engine runs: a datagram on a discovery socket, bytes and connections on
  the session sockets, the timers, and the messages of the two other processes.  What the operating system
  answers is part of the event.
\<close>

datatype ldpe_event =
    Ev_hello connect_result af ldpd_addr u32 bool "byte list"
  | Ev_read nat read_result
  | Ev_accept int af ldpd_addr
  | Ev_connected bool nat
  | Ev_ktimer nat
  | Ev_ktimeout nat
  | Ev_itimeout nat
  | Ev_idtimer connect_result nat
  | Ev_pending pending_conn
  | Ev_adj_itimer nat
  | Ev_if_hello nat af
  | Ev_tnbr_hello nat
  | Ev_lde ldpe_msg
  | Ev_main "nat \<Rightarrow> af \<Rightarrow> bool" "nat \<Rightarrow> connect_result" main_imsg

fun ldpe_run :: "ldpe_event \<Rightarrow> ldpe \<Rightarrow> ldpe result" where
  "ldpe_run (Ev_hello r f src ifindex multicast bytes) s = disc_recv_packet r f src ifindex multicast bytes s"
| "ldpe_run (Ev_read h rd) s = session_read h rd s"
| "ldpe_run (Ev_accept fd f addr) s = session_accept fd f addr s"
| "ldpe_run (Ev_connected failed h) s = nbr_connect_cb failed h s"
| "ldpe_run (Ev_ktimer h) s = nbr_ktimer h s"
| "ldpe_run (Ev_ktimeout h) s = nbr_ktimeout h s"
| "ldpe_run (Ev_itimeout h) s = nbr_itimeout h s"
| "ldpe_run (Ev_idtimer r h) s = nbr_idtimer r h s"
| "ldpe_run (Ev_pending p) s = pending_conn_timeout p s"
| "ldpe_run (Ev_adj_itimer a) s = adj_itimer a s"
| "ldpe_run (Ev_if_hello i f) s = if_hello_timer i f s"
| "ldpe_run (Ev_tnbr_hello k) s = tnbr_hello_timer k s"
| "ldpe_run (Ev_lde m) s = ldpe_handle_lde m s"
| "ldpe_run (Ev_main joins r m) s = ldpe_handle_main joins r m s"

text \<open>
  When an event can occur: a session is read while it has a connection, a timer fires while it is armed.
  Router ids in hellos are below 128.0.0.0, where the order of the tree of neighbours is one.
\<close>

fun occurs :: "ldpe_event \<Rightarrow> ldpe \<Rightarrow> bool" where
  "occurs (Ev_hello r f src ifindex multicast bytes) s = (\<forall>i. ld32 bytes 4 = Inr i \<longrightarrow> ntohl i < 2 ^ 31)"
| "occurs (Ev_read h rd) s = (\<exists>n. e_nbrs s h = Some n \<and> n_state n \<noteq> NBR_STA_PRESENT)"
| "occurs (Ev_accept fd f addr) s = True"
| "occurs (Ev_connected failed h) s = (\<exists>n. e_nbrs s h = Some n \<and> n_ev_connect n)"
| "occurs (Ev_ktimer h) s = (\<exists>n. e_nbrs s h = Some n \<and> n_keepalive_timer n \<noteq> None)"
| "occurs (Ev_ktimeout h) s = (\<exists>n. e_nbrs s h = Some n \<and> n_keepalive_timeout n \<noteq> None)"
| "occurs (Ev_itimeout h) s = (\<exists>n. e_nbrs s h = Some n \<and> n_init_timeout n \<noteq> None)"
| "occurs (Ev_idtimer r h) s = (\<exists>n. e_nbrs s h = Some n \<and> n_initdelay_timer n \<noteq> None)"
| "occurs (Ev_pending p) s = (p \<in> set (g_pending_conns s))"
| "occurs (Ev_adj_itimer a) s = (\<exists>x. e_adjs s a = Some x \<and> adj_inactivity_timer x \<noteq> None)"
| "occurs (Ev_if_hello i f) s = (\<exists>x. e_ifaces s i = Some x \<and> ia_hello_timer (iface_af_get x f) \<noteq> None)"
| "occurs (Ev_tnbr_hello k) s = (\<exists>y. e_tnbrs s k = Some y \<and> tn_hello_timer y \<noteq> None)"
| "occurs (Ev_lde m) s = lde_msg_ok m"
| "occurs (Ev_main joins r m) s = main_ok m"

subsection \<open>Every event keeps the invariant\<close>

lemma sess_event:
  assumes "engine_inv s" and "ensures m (\<lambda>t. sess_ok h s t \<and> P t)"
  shows "ensures m engine_inv"
  using assms(2) by (rule ensures_mono) (use sess_ok_engine[OF assms(1)] in blast)

lemma accept_event:
  assumes inv: "engine_inv s"
  shows "ensures (session_accept fd f addr s) engine_inv"
proof (cases "nbr_find_addr f addr s")
  case None
  have "quiet s (pending_conn_new fd f addr s)" by (simp add: quiet_def disc_view_def pending_conn_new_def)
  then show ?thesis using None inv quiet_engine[OF inv] by (simp add: session_accept_def)
next
  case (Some h)
  have i: "disc_inv s" "sess_inv s" using inv by (simp_all add: engine_inv_def)
  obtain n where n: "e_nbrs s h = Some n" using find_addr_some[OF i(1) Some] by blast
  have "ensures (session_accept_nbr h fd s) engine_inv" if "n_state n = NBR_STA_PRESENT"
    by (rule sess_event[OF inv accept_ok[OF i(2) n that]])
  then show ?thesis using Some n inv by (simp add: session_accept_def nbr_get_def)
qed

lemma connected_event:
  assumes inv: "engine_inv s" and n: "e_nbrs s h = Some n"
  shows "ensures (nbr_connect_cb failed h s) engine_inv"
proof -
  let ?s = "nbr_set h (\<lambda>n. n\<lparr>n_ev_connect := False\<rparr>) s"
  have g: "grown s ?s" by (rule nbr_set_grown[OF inv]) (simp_all add: field_ok)
  then have e: "engine_inv ?s" "sess_inv ?s" by (simp_all add: grown_def kept_def engine_inv_def)
  obtain m where m: "e_nbrs ?s h = Some m" using n by (simp add: nbr_set_def)
  have "ensures (nbr_fsm h NBR_EVT_CONNECT_UP ?s) engine_inv" by (rule sess_event[OF e(1) connect_up_ok[OF e(2) m]])
  then show ?thesis using e(1) by (simp add: nbr_connect_cb_def Let_def)
qed

lemma idtimer_event:
  assumes inv: "engine_inv s" and n: "e_nbrs s h = Some n"
  shows "ensures (nbr_idtimer r h s) engine_inv"
proof -
  have g: "grown s (nbr_stop_idtimer h s)" unfolding nbr_stop_idtimer_def by (rule nbr_set_grown[OF inv]) (simp_all add: field_ok)
  obtain m where m: "e_nbrs (nbr_stop_idtimer h s) h = Some m" using n by (simp add: nbr_stop_idtimer_def nbr_set_def)
  show ?thesis unfolding nbr_idtimer_def
    by (rule ensures_mono[OF establish_connection_ok[OF grown_engine[OF g] m] grown_engine])
qed

lemma pending_event:
  assumes inv: "engine_inv s"
  shows "ensures (pending_conn_timeout p s) engine_inv"
  unfolding pending_conn_timeout_def
proof (rule ensures_and_then[OF send_notification_ok])
  fix t assume "net_only s t"
  then have e: "engine_inv t" by (rule net_only_engine[OF inv])
  have "quiet t (pending_conn_del p (t\<lparr>e_detached := pc_fd p # e_detached t\<rparr>))" by (simp add: quiet_def disc_view_def pending_conn_del_def)
  then show "ensures (Inr (pending_conn_del p (t\<lparr>e_detached := pc_fd p # e_detached t\<rparr>))) engine_inv" using quiet_engine[OF e] by simp
qed

lemma hello_timer_event:
  assumes inv: "engine_inv s"
  shows "e_ifaces s i \<noteq> None \<Longrightarrow> ensures (if_hello_timer i f s) engine_inv"
    and "e_tnbrs s k \<noteq> None \<Longrightarrow> ensures (tnbr_hello_timer k s) engine_inv"
proof -
  assume i: "e_ifaces s i \<noteq> None"
  have st: "steady s (if_stop_hello_timer i f s)" unfolding if_stop_hello_timer_def by (rule ia_set_steady[OF inv]) simp
  then have "e_ifaces (if_stop_hello_timer i f s) i \<noteq> None" using i by (auto simp: steady_def)
  from ensures_mono[OF if_started_ok[OF steady_engine[OF st] this] steady_engine]
  show "ensures (if_hello_timer i f s) engine_inv" by (simp add: if_hello_timer_def)
next
  assume k: "e_tnbrs s k \<noteq> None"
  show "ensures (tnbr_hello_timer k s) engine_inv" unfolding tnbr_hello_timer_def
  proof (rule ensures_and_then[OF send_hello_quiet])
    show "source_live s (HELLO_TARGETED k)" using k by (simp add: source_live_def)
    fix t assume "quiet s t"
    then have "engine_inv t" by (rule quiet_engine[OF inv])
    then show "ensures (Inr (tnbr_start_hello_timer k t)) engine_inv" by (simp add: tnbr_start_hello_timer_def tnbr_set_engine)
  qed
qed

lemma events_keep:
  assumes inv: "engine_inv s" and ev: "occurs ev s" and rm: "room s"
  shows "within (if \<exists>h rd. ev = Ev_read h rd then wire_faults else {}) (ldpe_run ev s) engine_inv"
proof -
  have i: "sess_inv s" using inv by (simp add: engine_inv_def)
  show ?thesis
  proof (cases "\<exists>h rd. ev = Ev_read h rd")
    case True
    then obtain h rd where e: "ev = Ev_read h rd" by auto
    then have "ready h s" using ev i rm by (auto simp: ready_def)
    from within_mono[OF session_read_ok[OF this, of rd] sess_ok_engine[OF inv]] show ?thesis by (simp add: e)
  next
    case False
    have "ensures (ldpe_run ev s) engine_inv"
    proof (cases ev)
      case (Ev_hello r f src ifindex multicast bytes)
      then show ?thesis using ev
        by (auto simp: id_small_def peerid_small_def kept_def intro!: ensures_mono[OF disc_recv_packet_ok[OF inv]])
    next
      case (Ev_ktimer h)
      then show ?thesis using ev by (auto intro: sess_event[OF inv ktimer_ok[OF i]])
    next
      case (Ev_ktimeout h)
      then obtain n where n: "e_nbrs s h = Some n" "n_keepalive_timeout n \<noteq> None" using ev by auto
      have "ensures (nbr_ktimeout h s) (\<lambda>t. sess_ok h s t \<and> True)"
        by (rule ensures_mono[OF ktimeout_ended[OF i n]]) (use ended_ok(1,2)[OF i n(1)] in \<open>simp add: sess_ok_def\<close>)
      from sess_event[OF inv this] show ?thesis using Ev_ktimeout by simp
    next
      case (Ev_itimeout h)
      then show ?thesis using ev by (auto simp: nbr_itimeout_def intro: sess_event[OF inv close_ok[OF i]])
    next
      case (Ev_adj_itimer a)
      then show ?thesis using ev by (auto simp: kept_def intro!: ensures_mono[OF adj_itimer_ok[OF inv]])
    qed (use False ev handle_main_ok[OF inv] handle_lde_ok[OF inv] accept_event[OF inv] connected_event[OF inv]
          idtimer_event[OF inv] pending_event[OF inv] hello_timer_event[OF inv] in auto)
    then show ?thesis using False by (simp add: ensures_empty)
  qed
qed

subsection \<open>The states the engine can reach\<close>

text \<open>
  The engine starts with its configuration: interfaces and targeted neighbours, and nothing learnt over the
  network.  Peer ids are handed out from a counter of 32 bits; there is room for one more as long as the
  counter is below \<open>2 ^ 31 - 1\<close>.
\<close>

definition ldpe_started :: "ldpe \<Rightarrow> bool" where
  "ldpe_started s \<longleftrightarrow>
     e_nbrs s = (\<lambda>_. None) \<and> nbrs_by_id s = RNil \<and> nbrs_by_addr s = RNil \<and> nbrs_by_pid s = RNil \<and>
     e_adjs s = (\<lambda>_. None) \<and> e_adj_list s = [] \<and>
     (\<forall>k y. e_tnbrs s k = Some y \<longrightarrow> tn_adj y = None) \<and>
     (\<forall>i x f. e_ifaces s i = Some x \<longrightarrow> ia_adj_list (iface_af_get x f) = []) \<and>
     conf_ok s \<and> (\<forall>k \<ge> e_next s. e_tnbrs s k = None) \<and> peercnt s = 1 \<and> e_to_lde s = []"

inductive ldpe_reach :: "ldpe \<Rightarrow> bool" where
  start: "ldpe_started s \<Longrightarrow> ldpe_reach s"
| step: "ldpe_reach s \<Longrightarrow> occurs ev s \<Longrightarrow> room s \<Longrightarrow> ldpe_run ev s = Inr t \<Longrightarrow> ldpe_reach t"

lemma started_inv: "ldpe_started s \<Longrightarrow> engine_inv s"
  by (auto simp: ldpe_started_def engine_inv_def sess_inv_def pids_ok_def pid_order.ordered_def lde_sync_def oper_pids_def
      disc_inv_def adjs_ok_def nbr_links_ok_def trees_ok_def id_order.ordered_def fresh_ok_def queues_ok_def faces_ok_def ia_adjs_def)

lemma engine_reach_inv: "ldpe_reach s \<Longrightarrow> engine_inv s"
proof (induction rule: ldpe_reach.induct)
  case (step s ev t)
  then show ?case using events_keep[OF step.IH step.hyps(2,3)] by (simp add: within_def split: if_splits)
qed (rule started_inv)



subsection \<open>Properties of reachable states\<close>


lemma demo_started: "ldpe_started (demo_start rid)"
  by (simp add: ldpe_started_def demo_start_def Let_def conf_ok_def demo_conf_def demo_iface_def iface_ok_def iface_af_get_def dom_def
      split: af.split)

lemma demo_engine_reach: "ldpe_reach (demo_start rid)" "peercnt (demo_start rid) = 1"
  by (rule ldpe_reach.start[OF demo_started]) (simp add: demo_start_def Let_def)



text \<open>An engine that heard the hello of another: 10.0.0.1 and 10.0.0.2, over the interface between them.\<close>

lemma demo_link:
  defines "a \<equiv> demo_start (in_addr4 10 0 0 2)" and "b \<equiv> demo_start (in_addr4 10 0 0 1)"
  shows "e_ifaces a 0 = Some (demo_iface (in_addr4 10 0 0 2))" and "\<not> ldp_is_dual_stack (leconf a)"
    and "MIN_HOLDTIME \<le> if_get_hello_holdtime a AF_INET (iface_af_get (demo_iface (in_addr4 10 0 0 2)) AF_INET)"
    and "ntohl (ldp_rtr_id_get a) < 2 ^ 31" and "\<not> bad_addr AF_INET (v4_addr (in_addr4 10 0 0 2))"
    and "disc_find_iface 1 AF_INET (v4_addr (in_addr4 10 0 0 2)) True b = Inr (Some 0)"
    and "hello_trans AF_INET a = v4_addr (in_addr4 10 0 0 2)" and "ldp_rtr_id_get a = in_addr4 10 0 0 2"
    and "adj_find (HELLO_LINK 0 AF_INET (v4_addr (in_addr4 10 0 0 2))) b = None"
    and "nbr_find_ldpid i b = None" and "nbr_find_addr AF_INET x b = None"
proof -
  show "ldp_rtr_id_get a = in_addr4 10 0 0 2" by (simp add: a_def ldp_rtr_id_get_def demo_start_def Let_def demo_conf_def)
  then show "ntohl (ldp_rtr_id_get a) < 2 ^ 31" by simp code_simp
  show "\<not> bad_addr AF_INET (v4_addr (in_addr4 10 0 0 2))" by code_simp
  show "disc_find_iface 1 AF_INET (v4_addr (in_addr4 10 0 0 2)) True b = Inr (Some 0)" unfolding b_def by code_simp
qed (simp_all add: a_def b_def demo_start_def Let_def demo_conf_def ldp_is_dual_stack_def has_flag_def if_get_hello_holdtime_def
      demo_iface_def iface_af_get_def hello_trans_def v4_addr_def adj_find_def nbr_find_ldpid_def nbr_find_addr_def)

lemma heard_reach:
  assumes b: "ldpe_reach b" "peercnt b < 2 ^ 31 - 1" and y: "e_ifaces a i = Some y" "\<not> ldp_is_dual_stack (leconf a)"
    and hold: "if_get_hello_holdtime a f (iface_af_get y f) = 0 \<or> MIN_HOLDTIME \<le> if_get_hello_holdtime a f (iface_af_get y f)"
    and id: "ntohl (ldp_rtr_id_get a) < 2 ^ 31" and src: "\<not> bad_addr f src" "disc_find_iface ifindex f src True b = Inr (Some j)"
    and new: "\<not> bad_addr f (hello_trans f a)" "adj_find (HELLO_LINK j f src) b = None" "nbr_find_ldpid (ldp_rtr_id_get a) b = None"
      "nbr_find_addr f (hello_trans f a) b = None"
  shows "\<exists>a1 p b1. send_hello (HELLO_LINK i f w) a = Inr a1 \<and> e_hellos a1 = e_hellos a @ [p] \<and> hp_dst p = mcast_addr f \<and>
    disc_recv_packet r f src ifindex True (hp_bytes p) b = Inr b1 \<and> ldpe_reach b1 \<and>
    neighbours (ldp_rtr_id_get a) (HELLO_LINK j f src) b1"
proof -
  have small: "id_small (ldp_rtr_id_get a)" using id by (simp add: id_small_def peerid_small_def)
  from hello_neighbour[OF engine_reach_inv[OF b(1)] y hold small src new, of w r] obtain a1 p b1 where
    p: "send_hello (HELLO_LINK i f w) a = Inr a1" "e_hellos a1 = e_hellos a @ [p]" "hp_dst p = mcast_addr f"
      "disc_recv_packet r f src ifindex True (hp_bytes p) b = Inr b1" "ld32 (hp_bytes p) 4 = Inr (ldp_rtr_id_get a)"
      "neighbours (ldp_rtr_id_get a) (HELLO_LINK j f src) b1" by blast
  have "ldpe_reach b1"
    by (rule ldpe_reach.step[OF b(1), of "Ev_hello r f src ifindex True (hp_bytes p)"]) (use p id b(2) in \<open>simp_all add: room_def\<close>)
  then show ?thesis using p by blast
qed

lemma demo_heard:
  "\<exists>s. ldpe_reach s \<and> neighbours (in_addr4 10 0 0 2) (HELLO_LINK 0 AF_INET (v4_addr (in_addr4 10 0 0 2))) s"
  using heard_reach[OF demo_engine_reach(1), of "in_addr4 10 0 0 1" "demo_start (in_addr4 10 0 0 2)" 0 "demo_iface (in_addr4 10 0 0 2)" AF_INET
      "v4_addr (in_addr4 10 0 0 2)" 1 0, where w = addr_zero and r = Socket_fails] demo_link demo_engine_reach(2) by simp blast


text \<open>
  C12: The label decision engine is always told the truth about sessions: in every state the engine can reach,
  the messages sent to it form a proper history (a peer is announced only while it is down, everything else is
  about a peer that is up), and the peers that are up according to this history are exactly the peer ids of
  the neighbours with an operational session.
\<close>

theorem lde_told_peers:
  assumes "ldpe_reach s"
  shows "trace_from {} (e_to_lde s) \<and>
    lde_up (e_to_lde s) = {p. \<exists>h n. e_nbrs s h = Some n \<and> n_state n = NBR_STA_OPER \<and> n_peerid n = p}"
  using engine_reach_inv[OF assms] by (simp add: engine_inv_def sess_inv_def lde_sync_def oper_pids_def)

theorem lde_told_peers_witness:
  "trace_from {} (e_to_lde (demo_start 1)) \<and>
    lde_up (e_to_lde (demo_start 1)) = {p. \<exists>h n. e_nbrs (demo_start 1) h = Some n \<and> n_state n = NBR_STA_OPER \<and> n_peerid n = p}"
  by (rule lde_told_peers[OF demo_engine_reach(1)])



text \<open>
  C14: Deleting an adjacency, as every expired hello timer and every interface that goes down does, ends without a
  fault in every state the engine can reach: the adjacency is gone and no other appears, and its neighbour is
  deleted when this was its last adjacency in the family of its session, and otherwise kept with the
  adjacency taken out of its list.
\<close>

theorem adjacency_deleted:
  assumes "ldpe_reach s" and "e_adjs s a = Some x"
  shows "\<exists>t. adj_del a status s = Inr t \<and> e_adjs t a = None \<and> e_adjs t \<subseteq>\<^sub>m e_adjs s \<and>
    (\<forall>h n. adj_nbr x = Some h \<longrightarrow> e_nbrs s h = Some n \<longrightarrow>
       e_nbrs t h = (if \<exists>b \<in> set (n_adj_list n). b \<noteq> a \<and> adj_get_af b s = Inr (n_af n)
                     then Some (n\<lparr>n_adj_list := remove1 a (n_adj_list n)\<rparr>) else None))"
proof -
  from adj_del_ok[OF engine_reach_inv[OF assms(1)] assms(2), of status] obtain t where
    t: "adj_del a status s = Inr t" "shrunk s t" "e_adjs t a = None"
      "\<forall>h n. adj_nbr x = Some h \<longrightarrow> e_nbrs s h = Some n \<longrightarrow>
        e_nbrs t h = (if \<exists>b \<in> set (n_adj_list n). b \<noteq> a \<and> adj_get_af b s = Inr (n_af n) then Some (unlist a n) else None)"
    by (auto simp: ensures_iff)
  have "e_adjs t \<subseteq>\<^sub>m e_adjs s" using t(2) by (simp add: shrunk_def)
  then show ?thesis using t(1,3,4) unfolding unlist_def by blast
qed

theorem adjacency_deleted_witness:
  "\<exists>s a x t. ldpe_reach s \<and> e_adjs s a = Some x \<and> adj_nbr x \<noteq> None \<and> adj_del a S_HOLDTIME_EXP s = Inr t \<and> e_adjs t a = None"
proof -
  obtain s where s: "ldpe_reach s" "neighbours (in_addr4 10 0 0 2) (HELLO_LINK 0 AF_INET (v4_addr (in_addr4 10 0 0 2))) s"
    using demo_heard by blast
  then obtain a x where x: "e_adjs s a = Some x" "adj_nbr x \<noteq> None" unfolding neighbours_def by blast
  then show ?thesis using adjacency_deleted[OF s(1) x(1), of S_HOLDTIME_EXP] s(1) by blast
qed

end
