(* ===== verification/Spec2Isabelle.thy ===== *)
theory Spec2Isabelle
  imports Lde_Tree Ldpe_Reach
begin

text \<open>
  A verification development for \<open>quagga-ldpd/ldpd\<close>, the label distribution daemon of the repository: LDP
  (RFC 5036) as OpenBSD's ldpd implements it, extended by multipoint-to-multipoint label switched paths.

  \<^bold>\<open>The program.\<close>  The daemon is three processes.  The parent process reads the configuration and talks to the
  kernel.  The protocol engine (\<open>ldpe.c\<close>) discovers neighbours with hello messages, holds a TCP session with
  each and translates between label messages on the wire and messages to the label decision engine.  The label
  decision engine (\<open>lde.c\<close>, \<open>lde_lib.c\<close>) keeps the label information base, decides which labels are used and
  announced, and holds the table of multipoint branches (\<open>label_nbrs\<close>) of the extension.  The processes send
  each other typed messages over pipes.  The development models the protocol engine and the label decision
  engine; the parent process appears through the messages it sends and receives.

  \<^bold>\<open>How the code is translated.\<close>  An operation of C is a function on the state of its process.  An operation
  that can fail returns \<open>'a result\<close>, a sum whose left side is a \<open>fault\<close> of \<open>Ldp_Prelude\<close>: a call of \<open>fatal\<close>,
  a null pointer, a freed or uninitialised pointer, a buffer overrun in either direction, an endless loop.
  Integers have their C width and wrap, byte order is explicit (\<open>htonl\<close>, \<open>be16\<close>, \<open>of_le32\<close>; the host is
  little-endian).  Objects that are allocated and freed live in maps from handles to records, so a stale
  pointer is a handle that is no longer in the map.  Loops are structural or have a termination proof; the
  loops that can run for ever in C are partial functions whose missing result is the fault \<open>Hang\<close> (\<open>of_loop\<close>),
  and the theorems say which of them end and which do not.  There is no fuel.  Answers of the operating
  system (what a read returns, whether a connection succeeds, whether a multicast group can be joined) are
  arguments of the operations and are arbitrary in the theorems.

  \<^bold>\<open>Shared theories.\<close>
  \<^item> \<open>Ldp_Prelude\<close>: words, bytes, faults, sequencing (\<open>and_then\<close>, \<open>foreach\<close>) and the Hoare-style predicates
    \<open>ensures\<close> (ends without a fault and satisfies) and \<open>keeps\<close> (if it ends without a fault, satisfies).
  \<^item> \<open>Rb_Tree\<close>: the macros of \<open>lib/openbsd-tree.h\<close> on trees with zippers for the parent pointers.  Insertion and
    removal keep the red-black invariant for any comparison; the locale \<open>rb_ordered\<close> states what a comparison
    has to satisfy for the tree to be a finite map and is interpreted for the five comparisons of the daemon
    (\<open>Lde_Fec\<close>, \<open>Ldpe_Inv\<close>, \<open>Ldpe_Disc\<close>).
  \<^item> \<open>Ldp_Util\<close>: \<open>util.c\<close>, with round trips between masks and prefix lengths and of embedded IPv6 scopes.

  \<^bold>\<open>Label decision engine.\<close>
  \<^item> \<open>Lde_Fec\<close>: \<open>struct fec\<close>, \<open>struct map\<close> and \<open>struct label_nbr\<close> with their orders, \<open>lde_fec2map\<close> and
    \<open>lde_map2fec\<close>.
  \<^item> \<open>Lde_State\<close>: the records and tables of \<open>lde.h\<close> and the operations that move records between them;
    \<open>Lde_Send\<close>: what is sent to the other processes, with the pseudowires of \<open>l2vpn.c\<close>; \<open>Lde_Check\<close>: the
    procedures on routes and label messages, the end of a session, the garbage collector, the dump of the
    tables; \<open>Lde_Mldp\<close>: \<open>tree_up\<close>, \<open>tree_down\<close>, the multipoint part of mappings and withdraws, and the
    dispatch of messages.
  \<^item> \<open>Lde_Inv\<close>, \<open>Lde_Safe\<close>, \<open>Lde_Handlers\<close>, \<open>Lde_Reach\<close>: the invariant \<open>lde_inv\<close> (ordered trees, mappings linked
    from both sides, no local labels), that every handler keeps it, and the reachable states \<open>lde_reach\<close>.  The
    end of a session is proved once in the locale \<open>session_end\<close> and interpreted for total and for partial
    correctness.
  \<^item> \<open>Lde_Labels\<close>: the three loops over next hops as one list function \<open>relabel\<close>; \<open>Lde_Example\<close>: a run that
    is evaluated, the state of the witnesses.
  \<^item> \<open>Lde_Correct\<close>: mappings, withdraws, requests, routes and session ends do to the label information base
    what RFC 5036 asks, in every reachable state and on every branch; \<open>Lde_Tree\<close>: what joining a tree and a
    branch do to the table of branches, and the runs of the extension that end in a fault.

  \<^bold>\<open>Protocol engine: sessions.\<close>
  \<^item> \<open>Ldpe_State\<close>: neighbours, connections, adjacencies, interfaces, configuration; \<open>Ldpe_Wire\<close>: write buffers
    and the generators of headers and TLVs; \<open>Ldpe_Session\<close>: \<open>neighbor.c\<close> with the table of the state machine,
    timers and peer ids, and the messages a session sends; \<open>Ldpe_Recv\<close>: the decoders and handlers of received
    messages, the read loop, and the packing of label messages into PDUs.
  \<^item> \<open>Ldpe_Inv\<close>, \<open>Ldpe_Fsm\<close>, \<open>Ldpe_Safe\<close>: the invariant \<open>sess_inv\<close> of neighbours, their timers and what the label
    decision engine was told, kept by the state machine and by reading arbitrary bytes.
  \<^item> \<open>Ldpe_Codec\<close>, \<open>Ldpe_Exchange\<close>: encoder and decoder are inverse, message by message and for whole lists cut
    into PDUs; \<open>Ldpe_Correct\<close>: the properties of sessions.

  \<^bold>\<open>Protocol engine: discovery.\<close>
  \<^item> \<open>Ldpe_Adj\<close>: \<open>adjacency.c\<close>, creating and deleting neighbours, sending hellos; \<open>Ldpe_Hello\<close>: receiving hellos,
    accepting connections, the messages of the label decision engine; \<open>Ldpe_Main\<close>: \<open>interface.c\<close> and the
    messages of the parent process.
  \<^item> \<open>Ldpe_Disc\<close>, \<open>Ldpe_Form\<close>: the invariant \<open>disc_inv\<close> of the links between adjacencies, neighbours, interfaces
    and targeted neighbours, kept by deletion and by every hello; \<open>Ldpe_Discover\<close>: the hello one engine sends is
    the hello another reads.
  \<^item> \<open>Ldpe_Reach\<close>: events, reachable states \<open>ldpe_reach\<close>, and the properties of the engine as a whole.

  \<^bold>\<open>Bounds.\<close>  Peer ids are handed out by a 32-bit counter and compared by a signed difference; theorems about the
  engine ask for a counter below \<open>2 ^ 31 - 1\<close>, which two thousand million sessions do not reach.  Router ids are
  compared in the same way; events with a hello ask for router ids below 128.0.0.0, and \<open>Ldpe_Correct\<close> shows the
  lookup that fails without it.  The exchange of mappings is about lists that fit in one read buffer of 65535
  bytes (800 mappings of prefixes).  Messages of the other processes are those these processes can send: a
  prefix of an IPv4 address has at most 32 bits, a map is of a kind the encoder knows.

  \<^bold>\<open>Not modelled.\<close>
  \<^item> The parent process (\<open>ldpd.c\<close>, \<open>ldp_zebra.c\<close>, \<open>ldp_vty_*.c\<close>): supervision of the processes, commands and
    the kernel interface, mostly calls into the routing suite's library.
  \<^item> The reload of a configuration in both engines (\<open>IMSG_RECONF_*\<close>, \<open>merge_config\<close>): it replaces the
    configuration objects that the states here hold as given.
  \<^item> Sockets, pipes, event loops and the control socket (\<open>socket.c\<close>, \<open>imsg.c\<close>, \<open>accept.c\<close>, \<open>control.c\<close>,
    \<open>pfkey.c\<close>, \<open>session_write\<close>): calls of the operating system.  Writing a session appends to its queue.
  \<^item> Log messages, except where printing follows a pointer that can be bad; the lists of pseudowire
    configuration objects; the other daemons of the routing suite, which the extension does not change.
  \<^item> The two engines are separate models: what one sends is a list of messages in its state, and the interface
    between them is the shared type of these messages.
\<close>

end
